(* ===== verification/Pulse_Prelude.thy ===== *)
theory Pulse_Prelude
  imports Main
    "HOL-Library.Multiset"
    "HOL-Library.Char_ord"
    "HOL-Library.List_Lexorder"
    "HOL-Library.Product_Lexorder"
    "HOL-Library.Sublist"
begin

text \<open>
  Shared vocabulary of the Codex Pulse development.

  \<^item> Go's \<open>int64\<close> is \<open>int\<close> with the two's complement wrap-around written out
    (\<open>wrap64\<close>, \<open>add64\<close>, \<open>sub64\<close>, \<open>mul64\<close>) wherever the source does not
    already exclude overflow by a guard.
  \<^item> A nil-able pointer to a value is an \<open>option\<close>; a Go \<open>error\<close> result is the
    left side of a sum.
  \<^item> Go strings are byte strings (\<open>string\<close>), compared bytewise; \<open>strings.TrimSpace\<close>
    and \<open>strings.ToLower\<close> are modelled on their UTF-8 bytes.
  \<^item> \<open>sort.Slice\<close> and \<open>sort.SliceStable\<close> are the insertion sort the Go runtime
    runs on short slices; the locale \<open>go_less\<close> states what a comparator must satisfy
    and what the sorted slice then is, and is interpreted on every comparator of the
    model.
  \<^item> The locale \<open>event_machine\<close> lifts a one-step invariant to whole runs and is
    interpreted on the stateful components.
\<close>

named_theorems pulse_defs \<open>definitions of the model unfolded by automation\<close>
named_theorems pulse_bounds \<open>range facts about int64 values and timestamps\<close>

type_synonym int64 = int
type_synonym ms = int \<comment> \<open>a timestamp or duration in milliseconds\<close>

section \<open>int64 arithmetic\<close>

definition in64 :: "int \<Rightarrow> bool" where
  "in64 x \<longleftrightarrow> - (2 ^ 63) \<le> x \<and> x < 2 ^ 63"

definition max_int64 :: int where
  "max_int64 = 2 ^ 63 - 1"

definition wrap64 :: "int \<Rightarrow> int" where
  "wrap64 x = (x + 2 ^ 63) mod 2 ^ 64 - 2 ^ 63"

definition add64 :: "int64 \<Rightarrow> int64 \<Rightarrow> int64" where
  "add64 a b = wrap64 (a + b)"

definition sub64 :: "int64 \<Rightarrow> int64 \<Rightarrow> int64" where
  "sub64 a b = wrap64 (a - b)"

definition mul64 :: "int64 \<Rightarrow> int64 \<Rightarrow> int64" where
  "mul64 a b = wrap64 (a * b)"

section \<open>Sorting\<close>

fun ins_by :: "('a \<Rightarrow> 'a \<Rightarrow> bool) \<Rightarrow> 'a \<Rightarrow> 'a list \<Rightarrow> 'a list" where
  "ins_by lt x [] = [x]"
| "ins_by lt x (y # ys) = (if lt x y then x # y # ys else y # ins_by lt x ys)"

definition sort_by :: "('a \<Rightarrow> 'a \<Rightarrow> bool) \<Rightarrow> 'a list \<Rightarrow> 'a list" where
  "sort_by lt xs = foldl (\<lambda>acc x. ins_by lt x acc) [] xs"

section \<open>Byte strings\<close>

text \<open>The UTF-8 encodings of the code points for which \<open>unicode.IsSpace\<close> holds.\<close>

definition space_seqs :: "string list" where
  "space_seqs =
     [[CHR 0x09], [CHR 0x0A], [CHR 0x0B], [CHR 0x0C], [CHR 0x0D], [CHR 0x20],
      [CHR 0xC2, CHR 0x85], [CHR 0xC2, CHR 0xA0], [CHR 0xE1, CHR 0x9A, CHR 0x80],
      [CHR 0xE2, CHR 0x80, CHR 0x80], [CHR 0xE2, CHR 0x80, CHR 0x81],
      [CHR 0xE2, CHR 0x80, CHR 0x82], [CHR 0xE2, CHR 0x80, CHR 0x83],
      [CHR 0xE2, CHR 0x80, CHR 0x84], [CHR 0xE2, CHR 0x80, CHR 0x85],
      [CHR 0xE2, CHR 0x80, CHR 0x86], [CHR 0xE2, CHR 0x80, CHR 0x87],
      [CHR 0xE2, CHR 0x80, CHR 0x88], [CHR 0xE2, CHR 0x80, CHR 0x89],
      [CHR 0xE2, CHR 0x80, CHR 0x8A], [CHR 0xE2, CHR 0x80, CHR 0xA8],
      [CHR 0xE2, CHR 0x80, CHR 0xA9], [CHR 0xE2, CHR 0x80, CHR 0xAF],
      [CHR 0xE2, CHR 0x81, CHR 0x9F], [CHR 0xE3, CHR 0x80, CHR 0x80]]"

function trim_seqs :: "'a list list \<Rightarrow> 'a list \<Rightarrow> 'a list" where
  "trim_seqs ps s =
     (case find (\<lambda>p. p \<noteq> [] \<and> prefix p s) ps of
        None \<Rightarrow> s
      | Some p \<Rightarrow> trim_seqs ps (drop (length p) s))"
  by pat_completeness auto
termination
  by (relation "measure (\<lambda>(ps, s). length s)")
    (auto simp: find_Some_iff prefix_def)

declare trim_seqs.simps [simp del]

definition trim_space :: "string \<Rightarrow> string" where
  "trim_space s = rev (trim_seqs (map rev space_seqs) (rev (trim_seqs space_seqs s)))"

definition is_ascii :: "string \<Rightarrow> bool" where
  "is_ascii s = list_all (\<lambda>c. of_char c < (128 :: nat)) s"

definition lower_byte :: "char \<Rightarrow> char" where
  "lower_byte c =
     (let n = of_char c :: nat in if 65 \<le> n \<and> n \<le> 90 then char_of (n + 32) else c)"

text \<open>
  \<open>strings.ToLower\<close>: bytewise on ASCII strings; the other strings go through the
  Unicode case tables, which are the parameter \<open>uni_lower\<close>.
\<close>

definition to_lower :: "(string \<Rightarrow> string) \<Rightarrow> string \<Rightarrow> string" where
  "to_lower uni_lower s = (if is_ascii s then map lower_byte s else uni_lower s)"

section \<open>Lemmas: int64\<close>

lemma wrap64_id [simp]: "in64 x \<Longrightarrow> wrap64 x = x"
  by (simp add: wrap64_def in64_def)

lemma in64_wrap64 [simp]: "in64 (wrap64 x)"
proof -
  have "0 \<le> (x + 2 ^ 63) mod (2 ^ 64 :: int)" "(x + 2 ^ 63) mod (2 ^ 64 :: int) < 2 ^ 64"
    by (simp_all add: pos_mod_bound)
  then show ?thesis by (simp add: wrap64_def in64_def)
qed

lemma add64_id [pulse_bounds]: "in64 (a + b) \<Longrightarrow> add64 a b = a + b"
  by (simp add: add64_def)

lemma sub64_id [pulse_bounds]: "in64 (a - b) \<Longrightarrow> sub64 a b = a - b"
  by (simp add: sub64_def)

lemma mul64_id [pulse_bounds]: "in64 (a * b) \<Longrightarrow> mul64 a b = a * b"
  by (simp add: mul64_def)

lemma in64_between [pulse_bounds]: "in64 a \<Longrightarrow> in64 b \<Longrightarrow> a \<le> x \<Longrightarrow> x \<le> b \<Longrightarrow> in64 x"
  by (simp add: in64_def)

lemma sub64_nonneg [pulse_bounds]:
  "0 \<le> b \<Longrightarrow> b \<le> a \<Longrightarrow> in64 a \<Longrightarrow> sub64 a b = a - b"
  by (rule sub64_id) (simp add: in64_def)

lemma sub64_both_nonneg [pulse_bounds]:
  "0 \<le> a \<Longrightarrow> 0 \<le> b \<Longrightarrow> in64 a \<Longrightarrow> in64 b \<Longrightarrow> sub64 a b = a - b"
  by (rule sub64_id) (simp add: in64_def)

section \<open>Lemmas: filtered maps\<close>

lemma set_map_filter_iff: "y \<in> set (List.map_filter f xs) \<longleftrightarrow> (\<exists>i \<in> set xs. f i = Some y)"
  by (force simp: List.map_filter_def)

lemma length_map_filter_le: "length (List.map_filter f xs) \<le> length xs"
  by (induction xs) (auto simp: List.map_filter_simps split: option.split)

section \<open>Lemmas: rows of a table\<close>

text \<open>Rows with distinct keys: a lookup by key, and an update that hits exactly one row.\<close>

lemma find_unique: "distinct (map key xs) \<Longrightarrow> x \<in> set xs \<Longrightarrow> key x = k \<Longrightarrow> find (\<lambda>y. key y = k) xs = Some x"
  by (induction xs) (auto simp: rev_image_eqI)

lemma filter_eq_length_one: "distinct xs \<Longrightarrow> x \<in> set xs \<Longrightarrow> length (filter (\<lambda>y. y = x) xs) = 1"
  by (induction xs) (auto simp: filter_empty_conv)

lemma find_unique_id:
  assumes "distinct (map f xs)" and "x \<in> set xs"
  shows "find (\<lambda>y. f y = f x) xs = Some x"
  using assms by (induction xs) auto

lemma filter_single:
  assumes "distinct xs" and "x \<in> set xs" and "\<And>y. y \<in> set xs \<Longrightarrow> P y \<longleftrightarrow> y = x"
  shows "filter P xs = [x]"
  using assms
proof (induction xs)
  case (Cons z xs)
  show ?case
  proof (cases "z = x")
    case True
    with Cons.prems have "filter P xs = []" by (auto simp: filter_empty_conv)
    with True Cons.prems show ?thesis by simp
  qed (use Cons in auto)
qed simp

lemma distinct_row_unique:
  "distinct (map key xs) \<Longrightarrow> x \<in> set xs \<Longrightarrow> y \<in> set xs \<Longrightarrow> key x = key y \<Longrightarrow> x = y"
  by (simp add: distinct_map inj_on_def)

lemma distinct_middle_neq:
  assumes "distinct (map f (pre @ x # suf))" and "y \<in> set (pre @ suf)"
  shows "f y \<noteq> f x"
proof -
  from assms(1) have "f x \<notin> f ` set (pre @ suf)" by auto
  with assms(2) show ?thesis by (metis imageI)
qed

lemma filter_length_1_split:
  assumes "length (filter P xs) = 1"
  obtains pre x suf where "xs = pre @ x # suf" "P x" "\<forall>y \<in> set (pre @ suf). \<not> P y"
proof -
  from assms obtain x where f: "filter P xs = [x]" by (auto simp: length_Suc_conv)
  then obtain pre suf where "xs = pre @ x # suf" "P x" "\<forall>u \<in> set pre. \<not> P u" "[] = filter P suf"
    by (metis filter_eq_ConsD)
  then show thesis using that[of pre x suf] by (metis Un_iff filter_empty_conv set_append)
qed

lemma map_if_unique:
  "P x \<Longrightarrow> \<forall>y \<in> set (pre @ suf). \<not> P y \<Longrightarrow>
   map (\<lambda>y. if P y then f y else y) (pre @ x # suf) = pre @ f x # suf"
  by (auto intro!: map_idI)

section \<open>Lemmas: insertion sort\<close>

lemma mset_ins_by [simp]: "mset (ins_by lt x xs) = add_mset x (mset xs)"
  by (induction xs) auto

lemma mset_foldl_ins: "mset (foldl (\<lambda>acc x. ins_by lt x acc) acc xs) = mset acc + mset xs"
  by (induction xs arbitrary: acc) auto

lemma mset_sort_by [simp]: "mset (sort_by lt xs) = mset xs"
  by (simp add: sort_by_def mset_foldl_ins)

lemma set_ins_by [simp]: "set (ins_by lt x xs) = insert x (set xs)"
  by (metis mset_ins_by set_mset_add_mset_insert set_mset_mset)

lemma set_sort_by [simp]: "set (sort_by lt xs) = set xs"
  by (metis mset_sort_by set_mset_mset)

lemma length_sort_by [simp]: "length (sort_by lt xs) = length xs"
  by (metis mset_sort_by size_mset)

lemma distinct_sort_by [simp]: "distinct (sort_by lt xs) = distinct xs"
  by (metis mset_sort_by mset_eq_imp_distinct_iff)

lemma distinct_map_sort_by [simp]: "distinct (map f (sort_by lt xs)) = distinct (map f xs)"
  by (metis mset_sort_by mset_map mset_eq_imp_distinct_iff)

lemma sort_by_Nil [simp]: "sort_by lt [] = []"
  by (simp add: sort_by_def)

lemma sort_by_eq_Nil_iff [simp]: "sort_by lt xs = [] \<longleftrightarrow> xs = []"
  by (metis length_0_conv length_sort_by)

text \<open>
  The contract of a Go comparator: a strict weak order. It makes the sorted slice sorted,
  and where it also separates the elements of the slice, the sorted slice depends on the
  elements only and not on their incoming order.
\<close>

locale go_less =
  fixes lt :: "'a \<Rightarrow> 'a \<Rightarrow> bool"
  assumes less_asym: "lt x y \<Longrightarrow> \<not> lt y x"
    and less_neg_trans: "lt x z \<Longrightarrow> lt x y \<or> lt y z"
begin

lemma less_irrefl: "\<not> lt x x"
  using less_asym by blast

lemma less_trans: "lt x y \<Longrightarrow> lt y z \<Longrightarrow> lt x z"
  using less_asym less_neg_trans by blast

lemma sorted_ins_by:
  "sorted_wrt (\<lambda>a b. \<not> lt b a) xs \<Longrightarrow> sorted_wrt (\<lambda>a b. \<not> lt b a) (ins_by lt x xs)"
proof (induction xs)
  case Nil
  then show ?case by simp
next
  case (Cons y ys)
  show ?case
  proof (cases "lt x y")
    case True
    have "\<not> lt z x" if "z \<in> set ys" for z
      using True Cons.prems that less_trans by auto
    with True Cons.prems show ?thesis by (auto dest: less_asym)
  next
    case False
    with Cons show ?thesis by auto
  qed
qed

lemma sorted_sort_by: "sorted_wrt (\<lambda>a b. \<not> lt b a) (sort_by lt xs)"
proof -
  have "sorted_wrt (\<lambda>a b. \<not> lt b a) (foldl (\<lambda>acc x. ins_by lt x acc) acc xs)"
    if "sorted_wrt (\<lambda>a b. \<not> lt b a) acc" for acc
    using that by (induction xs arbitrary: acc) (auto simp: sorted_ins_by)
  then show ?thesis by (simp add: sort_by_def)
qed

lemma sorted_unique:
  assumes "sorted_wrt (\<lambda>a b. \<not> lt b a) xs" and "sorted_wrt (\<lambda>a b. \<not> lt b a) ys"
    and "mset xs = mset ys"
    and "\<And>x y. x \<in> set xs \<Longrightarrow> y \<in> set xs \<Longrightarrow> x \<noteq> y \<Longrightarrow> lt x y \<or> lt y x"
  shows "xs = ys"
  using assms
proof (induction xs arbitrary: ys)
  case Nil
  then show ?case by simp
next
  case (Cons x xs)
  from Cons.prems(3) obtain y ys' where ys: "ys = y # ys'"
    by (cases ys) auto
  have sets: "insert x (set xs) = insert y (set ys')"
    using Cons.prems(3) ys by (metis list.simps(15) set_mset_mset)
  have "x = y"
  proof (rule ccontr)
    assume "x \<noteq> y"
    with sets have "y \<in> set xs" "x \<in> set ys'" by auto
    with Cons.prems(1,2) ys have "\<not> lt y x" "\<not> lt x y" by auto
    with Cons.prems(4)[of x y] \<open>y \<in> set xs\<close> \<open>x \<noteq> y\<close> show False by auto
  qed
  moreover have "xs = ys'"
    using Cons.prems ys \<open>x = y\<close> by (intro Cons.IH) auto
  ultimately show ?case using ys by simp
qed

lemma sort_by_order_free:
  assumes "mset xs = mset ys"
    and "\<And>x y. x \<in> set xs \<Longrightarrow> y \<in> set xs \<Longrightarrow> x \<noteq> y \<Longrightarrow> lt x y \<or> lt y x"
  shows "sort_by lt xs = sort_by lt ys"
proof (rule sorted_unique)
  show "sorted_wrt (\<lambda>a b. \<not> lt b a) (sort_by lt xs)" by (rule sorted_sort_by)
  show "sorted_wrt (\<lambda>a b. \<not> lt b a) (sort_by lt ys)" by (rule sorted_sort_by)
  show "mset (sort_by lt xs) = mset (sort_by lt ys)" using assms(1) by simp
  show "lt x y \<or> lt y x"
    if "x \<in> set (sort_by lt xs)" "y \<in> set (sort_by lt xs)" "x \<noteq> y" for x y
    using that assms(2) by simp
qed

lemma hd_sort_by_least: "x \<in> set xs \<Longrightarrow> \<not> lt x (hd (sort_by lt xs))"
proof -
  assume x: "x \<in> set xs"
  then obtain y ys where s: "sort_by lt xs = y # ys" by (cases "sort_by lt xs") auto
  with x set_sort_by[of lt xs] have "x = y \<or> x \<in> set ys" by auto
  with sorted_sort_by[of xs] s less_irrefl show ?thesis by auto
qed

end

lemma go_lessI_key:
  fixes key :: "'a \<Rightarrow> 'k :: linorder"
  assumes "\<And>x y. lt x y \<longleftrightarrow> key x < key y"
  shows "go_less lt"
  by unfold_locales (auto simp: assms)

section \<open>Lemmas: invariants of event-driven components\<close>

text \<open>
  A component that reacts to events keeps an invariant along every run of admissible
  events.
\<close>

locale event_machine =
  fixes step :: "'s \<Rightarrow> 'e \<Rightarrow> 's"
    and ok :: "'e \<Rightarrow> bool"
    and inv :: "'s \<Rightarrow> bool"
  assumes inv_step: "inv s \<Longrightarrow> ok e \<Longrightarrow> inv (step s e)"
begin

lemma inv_run: "inv s \<Longrightarrow> (\<And>e. e \<in> set es \<Longrightarrow> ok e) \<Longrightarrow> inv (foldl step s es)"
  by (induction es arbitrary: s) (auto intro: inv_step)

end

section \<open>Lemmas: byte strings\<close>

lemma trim_seqs_idem: "trim_seqs ps (trim_seqs ps s) = trim_seqs ps s"
proof (induction ps s rule: trim_seqs.induct)
  case (1 ps s)
  then show ?case
    by (cases "find (\<lambda>p. p \<noteq> [] \<and> prefix p s) ps") (simp_all add: trim_seqs.simps[of ps s])
qed

lemma lower_byte_idem [simp]: "lower_byte (lower_byte c) = lower_byte c"
proof -
  have "of_char (char_of (n + 32 :: nat)) = n + 32" if "n \<le> 90" for n :: nat
    using that by simp
  then show ?thesis by (auto simp: lower_byte_def Let_def)
qed

lemma is_ascii_map_lower [simp]: "is_ascii s \<Longrightarrow> is_ascii (map lower_byte s)"
proof -
  have "of_char (lower_byte c) < (128 :: nat)" if "of_char c < (128 :: nat)" for c
    using that by (auto simp: lower_byte_def Let_def)
  then show "is_ascii s \<Longrightarrow> is_ascii (map lower_byte s)"
    by (auto simp: is_ascii_def list_all_iff)
qed

end
