(* ===== verification/Runtime_Clock.thy ===== *)
theory Runtime_Clock
  imports Pulse_Prelude
begin

text \<open>
  The shared timestamp domain (\<open>src/internal/runtimeclock/timestamp.go\<close>): every persisted
  runtime time lies in \<open>0 .. MaxTimestampMS\<close>, and logical time advances only through the
  checked operations below. The properties are the ones the schedulers rest on: no operation
  leaves the domain, \<open>After\<close> is strictly later than its minimum and never skips a usable
  wall-clock time.
\<close>

definition MaxTimestampMS :: int64 where
  "MaxTimestampMS = 253402300799999"

definition MaxInProgressTimestampMS :: int64 where
  "MaxInProgressTimestampMS = MaxTimestampMS - 1"

definition MaxContinuableTimestampMS :: int64 where
  "MaxContinuableTimestampMS = MaxTimestampMS - 2"

definition Add :: "int64 \<Rightarrow> int64 \<Rightarrow> int64 \<times> bool" where
  "Add value delta =
     (if value < 0 \<or> delta < 0 \<or> value > MaxTimestampMS \<or> delta > sub64 MaxTimestampMS value
      then (0, False)
      else (add64 value delta, True))"

definition Successor :: "int64 \<Rightarrow> int64 \<times> bool" where
  "Successor value = Add value 1"

definition After :: "int64 \<Rightarrow> int64 \<Rightarrow> int64 \<Rightarrow> int64 \<times> bool" where
  "After now minimum maximum =
     (if now < 0 \<or> minimum < -1 \<or> maximum < 0 \<or> maximum > MaxTimestampMS \<or>
         now > maximum \<or> minimum \<ge> maximum
      then (0, False)
      else if now > minimum then (now, True)
      else (let (nxt, ok) = Successor minimum in (nxt, ok \<and> nxt \<le> maximum)))"

lemmas timestamp_consts [pulse_defs] =
  MaxTimestampMS_def MaxInProgressTimestampMS_def MaxContinuableTimestampMS_def

lemma Add_eq:
  "Add v d = (if 0 \<le> v \<and> 0 \<le> d \<and> v + d \<le> MaxTimestampMS then (v + d, True) else (0, False))"
  by (auto simp: Add_def timestamp_consts sub64_id add64_id in64_def)

lemma After_eq:
  "After now minimum maximum =
     (if 0 \<le> now \<and> -1 \<le> minimum \<and> now \<le> maximum \<and> minimum < maximum \<and> maximum \<le> MaxTimestampMS
      then (if now > minimum then (now, True)
            else (minimum + 1, True))
      else (0, False))"
  by (auto simp: After_def Successor_def Add_eq)

text \<open>What a caller gets from a successful \<open>After\<close>.\<close>

lemma After_ok:
  assumes "After now minimum maximum = (t, True)"
  shows "minimum < t" "now \<le> t" "t \<le> maximum" "0 \<le> t" "t \<le> MaxTimestampMS"
  using assms by (auto simp: After_eq split: if_splits)

end
