(* ===== verification/Sched_Types.thy ===== *)
theory Sched_Types
  imports Runtime_Clock
begin

text \<open>
  The durable records of the scheduler
  (\<open>src/internal/store/scheduler_records.go\<close>, \<open>lifecycle_records.go\<close>, and the parts
  of \<open>runtime_records.go\<close> they mention). A Go string enumeration is a datatype whose
  last constructor carries any other string, so the default branches of the code stay
  visible.
\<close>

section \<open>Constants\<close>

definition MaxSchedulerTimestampMS :: int64 where
  "MaxSchedulerTimestampMS = MaxTimestampMS"

definition MaxSchedulerSliceActiveMS :: int64 where
  "MaxSchedulerSliceActiveMS = 86400000"

definition MaxSchedulerQueuedTimestampMS :: int64 where
  "MaxSchedulerQueuedTimestampMS = MaxContinuableTimestampMS"

definition MaxSchedulerRunningTimestampMS :: int64 where
  "MaxSchedulerRunningTimestampMS = MaxInProgressTimestampMS"

definition MaxSchedulerRetryDueTimestampMS :: int64 where
  "MaxSchedulerRetryDueTimestampMS = MaxSchedulerTimestampMS - MaxSchedulerSliceActiveMS - 4"

definition MaxSchedulerAdmissionTimestampMS :: int64 where
  "MaxSchedulerAdmissionTimestampMS = MaxSchedulerRetryDueTimestampMS"

lemmas scheduler_limits [pulse_defs] =
  MaxSchedulerTimestampMS_def MaxSchedulerSliceActiveMS_def MaxSchedulerQueuedTimestampMS_def
  MaxSchedulerRunningTimestampMS_def MaxSchedulerRetryDueTimestampMS_def
  MaxSchedulerAdmissionTimestampMS_def timestamp_consts

section \<open>Enumerations\<close>

datatype SchedulerTargetKind =
  SchedulerTargetBootstrap | SchedulerTargetLiveScan | SchedulerTargetOther string

datatype SchedulerLane =
  SchedulerLaneLive | SchedulerLaneBackfill | SchedulerLaneOther string

datatype SchedulerServiceClass =
  SchedulerServiceBackground | SchedulerServiceInteractive | SchedulerServiceOther string

datatype SchedulerTaskState =
  SchedulerTaskQueued | SchedulerTaskRunning | SchedulerTaskSucceeded | SchedulerTaskFailed
| SchedulerTaskInterrupted | SchedulerTaskOther string

datatype SchedulerSelectionReason =
  SchedulerSelectionLivePriority | SchedulerSelectionLiveOnly | SchedulerSelectionBackfillOnly
| SchedulerSelectionBackfillFairness | SchedulerSelectionOther string

datatype SchedulerStopReason =
  SchedulerStopCompleted | SchedulerStopFileBudget | SchedulerStopByteBudget
| SchedulerStopTimeBudget | SchedulerStopSystemPressure | SchedulerStopLivePreempted
| SchedulerStopCancelled | SchedulerStopDependencyError | SchedulerStopWorkerPanic
| SchedulerStopOther string

datatype SchedulerCycleOutcome =
  SchedulerCycleCompleted | SchedulerCycleYielded | SchedulerCycleFailed
| SchedulerCycleInterrupted | SchedulerCycleOther string

datatype RuntimeErrorClass =
  RuntimeErrorCanceled | RuntimeErrorBusy | RuntimeErrorDiskFull | RuntimeErrorReadOnly
| RuntimeErrorPermission | RuntimeErrorIO | RuntimeErrorCorrupt | RuntimeErrorTimeout
| RuntimeErrorUnavailable | RuntimeErrorInvalid | RuntimeErrorUnknown | RuntimeErrorOther string

datatype LifecyclePauseScope =
  LifecyclePauseNone | LifecyclePauseBackfill | LifecyclePauseAll | LifecyclePauseOther string

datatype LifecycleSystemState =
  LifecycleSystemAwake | LifecycleSystemSleeping | LifecycleSystemOther string

datatype LifecycleTransition =
  LifecycleTransitionSteady | LifecycleTransitionDraining | LifecycleTransitionReconciling
| LifecycleTransitionBlocked | LifecycleTransitionOther string

datatype LifecycleSourceState =
  LifecycleSourceUnknown | LifecycleSourceAvailable | LifecycleSourceUnavailable
| LifecycleSourceOther string

datatype SchedulerRetryDisposition =
  SchedulerRetryWaiting | SchedulerRetryBlocked | SchedulerRetryResolved
| SchedulerRetryOther string

datatype SchedulerRecoveryAction =
  SchedulerRecoveryNone | SchedulerRecoveryRetry | SchedulerRecoveryCheckSource
| SchedulerRecoveryGrantPermission | SchedulerRecoveryFreeSpace | SchedulerRecoveryChooseHome
| SchedulerRecoveryRepairStore | SchedulerRecoveryOther string

datatype JobState =
  JobQueued | JobRunning | JobSucceeded | JobFailed | JobCancelled | JobInterrupted
| JobStateOther string

datatype JobPhase =
  JobPhaseDiscover | JobPhaseFastBootstrap | JobPhaseHistoryBackfill | JobPhaseReconcile
| JobPhaseLive | JobPhaseMaintenance | JobPhaseOther string

section \<open>Records\<close>

record SchedulerTask =
  tk_TaskID :: string
  tk_DedupeKey :: string
  tk_TargetKind :: SchedulerTargetKind
  tk_TargetID :: string
  tk_HomeGeneration :: int64
  tk_Lane :: SchedulerLane
  tk_ServiceClass :: SchedulerServiceClass
  tk_State :: SchedulerTaskState
  tk_QueueOrderMS :: int64
  tk_EnqueuedAtMS :: int64
  tk_FirstStartedAtMS :: "int64 option"
  tk_LastStartedAtMS :: "int64 option"
  tk_FinishedAtMS :: "int64 option"
  tk_FilesProcessed :: int64
  tk_BytesProcessed :: int64
  tk_SliceCount :: int64
  tk_LastErrorClass :: "RuntimeErrorClass option"
  tk_UpdatedAtMS :: int64

record SchedulerCycle =
  cy_CycleID :: string
  cy_TaskID :: string
  cy_Lane :: SchedulerLane
  cy_SelectionReason :: SchedulerSelectionReason
  cy_StopReason :: SchedulerStopReason
  cy_Outcome :: SchedulerCycleOutcome
  cy_BudgetFiles :: int64
  cy_BudgetBytes :: int64
  cy_BudgetActiveMS :: int64
  cy_ConsumedFiles :: int64
  cy_ConsumedBytes :: int64
  cy_ActiveMS :: int64
  cy_LiveDepth :: int64
  cy_BackfillDepth :: int64
  cy_OldestLiveWaitMS :: int64
  cy_OldestBackfillWaitMS :: int64
  cy_StartedAtMS :: int64
  cy_FinishedAtMS :: int64

record SchedulerQueueSnapshot =
  qs_LiveCandidate :: "SchedulerTask option"
  qs_BackfillCandidate :: "SchedulerTask option"
  qs_LiveDepth :: int64
  qs_BackfillDepth :: int64
  qs_MaxQueueOrderMS :: int64

record SchedulerRetryState =
  rt_TaskID :: string
  rt_Disposition :: SchedulerRetryDisposition
  rt_FailureCount :: int64
  rt_LastErrorClass :: RuntimeErrorClass
  rt_NextRetryAtMS :: "int64 option"
  rt_RecoveryAction :: SchedulerRecoveryAction
  rt_Revision :: int64
  rt_UpdatedAtMS :: int64

record SchedulerRetryMutation =
  rm_ExpectedRevision :: int64
  rm_Disposition :: SchedulerRetryDisposition
  rm_FailureCount :: int64
  rm_LastErrorClass :: RuntimeErrorClass
  rm_NextRetryAtMS :: "int64 option"
  rm_RecoveryAction :: SchedulerRecoveryAction

record SchedulerCycleCommit =
  cm_TaskID :: string
  cm_ExpectedState :: SchedulerTaskState
  cm_State :: SchedulerTaskState
  cm_QueueOrderMS :: int64
  cm_FilesDelta :: int64
  cm_BytesDelta :: int64
  cm_ErrorClass :: "RuntimeErrorClass option"
  cm_AtMS :: int64
  cm_Cycle :: SchedulerCycle
  cm_Retry :: "SchedulerRetryMutation option"

record SchedulerLifecycle =
  lc_HomeGeneration :: int64
  lc_UserPauseScope :: LifecyclePauseScope
  lc_SystemState :: LifecycleSystemState
  lc_Transition :: LifecycleTransition
  lc_SourceState :: LifecycleSourceState
  lc_LastEventID :: string
  lc_Revision :: int64
  lc_UpdatedAtMS :: int64

text \<open>Of a job run the scheduler reads the identity, the state, the phase, the error class and the
  update time.\<close>

record JobRun =
  jb_JobID :: string
  jb_State :: JobState
  jb_Phase :: JobPhase
  jb_ErrorClass :: "RuntimeErrorClass option"
  jb_UpdatedAtMS :: int64

section \<open>Validity of enumerations\<close>

definition validSchedulerTargetKind :: "SchedulerTargetKind \<Rightarrow> bool" where
  "validSchedulerTargetKind v \<longleftrightarrow> v = SchedulerTargetBootstrap \<or> v = SchedulerTargetLiveScan"

definition validSchedulerLane :: "SchedulerLane \<Rightarrow> bool" where
  "validSchedulerLane v \<longleftrightarrow> v = SchedulerLaneLive \<or> v = SchedulerLaneBackfill"

definition validSchedulerServiceClass :: "SchedulerServiceClass \<Rightarrow> bool" where
  "validSchedulerServiceClass v \<longleftrightarrow>
     v = SchedulerServiceBackground \<or> v = SchedulerServiceInteractive"

fun validSchedulerTaskState :: "SchedulerTaskState \<Rightarrow> bool" where
  "validSchedulerTaskState (SchedulerTaskOther _) = False"
| "validSchedulerTaskState _ = True"

fun validSchedulerSelectionReason :: "SchedulerSelectionReason \<Rightarrow> bool" where
  "validSchedulerSelectionReason (SchedulerSelectionOther _) = False"
| "validSchedulerSelectionReason _ = True"

fun validSchedulerStopReason :: "SchedulerStopReason \<Rightarrow> bool" where
  "validSchedulerStopReason (SchedulerStopOther _) = False"
| "validSchedulerStopReason _ = True"

fun validSchedulerCycleOutcome :: "SchedulerCycleOutcome \<Rightarrow> bool" where
  "validSchedulerCycleOutcome (SchedulerCycleOther _) = False"
| "validSchedulerCycleOutcome _ = True"

fun validRuntimeErrorClass :: "RuntimeErrorClass \<Rightarrow> bool" where
  "validRuntimeErrorClass (RuntimeErrorOther _) = False"
| "validRuntimeErrorClass _ = True"

definition validLifecyclePauseScope :: "LifecyclePauseScope \<Rightarrow> bool" where
  "validLifecyclePauseScope v \<longleftrightarrow>
     v = LifecyclePauseNone \<or> v = LifecyclePauseBackfill \<or> v = LifecyclePauseAll"

definition validLifecycleSystemState :: "LifecycleSystemState \<Rightarrow> bool" where
  "validLifecycleSystemState v \<longleftrightarrow> v = LifecycleSystemAwake \<or> v = LifecycleSystemSleeping"

fun validLifecycleTransition :: "LifecycleTransition \<Rightarrow> bool" where
  "validLifecycleTransition (LifecycleTransitionOther _) = False"
| "validLifecycleTransition _ = True"

definition validLifecycleSourceState :: "LifecycleSourceState \<Rightarrow> bool" where
  "validLifecycleSourceState v \<longleftrightarrow>
     v = LifecycleSourceUnknown \<or> v = LifecycleSourceAvailable \<or> v = LifecycleSourceUnavailable"

definition validSchedulerRetryDisposition :: "SchedulerRetryDisposition \<Rightarrow> bool" where
  "validSchedulerRetryDisposition v \<longleftrightarrow>
     v = SchedulerRetryWaiting \<or> v = SchedulerRetryBlocked \<or> v = SchedulerRetryResolved"

fun validSchedulerRecoveryAction :: "SchedulerRecoveryAction \<Rightarrow> bool" where
  "validSchedulerRecoveryAction (SchedulerRecoveryOther _) = False"
| "validSchedulerRecoveryAction _ = True"

lemmas enum_valid_defs =
  validSchedulerTargetKind_def validSchedulerLane_def validSchedulerServiceClass_def
  validLifecyclePauseScope_def validLifecycleSystemState_def validLifecycleSourceState_def
  validSchedulerRetryDisposition_def

section \<open>Store errors\<close>

text \<open>
  The errors the repository operations return. \<open>DBConstraint\<close> is the error SQLite raises
  when a statement violates a uniqueness constraint of the schema; a transaction that returns
  an error leaves the tables as they were. \<open>InvalidRecord\<close> is \<open>invalidRecord\<close>
  of \<open>repository_validate.go\<close>.
\<close>

datatype store_error =
  ErrInvalidRepository | ErrNotFound | ErrLifecycleConflict | ErrLifecycleTransition
| ErrSchedulerRetryTransition | ErrSchedulerConflict | ErrSchedulerQueueFull
| ErrSchedulerTransition | ErrSchedulerBusy | ErrSchedulerPaused | InvalidRecord | DBConstraint

section \<open>The scheduler's tables\<close>

text \<open>
  A row of \<open>scheduler_tasks\<close> is the task plus the two columns that remember what was
  admitted. The database is the state of the five tables the scheduler transactions touch;
  the cycles are kept newest first (\<open>commit_order\<close> descending).
\<close>

record schedulerTaskModel =
  md_Task :: SchedulerTask
  md_AdmissionTargetID :: string
  md_AdmissionServiceClass :: SchedulerServiceClass

record sched_db =
  db_Tasks :: "schedulerTaskModel list"
  db_Cycles :: "SchedulerCycle list"
  db_Retries :: "SchedulerRetryState list"
  db_Lifecycle :: "SchedulerLifecycle option"
  db_Jobs :: "string \<rightharpoonup> JobRun"

abbreviation row_id :: "schedulerTaskModel \<Rightarrow> string" where
  "row_id m \<equiv> tk_TaskID (md_Task m)"

abbreviation row_state :: "schedulerTaskModel \<Rightarrow> SchedulerTaskState" where
  "row_state m \<equiv> tk_State (md_Task m)"

end
