(* ===== verification/Lifecycle_Store.thy ===== *)
theory Lifecycle_Store
  imports Sched_Types
begin

text \<open>
  The durable lifecycle row and the retry rows
  (\<open>src/internal/store/lifecycle_repository.go\<close>). The lifecycle row is written only by
  \<open>InitializeSchedulerLifecycle\<close> and by a compare-and-swap on its revision; the locale
  \<open>revisioned_cell\<close> states that contract, and the coordinator is proved against it.
  The swap compares with \<open>current.Revision+1\<close> only after it has excluded
  \<open>math.MaxInt64\<close>, so that sum is exact.
\<close>

definition validateSchedulerLifecycle :: "SchedulerLifecycle \<Rightarrow> store_error option" where
  "validateSchedulerLifecycle v =
     (if lc_HomeGeneration v < 0 \<or> lc_LastEventID v = [] \<or> length (lc_LastEventID v) > 256 \<or>
         lc_Revision v < 1 \<or> lc_UpdatedAtMS v < 0 \<or> lc_UpdatedAtMS v > MaxTimestampMS \<or>
         \<not> validLifecyclePauseScope (lc_UserPauseScope v) \<or>
         \<not> validLifecycleSystemState (lc_SystemState v) \<or>
         \<not> validLifecycleTransition (lc_Transition v) \<or>
         \<not> validLifecycleSourceState (lc_SourceState v)
      then Some ErrLifecycleTransition else None)"

definition validateInitialSchedulerLifecycle :: "SchedulerLifecycle \<Rightarrow> store_error option" where
  "validateInitialSchedulerLifecycle v =
     (case validateSchedulerLifecycle v of
        Some e \<Rightarrow> Some e
      | None \<Rightarrow> if lc_Revision v \<noteq> 1 then Some ErrLifecycleTransition else None)"

definition schedulerLifecycleIn :: "sched_db \<Rightarrow> store_error + SchedulerLifecycle option" where
  "schedulerLifecycleIn db =
     (case db_Lifecycle db of
        None \<Rightarrow> Inr None
      | Some v \<Rightarrow>
          (case validateSchedulerLifecycle v of
             Some e \<Rightarrow> Inl e
           | None \<Rightarrow> Inr (Some v)))"

definition InitializeSchedulerLifecycle ::
  "SchedulerLifecycle \<Rightarrow> sched_db \<Rightarrow> store_error + (SchedulerLifecycle \<times> sched_db)" where
  "InitializeSchedulerLifecycle initial db =
     (case validateInitialSchedulerLifecycle initial of
        Some e \<Rightarrow> Inl e
      | None \<Rightarrow>
          (case schedulerLifecycleIn db of
             Inl e \<Rightarrow> Inl e
           | Inr (Some current) \<Rightarrow>
               if current = initial then Inr (current, db) else Inl ErrLifecycleConflict
           | Inr None \<Rightarrow> Inr (initial, db\<lparr>db_Lifecycle := Some initial\<rparr>)))"

definition SchedulerLifecycleOf :: "sched_db \<Rightarrow> store_error + SchedulerLifecycle" where
  "SchedulerLifecycleOf db =
     (case schedulerLifecycleIn db of
        Inl e \<Rightarrow> Inl e
      | Inr None \<Rightarrow> Inl ErrNotFound
      | Inr (Some v) \<Rightarrow> Inr v)"

definition CompareAndSwapSchedulerLifecycle ::
  "int64 \<Rightarrow> SchedulerLifecycle \<Rightarrow> sched_db \<Rightarrow> store_error + (SchedulerLifecycle \<times> sched_db)" where
  "CompareAndSwapSchedulerLifecycle expectedRevision nxt db =
     (case validateSchedulerLifecycle nxt of
        Some e \<Rightarrow> Inl e
      | None \<Rightarrow>
          (case schedulerLifecycleIn db of
             Inl e \<Rightarrow> Inl e
           | Inr None \<Rightarrow> Inl ErrNotFound
           | Inr (Some current) \<Rightarrow>
               if current = nxt then Inr (current, db)
               else if lc_Revision current = max_int64 \<or> lc_Revision current \<noteq> expectedRevision \<or>
                       lc_Revision nxt \<noteq> lc_Revision current + 1 \<or>
                       lc_UpdatedAtMS nxt \<le> lc_UpdatedAtMS current
               then Inl ErrLifecycleConflict
               else Inr (nxt, db\<lparr>db_Lifecycle := Some nxt\<rparr>)))"

definition validateSchedulerRetryState :: "SchedulerRetryState \<Rightarrow> store_error option" where
  "validateSchedulerRetryState v =
     (if rt_TaskID v = [] \<or> rt_FailureCount v < 1 \<or> \<not> validRuntimeErrorClass (rt_LastErrorClass v) \<or>
         \<not> validSchedulerRetryDisposition (rt_Disposition v) \<or>
         \<not> validSchedulerRecoveryAction (rt_RecoveryAction v) \<or> rt_Revision v < 1 \<or>
         rt_UpdatedAtMS v < 0 \<or> rt_UpdatedAtMS v > MaxSchedulerTimestampMS \<or>
         (case rt_NextRetryAtMS v of
            None \<Rightarrow> False
          | Some t \<Rightarrow> t < 0 \<or> t > MaxSchedulerRetryDueTimestampMS)
      then Some ErrSchedulerRetryTransition
      else (case rt_Disposition v of
              SchedulerRetryWaiting \<Rightarrow>
                (case rt_NextRetryAtMS v of
                   None \<Rightarrow> Some ErrSchedulerRetryTransition
                 | Some t \<Rightarrow>
                     if t \<le> rt_UpdatedAtMS v \<or> rt_RecoveryAction v \<noteq> SchedulerRecoveryNone
                     then Some ErrSchedulerRetryTransition else None)
            | SchedulerRetryBlocked \<Rightarrow>
                if rt_NextRetryAtMS v \<noteq> None \<or> rt_RecoveryAction v = SchedulerRecoveryNone
                then Some ErrSchedulerRetryTransition else None
            | SchedulerRetryResolved \<Rightarrow>
                if rt_NextRetryAtMS v \<noteq> None \<or> rt_RecoveryAction v \<noteq> SchedulerRecoveryNone
                then Some ErrSchedulerRetryTransition else None
            | SchedulerRetryOther _ \<Rightarrow> None))"

definition schedulerRetryStateIn :: "string \<Rightarrow> sched_db \<Rightarrow> store_error + SchedulerRetryState option" where
  "schedulerRetryStateIn taskID db =
     (case find (\<lambda>r. rt_TaskID r = taskID) (db_Retries db) of
        None \<Rightarrow> Inr None
      | Some r \<Rightarrow>
          (case validateSchedulerRetryState r of
             Some e \<Rightarrow> Inl e
           | None \<Rightarrow> Inr (Some r)))"

definition SchedulerRetryStateOf :: "string \<Rightarrow> sched_db \<Rightarrow> store_error + SchedulerRetryState" where
  "SchedulerRetryStateOf taskID db =
     (if taskID = [] then Inl ErrInvalidRepository
      else (case schedulerRetryStateIn taskID db of
              Inl e \<Rightarrow> Inl e
            | Inr None \<Rightarrow> Inl ErrNotFound
            | Inr (Some r) \<Rightarrow> Inr r))"

text \<open>
  \<open>ListDueSchedulerRetries\<close>: the waiting retries of failed tasks of one generation that are
  due, in \<open>(next_retry_at_ms, task_id)\<close> order after a keyset cursor, one page at a time.
\<close>

definition validateRuntimeLimit :: "int \<Rightarrow> store_error + int" where
  "validateRuntimeLimit limit =
     (let l = (if limit = 0 then 100 else limit)
      in if l < 1 \<or> l > 500 then Inl InvalidRecord else Inr l)"

definition retryDueKey :: "SchedulerRetryState \<Rightarrow> int64 \<times> string" where
  "retryDueKey r = (case rt_NextRetryAtMS r of None \<Rightarrow> -1 | Some t \<Rightarrow> t, rt_TaskID r)"

definition retryDueLess :: "SchedulerRetryState \<Rightarrow> SchedulerRetryState \<Rightarrow> bool" where
  "retryDueLess a b \<longleftrightarrow> retryDueKey a < retryDueKey b"

definition retryIsDue :: "sched_db \<Rightarrow> int64 \<Rightarrow> int64 \<Rightarrow> SchedulerRetryState \<Rightarrow> bool" where
  "retryIsDue db homeGeneration atMS r \<longleftrightarrow>
     rt_Disposition r = SchedulerRetryWaiting \<and>
     (case rt_NextRetryAtMS r of None \<Rightarrow> False | Some t \<Rightarrow> t \<le> atMS) \<and>
     list_ex (\<lambda>m. row_id m = rt_TaskID r \<and> tk_HomeGeneration (md_Task m) = homeGeneration \<and>
                row_state m = SchedulerTaskFailed) (db_Tasks db)"

fun validate_all :: "('a \<Rightarrow> store_error option) \<Rightarrow> 'a list \<Rightarrow> store_error option" where
  "validate_all v [] = None"
| "validate_all v (x # xs) = (case v x of Some e \<Rightarrow> Some e | None \<Rightarrow> validate_all v xs)"

definition ListDueSchedulerRetries ::
  "int64 \<Rightarrow> int64 \<Rightarrow> (int64 \<times> string) option \<Rightarrow> int \<Rightarrow> sched_db \<Rightarrow>
   store_error + (SchedulerRetryState list \<times> (int64 \<times> string) option)" where
  "ListDueSchedulerRetries homeGeneration atMS after limit db =
     (if homeGeneration < 0 \<or> atMS < 0 then Inl ErrInvalidRepository
      else (case validateRuntimeLimit limit of
              Inl e \<Rightarrow> Inl e
            | Inr pageLimit \<Rightarrow>
                if (case after of None \<Rightarrow> False | Some (t, i) \<Rightarrow> t < 0 \<or> i = [])
                then Inl ErrSchedulerRetryTransition
                else
                  (let due = filter (retryIsDue db homeGeneration atMS) (db_Retries db);
                       rest = filter (\<lambda>r. case after of None \<Rightarrow> True
                                           | Some c \<Rightarrow> c < retryDueKey r) due;
                       page = take (nat pageLimit) (sort_by retryDueLess rest)
                   in case validate_all validateSchedulerRetryState page of
                        Some e \<Rightarrow> Inl e
                      | None \<Rightarrow>
                          Inr (page, if page = [] then None else Some (retryDueKey (last page))))))"

section \<open>Lemmas\<close>

lemma validateSchedulerLifecycle_cases:
  "validateSchedulerLifecycle v = None \<or> validateSchedulerLifecycle v = Some ErrLifecycleTransition"
  by (simp add: validateSchedulerLifecycle_def)

lemma valid_lifecycleD:
  assumes "validateSchedulerLifecycle v = None"
  shows "0 \<le> lc_UpdatedAtMS v" "lc_UpdatedAtMS v \<le> MaxTimestampMS" "1 \<le> lc_Revision v"
    "0 \<le> lc_HomeGeneration v" "lc_LastEventID v \<noteq> []"
  using assms by (auto simp: validateSchedulerLifecycle_def split: if_splits)

interpretation retry_due: go_less retryDueLess
  by (rule go_lessI_key [where key = retryDueKey]) (simp add: retryDueLess_def)

text \<open>
  The contract of a cell guarded by a revision: reading gives the stored value, a swap that
  succeeds stores exactly the value asked for, and either the value was already there or the
  revision moved by one from the expected one and time moved forward.
\<close>

locale revisioned_cell =
  fixes load :: "'s \<Rightarrow> 'v option"
    and cas :: "int64 \<Rightarrow> 'v \<Rightarrow> 's \<Rightarrow> 'e + ('v \<times> 's)"
    and revn :: "'v \<Rightarrow> int64"
    and stamp :: "'v \<Rightarrow> int64"
  assumes cas_stores: "cas n v s = Inr (w, s') \<Longrightarrow> w = v \<and> load s' = Some v"
    and cas_guard: "cas n v s = Inr (w, s') \<Longrightarrow> load s = Some u \<Longrightarrow>
        u = v \<or> (revn u = n \<and> revn v = revn u + 1 \<and> stamp u < stamp v)"
    and cas_present: "cas n v s = Inr (w, s') \<Longrightarrow> \<exists>u. load s = Some u"
begin

lemma cas_rev_mono:
  assumes "cas n v s = Inr (w, s')" and "load s = Some u"
  shows "revn u \<le> revn v \<and> stamp u \<le> stamp v \<and> (revn u = revn v \<longrightarrow> u = v)"
  using cas_guard[OF assms] by (elim disjE conjE) simp_all

text \<open>Two swaps against the same expected revision: the second can only repeat the first.\<close>

lemma cas_exclusive:
  assumes 1: "cas n v s = Inr (w, s')" and 2: "cas n v' s' = Inr (w', s'')"
    and fresh: "load s = Some u" "u \<noteq> v"
  shows "v' = v"
proof -
  from 1 fresh have "revn u = n" "revn v = n + 1" using cas_guard[OF 1 fresh(1)] by auto
  moreover from 1 have "load s' = Some v" using cas_stores by blast
  ultimately show ?thesis using cas_guard[OF 2 \<open>load s' = Some v\<close>] by auto
qed

end

lemma CompareAndSwap_ok:
  assumes "CompareAndSwapSchedulerLifecycle n v db = Inr (w, db')"
  shows "w = v \<and> db' = db\<lparr>db_Lifecycle := Some v\<rparr> \<and> validateSchedulerLifecycle v = None \<and>
         (\<exists>u. db_Lifecycle db = Some u \<and> validateSchedulerLifecycle u = None \<and>
              (u = v \<or> (lc_Revision u = n \<and> lc_Revision v = lc_Revision u + 1 \<and>
                        lc_UpdatedAtMS u < lc_UpdatedAtMS v)))"
proof -
  from assms have v: "validateSchedulerLifecycle v = None"
    by (auto simp: CompareAndSwapSchedulerLifecycle_def split: option.splits)
  with assms obtain u where u: "schedulerLifecycleIn db = Inr (Some u)"
    by (auto simp: CompareAndSwapSchedulerLifecycle_def split: sum.splits option.splits)
  then have du: "db_Lifecycle db = Some u" "validateSchedulerLifecycle u = None"
    by (auto simp: schedulerLifecycleIn_def split: option.splits)
  show ?thesis
  proof (cases "u = v")
    case True
    with assms v u du show ?thesis
      by (auto simp: CompareAndSwapSchedulerLifecycle_def)
  next
    case False
    with assms v u have g: "lc_Revision u \<noteq> max_int64" "lc_Revision u = n"
        "lc_Revision v = lc_Revision u + 1" "lc_UpdatedAtMS u < lc_UpdatedAtMS v"
      and r: "w = v" "db' = db\<lparr>db_Lifecycle := Some v\<rparr>"
      by (auto simp: CompareAndSwapSchedulerLifecycle_def split: if_splits)
    with g r v du show ?thesis by auto
  qed
qed

interpretation lifecycle_cell:
  revisioned_cell db_Lifecycle CompareAndSwapSchedulerLifecycle lc_Revision lc_UpdatedAtMS
  by unfold_locales (force dest: CompareAndSwap_ok)+

lemma InitializeSchedulerLifecycle_ok:
  assumes "InitializeSchedulerLifecycle v db = Inr (w, db')"
  shows "w = v \<and> db' = db\<lparr>db_Lifecycle := Some v\<rparr> \<and> validateSchedulerLifecycle v = None \<and>
         lc_Revision v = 1 \<and> (db_Lifecycle db = None \<or> db_Lifecycle db = Some v)"
  using assms
  by (auto simp: InitializeSchedulerLifecycle_def validateInitialSchedulerLifecycle_def
      schedulerLifecycleIn_def split: option.splits if_splits)

lemma schedulerRetryStateIn_Some:
  "schedulerRetryStateIn i db = Inr (Some r) \<Longrightarrow>
   r \<in> set (db_Retries db) \<and> rt_TaskID r = i \<and> validateSchedulerRetryState r = None"
  by (auto simp: schedulerRetryStateIn_def find_Some_iff split: option.splits)

lemma validate_all_None_iff: "validate_all v xs = None \<longleftrightarrow> (\<forall>x \<in> set xs. v x = None)"
  by (induction xs) (auto split: option.splits)

end
