(* ===== verification/Task_Store.thy ===== *)
theory Task_Store
  imports Lifecycle_Store
begin

text \<open>
  The durable task queue (\<open>src/internal/store/scheduler_repository.go\<close>): admission, claim,
  cycle commit, recovery, retry requeue and promotion as transactions on the tables of
  \<open>sched_db\<close>. A transaction returns \<open>Inl\<close> the error and then changes nothing, or
  \<open>Inr\<close> the result with the new tables. Database I/O failures are outside the model;
  the uniqueness constraints of \<open>scheduler_schema.go\<close> are inside it
  (\<open>DBConstraint\<close>).
\<close>

section \<open>Validation\<close>

definition timestampPointerAfter :: "int64 option \<Rightarrow> int64 \<Rightarrow> bool" where
  "timestampPointerAfter value maximum = (case value of None \<Rightarrow> False | Some t \<Rightarrow> t > maximum)"

definition validateRuntimeErrorClass :: "RuntimeErrorClass option \<Rightarrow> store_error option" where
  "validateRuntimeErrorClass value =
     (case value of
        None \<Rightarrow> None
      | Some c \<Rightarrow> if validRuntimeErrorClass c then None else Some InvalidRecord)"

definition taskFieldsInvalid :: "SchedulerTask \<Rightarrow> bool" where
  "taskFieldsInvalid t \<longleftrightarrow>
     tk_TaskID t = [] \<or> tk_DedupeKey t = [] \<or> tk_TargetID t = [] \<or>
     \<not> validSchedulerTargetKind (tk_TargetKind t) \<or> \<not> validSchedulerLane (tk_Lane t) \<or>
     \<not> validSchedulerServiceClass (tk_ServiceClass t) \<or> \<not> validSchedulerTaskState (tk_State t) \<or>
     tk_HomeGeneration t < 0 \<or> tk_QueueOrderMS t < 0 \<or> tk_EnqueuedAtMS t < 0 \<or>
     tk_QueueOrderMS t < tk_EnqueuedAtMS t \<or> tk_FilesProcessed t < 0 \<or> tk_BytesProcessed t < 0 \<or>
     tk_SliceCount t < 0 \<or> tk_UpdatedAtMS t < tk_EnqueuedAtMS t \<or>
     tk_QueueOrderMS t > MaxSchedulerTimestampMS \<or> tk_EnqueuedAtMS t > MaxSchedulerTimestampMS \<or>
     tk_UpdatedAtMS t > MaxSchedulerTimestampMS \<or>
     timestampPointerAfter (tk_FirstStartedAtMS t) MaxSchedulerTimestampMS \<or>
     timestampPointerAfter (tk_LastStartedAtMS t) MaxSchedulerTimestampMS \<or>
     timestampPointerAfter (tk_FinishedAtMS t) MaxSchedulerTimestampMS"

definition taskLimitsInvalid :: "SchedulerTask \<Rightarrow> bool" where
  "taskLimitsInvalid t \<longleftrightarrow>
     tk_State t = SchedulerTaskQueued \<and>
       (tk_QueueOrderMS t > MaxSchedulerQueuedTimestampMS \<or>
        tk_UpdatedAtMS t > MaxSchedulerQueuedTimestampMS) \<or>
     (tk_State t = SchedulerTaskRunning \<or> tk_State t = SchedulerTaskInterrupted) \<and>
       tk_UpdatedAtMS t > MaxSchedulerRunningTimestampMS \<or>
     (tk_State t = SchedulerTaskQueued \<or> tk_State t = SchedulerTaskRunning \<or>
      tk_State t = SchedulerTaskInterrupted) \<and> tk_SliceCount t = max_int64"

definition taskTimesInvalid :: "SchedulerTask \<Rightarrow> bool" where
  "taskTimesInvalid t \<longleftrightarrow>
     (tk_FirstStartedAtMS t = None) \<noteq> (tk_LastStartedAtMS t = None) \<or>
     (case (tk_FirstStartedAtMS t, tk_LastStartedAtMS t) of
        (Some f, Some l) \<Rightarrow> f < tk_EnqueuedAtMS t \<or> l < f
      | _ \<Rightarrow> False) \<or>
     (case tk_FinishedAtMS t of
        None \<Rightarrow> False
      | Some d \<Rightarrow> d < tk_EnqueuedAtMS t \<or>
          (case tk_LastStartedAtMS t of None \<Rightarrow> False | Some l \<Rightarrow> d < l))"

fun taskStateShapeInvalid :: "SchedulerTask \<Rightarrow> bool" where
  "taskStateShapeInvalid t =
     (case tk_State t of
        SchedulerTaskQueued \<Rightarrow> tk_FinishedAtMS t \<noteq> None \<or> tk_LastErrorClass t \<noteq> None
      | SchedulerTaskRunning \<Rightarrow>
          tk_LastStartedAtMS t = None \<or> tk_FinishedAtMS t \<noteq> None \<or> tk_LastErrorClass t \<noteq> None
      | SchedulerTaskSucceeded \<Rightarrow>
          tk_LastStartedAtMS t = None \<or> tk_FinishedAtMS t = None \<or> tk_LastErrorClass t \<noteq> None
      | SchedulerTaskFailed \<Rightarrow>
          tk_LastStartedAtMS t = None \<or> tk_FinishedAtMS t = None \<or> tk_LastErrorClass t = None
      | SchedulerTaskInterrupted \<Rightarrow> tk_LastStartedAtMS t = None \<or> tk_FinishedAtMS t = None
      | SchedulerTaskOther _ \<Rightarrow> False)"

definition validateSchedulerTask :: "SchedulerTask \<Rightarrow> store_error option" where
  "validateSchedulerTask t =
     (if taskFieldsInvalid t then Some ErrSchedulerTransition
      else if taskLimitsInvalid t then Some ErrSchedulerTransition
      else (case validateRuntimeErrorClass (tk_LastErrorClass t) of
              Some e \<Rightarrow> Some e
            | None \<Rightarrow>
                if taskTimesInvalid t then Some ErrSchedulerTransition
                else if taskStateShapeInvalid t then Some ErrSchedulerTransition
                else None))"

definition validateSchedulerAdmissionTask :: "SchedulerTask \<Rightarrow> store_error option" where
  "validateSchedulerAdmissionTask t =
     (case validateSchedulerTask t of
        Some e \<Rightarrow> Some e
      | None \<Rightarrow>
          if tk_State t \<noteq> SchedulerTaskQueued \<or> tk_EnqueuedAtMS t > MaxSchedulerAdmissionTimestampMS \<or>
             tk_QueueOrderMS t \<noteq> tk_EnqueuedAtMS t \<or> tk_UpdatedAtMS t \<noteq> tk_EnqueuedAtMS t \<or>
             tk_FirstStartedAtMS t \<noteq> None \<or> tk_LastStartedAtMS t \<noteq> None \<or>
             tk_FinishedAtMS t \<noteq> None \<or> tk_FilesProcessed t \<noteq> 0 \<or> tk_BytesProcessed t \<noteq> 0 \<or>
             tk_SliceCount t \<noteq> 0 \<or> tk_LastErrorClass t \<noteq> None
          then Some ErrSchedulerTransition else None)"

fun schedulerCycleMatchesTaskState :: "SchedulerCycle \<Rightarrow> SchedulerTaskState \<Rightarrow> bool" where
  "schedulerCycleMatchesTaskState c state =
     (case cy_Outcome c of
        SchedulerCycleCompleted \<Rightarrow>
          state = SchedulerTaskSucceeded \<and> cy_StopReason c = SchedulerStopCompleted
      | SchedulerCycleYielded \<Rightarrow>
          state = SchedulerTaskQueued \<and>
          cy_StopReason c \<in> {SchedulerStopFileBudget, SchedulerStopByteBudget, SchedulerStopTimeBudget,
                             SchedulerStopSystemPressure, SchedulerStopLivePreempted}
      | SchedulerCycleFailed \<Rightarrow>
          state = SchedulerTaskFailed \<and> cy_StopReason c = SchedulerStopDependencyError
      | SchedulerCycleInterrupted \<Rightarrow>
          state = SchedulerTaskInterrupted \<and>
          cy_StopReason c \<in> {SchedulerStopCancelled, SchedulerStopWorkerPanic}
      | SchedulerCycleOther _ \<Rightarrow> False)"

definition commitFieldsInvalid :: "SchedulerCycleCommit \<Rightarrow> bool" where
  "commitFieldsInvalid c \<longleftrightarrow>
     (let y = cm_Cycle c in
      cm_TaskID c = [] \<or> cm_TaskID c \<noteq> cy_TaskID y \<or> cm_FilesDelta c < 0 \<or> cm_BytesDelta c < 0 \<or>
      cm_AtMS c < 0 \<or> cm_AtMS c > MaxSchedulerTimestampMS \<or> cm_QueueOrderMS c < 0 \<or>
      cm_QueueOrderMS c > MaxSchedulerTimestampMS \<or> \<not> validSchedulerTaskState (cm_ExpectedState c) \<or>
      \<not> validSchedulerTaskState (cm_State c) \<or> cy_CycleID y = [] \<or> \<not> validSchedulerLane (cy_Lane y) \<or>
      \<not> validSchedulerSelectionReason (cy_SelectionReason y) \<or>
      \<not> validSchedulerStopReason (cy_StopReason y) \<or> \<not> validSchedulerCycleOutcome (cy_Outcome y) \<or>
      cy_BudgetFiles y < 0 \<or> cy_BudgetBytes y < 0 \<or> cy_BudgetActiveMS y < 0 \<or>
      cy_ConsumedFiles y < 0 \<or> cy_ConsumedFiles y > cy_BudgetFiles y \<or>
      cy_ConsumedBytes y < 0 \<or> cy_ConsumedBytes y > cy_BudgetBytes y \<or> cy_ActiveMS y < 0 \<or>
      cy_ActiveMS y > cy_BudgetActiveMS y \<or> cy_LiveDepth y < 0 \<or> cy_BackfillDepth y < 0 \<or>
      cy_OldestLiveWaitMS y < 0 \<or> cy_OldestBackfillWaitMS y < 0 \<or> cy_StartedAtMS y < 0 \<or>
      cy_StartedAtMS y > MaxSchedulerTimestampMS \<or> cy_FinishedAtMS y > MaxSchedulerTimestampMS \<or>
      cy_FinishedAtMS y < cy_StartedAtMS y \<or> cy_FinishedAtMS y > cm_AtMS c \<or>
      cy_ConsumedFiles y \<noteq> cm_FilesDelta c \<or> cy_ConsumedBytes y \<noteq> cm_BytesDelta c)"

definition retryCandidate :: "string \<Rightarrow> int64 \<Rightarrow> SchedulerRetryMutation \<Rightarrow> SchedulerRetryState" where
  "retryCandidate taskID atMS m =
     \<lparr>rt_TaskID = taskID, rt_Disposition = rm_Disposition m, rt_FailureCount = rm_FailureCount m,
      rt_LastErrorClass = rm_LastErrorClass m, rt_NextRetryAtMS = rm_NextRetryAtMS m,
      rt_RecoveryAction = rm_RecoveryAction m, rt_Revision = add64 (rm_ExpectedRevision m) 1,
      rt_UpdatedAtMS = atMS\<rparr>"

definition validateCommitRetry :: "SchedulerCycleCommit \<Rightarrow> store_error option" where
  "validateCommitRetry c =
     (if cm_State c = SchedulerTaskFailed then
        (case (cm_Retry c, cm_ErrorClass c) of
           (Some r, Some e) \<Rightarrow>
             if rm_LastErrorClass r \<noteq> e \<or>
                (rm_Disposition r \<noteq> SchedulerRetryWaiting \<and> rm_Disposition r \<noteq> SchedulerRetryBlocked) \<or>
                rm_ExpectedRevision r < 0 \<or> rm_ExpectedRevision r = max_int64
             then Some ErrSchedulerRetryTransition
             else validateSchedulerRetryState (retryCandidate (cm_TaskID c) (cm_AtMS c) r)
         | _ \<Rightarrow> Some ErrSchedulerRetryTransition)
      else if cm_Retry c \<noteq> None then Some ErrSchedulerRetryTransition
      else None)"

definition validateSchedulerCycleCommit :: "SchedulerCycleCommit \<Rightarrow> store_error option" where
  "validateSchedulerCycleCommit c =
     (if commitFieldsInvalid c then Some ErrSchedulerTransition
      else if \<not> schedulerCycleMatchesTaskState (cm_Cycle c) (cm_State c)
      then Some ErrSchedulerTransition
      else if cm_State c = SchedulerTaskFailed \<and> cm_ErrorClass c = None \<or>
              (cm_State c = SchedulerTaskQueued \<or> cm_State c = SchedulerTaskSucceeded) \<and>
              cm_ErrorClass c \<noteq> None
      then Some ErrSchedulerTransition
      else (case validateCommitRetry c of
              Some e \<Rightarrow> Some e
            | None \<Rightarrow> validateRuntimeErrorClass (cm_ErrorClass c)))"

section \<open>Row access\<close>

definition schedulerTaskFromModel :: "schedulerTaskModel \<Rightarrow> store_error + SchedulerTask" where
  "schedulerTaskFromModel m =
     (if md_AdmissionTargetID m = [] \<or> \<not> validSchedulerServiceClass (md_AdmissionServiceClass m)
      then Inl ErrSchedulerTransition
      else (case validateSchedulerTask (md_Task m) of
              Some e \<Rightarrow> Inl e
            | None \<Rightarrow> Inr (md_Task m)))"

definition schedulerTaskModelFromDomain :: "SchedulerTask \<Rightarrow> schedulerTaskModel" where
  "schedulerTaskModelFromDomain t =
     \<lparr>md_Task = t, md_AdmissionTargetID = tk_TargetID t,
      md_AdmissionServiceClass = tk_ServiceClass t\<rparr>"

definition schedulerTaskModelByID :: "string \<Rightarrow> sched_db \<Rightarrow> schedulerTaskModel option" where
  "schedulerTaskModelByID taskID db = find (\<lambda>m. row_id m = taskID) (db_Tasks db)"

definition schedulerTaskByID :: "string \<Rightarrow> sched_db \<Rightarrow> store_error + SchedulerTask option" where
  "schedulerTaskByID taskID db =
     (case schedulerTaskModelByID taskID db of
        None \<Rightarrow> Inr None
      | Some m \<Rightarrow> (case schedulerTaskFromModel m of Inl e \<Rightarrow> Inl e | Inr t \<Rightarrow> Inr (Some t)))"

definition SchedulerTaskOf :: "string \<Rightarrow> sched_db \<Rightarrow> store_error + SchedulerTask" where
  "SchedulerTaskOf taskID db =
     (if taskID = [] then Inl ErrInvalidRepository
      else (case schedulerTaskByID taskID db of
              Inl e \<Rightarrow> Inl e
            | Inr None \<Rightarrow> Inl ErrNotFound
            | Inr (Some t) \<Rightarrow> Inr t))"

definition schedulerTaskIdentityExists :: "SchedulerTask \<Rightarrow> sched_db \<Rightarrow> bool" where
  "schedulerTaskIdentityExists t db =
     list_ex (\<lambda>m. tk_DedupeKey (md_Task m) = tk_DedupeKey t \<or> tk_TargetID (md_Task m) = tk_TargetID t)
       (db_Tasks db)"

definition schedulerTargetMatchesJob :: "SchedulerTask \<Rightarrow> JobRun \<Rightarrow> bool" where
  "schedulerTargetMatchesJob t job \<longleftrightarrow>
     (jb_State job = JobQueued \<or> jb_State job = JobRunning) \<and>
     (tk_TargetKind t = SchedulerTargetLiveScan \<and> tk_Lane t = SchedulerLaneLive \<and>
        jb_Phase job = JobPhaseLive \<or>
      tk_TargetKind t = SchedulerTargetBootstrap \<and> tk_Lane t = SchedulerLaneBackfill \<and>
        jb_Phase job \<in> {JobPhaseDiscover, JobPhaseFastBootstrap, JobPhaseHistoryBackfill,
                        JobPhaseReconcile})"

definition lifecyclePermitsTask :: "SchedulerLifecycle \<Rightarrow> int64 \<Rightarrow> SchedulerLane \<Rightarrow> bool" where
  "lifecyclePermitsTask l homeGeneration lane =
     (if lc_HomeGeneration l \<noteq> homeGeneration \<or> lc_SystemState l \<noteq> LifecycleSystemAwake \<or>
         lc_Transition l \<noteq> LifecycleTransitionSteady \<or>
         lc_SourceState l \<noteq> LifecycleSourceAvailable \<or> lc_UserPauseScope l = LifecyclePauseAll
      then False
      else lane = SchedulerLaneLive \<or>
           lane = SchedulerLaneBackfill \<and> lc_UserPauseScope l \<noteq> LifecyclePauseBackfill)"

definition schedulerTaskActive :: "SchedulerTaskState \<Rightarrow> bool" where
  "schedulerTaskActive s \<longleftrightarrow>
     s = SchedulerTaskQueued \<or> s = SchedulerTaskRunning \<or> s = SchedulerTaskInterrupted"

definition schedulerTaskAdmissionMatches :: "schedulerTaskModel \<Rightarrow> SchedulerTask \<Rightarrow> bool" where
  "schedulerTaskAdmissionMatches m t \<longleftrightarrow>
     row_id m = tk_TaskID t \<and> tk_DedupeKey (md_Task m) = tk_DedupeKey t \<and>
     tk_TargetKind (md_Task m) = tk_TargetKind t \<and> md_AdmissionTargetID m = tk_TargetID t \<and>
     tk_HomeGeneration (md_Task m) = tk_HomeGeneration t \<and> tk_Lane (md_Task m) = tk_Lane t \<and>
     md_AdmissionServiceClass m = tk_ServiceClass t \<and>
     tk_EnqueuedAtMS (md_Task m) = tk_EnqueuedAtMS t"

text \<open>The columns that an update writes; the admission columns keep their values.\<close>

definition updateColumns :: "SchedulerTask \<Rightarrow> SchedulerTask \<Rightarrow> SchedulerTask" where
  "updateColumns old t =
     old\<lparr>tk_TargetID := tk_TargetID t, tk_ServiceClass := tk_ServiceClass t, tk_State := tk_State t,
         tk_QueueOrderMS := tk_QueueOrderMS t, tk_FirstStartedAtMS := tk_FirstStartedAtMS t,
         tk_LastStartedAtMS := tk_LastStartedAtMS t, tk_FinishedAtMS := tk_FinishedAtMS t,
         tk_FilesProcessed := tk_FilesProcessed t, tk_BytesProcessed := tk_BytesProcessed t,
         tk_SliceCount := tk_SliceCount t, tk_LastErrorClass := tk_LastErrorClass t,
         tk_UpdatedAtMS := tk_UpdatedAtMS t\<rparr>"

definition casHit :: "SchedulerTask \<Rightarrow> SchedulerTaskState \<Rightarrow> schedulerTaskModel \<Rightarrow> bool" where
  "casHit t expected m \<longleftrightarrow> row_id m = tk_TaskID t \<and> row_state m = expected"

definition updateSchedulerTaskCAS ::
  "SchedulerTask \<Rightarrow> SchedulerTaskState \<Rightarrow> sched_db \<Rightarrow> store_error + sched_db" where
  "updateSchedulerTaskCAS t expected db =
     (let hits = filter (casHit t expected) (db_Tasks db) in
      if hits \<noteq> [] \<and> list_ex (\<lambda>m. row_id m \<noteq> tk_TaskID t \<and>
                               tk_TargetID (md_Task m) = tk_TargetID t) (db_Tasks db)
      then Inl DBConstraint
      else if length hits \<noteq> 1 then Inl ErrSchedulerTransition
      else Inr (db\<lparr>db_Tasks :=
             map (\<lambda>m. if casHit t expected m then m\<lparr>md_Task := updateColumns (md_Task m) t\<rparr> else m)
               (db_Tasks db)\<rparr>))"

section \<open>Admission\<close>

definition admissionLifecycle :: "SchedulerTask \<Rightarrow> SchedulerLifecycle" where
  "admissionLifecycle t =
     \<lparr>lc_HomeGeneration = tk_HomeGeneration t, lc_UserPauseScope = LifecyclePauseNone,
      lc_SystemState = LifecycleSystemAwake, lc_Transition = LifecycleTransitionSteady,
      lc_SourceState = LifecycleSourceAvailable, lc_LastEventID = ''scheduler-admission'',
      lc_Revision = 1, lc_UpdatedAtMS = tk_EnqueuedAtMS t\<rparr>"

definition ensureSchedulerLifecycleForAdmission ::
  "SchedulerTask \<Rightarrow> sched_db \<Rightarrow> store_error + sched_db" where
  "ensureSchedulerLifecycleForAdmission t db =
     (case schedulerLifecycleIn db of
        Inl e \<Rightarrow> Inl e
      | Inr (Some _) \<Rightarrow> Inr db
      | Inr None \<Rightarrow>
          (case validateInitialSchedulerLifecycle (admissionLifecycle t) of
             Some e \<Rightarrow> Inl e
           | None \<Rightarrow> Inr (db\<lparr>db_Lifecycle := Some (admissionLifecycle t)\<rparr>)))"

definition laneActiveCount :: "SchedulerLane \<Rightarrow> sched_db \<Rightarrow> int" where
  "laneActiveCount lane db =
     int (length (filter (\<lambda>m. tk_Lane (md_Task m) = lane \<and> schedulerTaskActive (row_state m))
                    (db_Tasks db)))"

definition EnqueueSchedulerTask :: "SchedulerTask \<Rightarrow> int \<Rightarrow> sched_db \<Rightarrow> store_error + sched_db" where
  "EnqueueSchedulerTask t laneCapacity db0 =
     (if laneCapacity < 1 \<or> laneCapacity > 10000 then Inl ErrSchedulerTransition
      else case validateSchedulerAdmissionTask t of
        Some e \<Rightarrow> Inl e
      | None \<Rightarrow>
       (case ensureSchedulerLifecycleForAdmission t db0 of
          Inl e \<Rightarrow> Inl e
        | Inr db \<Rightarrow>
         (case schedulerTaskModelByID (tk_TaskID t) db of
            Some existing \<Rightarrow>
              if schedulerTaskAdmissionMatches existing t then Inr db else Inl ErrSchedulerConflict
          | None \<Rightarrow>
              if schedulerTaskIdentityExists t db then Inl ErrSchedulerConflict
              else (case db_Jobs db (tk_TargetID t) of
                      None \<Rightarrow> Inl ErrSchedulerConflict
                    | Some job \<Rightarrow>
                        if \<not> schedulerTargetMatchesJob t job then Inl ErrSchedulerConflict
                        else if laneActiveCount (tk_Lane t) db \<ge> laneCapacity
                        then Inl ErrSchedulerQueueFull
                        else Inr (db\<lparr>db_Tasks := db_Tasks db @ [schedulerTaskModelFromDomain t]\<rparr>)))))"

section \<open>Queue reads\<close>

definition taskQueueKey :: "schedulerTaskModel \<Rightarrow> int64 \<times> string" where
  "taskQueueKey m = (tk_QueueOrderMS (md_Task m), row_id m)"

definition taskQueueLess :: "schedulerTaskModel \<Rightarrow> schedulerTaskModel \<Rightarrow> bool" where
  "taskQueueLess a b \<longleftrightarrow> taskQueueKey a < taskQueueKey b"

text \<open>One lane of a snapshot: the depth, and the oldest row of the query.\<close>

definition snapshotLane ::
  "(schedulerTaskModel \<Rightarrow> bool) \<Rightarrow> sched_db \<Rightarrow> store_error + (int64 \<times> SchedulerTask option)" where
  "snapshotLane query db =
     (let rows = filter query (db_Tasks db) in
      case sort_by taskQueueLess rows of
        [] \<Rightarrow> Inr (int (length rows), None)
      | m # _ \<Rightarrow>
          (case schedulerTaskFromModel m of
             Inl e \<Rightarrow> Inl e
           | Inr t \<Rightarrow> Inr (int (length rows), Some t)))"

definition snapshotTail :: "(schedulerTaskModel \<Rightarrow> bool) \<Rightarrow> sched_db \<Rightarrow> int64" where
  "snapshotTail query db =
     (case sort_by (\<lambda>a b. taskQueueLess b a) (filter query (db_Tasks db)) of
        [] \<Rightarrow> 0
      | m # _ \<Rightarrow> tk_QueueOrderMS (md_Task m))"

definition SchedulerQueueSnapshotOf :: "sched_db \<Rightarrow> store_error + SchedulerQueueSnapshot" where
  "SchedulerQueueSnapshotOf db =
     (let lane = (\<lambda>l. snapshotLane (\<lambda>m. row_state m = SchedulerTaskQueued \<and>
                                       tk_Lane (md_Task m) = l) db) in
      case lane SchedulerLaneLive of
        Inl e \<Rightarrow> Inl e
      | Inr (liveDepth, live) \<Rightarrow>
          (case lane SchedulerLaneBackfill of
             Inl e \<Rightarrow> Inl e
           | Inr (backfillDepth, backfill) \<Rightarrow>
               Inr \<lparr>qs_LiveCandidate = live, qs_BackfillCandidate = backfill,
                    qs_LiveDepth = liveDepth, qs_BackfillDepth = backfillDepth,
                    qs_MaxQueueOrderMS = snapshotTail (\<lambda>m. schedulerTaskActive (row_state m)) db\<rparr>))"

definition SchedulerRunnableQueueSnapshot :: "sched_db \<Rightarrow> store_error + SchedulerQueueSnapshot" where
  "SchedulerRunnableQueueSnapshot db =
     (case schedulerLifecycleIn db of
        Inl e \<Rightarrow> Inl e
      | Inr None \<Rightarrow> Inl ErrSchedulerPaused
      | Inr (Some l) \<Rightarrow>
          (let permitted = lifecyclePermitsTask l (lc_HomeGeneration l);
               lane = (\<lambda>ln. if \<not> permitted ln then Inr (0, None)
                            else snapshotLane (\<lambda>m. row_state m = SchedulerTaskQueued \<and>
                                   tk_Lane (md_Task m) = ln \<and>
                                   tk_HomeGeneration (md_Task m) = lc_HomeGeneration l) db);
               permittedLanes = filter permitted [SchedulerLaneLive, SchedulerLaneBackfill]
           in case lane SchedulerLaneLive of
                Inl e \<Rightarrow> Inl e
              | Inr (liveDepth, live) \<Rightarrow>
                  (case lane SchedulerLaneBackfill of
                     Inl e \<Rightarrow> Inl e
                   | Inr (backfillDepth, backfill) \<Rightarrow>
                       Inr \<lparr>qs_LiveCandidate = live, qs_BackfillCandidate = backfill,
                            qs_LiveDepth = liveDepth, qs_BackfillDepth = backfillDepth,
                            qs_MaxQueueOrderMS =
                              (if permittedLanes = [] then 0
                               else snapshotTail (\<lambda>m. schedulerTaskActive (row_state m) \<and>
                                      tk_HomeGeneration (md_Task m) = lc_HomeGeneration l \<and>
                                      tk_Lane (md_Task m) \<in> set permittedLanes) db)\<rparr>)))"

fun tasksFromModels :: "schedulerTaskModel list \<Rightarrow> store_error + SchedulerTask list" where
  "tasksFromModels [] = Inr []"
| "tasksFromModels (m # ms) =
     (case schedulerTaskFromModel m of
        Inl e \<Rightarrow> Inl e
      | Inr t \<Rightarrow> (case tasksFromModels ms of Inl e \<Rightarrow> Inl e | Inr ts \<Rightarrow> Inr (t # ts)))"

definition ListRecoverableSchedulerTasks ::
  "(int64 \<times> string) option \<Rightarrow> int \<Rightarrow> sched_db \<Rightarrow>
   store_error + (SchedulerTask list \<times> (int64 \<times> string) option)" where
  "ListRecoverableSchedulerTasks after limit db =
     (case validateRuntimeLimit limit of
        Inl e \<Rightarrow> Inl e
      | Inr pageLimit \<Rightarrow>
          if (case after of None \<Rightarrow> False | Some (q, i) \<Rightarrow> q < 0 \<or> i = [])
          then Inl ErrSchedulerTransition
          else
            (let rows = filter (\<lambda>m. (row_state m = SchedulerTaskRunning \<or>
                                     row_state m = SchedulerTaskInterrupted) \<and>
                                   (case after of None \<Rightarrow> True | Some c \<Rightarrow> c < taskQueueKey m))
                          (db_Tasks db)
             in case tasksFromModels (take (nat pageLimit) (sort_by taskQueueLess rows)) of
                  Inl e \<Rightarrow> Inl e
                | Inr ts \<Rightarrow>
                    Inr (ts, if ts = [] then None
                             else Some (tk_QueueOrderMS (last ts), tk_TaskID (last ts)))))"

section \<open>Promotion, recovery and requeue\<close>

definition promoteHit :: "SchedulerTask \<Rightarrow> schedulerTaskModel \<Rightarrow> bool" where
  "promoteHit t m \<longleftrightarrow>
     row_id m = tk_TaskID t \<and> tk_ServiceClass (md_Task m) = SchedulerServiceBackground \<and>
     row_state m = tk_State t"

definition PromoteSchedulerTask ::
  "string \<Rightarrow> int64 \<Rightarrow> sched_db \<Rightarrow> store_error + (SchedulerTask \<times> sched_db)" where
  "PromoteSchedulerTask dedupeKey atMS db =
     (if dedupeKey = [] then Inl ErrInvalidRepository
      else case find (\<lambda>m. tk_DedupeKey (md_Task m) = dedupeKey) (db_Tasks db) of
        None \<Rightarrow> Inl ErrNotFound
      | Some model \<Rightarrow>
       (case schedulerTaskFromModel model of
          Inl e \<Rightarrow> Inl e
        | Inr t \<Rightarrow>
            if tk_ServiceClass t = SchedulerServiceInteractive then Inr (t, db)
            else if tk_ServiceClass t \<noteq> SchedulerServiceBackground \<or>
                    (tk_State t \<noteq> SchedulerTaskQueued \<and> tk_State t \<noteq> SchedulerTaskRunning)
            then Inl ErrSchedulerTransition
            else
              (let maximum = (if tk_State t = SchedulerTaskQueued then MaxSchedulerQueuedTimestampMS
                              else MaxSchedulerRunningTimestampMS);
                   atMS' = (if atMS \<le> tk_UpdatedAtMS t then tk_UpdatedAtMS t + 1 else atMS)
               in if atMS \<le> tk_UpdatedAtMS t \<and> tk_UpdatedAtMS t \<ge> maximum
                  then Inl ErrSchedulerTransition
                  else if atMS' > maximum then Inl ErrSchedulerTransition
                  else if length (filter (promoteHit t) (db_Tasks db)) \<noteq> 1
                  then Inl ErrSchedulerTransition
                  else Inr (t\<lparr>tk_ServiceClass := SchedulerServiceInteractive, tk_UpdatedAtMS := atMS'\<rparr>,
                            db\<lparr>db_Tasks := map (\<lambda>m. if promoteHit t m
                                 then m\<lparr>md_Task := (md_Task m)\<lparr>
                                        tk_ServiceClass := SchedulerServiceInteractive,
                                        tk_UpdatedAtMS := atMS'\<rparr>\<rparr>
                                 else m) (db_Tasks db)\<rparr>))))"

text \<open>The row that recovery and requeue write: queued again, bound to the resumed target.\<close>

definition rebound :: "string \<Rightarrow> int64 \<Rightarrow> int64 \<Rightarrow> SchedulerTask \<Rightarrow> SchedulerTask" where
  "rebound resumedTargetID queueOrderMS atMS t =
     t\<lparr>tk_TargetID := resumedTargetID, tk_State := SchedulerTaskQueued,
       tk_QueueOrderMS := queueOrderMS, tk_FinishedAtMS := None, tk_LastErrorClass := None,
       tk_UpdatedAtMS := atMS\<rparr>"

text \<open>The part recovery and requeue share: the lifecycle permit, the resumed job, the checked
  rewrite of the row.\<close>

definition rebindTask ::
  "string \<Rightarrow> int64 \<Rightarrow> int64 \<Rightarrow> SchedulerTask \<Rightarrow> sched_db \<Rightarrow>
   store_error + (SchedulerTask \<times> sched_db)" where
  "rebindTask resumedTargetID queueOrderMS atMS t db =
     (case schedulerLifecycleIn db of
        Inl e \<Rightarrow> Inl e
      | Inr lifecycle \<Rightarrow>
          if (case lifecycle of
                None \<Rightarrow> True
              | Some l \<Rightarrow> \<not> lifecyclePermitsTask l (tk_HomeGeneration t) (tk_Lane t))
          then Inl ErrSchedulerPaused
          else if (case db_Jobs db resumedTargetID of
                     None \<Rightarrow> True
                   | Some job \<Rightarrow>
                       \<not> schedulerTargetMatchesJob (t\<lparr>tk_TargetID := resumedTargetID\<rparr>) job)
          then Inl ErrSchedulerConflict
          else
            (let t' = rebound resumedTargetID queueOrderMS atMS t in
             case validateSchedulerTask t' of
               Some e \<Rightarrow> Inl e
             | None \<Rightarrow>
                 (case updateSchedulerTaskCAS t' (tk_State t) db of
                    Inl e \<Rightarrow> Inl e
                  | Inr db' \<Rightarrow> Inr (t', db'))))"

definition RecoverSchedulerTask ::
  "string \<Rightarrow> string \<Rightarrow> string \<Rightarrow> int64 \<Rightarrow> int64 \<Rightarrow> sched_db \<Rightarrow>
   store_error + (SchedulerTask \<times> sched_db)" where
  "RecoverSchedulerTask taskID expectedTargetID resumedTargetID queueOrderMS atMS db =
     (if taskID = [] \<or> expectedTargetID = [] \<or> resumedTargetID = [] then Inl ErrInvalidRepository
      else case schedulerTaskByID taskID db of
        Inl e \<Rightarrow> Inl e
      | Inr None \<Rightarrow> Inl ErrNotFound
      | Inr (Some t) \<Rightarrow>
          if tk_State t = SchedulerTaskQueued \<and> tk_TargetID t = resumedTargetID then Inr (t, db)
          else if tk_TargetID t \<noteq> expectedTargetID \<or>
                  (tk_State t \<noteq> SchedulerTaskRunning \<and> tk_State t \<noteq> SchedulerTaskInterrupted) \<or>
                  atMS \<le> tk_UpdatedAtMS t \<or> queueOrderMS \<le> tk_QueueOrderMS t \<or> queueOrderMS > atMS
          then Inl ErrSchedulerTransition
          else rebindTask resumedTargetID queueOrderMS atMS t db)"

definition retryHit :: "string \<Rightarrow> int64 \<Rightarrow> SchedulerRetryState \<Rightarrow> bool" where
  "retryHit taskID revision r \<longleftrightarrow>
     rt_TaskID r = taskID \<and> rt_Revision r = revision \<and> rt_Disposition r = SchedulerRetryWaiting"

definition resolveRetry :: "int64 \<Rightarrow> int64 \<Rightarrow> SchedulerRetryState \<Rightarrow> SchedulerRetryState" where
  "resolveRetry expectedRetryRevision atMS r =
     r\<lparr>rt_Disposition := SchedulerRetryResolved, rt_NextRetryAtMS := None,
       rt_RecoveryAction := SchedulerRecoveryNone, rt_Revision := expectedRetryRevision + 1,
       rt_UpdatedAtMS := atMS\<rparr>"

definition RequeueFailedSchedulerTask ::
  "string \<Rightarrow> string \<Rightarrow> string \<Rightarrow> int64 \<Rightarrow> int64 \<Rightarrow> int64 \<Rightarrow> sched_db \<Rightarrow>
   store_error + (SchedulerTask \<times> sched_db)" where
  "RequeueFailedSchedulerTask taskID expectedTargetID resumedTargetID expectedRetryRevision
     queueOrderMS atMS db =
     (if taskID = [] \<or> expectedTargetID = [] \<or> resumedTargetID = [] \<or> expectedRetryRevision < 1 \<or>
         expectedRetryRevision = max_int64
      then Inl ErrInvalidRepository
      else case schedulerTaskByID taskID db of
        Inl e \<Rightarrow> Inl e
      | Inr None \<Rightarrow> Inl ErrNotFound
      | Inr (Some t) \<Rightarrow>
       (case schedulerRetryStateIn taskID db of
          Inl e \<Rightarrow> Inl e
        | Inr None \<Rightarrow> Inl ErrSchedulerRetryTransition
        | Inr (Some r) \<Rightarrow>
            if tk_State t = SchedulerTaskQueued \<and> tk_TargetID t = resumedTargetID \<and>
               rt_Disposition r = SchedulerRetryResolved \<and>
               rt_Revision r = expectedRetryRevision + 1
            then Inr (t, db)
            else if tk_State t \<noteq> SchedulerTaskFailed \<or> tk_TargetID t \<noteq> expectedTargetID \<or>
                    rt_Disposition r \<noteq> SchedulerRetryWaiting \<or>
                    rt_Revision r \<noteq> expectedRetryRevision \<or>
                    (case rt_NextRetryAtMS r of None \<Rightarrow> True | Some due \<Rightarrow> atMS < due) \<or>
                    queueOrderMS \<le> tk_QueueOrderMS t \<or> queueOrderMS > atMS \<or>
                    atMS \<le> tk_UpdatedAtMS t \<or> atMS \<le> rt_UpdatedAtMS r
            then Inl ErrSchedulerRetryTransition
            else (case rebindTask resumedTargetID queueOrderMS atMS t db of
                    Inl e \<Rightarrow> Inl e
                  | Inr (t', db') \<Rightarrow>
                      if length (filter (retryHit taskID expectedRetryRevision) (db_Retries db')) \<noteq> 1
                      then Inl ErrSchedulerRetryTransition
                      else Inr (t', db'\<lparr>db_Retries :=
                             map (\<lambda>q. if retryHit taskID expectedRetryRevision q
                                       then resolveRetry expectedRetryRevision atMS q else q)
                               (db_Retries db')\<rparr>))))"

section \<open>Claim and commit\<close>

text \<open>The row a claim writes.\<close>

definition claimed :: "int64 \<Rightarrow> SchedulerTask \<Rightarrow> SchedulerTask" where
  "claimed atMS t =
     t\<lparr>tk_State := SchedulerTaskRunning,
       tk_FirstStartedAtMS :=
         (if tk_FirstStartedAtMS t = None then Some atMS else tk_FirstStartedAtMS t),
       tk_LastStartedAtMS := Some atMS, tk_UpdatedAtMS := atMS\<rparr>"

definition ClaimSchedulerTask ::
  "string \<Rightarrow> int64 \<Rightarrow> sched_db \<Rightarrow> store_error + (SchedulerTask \<times> sched_db)" where
  "ClaimSchedulerTask taskID atMS db =
     (if taskID = [] then Inl ErrInvalidRepository
      else case schedulerTaskByID taskID db of
        Inl e \<Rightarrow> Inl e
      | Inr None \<Rightarrow> Inl ErrSchedulerTransition
      | Inr (Some t) \<Rightarrow>
          if tk_State t \<noteq> SchedulerTaskQueued \<or> atMS \<le> tk_UpdatedAtMS t \<or>
             atMS > MaxSchedulerRunningTimestampMS
          then Inl ErrSchedulerTransition
          else (case schedulerLifecycleIn db of
                  Inl e \<Rightarrow> Inl e
                | Inr None \<Rightarrow> Inl ErrSchedulerPaused
                | Inr (Some l) \<Rightarrow>
                    if \<not> lifecyclePermitsTask l (tk_HomeGeneration t) (tk_Lane t)
                    then Inl ErrSchedulerPaused
                    else if list_ex (\<lambda>m. row_state m = SchedulerTaskRunning \<and> row_id m \<noteq> taskID)
                              (db_Tasks db)
                    then Inl ErrSchedulerBusy
                    else
                      (case updateSchedulerTaskCAS (claimed atMS t) SchedulerTaskQueued db of
                         Inl e \<Rightarrow> Inl e
                       | Inr db' \<Rightarrow> Inr (claimed atMS t, db'))))"

definition applySchedulerRetryMutation ::
  "string \<Rightarrow> int64 \<Rightarrow> SchedulerRetryMutation \<Rightarrow> sched_db \<Rightarrow> store_error + sched_db" where
  "applySchedulerRetryMutation taskID atMS m db =
     (if rm_ExpectedRevision m = max_int64 \<or> rm_FailureCount m = max_int64
      then Inl ErrSchedulerRetryTransition
      else case schedulerRetryStateIn taskID db of
        Inl e \<Rightarrow> Inl e
      | Inr found \<Rightarrow>
       (case validateSchedulerRetryState (retryCandidate taskID atMS m) of
          Some e \<Rightarrow> Inl e
        | None \<Rightarrow>
         (case found of
            None \<Rightarrow>
              if rm_ExpectedRevision m \<noteq> 0 \<or> rm_FailureCount m \<noteq> 1
              then Inl ErrSchedulerRetryTransition
              else Inr (db\<lparr>db_Retries := db_Retries db @ [retryCandidate taskID atMS m]\<rparr>)
          | Some current \<Rightarrow>
              if rt_Revision current = max_int64 \<or> rt_FailureCount current = max_int64 \<or>
                 rt_Revision current \<noteq> rm_ExpectedRevision m \<or>
                 rm_FailureCount m \<noteq> rt_FailureCount current + 1 \<or> atMS \<le> rt_UpdatedAtMS current
              then Inl ErrSchedulerRetryTransition
              else
                (let hit = (\<lambda>r. rt_TaskID r = taskID \<and> rt_Revision r = rm_ExpectedRevision m) in
                 if length (filter hit (db_Retries db)) \<noteq> 1 then Inl ErrSchedulerRetryTransition
                 else Inr (db\<lparr>db_Retries :=
                        map (\<lambda>r. if hit r then retryCandidate taskID atMS m else r)
                          (db_Retries db)\<rparr>)))))"

text \<open>The row a commit writes.\<close>

definition committed :: "SchedulerCycleCommit \<Rightarrow> SchedulerTask \<Rightarrow> SchedulerTask" where
  "committed c t =
     t\<lparr>tk_State := cm_State c,
       tk_FilesProcessed := add64 (tk_FilesProcessed t) (cm_FilesDelta c),
       tk_BytesProcessed := add64 (tk_BytesProcessed t) (cm_BytesDelta c),
       tk_SliceCount := add64 (tk_SliceCount t) 1,
       tk_LastErrorClass := cm_ErrorClass c,
       tk_UpdatedAtMS := cm_AtMS c,
       tk_QueueOrderMS := (if cm_State c = SchedulerTaskQueued then cm_QueueOrderMS c
                           else tk_QueueOrderMS t),
       tk_FinishedAtMS := (if cm_State c = SchedulerTaskQueued then None else Some (cm_AtMS c))\<rparr>"

definition commitRefused :: "SchedulerCycleCommit \<Rightarrow> SchedulerTask \<Rightarrow> bool" where
  "commitRefused c t \<longleftrightarrow>
     tk_State t \<noteq> cm_ExpectedState c \<or> cm_ExpectedState c \<noteq> SchedulerTaskRunning \<or>
     cm_AtMS c \<le> tk_UpdatedAtMS t \<or> tk_LastStartedAtMS t = None \<or>
     Some (cy_StartedAtMS (cm_Cycle c)) \<noteq> tk_LastStartedAtMS t \<or>
     tk_FilesProcessed t > max_int64 - cm_FilesDelta c \<or>
     tk_BytesProcessed t > max_int64 - cm_BytesDelta c \<or> tk_SliceCount t = max_int64 \<or>
     cm_State c = SchedulerTaskQueued \<and>
       (cm_QueueOrderMS c \<le> tk_QueueOrderMS t \<or> cm_QueueOrderMS c > cm_AtMS c)"

definition CommitSchedulerCycle :: "SchedulerCycleCommit \<Rightarrow> sched_db \<Rightarrow> store_error + sched_db" where
  "CommitSchedulerCycle c db =
     (case validateSchedulerCycleCommit c of
        Some e \<Rightarrow> Inl e
      | None \<Rightarrow>
       (case schedulerTaskByID (cm_TaskID c) db of
          Inl e \<Rightarrow> Inl e
        | Inr None \<Rightarrow> Inl ErrSchedulerTransition
        | Inr (Some t) \<Rightarrow>
            if commitRefused c t then Inl ErrSchedulerTransition
            else
         (case validateSchedulerTask (committed c t) of
            Some e \<Rightarrow> Inl e
          | None \<Rightarrow>
           (case updateSchedulerTaskCAS (committed c t) (cm_ExpectedState c) db of
              Inl e \<Rightarrow> Inl e
            | Inr db1 \<Rightarrow>
             (case (case cm_Retry c of
                      None \<Rightarrow> Inr db1
                    | Some m \<Rightarrow> applySchedulerRetryMutation (tk_TaskID t) (cm_AtMS c) m db1) of
                Inl e \<Rightarrow> Inl e
              | Inr db2 \<Rightarrow>
                  if cy_CycleID (cm_Cycle c) \<in> cy_CycleID ` set (db_Cycles db2) then Inl DBConstraint
                  else Inr (db2\<lparr>db_Cycles := cm_Cycle c # db_Cycles db2\<rparr>))))))"

definition schedulerCycleFromModel :: "SchedulerCycle \<Rightarrow> store_error + SchedulerCycle" where
  "schedulerCycleFromModel c =
     (if \<not> validSchedulerLane (cy_Lane c) \<or> \<not> validSchedulerSelectionReason (cy_SelectionReason c) \<or>
         \<not> validSchedulerStopReason (cy_StopReason c) \<or> \<not> validSchedulerCycleOutcome (cy_Outcome c)
      then Inl ErrSchedulerTransition else Inr c)"

fun cyclesFromModels :: "SchedulerCycle list \<Rightarrow> store_error + SchedulerCycle list" where
  "cyclesFromModels [] = Inr []"
| "cyclesFromModels (c # cs) =
     (case schedulerCycleFromModel c of
        Inl e \<Rightarrow> Inl e
      | Inr x \<Rightarrow> (case cyclesFromModels cs of Inl e \<Rightarrow> Inl e | Inr xs \<Rightarrow> Inr (x # xs)))"

definition ListSchedulerCycles ::
  "string option \<Rightarrow> SchedulerLane option \<Rightarrow> int \<Rightarrow> sched_db \<Rightarrow> store_error + SchedulerCycle list" where
  "ListSchedulerCycles taskID lane limit db =
     (case validateRuntimeLimit limit of
        Inl e \<Rightarrow> Inl e
      | Inr l \<Rightarrow>
          cyclesFromModels (take (nat l) (filter (\<lambda>c.
            (case taskID of None \<Rightarrow> True | Some i \<Rightarrow> cy_TaskID c = i) \<and>
            (case lane of None \<Rightarrow> True | Some ln \<Rightarrow> cy_Lane c = ln)) (db_Cycles db))))"

definition SchedulerTaskByTarget :: "string \<Rightarrow> sched_db \<Rightarrow> store_error + SchedulerTask" where
  "SchedulerTaskByTarget targetID db =
     (if targetID = [] then Inl ErrInvalidRepository
      else case find (\<lambda>m. tk_TargetID (md_Task m) = targetID) (db_Tasks db) of
        None \<Rightarrow> Inl ErrNotFound
      | Some m \<Rightarrow> schedulerTaskFromModel m)"

section \<open>The tables' CHECK clauses\<close>

fun stateColumnCheck :: "SchedulerTask \<Rightarrow> bool" where
  "stateColumnCheck t =
     (tk_State t = SchedulerTaskQueued \<and> tk_FinishedAtMS t = None \<and> tk_LastErrorClass t = None \<or>
      tk_State t = SchedulerTaskRunning \<and> tk_LastStartedAtMS t \<noteq> None \<and> tk_FinishedAtMS t = None \<and>
        tk_LastErrorClass t = None \<or>
      tk_State t = SchedulerTaskSucceeded \<and> tk_LastStartedAtMS t \<noteq> None \<and>
        tk_FinishedAtMS t \<noteq> None \<and> tk_LastErrorClass t = None \<or>
      tk_State t = SchedulerTaskFailed \<and> tk_LastStartedAtMS t \<noteq> None \<and>
        tk_FinishedAtMS t \<noteq> None \<and> tk_LastErrorClass t \<noteq> None \<or>
      tk_State t = SchedulerTaskInterrupted \<and> tk_LastStartedAtMS t \<noteq> None \<and>
        tk_FinishedAtMS t \<noteq> None)"

definition scheduler_tasks_check :: "schedulerTaskModel \<Rightarrow> bool" where
  "scheduler_tasks_check m =
     (let t = md_Task m;
          after = (\<lambda>x. case x of None \<Rightarrow> True | Some v \<Rightarrow> v \<ge> tk_EnqueuedAtMS t) in
      tk_TaskID t \<noteq> [] \<and> tk_DedupeKey t \<noteq> [] \<and>
      (tk_TargetKind t = SchedulerTargetBootstrap \<or> tk_TargetKind t = SchedulerTargetLiveScan) \<and>
      md_AdmissionTargetID m \<noteq> [] \<and> tk_TargetID t \<noteq> [] \<and> tk_HomeGeneration t \<ge> 0 \<and>
      (tk_Lane t = SchedulerLaneLive \<or> tk_Lane t = SchedulerLaneBackfill) \<and>
      validSchedulerServiceClass (md_AdmissionServiceClass m) \<and>
      validSchedulerServiceClass (tk_ServiceClass t) \<and> validSchedulerTaskState (tk_State t) \<and>
      tk_QueueOrderMS t \<ge> 0 \<and> tk_EnqueuedAtMS t \<ge> 0 \<and> after (tk_FirstStartedAtMS t) \<and>
      after (tk_LastStartedAtMS t) \<and> after (tk_FinishedAtMS t) \<and> tk_FilesProcessed t \<ge> 0 \<and>
      tk_BytesProcessed t \<ge> 0 \<and> tk_SliceCount t \<ge> 0 \<and>
      (case tk_LastErrorClass t of None \<Rightarrow> True | Some e \<Rightarrow> validRuntimeErrorClass e) \<and>
      tk_UpdatedAtMS t \<ge> tk_EnqueuedAtMS t \<and>
      ((tk_FirstStartedAtMS t = None) = (tk_LastStartedAtMS t = None)) \<and>
      (case (tk_FirstStartedAtMS t, tk_LastStartedAtMS t) of
         (Some f, Some l) \<Rightarrow> f \<le> l | _ \<Rightarrow> True) \<and>
      (case (tk_FinishedAtMS t, tk_LastStartedAtMS t) of
         (Some d, Some l) \<Rightarrow> d \<ge> l | _ \<Rightarrow> True) \<and>
      stateColumnCheck t)"

end
