(* ===== verification/Task_Invariants.thy ===== *)
theory Task_Invariants
  imports Task_Store
begin

text \<open>
  What the task table is allowed to do, and that the transactions of \<open>Task_Store\<close> do no more.

  \<open>task_step\<close> is the state machine of one task: a claim, a cycle commit, a rebind (recovery
  or retry requeue) or a promotion. \<open>table_step\<close> is the abstract specification of a
  transaction on the table: nothing changes, one fresh queued row is appended, or one row takes a
  \<open>task_step\<close> while every other row stays. Every transaction refines it under the table
  invariant, and the invariant follows by rule induction.
\<close>

section \<open>The abstract task machine\<close>

inductive task_step :: "SchedulerTask \<Rightarrow> SchedulerTask \<Rightarrow> bool" where
  promote: "tk_ServiceClass t = SchedulerServiceBackground \<Longrightarrow>
     tk_State t \<in> {SchedulerTaskQueued, SchedulerTaskRunning} \<Longrightarrow> tk_UpdatedAtMS t < a \<Longrightarrow>
     task_step t (t\<lparr>tk_ServiceClass := SchedulerServiceInteractive, tk_UpdatedAtMS := a\<rparr>)"
| claim: "tk_State t = SchedulerTaskQueued \<Longrightarrow> tk_UpdatedAtMS t < a \<Longrightarrow> task_step t (claimed a t)"
| commit: "validateSchedulerCycleCommit c = None \<Longrightarrow> \<not> commitRefused c t \<Longrightarrow>
     task_step t (committed c t)"
| rebind: "tk_State t \<in> {SchedulerTaskRunning, SchedulerTaskInterrupted, SchedulerTaskFailed} \<Longrightarrow>
     tk_QueueOrderMS t < q \<Longrightarrow> q \<le> a \<Longrightarrow> tk_UpdatedAtMS t < a \<Longrightarrow>
     task_step t (rebound target q a t)"

inductive_cases task_stepE: "task_step t t'"

definition row_ok :: "schedulerTaskModel \<Rightarrow> bool" where
  "row_ok m \<longleftrightarrow>
     md_AdmissionTargetID m \<noteq> [] \<and> validSchedulerServiceClass (md_AdmissionServiceClass m) \<and>
     validateSchedulerTask (md_Task m) = None \<and> tk_SliceCount (md_Task m) \<le> max_int64 \<and>
     tk_FilesProcessed (md_Task m) \<le> max_int64 \<and> tk_BytesProcessed (md_Task m) \<le> max_int64 \<and>
     tk_QueueOrderMS (md_Task m) \<le> tk_UpdatedAtMS (md_Task m) \<and>
     (case tk_LastStartedAtMS (md_Task m) of None \<Rightarrow> True | Some l \<Rightarrow> l \<le> tk_UpdatedAtMS (md_Task m))"

abbreviation row_dedupe :: "schedulerTaskModel \<Rightarrow> string" where
  "row_dedupe m \<equiv> tk_DedupeKey (md_Task m)"

abbreviation row_target :: "schedulerTaskModel \<Rightarrow> string" where
  "row_target m \<equiv> tk_TargetID (md_Task m)"

abbreviation running_rows :: "schedulerTaskModel list \<Rightarrow> schedulerTaskModel list" where
  "running_rows ms \<equiv> filter (\<lambda>m. row_state m = SchedulerTaskRunning) ms"

definition rows_inv :: "schedulerTaskModel list \<Rightarrow> bool" where
  "rows_inv ms \<longleftrightarrow>
     distinct (map row_id ms) \<and> distinct (map row_dedupe ms) \<and> distinct (map row_target ms) \<and>
     length (running_rows ms) \<le> 1 \<and> list_all row_ok ms"

inductive table_step :: "schedulerTaskModel list \<Rightarrow> schedulerTaskModel list \<Rightarrow> bool" where
  keep: "table_step ms ms"
| admit: "validateSchedulerAdmissionTask t = None \<Longrightarrow> tk_TaskID t \<notin> row_id ` set ms \<Longrightarrow>
     tk_DedupeKey t \<notin> row_dedupe ` set ms \<Longrightarrow> tk_TargetID t \<notin> row_target ` set ms \<Longrightarrow>
     table_step ms (ms @ [schedulerTaskModelFromDomain t])"
| row: "task_step (md_Task m) t' \<Longrightarrow> validateSchedulerTask t' = None \<Longrightarrow>
     tk_TargetID t' \<notin> row_target ` set (pre @ suf) \<Longrightarrow>
     (tk_State t' = SchedulerTaskRunning \<Longrightarrow> running_rows (pre @ suf) = []) \<Longrightarrow>
     table_step (pre @ m # suf) (pre @ m\<lparr>md_Task := t'\<rparr> # suf)"

section \<open>Facts about one step\<close>

lemma validateSchedulerTaskD:
  assumes "validateSchedulerTask t = None"
  shows "\<not> taskFieldsInvalid t" "\<not> taskLimitsInvalid t" "\<not> taskTimesInvalid t"
    "\<not> taskStateShapeInvalid t" "validateRuntimeErrorClass (tk_LastErrorClass t) = None"
  using assms by (auto simp: validateSchedulerTask_def split: if_splits option.splits)

lemma validateSchedulerTaskI:
  assumes "\<not> taskFieldsInvalid t" "\<not> taskLimitsInvalid t" "\<not> taskTimesInvalid t"
    "\<not> taskStateShapeInvalid t" "validateRuntimeErrorClass (tk_LastErrorClass t) = None"
  shows "validateSchedulerTask t = None"
  using assms by (simp add: validateSchedulerTask_def)

lemma task_boundsD:
  assumes "validateSchedulerTask t = None"
  shows "tk_EnqueuedAtMS t \<le> tk_UpdatedAtMS t" "0 \<le> tk_FilesProcessed t"
    "0 \<le> tk_BytesProcessed t" "0 \<le> tk_SliceCount t" "tk_EnqueuedAtMS t \<le> tk_QueueOrderMS t"
    "0 \<le> tk_EnqueuedAtMS t" "tk_UpdatedAtMS t \<le> MaxSchedulerTimestampMS"
  using validateSchedulerTaskD(1)[OF assms] by (auto simp: taskFieldsInvalid_def)

lemma committed_counters:
  assumes v: "validateSchedulerCycleCommit c = None" and r: "\<not> commitRefused c t"
    and t: "0 \<le> tk_FilesProcessed t" "0 \<le> tk_BytesProcessed t" "0 \<le> tk_SliceCount t"
      "tk_SliceCount t \<le> max_int64"
  shows "tk_FilesProcessed (committed c t) = tk_FilesProcessed t + cm_FilesDelta c"
    and "tk_BytesProcessed (committed c t) = tk_BytesProcessed t + cm_BytesDelta c"
    and "tk_SliceCount (committed c t) = tk_SliceCount t + 1"
    and "0 \<le> cm_FilesDelta c" "0 \<le> cm_BytesDelta c"
proof -
  from v have d: "0 \<le> cm_FilesDelta c" "0 \<le> cm_BytesDelta c"
    by (auto simp: validateSchedulerCycleCommit_def commitFieldsInvalid_def Let_def split: if_splits)
  from r have g: "tk_FilesProcessed t \<le> max_int64 - cm_FilesDelta c"
      "tk_BytesProcessed t \<le> max_int64 - cm_BytesDelta c" "tk_SliceCount t \<noteq> max_int64"
    by (auto simp: commitRefused_def)
  show "tk_FilesProcessed (committed c t) = tk_FilesProcessed t + cm_FilesDelta c"
    "tk_BytesProcessed (committed c t) = tk_BytesProcessed t + cm_BytesDelta c"
    "tk_SliceCount (committed c t) = tk_SliceCount t + 1"
    using d g t by (simp_all add: committed_def add64_id in64_def max_int64_def)
  show "0 \<le> cm_FilesDelta c" "0 \<le> cm_BytesDelta c" by (fact d)+
qed

lemma commit_stateD:
  assumes "validateSchedulerCycleCommit c = None"
  shows "cm_State c \<in> {SchedulerTaskQueued, SchedulerTaskSucceeded, SchedulerTaskFailed,
                       SchedulerTaskInterrupted}"
  using assms
  by (auto simp: validateSchedulerCycleCommit_def split: if_splits SchedulerCycleOutcome.splits)

text \<open>The columns that name a task never change.\<close>

lemma task_step_identity:
  assumes "task_step t t'"
  shows "tk_TaskID t' = tk_TaskID t" "tk_DedupeKey t' = tk_DedupeKey t"
    "tk_TargetKind t' = tk_TargetKind t" "tk_HomeGeneration t' = tk_HomeGeneration t"
    "tk_Lane t' = tk_Lane t" "tk_EnqueuedAtMS t' = tk_EnqueuedAtMS t"
  using assms by (induction) (simp_all add: claimed_def committed_def rebound_def)

lemma task_step_time: "task_step t t' \<Longrightarrow> tk_UpdatedAtMS t < tk_UpdatedAtMS t'"
  by (induction rule: task_step.induct)
    (auto simp: claimed_def committed_def rebound_def commitRefused_def)

lemma task_step_queue_order: "task_step t t' \<Longrightarrow> tk_QueueOrderMS t \<le> tk_QueueOrderMS t'"
  by (induction rule: task_step.induct)
    (auto simp: claimed_def committed_def rebound_def commitRefused_def)

lemma task_step_not_succeeded: "task_step t t' \<Longrightarrow> tk_State t \<noteq> SchedulerTaskSucceeded"
  by (induction rule: task_step.induct) (auto simp: commitRefused_def)

text \<open>The queue order never runs ahead of the update time.\<close>

lemma task_step_order:
  "task_step t t' \<Longrightarrow> tk_QueueOrderMS t \<le> tk_UpdatedAtMS t \<Longrightarrow> tk_QueueOrderMS t' \<le> tk_UpdatedAtMS t'"
  by (induction rule: task_step.induct)
    (auto simp: claimed_def committed_def rebound_def commitRefused_def)

text \<open>A start time never runs ahead of the update time.\<close>

lemma task_step_started:
  assumes "task_step t t'"
    and "case tk_LastStartedAtMS t of None \<Rightarrow> True | Some l \<Rightarrow> l \<le> tk_UpdatedAtMS t"
  shows "case tk_LastStartedAtMS t' of None \<Rightarrow> True | Some l \<Rightarrow> l \<le> tk_UpdatedAtMS t'"
  using assms
proof (induction rule: task_step.induct)
  case (commit c t)
  then show ?case by (auto simp: committed_def commitRefused_def split: option.splits)
qed (auto simp: claimed_def rebound_def split: option.splits)

text \<open>The counters stay inside int64.\<close>

lemma task_step_counters:
  assumes "task_step t t'"
  shows "tk_SliceCount t \<le> max_int64 \<Longrightarrow> tk_SliceCount t' \<le> max_int64"
    and "tk_FilesProcessed t \<le> max_int64 \<Longrightarrow> tk_FilesProcessed t' \<le> max_int64"
    and "tk_BytesProcessed t \<le> max_int64 \<Longrightarrow> tk_BytesProcessed t' \<le> max_int64"
  using assms
proof (induction rule: task_step.induct)
  case (commit c t)
  have b: "add64 x y \<le> max_int64" for x y
    using in64_wrap64[of "x + y"] by (simp add: add64_def in64_def max_int64_def)
  { case 1 show ?case by (simp add: committed_def b) }
  { case 2 show ?case by (simp add: committed_def b) }
  { case 3 show ?case by (simp add: committed_def b) }
qed (simp_all add: claimed_def rebound_def)

text \<open>A claim writes a valid row without validating it: the table invariant supplies what
  \<open>validateSchedulerTask\<close> would check.\<close>

lemma claimed_valid:
  assumes "row_ok m" and "row_state m = SchedulerTaskQueued"
    and "tk_UpdatedAtMS (md_Task m) < a" and "a \<le> MaxSchedulerRunningTimestampMS"
  shows "validateSchedulerTask (claimed a (md_Task m)) = None"
proof (rule validateSchedulerTaskI)
  let ?t = "md_Task m"
  note ok = assms(1)[unfolded row_ok_def]
  note d = validateSchedulerTaskD[of ?t]
  have f: "\<not> taskFieldsInvalid ?t" and l: "\<not> taskLimitsInvalid ?t" and tm: "\<not> taskTimesInvalid ?t"
    and sh: "\<not> taskStateShapeInvalid ?t"
    and st: "case tk_LastStartedAtMS ?t of None \<Rightarrow> True | Some s \<Rightarrow> s \<le> tk_UpdatedAtMS ?t"
    using ok d by blast+
  have a: "a \<le> MaxSchedulerTimestampMS" using assms(4) by (simp add: scheduler_limits)
  show "\<not> taskFieldsInvalid (claimed a ?t)"
    using f assms(3) a by (auto simp: taskFieldsInvalid_def claimed_def timestampPointerAfter_def)
  show "\<not> taskLimitsInvalid (claimed a ?t)"
    using l assms(2,4) by (auto simp: taskLimitsInvalid_def claimed_def)
  show "\<not> taskTimesInvalid (claimed a ?t)"
    using f tm sh st assms(2,3)
    by (auto simp: taskTimesInvalid_def claimed_def taskFieldsInvalid_def split: option.splits)
  show "\<not> taskStateShapeInvalid (claimed a ?t)" using sh assms(2) by (simp add: claimed_def)
  show "validateRuntimeErrorClass (tk_LastErrorClass (claimed a ?t)) = None"
    using sh assms(2) by (simp add: claimed_def validateRuntimeErrorClass_def)
qed

section \<open>Steps of the table keep its invariant\<close>

lemma rows_inv_admit:
  assumes inv: "rows_inv ms" and v: "validateSchedulerAdmissionTask t = None"
    and "tk_TaskID t \<notin> row_id ` set ms" "tk_DedupeKey t \<notin> row_dedupe ` set ms"
      "tk_TargetID t \<notin> row_target ` set ms"
  shows "rows_inv (ms @ [schedulerTaskModelFromDomain t])"
proof -
  from v have t: "validateSchedulerTask t = None" "tk_State t = SchedulerTaskQueued"
      "tk_LastStartedAtMS t = None" "tk_SliceCount t = 0" "tk_FilesProcessed t = 0"
      "tk_BytesProcessed t = 0" "tk_QueueOrderMS t \<le> tk_UpdatedAtMS t"
    by (auto simp: validateSchedulerAdmissionTask_def split: option.splits if_splits)
  then have "row_ok (schedulerTaskModelFromDomain t)"
    using validateSchedulerTaskD(1)[OF t(1)]
    by (auto simp: row_ok_def schedulerTaskModelFromDomain_def taskFieldsInvalid_def max_int64_def)
  with assms t show ?thesis by (auto simp: rows_inv_def schedulerTaskModelFromDomain_def)
qed

lemma rows_inv_row:
  assumes inv: "rows_inv (pre @ m # suf)" and st: "task_step (md_Task m) t'"
    and v: "validateSchedulerTask t' = None" and "tk_TargetID t' \<notin> row_target ` set (pre @ suf)"
    and run: "tk_State t' = SchedulerTaskRunning \<Longrightarrow> running_rows (pre @ suf) = []"
  shows "rows_inv (pre @ m\<lparr>md_Task := t'\<rparr> # suf)"
proof -
  have "row_ok (m\<lparr>md_Task := t'\<rparr>)"
    using inv v task_step_started[OF st] task_step_counters[OF st] task_step_order[OF st]
    by (auto simp: rows_inv_def row_ok_def split: option.splits)
  moreover have "length (running_rows (pre @ m\<lparr>md_Task := t'\<rparr> # suf)) \<le> 1"
  proof (cases "tk_State t' = SchedulerTaskRunning")
    case True
    with run have "running_rows pre = []" "running_rows suf = []" by simp_all
    then show ?thesis by simp
  next
    case False
    then show ?thesis using inv by (auto simp: rows_inv_def split: if_splits)
  qed
  ultimately show ?thesis
    using assms task_step_identity[OF st] by (auto simp: rows_inv_def)
qed

lemma table_step_inv: "table_step ms ms' \<Longrightarrow> rows_inv ms \<Longrightarrow> rows_inv ms'"
  by (induction rule: table_step.induct) (auto intro: rows_inv_admit rows_inv_row)

section \<open>Reading and updating one row\<close>

lemma row_ok_fromModel: "row_ok m \<Longrightarrow> schedulerTaskFromModel m = Inr (md_Task m)"
  by (simp add: row_ok_def schedulerTaskFromModel_def)

lemma schedulerTaskFromModel_Inr:
  "schedulerTaskFromModel m = Inr t \<Longrightarrow> t = md_Task m \<and> validateSchedulerTask t = None"
  by (auto simp: schedulerTaskFromModel_def split: if_splits option.splits)

lemma schedulerTaskByID_Some:
  assumes "schedulerTaskByID i db = Inr (Some t)"
  shows "\<exists>m. m \<in> set (db_Tasks db) \<and> md_Task m = t \<and> tk_TaskID t = i \<and> validateSchedulerTask t = None"
  using assms schedulerTaskFromModel_Inr
  by (fastforce simp: schedulerTaskByID_def schedulerTaskModelByID_def find_Some_iff in_set_conv_nth
      split: option.splits sum.splits)

definition same_columns :: "SchedulerTask \<Rightarrow> SchedulerTask \<Rightarrow> bool" where
  "same_columns t t' \<longleftrightarrow>
     tk_TaskID t' = tk_TaskID t \<and> tk_DedupeKey t' = tk_DedupeKey t \<and>
     tk_TargetKind t' = tk_TargetKind t \<and> tk_HomeGeneration t' = tk_HomeGeneration t \<and>
     tk_Lane t' = tk_Lane t \<and> tk_EnqueuedAtMS t' = tk_EnqueuedAtMS t"

lemma task_step_same_columns: "task_step t t' \<Longrightarrow> same_columns t t'"
  using task_step_identity by (simp add: same_columns_def)

lemma updateColumns_same: "same_columns t t' \<Longrightarrow> updateColumns t t' = t'"
  by (simp add: updateColumns_def same_columns_def)

lemma updateSchedulerTaskCAS_ok:
  assumes inv: "rows_inv (db_Tasks db)" and t: "schedulerTaskByID i db = Inr (Some t)"
    and same: "same_columns t t'" and cas: "updateSchedulerTaskCAS t' s db = Inr db'"
  obtains pre m suf where "db_Tasks db = pre @ m # suf" "md_Task m = t" "tk_State t = s"
    "db' = db\<lparr>db_Tasks := pre @ m\<lparr>md_Task := t'\<rparr> # suf\<rparr>"
    "tk_TargetID t' \<notin> row_target ` set (pre @ suf)" "row_ok m"
proof -
  have d: "distinct (map row_id (db_Tasks db))" using inv by (simp add: rows_inv_def)
  from cas have one: "length (filter (casHit t' s) (db_Tasks db)) = 1"
    and db': "db' = db\<lparr>db_Tasks := map (\<lambda>m. if casHit t' s m
                then m\<lparr>md_Task := updateColumns (md_Task m) t'\<rparr> else m) (db_Tasks db)\<rparr>"
    by (auto simp: updateSchedulerTaskCAS_def Let_def split: if_splits)
  from one obtain pre m suf where ms: "db_Tasks db = pre @ m # suf" and hit: "casHit t' s m"
    and miss: "\<forall>y \<in> set (pre @ suf). \<not> casHit t' s y"
    by (rule filter_length_1_split)
  obtain m0 where m0: "m0 \<in> set (db_Tasks db)" "md_Task m0 = t" "tk_TaskID t = i"
    using schedulerTaskByID_Some[OF t] by blast
  have m: "md_Task m = t"
    using distinct_row_unique[OF d, of m m0] m0 hit same ms by (auto simp: casHit_def same_columns_def)
  have tgt: "tk_TargetID t' \<notin> row_target ` set (pre @ suf)"
  proof
    assume "tk_TargetID t' \<in> row_target ` set (pre @ suf)"
    then obtain y where y: "y \<in> set (pre @ suf)" "row_target y = tk_TargetID t'"
      by (metis imageE)
    have "row_id y \<noteq> row_id m" using distinct_middle_neq[OF d[unfolded ms] y(1)] .
    then have "row_id y \<noteq> tk_TaskID t'" using m same by (simp add: same_columns_def)
    then have "list_ex (\<lambda>m. row_id m \<noteq> tk_TaskID t' \<and> row_target m = tk_TargetID t') (db_Tasks db)"
      using y ms by (auto simp: list_ex_iff)
    moreover have "filter (casHit t' s) (db_Tasks db) \<noteq> []" using one by auto
    ultimately show False using cas by (simp add: updateSchedulerTaskCAS_def Let_def)
  qed
  show thesis
  proof (rule that[OF ms m])
    show "tk_State t = s" using hit m by (simp add: casHit_def)
    show "db' = db\<lparr>db_Tasks := pre @ m\<lparr>md_Task := t'\<rparr> # suf\<rparr>"
      using db' map_if_unique[OF hit miss, of "\<lambda>m. m\<lparr>md_Task := updateColumns (md_Task m) t'\<rparr>"]
      by (simp add: ms m updateColumns_same[OF same])
    show "tk_TargetID t' \<notin> row_target ` set (pre @ suf)" by (fact tgt)
    show "row_ok m" using inv ms by (simp add: rows_inv_def)
  qed
qed

section \<open>Each transaction refines a table step\<close>

lemma EnqueueSchedulerTask_refines:
  assumes "EnqueueSchedulerTask t cap db = Inr db'"
  shows "table_step (db_Tasks db) (db_Tasks db') \<and> db_Retries db' = db_Retries db \<and>
         db_Cycles db' = db_Cycles db"
proof -
  from assms have v: "validateSchedulerAdmissionTask t = None"
    by (auto simp: EnqueueSchedulerTask_def split: if_splits option.splits)
  with assms obtain db1 where db1: "ensureSchedulerLifecycleForAdmission t db = Inr db1"
    by (auto simp: EnqueueSchedulerTask_def split: if_splits sum.splits)
  then have same: "db_Tasks db1 = db_Tasks db" "db_Retries db1 = db_Retries db"
      "db_Cycles db1 = db_Cycles db"
    by (auto simp: ensureSchedulerLifecycleForAdmission_def split: sum.splits option.splits)
  show ?thesis
  proof (cases "schedulerTaskModelByID (tk_TaskID t) db1")
    case (Some m)
    with assms v db1 have "db' = db1" by (auto simp: EnqueueSchedulerTask_def split: if_splits)
    with same show ?thesis by (simp add: table_step.keep)
  next
    case None
    with assms v db1 have new: "\<not> schedulerTaskIdentityExists t db1"
      and db': "db' = db1\<lparr>db_Tasks := db_Tasks db1 @ [schedulerTaskModelFromDomain t]\<rparr>"
      by (auto simp: EnqueueSchedulerTask_def split: if_splits option.splits)
    have "tk_TaskID t \<notin> row_id ` set (db_Tasks db1)"
      using None by (auto simp: schedulerTaskModelByID_def find_None_iff)
    moreover have "tk_DedupeKey t \<notin> row_dedupe ` set (db_Tasks db1)"
        "tk_TargetID t \<notin> row_target ` set (db_Tasks db1)"
      using new by (auto simp: schedulerTaskIdentityExists_def list_ex_iff)
    ultimately have "table_step (db_Tasks db1) (db_Tasks db1 @ [schedulerTaskModelFromDomain t])"
      using v by (intro table_step.admit)
    with db' same show ?thesis by simp
  qed
qed

text \<open>The update that every rewriting transaction ends in.\<close>

lemma cas_refines:
  assumes inv: "rows_inv (db_Tasks db)" and t: "schedulerTaskByID i db = Inr (Some t)"
    and st: "task_step t t'" and cas: "updateSchedulerTaskCAS t' s db = Inr db'"
    and v: "validateSchedulerTask t' = None"
    and run: "tk_State t' = SchedulerTaskRunning \<Longrightarrow>
      \<not> list_ex (\<lambda>m. row_state m = SchedulerTaskRunning \<and> row_id m \<noteq> tk_TaskID t) (db_Tasks db)"
  shows "table_step (db_Tasks db) (db_Tasks db') \<and> db_Retries db' = db_Retries db \<and>
         db_Cycles db' = db_Cycles db \<and> db_Lifecycle db' = db_Lifecycle db \<and>
         row_id ` set (db_Tasks db') = row_id ` set (db_Tasks db)"
proof -
  obtain pre m suf where c: "db_Tasks db = pre @ m # suf" "md_Task m = t"
    "db' = db\<lparr>db_Tasks := pre @ m\<lparr>md_Task := t'\<rparr> # suf\<rparr>"
    "tk_TargetID t' \<notin> row_target ` set (pre @ suf)"
    using updateSchedulerTaskCAS_ok[OF inv t task_step_same_columns[OF st] cas] by metis
  have "running_rows (pre @ suf) = []" if "tk_State t' = SchedulerTaskRunning"
  proof -
    have "distinct (map row_id (pre @ m # suf))" using inv c(1) by (simp add: rows_inv_def)
    then have "row_id y \<noteq> tk_TaskID t" if "y \<in> set (pre @ suf)" for y
      using distinct_middle_neq[of row_id pre m suf y] that c(2) by simp
    with run[OF that] c(1) show ?thesis by (auto simp: list_ex_iff filter_empty_conv)
  qed
  then have "table_step (pre @ m # suf) (pre @ m\<lparr>md_Task := t'\<rparr> # suf)"
    using st v c(2,4) by (intro table_step.row) simp_all
  with c task_step_identity(1)[OF st] show ?thesis by auto
qed

lemma ClaimSchedulerTask_cases:
  assumes "ClaimSchedulerTask i a db = Inr (t', db')"
  obtains t l where "schedulerTaskByID i db = Inr (Some t)" "tk_State t = SchedulerTaskQueued"
    "tk_UpdatedAtMS t < a" "a \<le> MaxSchedulerRunningTimestampMS" "db_Lifecycle db = Some l"
    "lifecyclePermitsTask l (tk_HomeGeneration t) (tk_Lane t)"
    "\<not> list_ex (\<lambda>m. row_state m = SchedulerTaskRunning \<and> row_id m \<noteq> i) (db_Tasks db)"
    "t' = claimed a t" "updateSchedulerTaskCAS t' SchedulerTaskQueued db = Inr db'"
proof -
  from assms have i: "i \<noteq> []" by (simp add: ClaimSchedulerTask_def split: if_splits)
  with assms obtain t where t: "schedulerTaskByID i db = Inr (Some t)"
    by (simp add: ClaimSchedulerTask_def split: sum.splits option.splits)
  with assms i have g: "tk_State t = SchedulerTaskQueued" "tk_UpdatedAtMS t < a"
      "a \<le> MaxSchedulerRunningTimestampMS"
    by (simp_all add: ClaimSchedulerTask_def split: if_splits)
  with assms i t obtain l where l: "schedulerLifecycleIn db = Inr (Some l)"
    by (simp add: ClaimSchedulerTask_def split: sum.splits option.splits if_splits)
  with assms i t g have h: "lifecyclePermitsTask l (tk_HomeGeneration t) (tk_Lane t)"
    "\<not> list_ex (\<lambda>m. row_state m = SchedulerTaskRunning \<and> row_id m \<noteq> i) (db_Tasks db)"
    by (simp_all add: ClaimSchedulerTask_def split: if_splits)
  with assms i t g l have "(case updateSchedulerTaskCAS (claimed a t) SchedulerTaskQueued db of
      Inl e \<Rightarrow> Inl e | Inr d \<Rightarrow> Inr (claimed a t, d)) = Inr (t', db')"
    by (simp add: ClaimSchedulerTask_def)
  then have "t' = claimed a t" "updateSchedulerTaskCAS (claimed a t) SchedulerTaskQueued db = Inr db'"
    by (simp_all split: sum.splits)
  moreover have "db_Lifecycle db = Some l"
    using l by (simp add: schedulerLifecycleIn_def split: option.splits)
  ultimately show thesis using that[OF t g _ h] by simp
qed

lemma ClaimSchedulerTask_refines:
  assumes inv: "rows_inv (db_Tasks db)" and ok: "ClaimSchedulerTask i a db = Inr (t', db')"
  shows "table_step (db_Tasks db) (db_Tasks db') \<and> db_Retries db' = db_Retries db \<and>
         db_Cycles db' = db_Cycles db \<and> db_Lifecycle db' = db_Lifecycle db \<and>
         row_id ` set (db_Tasks db') = row_id ` set (db_Tasks db)"
proof -
  obtain t l where c: "schedulerTaskByID i db = Inr (Some t)" "tk_State t = SchedulerTaskQueued"
    "tk_UpdatedAtMS t < a" "a \<le> MaxSchedulerRunningTimestampMS" "db_Lifecycle db = Some l"
    "lifecyclePermitsTask l (tk_HomeGeneration t) (tk_Lane t)"
    "\<not> list_ex (\<lambda>m. row_state m = SchedulerTaskRunning \<and> row_id m \<noteq> i) (db_Tasks db)"
    "t' = claimed a t" "updateSchedulerTaskCAS t' SchedulerTaskQueued db = Inr db'"
    by (rule ClaimSchedulerTask_cases[OF ok])
  obtain m where m: "m \<in> set (db_Tasks db)" "md_Task m = t" "tk_TaskID t = i"
    using schedulerTaskByID_Some[OF c(1)] by blast
  then have "row_ok m" using inv by (simp add: rows_inv_def list_all_iff)
  then have "validateSchedulerTask t' = None" using claimed_valid[of m a] m c by simp
  moreover have "task_step t t'" using c by (simp add: task_step.claim)
  ultimately show ?thesis using c(7) m(3) by (intro cas_refines[OF inv c(1) _ c(9)]) simp_all
qed

lemma rebindTask_refines:
  assumes inv: "rows_inv (db_Tasks db)" and t: "schedulerTaskByID i db = Inr (Some t)"
    and st: "tk_State t \<in> {SchedulerTaskRunning, SchedulerTaskInterrupted, SchedulerTaskFailed}"
      "tk_QueueOrderMS t < q" "q \<le> a" "tk_UpdatedAtMS t < a"
    and ok: "rebindTask target q a t db = Inr (t', db')"
  shows "table_step (db_Tasks db) (db_Tasks db') \<and> db_Retries db' = db_Retries db \<and>
         db_Cycles db' = db_Cycles db \<and> db_Lifecycle db' = db_Lifecycle db \<and>
         row_id ` set (db_Tasks db') = row_id ` set (db_Tasks db)"
proof -
  from ok have t': "t' = rebound target q a t" and v: "validateSchedulerTask t' = None"
    and cas: "updateSchedulerTaskCAS t' (tk_State t) db = Inr db'"
    by (auto simp: rebindTask_def Let_def split: sum.splits option.splits if_splits)
  have "task_step t t'" unfolding t' using st by (rule task_step.rebind)
  moreover have "tk_State t' \<noteq> SchedulerTaskRunning" by (simp add: t' rebound_def)
  ultimately show ?thesis using cas_refines[OF inv t _ cas v] by blast
qed

lemma RecoverSchedulerTask_refines:
  assumes inv: "rows_inv (db_Tasks db)"
    and ok: "RecoverSchedulerTask i expected target q a db = Inr (t', db')"
  shows "table_step (db_Tasks db) (db_Tasks db') \<and> db_Retries db' = db_Retries db \<and>
         db_Cycles db' = db_Cycles db \<and> db_Lifecycle db' = db_Lifecycle db \<and>
         row_id ` set (db_Tasks db') = row_id ` set (db_Tasks db)"
proof -
  from ok have args: "\<not> (i = [] \<or> expected = [] \<or> target = [])"
    by (simp add: RecoverSchedulerTask_def split: if_splits)
  with ok obtain t where t: "schedulerTaskByID i db = Inr (Some t)"
    by (simp add: RecoverSchedulerTask_def split: sum.splits option.splits)
  show ?thesis
  proof (cases "tk_State t = SchedulerTaskQueued \<and> tk_TargetID t = target")
    case True
    with ok args t have "db' = db" by (simp add: RecoverSchedulerTask_def)
    then show ?thesis by (simp add: table_step.keep)
  next
    case False
    with ok args t have "tk_State t \<in> {SchedulerTaskRunning, SchedulerTaskInterrupted, SchedulerTaskFailed}"
      "tk_QueueOrderMS t < q" "q \<le> a" "tk_UpdatedAtMS t < a"
      and "rebindTask target q a t db = Inr (t', db')"
      by (simp_all add: RecoverSchedulerTask_def split: if_splits) (auto split: if_splits)
    then show ?thesis by (rule rebindTask_refines[OF inv t])
  qed
qed

lemma RequeueFailedSchedulerTask_cases:
  assumes ok: "RequeueFailedSchedulerTask i expected target n q a db = Inr (t', db')"
  obtains (replay) t r where "schedulerTaskByID i db = Inr (Some t)" "tk_State t = SchedulerTaskQueued"
      "tk_TargetID t = target" "schedulerRetryStateIn i db = Inr (Some r)"
      "rt_Disposition r = SchedulerRetryResolved" "rt_Revision r = n + 1" "t' = t" "db' = db"
  | (rebind) t r db1 where "schedulerTaskByID i db = Inr (Some t)" "tk_State t = SchedulerTaskFailed"
      "schedulerRetryStateIn i db = Inr (Some r)" "rt_Disposition r = SchedulerRetryWaiting"
      "rt_Revision r = n" "rt_UpdatedAtMS r < a" "\<exists>due. rt_NextRetryAtMS r = Some due \<and> due \<le> a"
      "tk_QueueOrderMS t < q" "q \<le> a" "tk_UpdatedAtMS t < a" "1 \<le> n" "n \<noteq> max_int64"
      "rebindTask target q a t db = Inr (t', db1)"
      "length (filter (retryHit i n) (db_Retries db1)) = 1"
      "db' = db1\<lparr>db_Retries := map (\<lambda>y. if retryHit i n y then resolveRetry n a y else y) (db_Retries db1)\<rparr>"
proof -
  from ok have args: "\<not> (i = [] \<or> expected = [] \<or> target = [] \<or> n < 1 \<or> n = max_int64)"
    by (simp add: RequeueFailedSchedulerTask_def split: if_splits)
  with ok obtain t where t: "schedulerTaskByID i db = Inr (Some t)"
    by (simp add: RequeueFailedSchedulerTask_def split: sum.splits option.splits)
  with ok args obtain r where r: "schedulerRetryStateIn i db = Inr (Some r)"
    by (simp add: RequeueFailedSchedulerTask_def split: sum.splits option.splits)
  show thesis
  proof (cases "tk_State t = SchedulerTaskQueued \<and> tk_TargetID t = target \<and>
      rt_Disposition r = SchedulerRetryResolved \<and> rt_Revision r = n + 1")
    case True
    with ok args t r have "t' = t" "db' = db" by (simp_all add: RequeueFailedSchedulerTask_def)
    with True show thesis by (intro replay[OF t _ _ r]) simp_all
  next
    case False
    let ?refused = "tk_State t \<noteq> SchedulerTaskFailed \<or> tk_TargetID t \<noteq> expected \<or>
      rt_Disposition r \<noteq> SchedulerRetryWaiting \<or> rt_Revision r \<noteq> n \<or>
      (case rt_NextRetryAtMS r of None \<Rightarrow> True | Some due \<Rightarrow> a < due) \<or>
      q \<le> tk_QueueOrderMS t \<or> q > a \<or> a \<le> tk_UpdatedAtMS t \<or> a \<le> rt_UpdatedAtMS r"
    from ok args t r False have g: "\<not> ?refused"
      unfolding RequeueFailedSchedulerTask_def
      by (simp only: if_False if_True t r sum.case option.case) (simp split: if_splits)
    with ok args t r False obtain db1 where db1: "rebindTask target q a t db = Inr (t', db1)"
      "length (filter (retryHit i n) (db_Retries db1)) = 1"
      "db' = db1\<lparr>db_Retries := map (\<lambda>y. if retryHit i n y then resolveRetry n a y else y) (db_Retries db1)\<rparr>"
      unfolding RequeueFailedSchedulerTask_def
      by (simp only: if_False if_True t r sum.case option.case) (simp split: sum.splits prod.splits if_splits)
    show thesis
    proof (rule rebind[OF t _ r _ _ _ _ _ _ _ _ _ db1])
      show "\<exists>due. rt_NextRetryAtMS r = Some due \<and> due \<le> a"
        using g by (cases "rt_NextRetryAtMS r") simp_all
    qed (use g args in simp_all)
  qed
qed

text \<open>The retry table: one valid row per task, revisions that only grow.\<close>

definition retries_inv :: "SchedulerRetryState list \<Rightarrow> bool" where
  "retries_inv rs \<longleftrightarrow>
     distinct (map rt_TaskID rs) \<and> list_all (\<lambda>r. validateSchedulerRetryState r = None) rs"

lemma retries_inv_replace:
  assumes "retries_inv rs" and "length (filter P rs) = 1"
    and "\<And>r. P r \<Longrightarrow> r \<in> set rs \<Longrightarrow> rt_TaskID (f r) = rt_TaskID r \<and> validateSchedulerRetryState (f r) = None"
  shows "retries_inv (map (\<lambda>r. if P r then f r else r) rs)"
proof -
  have ids: "map rt_TaskID (map (\<lambda>r. if P r then f r else r) rs) = map rt_TaskID rs"
    using assms(3) by simp
  show ?thesis unfolding retries_inv_def ids using assms by (auto simp: retries_inv_def list_all_iff)
qed

lemma resolveRetry_id [simp]: "rt_TaskID (resolveRetry n a r) = rt_TaskID r"
  by (simp add: resolveRetry_def)

lemma resolveRetry_valid:
  assumes "validateSchedulerRetryState r = None" and "0 \<le> a" "a \<le> MaxSchedulerTimestampMS" "1 \<le> n"
  shows "validateSchedulerRetryState (resolveRetry n a r) = None"
  using assms
  by (auto simp: validateSchedulerRetryState_def resolveRetry_def enum_valid_defs split: if_splits)

lemma RequeueFailedSchedulerTask_refines:
  assumes inv: "rows_inv (db_Tasks db)" "retries_inv (db_Retries db)"
    and ok: "RequeueFailedSchedulerTask i expected target n q a db = Inr (t', db')"
  shows "table_step (db_Tasks db) (db_Tasks db') \<and> retries_inv (db_Retries db') \<and>
         db_Cycles db' = db_Cycles db \<and> db_Lifecycle db' = db_Lifecycle db \<and>
         row_id ` set (db_Tasks db') = row_id ` set (db_Tasks db)"
proof (cases rule: RequeueFailedSchedulerTask_cases[OF ok, case_names replay rebind])
  case (replay t r)
  with inv show ?thesis by (simp add: table_step.keep)
next
  case (rebind t r db1)
  then have st: "tk_State t \<in> {SchedulerTaskRunning, SchedulerTaskInterrupted, SchedulerTaskFailed}"
    by simp
  note r = rebindTask_refines[OF inv(1) rebind(1) st rebind(8-10) rebind(13)]
  have v: "validateSchedulerTask t' = None" "tk_UpdatedAtMS t' = a"
    using rebind(13)
    by (auto simp: rebindTask_def rebound_def Let_def split: sum.splits option.splits if_splits)
  have "0 \<le> a" "a \<le> MaxSchedulerTimestampMS" using task_boundsD[OF v(1)] v(2) by simp_all
  then have "retries_inv (map (\<lambda>y. if retryHit i n y then resolveRetry n a y else y) (db_Retries db1))"
    using r inv(2) rebind(11,14)
    by (intro retries_inv_replace)
      (auto simp: retries_inv_def list_all_iff resolveRetry_valid)
  with r rebind(15) show ?thesis by simp
qed

lemma promoted_valid:
  assumes "validateSchedulerTask t = None" and "tk_UpdatedAtMS t < a"
    and "tk_State t \<in> {SchedulerTaskQueued, SchedulerTaskRunning}"
    and "a \<le> (if tk_State t = SchedulerTaskQueued then MaxSchedulerQueuedTimestampMS
              else MaxSchedulerRunningTimestampMS)"
  shows "validateSchedulerTask (t\<lparr>tk_ServiceClass := SchedulerServiceInteractive, tk_UpdatedAtMS := a\<rparr>) = None"
    (is "validateSchedulerTask ?t = None")
proof (rule validateSchedulerTaskI)
  note d = validateSchedulerTaskD[OF assms(1)]
  have a: "a \<le> MaxSchedulerTimestampMS" using assms(4) by (simp add: scheduler_limits split: if_splits)
  show "\<not> taskFieldsInvalid ?t"
    using d(1) assms(2) a by (simp add: taskFieldsInvalid_def enum_valid_defs)
  show "\<not> taskLimitsInvalid ?t"
    using d(2) assms(3,4) by (auto simp: taskLimitsInvalid_def)
  show "\<not> taskTimesInvalid ?t" 
    using d(3) by (auto simp: taskTimesInvalid_def split: option.splits)
  show "\<not> taskStateShapeInvalid ?t" using d(4) assms(3) by auto
  show "validateRuntimeErrorClass (tk_LastErrorClass ?t) = None" using d(5) by simp
qed

lemma PromoteSchedulerTask_refines:
  assumes inv: "rows_inv (db_Tasks db)" and ok: "PromoteSchedulerTask k a db = Inr (t', db')"
  shows "table_step (db_Tasks db) (db_Tasks db') \<and> db_Retries db' = db_Retries db \<and>
         db_Cycles db' = db_Cycles db \<and> db_Lifecycle db' = db_Lifecycle db \<and>
         row_id ` set (db_Tasks db') = row_id ` set (db_Tasks db)"
proof -
  from ok have k: "k \<noteq> []" by (simp add: PromoteSchedulerTask_def split: if_splits)
  with ok obtain m where m: "find (\<lambda>m. row_dedupe m = k) (db_Tasks db) = Some m"
    by (simp add: PromoteSchedulerTask_def split: option.splits)
  then have mem: "m \<in> set (db_Tasks db)" by (auto simp: find_Some_iff)
  then have rok: "row_ok m" using inv by (simp add: rows_inv_def list_all_iff)
  note fm = row_ok_fromModel[OF rok]
  show ?thesis
  proof (cases "tk_ServiceClass (md_Task m) = SchedulerServiceInteractive")
    case True
    with ok k m fm have "db' = db" by (simp add: PromoteSchedulerTask_def)
    then show ?thesis by (simp add: table_step.keep)
  next
    case False
    let ?t = "md_Task m"
    let ?max = "if tk_State ?t = SchedulerTaskQueued then MaxSchedulerQueuedTimestampMS
                else MaxSchedulerRunningTimestampMS"
    let ?a = "if a \<le> tk_UpdatedAtMS ?t then tk_UpdatedAtMS ?t + 1 else a"
    let ?f = "\<lambda>t. t\<lparr>tk_ServiceClass := SchedulerServiceInteractive, tk_UpdatedAtMS := ?a\<rparr>"
    from ok k m fm False have g: "tk_ServiceClass ?t = SchedulerServiceBackground"
        "tk_State ?t \<in> {SchedulerTaskQueued, SchedulerTaskRunning}" "?a \<le> ?max"
      and one: "length (filter (promoteHit ?t) (db_Tasks db)) = 1"
      and db': "db' = db\<lparr>db_Tasks := map (\<lambda>m. if promoteHit ?t m
          then m\<lparr>md_Task := ?f (md_Task m)\<rparr> else m) (db_Tasks db)\<rparr>"
      by (auto simp: PromoteSchedulerTask_def Let_def split: if_splits)
    from one obtain pre x suf where ms: "db_Tasks db = pre @ x # suf" and hit: "promoteHit ?t x"
      and miss: "\<forall>y \<in> set (pre @ suf). \<not> promoteHit ?t y" by (rule filter_length_1_split)
    have d: "distinct (map row_id (db_Tasks db))" using inv by (simp add: rows_inv_def)
    have x: "x = m" using distinct_row_unique[OF d, of x m] ms mem hit by (simp add: promoteHit_def)
    have st: "task_step ?t (?f ?t)" using g by (intro task_step.promote) auto
    have v: "validateSchedulerTask (?f ?t) = None"
      by (rule promoted_valid) (use rok g in \<open>simp_all add: row_ok_def split: if_splits\<close>)
    have tgt: "tk_TargetID (?f ?t) \<notin> row_target ` set (pre @ suf)"
      using inv ms x by (auto simp: rows_inv_def)
    have "running_rows (pre @ suf) = []" if "tk_State (?f ?t) = SchedulerTaskRunning"
      using inv ms x that by (simp add: rows_inv_def)
    then have "table_step (pre @ m # suf) (pre @ m\<lparr>md_Task := ?f ?t\<rparr> # suf)"
      using st v tgt by (intro table_step.row) simp_all
    moreover have "db_Tasks db' = pre @ m\<lparr>md_Task := ?f ?t\<rparr> # suf"
      using db' map_if_unique[OF hit miss, of "\<lambda>m. m\<lparr>md_Task := ?f (md_Task m)\<rparr>"] ms x by simp
    ultimately show ?thesis using ms x db' by simp
  qed
qed

lemma applySchedulerRetryMutation_ok:
  assumes inv: "retries_inv (db_Retries db)" and ok: "applySchedulerRetryMutation i a m db = Inr db'"
  shows "db' = db\<lparr>db_Retries := db_Retries db'\<rparr> \<and> retries_inv (db_Retries db') \<and>
         rt_TaskID ` set (db_Retries db') \<subseteq> insert i (rt_TaskID ` set (db_Retries db))"
proof -
  let ?c = "retryCandidate i a m"
  from ok have g: "rm_ExpectedRevision m \<noteq> max_int64" "rm_FailureCount m \<noteq> max_int64"
    by (simp_all add: applySchedulerRetryMutation_def split: if_splits)
  with ok obtain cur where cur: "schedulerRetryStateIn i db = Inr cur"
    by (simp add: applySchedulerRetryMutation_def split: sum.splits)
  with ok g have v: "validateSchedulerRetryState ?c = None"
    by (simp add: applySchedulerRetryMutation_def split: option.splits)
  have id: "rt_TaskID ?c = i" by (simp add: retryCandidate_def)
  show ?thesis
  proof (cases cur)
    case None
    then have "i \<notin> rt_TaskID ` set (db_Retries db)"
      using cur by (auto simp: schedulerRetryStateIn_def find_None_iff split: option.splits)
    moreover from ok g cur v None have "db' = db\<lparr>db_Retries := db_Retries db @ [?c]\<rparr>"
      by (simp add: applySchedulerRetryMutation_def split: if_splits)
    ultimately show ?thesis using inv v id by (auto simp: retries_inv_def)
  next
    case (Some r)
    let ?hit = "\<lambda>r. rt_TaskID r = i \<and> rt_Revision r = rm_ExpectedRevision m"
    from ok g cur v Some have one: "length (filter ?hit (db_Retries db)) = 1"
      and db': "db' = db\<lparr>db_Retries := map (\<lambda>r. if ?hit r then ?c else r) (db_Retries db)\<rparr>"
      by (simp_all add: applySchedulerRetryMutation_def Let_def split: if_splits)
    have "retries_inv (map (\<lambda>r. if ?hit r then ?c else r) (db_Retries db))"
      using inv one v id by (intro retries_inv_replace) auto
    with db' id show ?thesis by auto
  qed
qed

definition cycles_inv :: "SchedulerCycle list \<Rightarrow> bool" where
  "cycles_inv cs \<longleftrightarrow>
     distinct (map cy_CycleID cs) \<and>
     list_all (\<lambda>c. schedulerCycleFromModel c = Inr c \<and> cy_ConsumedFiles c \<le> cy_BudgetFiles c \<and>
                   cy_ConsumedBytes c \<le> cy_BudgetBytes c \<and> cy_ActiveMS c \<le> cy_BudgetActiveMS c) cs"

lemma CommitSchedulerCycle_cases:
  assumes ok: "CommitSchedulerCycle c db = Inr db'"
  obtains t db1 db2 where "validateSchedulerCycleCommit c = None"
    "schedulerTaskByID (cm_TaskID c) db = Inr (Some t)" "\<not> commitRefused c t"
    "validateSchedulerTask (committed c t) = None"
    "updateSchedulerTaskCAS (committed c t) (cm_ExpectedState c) db = Inr db1"
    "(case cm_Retry c of None \<Rightarrow> Inr db1
      | Some m \<Rightarrow> applySchedulerRetryMutation (tk_TaskID t) (cm_AtMS c) m db1) = Inr db2"
    "cy_CycleID (cm_Cycle c) \<notin> cy_CycleID ` set (db_Cycles db2)"
    "db' = db2\<lparr>db_Cycles := cm_Cycle c # db_Cycles db2\<rparr>"
proof -
  from ok have v: "validateSchedulerCycleCommit c = None"
    by (simp add: CommitSchedulerCycle_def split: option.splits)
  with ok obtain t where t: "schedulerTaskByID (cm_TaskID c) db = Inr (Some t)"
    by (simp add: CommitSchedulerCycle_def split: sum.splits option.splits)
  with ok v have r: "\<not> commitRefused c t" by (simp add: CommitSchedulerCycle_def split: if_splits)
  with ok v t have w: "validateSchedulerTask (committed c t) = None"
    by (simp add: CommitSchedulerCycle_def split: option.splits)
  with ok v t r obtain db1 where
    db1: "updateSchedulerTaskCAS (committed c t) (cm_ExpectedState c) db = Inr db1"
    by (simp add: CommitSchedulerCycle_def split: sum.splits)
  let ?rest = "case cm_Retry c of None \<Rightarrow> Inr db1
      | Some m \<Rightarrow> applySchedulerRetryMutation (tk_TaskID t) (cm_AtMS c) m db1"
  from ok v t r w db1 obtain db2 where db2: "?rest = Inr db2"
    by (cases ?rest) (simp_all add: CommitSchedulerCycle_def)
  with ok v t r w db1 show thesis
    by (intro that[OF v t r w db1 db2]) (simp_all add: CommitSchedulerCycle_def split: if_splits)
qed

lemma CommitSchedulerCycle_refines:
  assumes inv: "rows_inv (db_Tasks db)" "retries_inv (db_Retries db)" "cycles_inv (db_Cycles db)"
    and ok: "CommitSchedulerCycle c db = Inr db'"
  shows "table_step (db_Tasks db) (db_Tasks db') \<and> retries_inv (db_Retries db') \<and>
         cycles_inv (db_Cycles db') \<and> db_Lifecycle db' = db_Lifecycle db"
proof -
  obtain t db1 db2 where c: "validateSchedulerCycleCommit c = None"
    "schedulerTaskByID (cm_TaskID c) db = Inr (Some t)" "\<not> commitRefused c t"
    "validateSchedulerTask (committed c t) = None"
    "updateSchedulerTaskCAS (committed c t) (cm_ExpectedState c) db = Inr db1"
    "(case cm_Retry c of None \<Rightarrow> Inr db1
      | Some m \<Rightarrow> applySchedulerRetryMutation (tk_TaskID t) (cm_AtMS c) m db1) = Inr db2"
    "cy_CycleID (cm_Cycle c) \<notin> cy_CycleID ` set (db_Cycles db2)"
    "db' = db2\<lparr>db_Cycles := cm_Cycle c # db_Cycles db2\<rparr>"
    by (rule CommitSchedulerCycle_cases[OF ok])
  have "tk_State (committed c t) \<noteq> SchedulerTaskRunning"
    using commit_stateD[OF c(1)] by (auto simp: committed_def)
  then have s1: "table_step (db_Tasks db) (db_Tasks db1) \<and> db_Retries db1 = db_Retries db \<and>
      db_Cycles db1 = db_Cycles db \<and> db_Lifecycle db1 = db_Lifecycle db"
    using cas_refines[OF inv(1) c(2) task_step.commit[OF c(1,3)] c(5,4)] by blast
  have s2: "db_Tasks db2 = db_Tasks db1 \<and> retries_inv (db_Retries db2) \<and>
      db_Cycles db2 = db_Cycles db1 \<and> db_Lifecycle db2 = db_Lifecycle db1"
  proof (cases "cm_Retry c")
    case None
    with c(6) s1 inv show ?thesis by simp
  next
    case (Some m)
    with c(6) have "applySchedulerRetryMutation (tk_TaskID t) (cm_AtMS c) m db1 = Inr db2" by simp
    then have r: "db2 = db1\<lparr>db_Retries := db_Retries db2\<rparr>" "retries_inv (db_Retries db2)"
      using applySchedulerRetryMutation_ok[of db1] s1 inv by simp_all
    have "db_Tasks db2 = db_Tasks db1" "db_Cycles db2 = db_Cycles db1" "db_Lifecycle db2 = db_Lifecycle db1"
      by (subst r(1); simp)+
    with r show ?thesis by simp
  qed
  have "cycles_inv (db_Cycles db')"
    using c(1,7,8) s1 s2 inv(3)
    by (auto simp: cycles_inv_def schedulerCycleFromModel_def validateSchedulerCycleCommit_def
        commitFieldsInvalid_def Let_def split: if_splits)
  with s1 s2 c(8) show ?thesis by simp
qed

end
