(* ===== verification/Sched_Machine.thy ===== *)
theory Sched_Machine
  imports Task_Invariants
begin

text \<open>
  The scheduler store as one machine: a run is any interleaving of its write transactions (each is
  one step, since the store has a single writer), of lifecycle writes and of changes the rest of
  the program makes to the job table. The theorems hold for every run.
\<close>

section \<open>Operations\<close>

datatype sched_op =
  OpEnqueue SchedulerTask int
| OpPromote string int64
| OpRecover string string string int64 int64
| OpRequeue string string string int64 int64 int64
| OpClaim string int64
| OpCommit SchedulerCycleCommit
| OpInitLifecycle SchedulerLifecycle
| OpCasLifecycle int64 SchedulerLifecycle
| OpJobs "string \<rightharpoonup> JobRun"

definition on_ok :: "sched_db \<Rightarrow> store_error + ('a \<times> sched_db) \<Rightarrow> sched_db" where
  "on_ok db r = (case r of Inl _ \<Rightarrow> db | Inr (_, db') \<Rightarrow> db')"

fun sched_apply :: "sched_db \<Rightarrow> sched_op \<Rightarrow> sched_db" where
  "sched_apply db (OpEnqueue t cap) =
     (case EnqueueSchedulerTask t cap db of Inl _ \<Rightarrow> db | Inr db' \<Rightarrow> db')"
| "sched_apply db (OpPromote k a) = on_ok db (PromoteSchedulerTask k a db)"
| "sched_apply db (OpRecover i e r q a) = on_ok db (RecoverSchedulerTask i e r q a db)"
| "sched_apply db (OpRequeue i e r n q a) = on_ok db (RequeueFailedSchedulerTask i e r n q a db)"
| "sched_apply db (OpClaim i a) = on_ok db (ClaimSchedulerTask i a db)"
| "sched_apply db (OpCommit c) = (case CommitSchedulerCycle c db of Inl _ \<Rightarrow> db | Inr db' \<Rightarrow> db')"
| "sched_apply db (OpInitLifecycle v) = on_ok db (InitializeSchedulerLifecycle v db)"
| "sched_apply db (OpCasLifecycle n v) = on_ok db (CompareAndSwapSchedulerLifecycle n v db)"
| "sched_apply db (OpJobs js) = db\<lparr>db_Jobs := js\<rparr>"

definition sched_run :: "sched_db \<Rightarrow> sched_op list \<Rightarrow> sched_db" where
  "sched_run = foldl sched_apply"

definition sched_empty :: sched_db where
  "sched_empty = \<lparr>db_Tasks = [], db_Cycles = [], db_Retries = [], db_Lifecycle = None,
                  db_Jobs = Map.empty\<rparr>"

definition lifecycle_inv :: "SchedulerLifecycle option \<Rightarrow> bool" where
  "lifecycle_inv l = (case l of None \<Rightarrow> True | Some v \<Rightarrow> validateSchedulerLifecycle v = None)"

section \<open>Progress of a task\<close>

text \<open>The columns fixed at admission.\<close>

definition admissionKey ::
  "schedulerTaskModel \<Rightarrow> (string \<times> string \<times> SchedulerTargetKind \<times> string) \<times> int64 \<times>
     SchedulerLane \<times> SchedulerServiceClass \<times> int64" where
  "admissionKey m =
     ((row_id m, row_dedupe m, tk_TargetKind (md_Task m), md_AdmissionTargetID m),
      tk_HomeGeneration (md_Task m), tk_Lane (md_Task m), md_AdmissionServiceClass m,
      tk_EnqueuedAtMS (md_Task m))"

text \<open>Progress of one task, which every step respects.\<close>

definition progress_le :: "SchedulerTask \<Rightarrow> SchedulerTask \<Rightarrow> bool" where
  "progress_le t t' \<longleftrightarrow>
     tk_FilesProcessed t \<le> tk_FilesProcessed t' \<and> tk_BytesProcessed t \<le> tk_BytesProcessed t' \<and>
     tk_SliceCount t \<le> tk_SliceCount t' \<and> tk_QueueOrderMS t \<le> tk_QueueOrderMS t' \<and>
     tk_UpdatedAtMS t \<le> tk_UpdatedAtMS t' \<and>
     (tk_UpdatedAtMS t = tk_UpdatedAtMS t' \<longrightarrow> t = t')"

lemma progress_le_refl: "progress_le t t"
  by (simp add: progress_le_def)

lemma progress_le_trans: "progress_le t u \<Longrightarrow> progress_le u v \<Longrightarrow> progress_le t v"
  by (auto simp: progress_le_def)

lemma task_step_progress:
  assumes "task_step t t'" and "validateSchedulerTask t = None" and "tk_SliceCount t \<le> max_int64"
  shows "progress_le t t'"
  using assms
proof (induction rule: task_step.induct)
  case (commit c t)
  note b = task_boundsD[OF commit(3)]
  have "tk_UpdatedAtMS t < cm_AtMS c" using commit(2) by (auto simp: commitRefused_def)
  moreover have "tk_QueueOrderMS t \<le> tk_QueueOrderMS (committed c t)"
    using commit(2) by (auto simp: commitRefused_def committed_def)
  ultimately show ?case
    using committed_counters[OF commit(1,2) b(2,3,4) commit(4)]
    by (simp add: progress_le_def) (simp add: committed_def)
qed (auto simp: progress_le_def claimed_def rebound_def)

lemma table_step_progress:
  assumes "table_step ms ms'" and "rows_inv ms" and "m \<in> set ms"
  shows "\<exists>m' \<in> set ms'. admissionKey m' = admissionKey m \<and> progress_le (md_Task m) (md_Task m') \<and>
           (row_state m = SchedulerTaskSucceeded \<longrightarrow> m' = m)"
  using assms
proof (induction rule: table_step.induct)
  case (row m0 t' pre suf)
  show ?case
  proof (cases "m = m0")
    case True
    have k: "admissionKey (m0\<lparr>md_Task := t'\<rparr>) = admissionKey m0"
      using task_step_identity[OF row(1)] by (simp add: admissionKey_def)
    have "row_ok m0" using row.prems(1) by (simp add: rows_inv_def)
    then have "progress_le (md_Task m0) t'" by (intro task_step_progress[OF row(1)]) (simp_all add: row_ok_def)
    with True k task_step_not_succeeded[OF row(1)] show ?thesis by auto
  qed (use row.prems progress_le_refl in auto)
qed (auto simp: progress_le_refl)

text \<open>A retry fact belongs to a task that was updated no earlier than it.\<close>

definition retry_times :: "schedulerTaskModel list \<Rightarrow> SchedulerRetryState list \<Rightarrow> bool" where
  "retry_times ms rs \<longleftrightarrow>
     (\<forall>r \<in> set rs. \<exists>m \<in> set ms. row_id m = rt_TaskID r \<and> rt_UpdatedAtMS r \<le> tk_UpdatedAtMS (md_Task m))"

lemma retry_times_step:
  assumes "retry_times ms rs" and "table_step ms ms'" and "rows_inv ms"
  shows "retry_times ms' rs"
  unfolding retry_times_def
proof
  fix r assume "r \<in> set rs"
  with assms(1) obtain m where m: "m \<in> set ms" "row_id m = rt_TaskID r"
    "rt_UpdatedAtMS r \<le> tk_UpdatedAtMS (md_Task m)" by (auto simp: retry_times_def)
  from table_step_progress[OF assms(2,3) m(1)] obtain m' where
    "m' \<in> set ms'" "admissionKey m' = admissionKey m" "progress_le (md_Task m) (md_Task m')" by blast
  with m show "\<exists>m \<in> set ms'. row_id m = rt_TaskID r \<and> rt_UpdatedAtMS r \<le> tk_UpdatedAtMS (md_Task m)"
    by (intro bexI[of _ m']) (auto simp: admissionKey_def progress_le_def)
qed

definition sched_inv :: "sched_db \<Rightarrow> bool" where
  "sched_inv db \<longleftrightarrow>
     rows_inv (db_Tasks db) \<and> retries_inv (db_Retries db) \<and> cycles_inv (db_Cycles db) \<and>
     lifecycle_inv (db_Lifecycle db) \<and> retry_times (db_Tasks db) (db_Retries db)"

section \<open>The invariant along runs\<close>

lemma sched_invD:
  assumes "sched_inv db"
  shows "rows_inv (db_Tasks db)" "retries_inv (db_Retries db)" "cycles_inv (db_Cycles db)"
    "lifecycle_inv (db_Lifecycle db)" "retry_times (db_Tasks db) (db_Retries db)"
  using assms by (simp_all add: sched_inv_def)

lemma ensure_ok:
  assumes "ensureSchedulerLifecycleForAdmission t db = Inr db'"
  shows "db' = db\<lparr>db_Lifecycle := db_Lifecycle db'\<rparr> \<and> lifecycle_inv (db_Lifecycle db') \<and>
         db_Lifecycle db' \<noteq> None \<and> (db_Lifecycle db \<noteq> None \<longrightarrow> db' = db)"
  using assms
  by (auto simp: ensureSchedulerLifecycleForAdmission_def schedulerLifecycleIn_def lifecycle_inv_def
      validateInitialSchedulerLifecycle_def split: option.splits if_splits)

lemma EnqueueSchedulerTask_lifecycle:
  assumes "EnqueueSchedulerTask t cap db = Inr db'"
  shows "lifecycle_inv (db_Lifecycle db') \<and> db_Lifecycle db' \<noteq> None"
proof -
  from assms obtain db1 where db1: "ensureSchedulerLifecycleForAdmission t db = Inr db1"
    by (simp add: EnqueueSchedulerTask_def split: if_splits option.splits sum.splits)
  with assms have "db_Lifecycle db' = db_Lifecycle db1"
    by (auto simp: EnqueueSchedulerTask_def split: if_splits option.splits)
  with ensure_ok[OF db1] show ?thesis by simp
qed

lemma rebindTask_ok:
  assumes "rebindTask target q a t db = Inr (t', db1)"
  shows "t' = rebound target q a t \<and> validateSchedulerTask t' = None \<and>
         updateSchedulerTaskCAS t' (tk_State t) db = Inr db1"
  using assms by (auto simp: rebindTask_def Let_def split: sum.splits option.splits if_splits)

lemma Requeue_retry_times:
  assumes inv: "rows_inv (db_Tasks db)" "retries_inv (db_Retries db)" "retry_times (db_Tasks db) (db_Retries db)"
    and ok: "RequeueFailedSchedulerTask i e target n q a db = Inr (t', db')"
  shows "retry_times (db_Tasks db') (db_Retries db')"
proof (cases rule: RequeueFailedSchedulerTask_cases[OF ok, case_names replay rebind])
  case (replay t r)
  with inv show ?thesis by simp
next
  case (rebind t r db1)
  note rb = rebindTask_ok[OF rebind(13)]
  have st: "task_step t t'" using rb rebind(2,8-10) task_step.rebind by simp
  have cas: "updateSchedulerTaskCAS t' (tk_State t) db = Inr db1" using rb by blast
  obtain pre m suf where m: "db_Tasks db = pre @ m # suf" "md_Task m = t"
    "tk_State t = tk_State t" "db1 = db\<lparr>db_Tasks := pre @ m\<lparr>md_Task := t'\<rparr> # suf\<rparr>"
    "tk_TargetID t' \<notin> row_target ` set (pre @ suf)" "row_ok m"
    by (rule updateSchedulerTaskCAS_ok[OF inv(1) rebind(1) task_step_same_columns[OF st] cas])
  have old: "retry_times (db_Tasks db1) (db_Retries db)"
    using retry_times_step[OF inv(3) _ inv(1)] RequeueFailedSchedulerTask_refines[OF inv(1,2) ok] rebind(15)
    by simp
  have t': "tk_TaskID t' = i" "tk_UpdatedAtMS t' = a"
    using schedulerTaskByID_Some[OF rebind(1)] rb by (auto simp: rebound_def)
  have "retry_times (db_Tasks db1) (map (\<lambda>y. if retryHit i n y then resolveRetry n a y else y) (db_Retries db))"
    unfolding retry_times_def
  proof
    fix x assume "x \<in> set (map (\<lambda>y. if retryHit i n y then resolveRetry n a y else y) (db_Retries db))"
    then obtain y where y: "y \<in> set (db_Retries db)" "x = (if retryHit i n y then resolveRetry n a y else y)" by auto
    show "\<exists>m \<in> set (db_Tasks db1). row_id m = rt_TaskID x \<and> rt_UpdatedAtMS x \<le> tk_UpdatedAtMS (md_Task m)"
    proof (cases "retryHit i n y")
      case True
      then show ?thesis
        using y(2) m(4) t' by (intro bexI[of _ "m\<lparr>md_Task := t'\<rparr>"]) (auto simp: resolveRetry_def retryHit_def)
    next
      case False
      with y old show ?thesis by (auto simp: retry_times_def)
    qed
  qed
  with rebind(15) m(4) show ?thesis by simp
qed

lemma applySchedulerRetryMutation_rows:
  assumes "applySchedulerRetryMutation i a m db = Inr db'" and "x \<in> set (db_Retries db')"
  shows "x \<in> set (db_Retries db) \<or> x = retryCandidate i a m"
  using assms
  by (auto simp: applySchedulerRetryMutation_def Let_def split: if_splits sum.splits option.splits)

lemma Commit_retry_times:
  assumes inv: "rows_inv (db_Tasks db)" "retries_inv (db_Retries db)" "cycles_inv (db_Cycles db)"
      "retry_times (db_Tasks db) (db_Retries db)"
    and ok: "CommitSchedulerCycle c db = Inr db'"
  shows "retry_times (db_Tasks db') (db_Retries db')"
proof -
  obtain t db1 db2 where c: "validateSchedulerCycleCommit c = None"
    "schedulerTaskByID (cm_TaskID c) db = Inr (Some t)" "\<not> commitRefused c t"
    "validateSchedulerTask (committed c t) = None"
    "updateSchedulerTaskCAS (committed c t) (cm_ExpectedState c) db = Inr db1"
    "(case cm_Retry c of None \<Rightarrow> Inr db1
      | Some m \<Rightarrow> applySchedulerRetryMutation (tk_TaskID t) (cm_AtMS c) m db1) = Inr db2"
    "cy_CycleID (cm_Cycle c) \<notin> cy_CycleID ` set (db_Cycles db2)"
    "db' = db2\<lparr>db_Cycles := cm_Cycle c # db_Cycles db2\<rparr>"
    by (rule CommitSchedulerCycle_cases[OF ok])
  have st: "task_step t (committed c t)" using c(1,3) by (rule task_step.commit)
  obtain pre m suf where m: "db_Tasks db = pre @ m # suf" "md_Task m = t" "tk_State t = cm_ExpectedState c"
    "db1 = db\<lparr>db_Tasks := pre @ m\<lparr>md_Task := committed c t\<rparr> # suf\<rparr>"
    "tk_TargetID (committed c t) \<notin> row_target ` set (pre @ suf)" "row_ok m"
    by (rule updateSchedulerTaskCAS_ok[OF inv(1) c(2) task_step_same_columns[OF st] c(5)])
  have old: "retry_times (db_Tasks db') (db_Retries db)"
    using retry_times_step[OF inv(4) _ inv(1)] CommitSchedulerCycle_refines[OF inv(1-3) ok] by blast
  have new: "\<exists>m \<in> set (db_Tasks db1). row_id m = rt_TaskID (retryCandidate (tk_TaskID t) (cm_AtMS c) mu) \<and>
      rt_UpdatedAtMS (retryCandidate (tk_TaskID t) (cm_AtMS c) mu) \<le> tk_UpdatedAtMS (md_Task m)" for mu
    using m(4) by (intro bexI[of _ "m\<lparr>md_Task := committed c t\<rparr>"]) (simp_all add: committed_def retryCandidate_def)
  show ?thesis
  proof (cases "cm_Retry c")
    case None
    with c(6) have "db2 = db1" by simp
    then have "db_Retries db' = db_Retries db" using c(8) m(4) by simp
    with old show ?thesis by simp
  next
    case (Some mu)
    with c(6) have a: "applySchedulerRetryMutation (tk_TaskID t) (cm_AtMS c) mu db1 = Inr db2" by simp
    have "retries_inv (db_Retries db1)" using inv(2) m(4) by simp
    from applySchedulerRetryMutation_ok[OF this a] have "db2 = db1\<lparr>db_Retries := db_Retries db2\<rparr>" by simp
    from arg_cong[OF this, of db_Tasks] have tasks: "db_Tasks db2 = db_Tasks db1" by simp
    show ?thesis
      unfolding retry_times_def
    proof
      fix x assume "x \<in> set (db_Retries db')"
      then have "x \<in> set (db_Retries db) \<or> x = retryCandidate (tk_TaskID t) (cm_AtMS c) mu"
        using applySchedulerRetryMutation_rows[OF a] c(8) m(4) by simp
      then show "\<exists>m \<in> set (db_Tasks db'). row_id m = rt_TaskID x \<and> rt_UpdatedAtMS x \<le> tk_UpdatedAtMS (md_Task m)"
        using old new[of mu] c(8) tasks by (auto simp: retry_times_def)
    qed
  qed
qed

text \<open>What one operation may do to the tables.\<close>

definition step_ok :: "sched_db \<Rightarrow> sched_db \<Rightarrow> bool" where
  "step_ok db db' \<longleftrightarrow>
     table_step (db_Tasks db) (db_Tasks db') \<and> retries_inv (db_Retries db') \<and>
     cycles_inv (db_Cycles db') \<and> lifecycle_inv (db_Lifecycle db') \<and>
     retry_times (db_Tasks db') (db_Retries db') \<and>
     (db_Lifecycle db \<noteq> None \<longrightarrow> db_Lifecycle db' \<noteq> None)"

lemma on_ok_cases:
  "P db \<Longrightarrow> (\<And>v db'. r = Inr (v, db') \<Longrightarrow> P db') \<Longrightarrow> P (on_ok db r)"
  by (cases r) (auto simp: on_ok_def)

lemma result_cases:
  "P db \<Longrightarrow> (\<And>db'. r = Inr db' \<Longrightarrow> P db') \<Longrightarrow> P (case r of Inl _ \<Rightarrow> db | Inr db' \<Rightarrow> db')"
  by (cases r) auto

lemma step_ok_refl: "sched_inv db \<Longrightarrow> step_ok db db"
  by (simp add: sched_inv_def step_ok_def table_step.keep)

lemma sched_apply_step:
  assumes "sched_inv db"
  shows "step_ok db (sched_apply db x)"
proof -
  note inv = sched_invD[OF assms] and refl = step_ok_refl[OF assms]
  have keep: "retry_times (db_Tasks db') (db_Retries db')"
    if "table_step (db_Tasks db) (db_Tasks db')" "db_Retries db' = db_Retries db" for db'
    using retry_times_step[OF inv(5) that(1) inv(1)] that(2) by simp
  show ?thesis
  proof (cases x)
    case (OpEnqueue t cap)
    have "step_ok db db'" if "EnqueueSchedulerTask t cap db = Inr db'" for db'
      using EnqueueSchedulerTask_refines[OF that] EnqueueSchedulerTask_lifecycle[OF that] inv keep[of db']
      by (simp add: step_ok_def)
    with refl OpEnqueue show ?thesis by (simp add: result_cases)
  next
    case (OpPromote k a)
    have "step_ok db db'" if "PromoteSchedulerTask k a db = Inr (v, db')" for v db'
      using PromoteSchedulerTask_refines[OF inv(1) that] inv keep[of db'] by (simp add: step_ok_def)
    with refl OpPromote show ?thesis by (simp add: on_ok_cases)
  next
    case (OpRecover i e r q a)
    have "step_ok db db'" if "RecoverSchedulerTask i e r q a db = Inr (v, db')" for v db'
      using RecoverSchedulerTask_refines[OF inv(1) that] inv keep[of db'] by (simp add: step_ok_def)
    with refl OpRecover show ?thesis by (simp add: on_ok_cases)
  next
    case (OpRequeue i e r n q a)
    have "step_ok db db'" if "RequeueFailedSchedulerTask i e r n q a db = Inr (v, db')" for v db'
      using RequeueFailedSchedulerTask_refines[OF inv(1,2) that] Requeue_retry_times[OF inv(1,2,5) that] inv by (simp add: step_ok_def)
    with refl OpRequeue show ?thesis by (simp add: on_ok_cases)
  next
    case (OpClaim i a)
    have "step_ok db db'" if "ClaimSchedulerTask i a db = Inr (v, db')" for v db'
      using ClaimSchedulerTask_refines[OF inv(1) that] inv keep[of db'] by (simp add: step_ok_def)
    with refl OpClaim show ?thesis by (simp add: on_ok_cases)
  next
    case (OpCommit c)
    have "step_ok db db'" if "CommitSchedulerCycle c db = Inr db'" for db'
      using CommitSchedulerCycle_refines[OF inv(1-3) that] Commit_retry_times[OF inv(1-3,5) that] inv by (simp add: step_ok_def)
    with refl OpCommit show ?thesis by (simp add: result_cases)
  next
    case (OpInitLifecycle v)
    have "step_ok db db'" if "InitializeSchedulerLifecycle v db = Inr (w, db')" for w db'
      using InitializeSchedulerLifecycle_ok[OF that] inv
      by (simp add: step_ok_def lifecycle_inv_def table_step.keep)
    with refl OpInitLifecycle show ?thesis by (simp add: on_ok_cases)
  next
    case (OpCasLifecycle n v)
    have "step_ok db db'" if "CompareAndSwapSchedulerLifecycle n v db = Inr (w, db')" for w db'
      using CompareAndSwap_ok[OF that] inv
      by (simp add: step_ok_def lifecycle_inv_def table_step.keep)
    with refl OpCasLifecycle show ?thesis by (simp add: on_ok_cases)
  next
    case (OpJobs js)
    then show ?thesis using inv by (simp add: step_ok_def table_step.keep)
  qed
qed

interpretation scheduler: event_machine sched_apply "\<lambda>_. True" sched_inv
proof
  fix db x assume "sched_inv db"
  then show "sched_inv (sched_apply db x)"
    using sched_apply_step[of db x] table_step_inv[of "db_Tasks db" "db_Tasks (sched_apply db x)"]
      sched_invD(1)[of db]
    by (simp add: sched_inv_def step_ok_def)
qed

lemma sched_inv_run: "sched_inv db \<Longrightarrow> sched_inv (sched_run db xs)"
  unfolding sched_run_def by (rule scheduler.inv_run) simp_all

lemma sched_inv_empty: "sched_inv sched_empty"
  by (simp add: sched_inv_def sched_empty_def rows_inv_def retries_inv_def cycles_inv_def
      lifecycle_inv_def retry_times_def)

section \<open>Lemmas for the properties\<close>

lemma rows_inv_schema: "rows_inv ms \<Longrightarrow> list_all scheduler_tasks_check ms"
proof -
  have "scheduler_tasks_check m" if "row_ok m" for m
  proof -
    from that have v: "validateSchedulerTask (md_Task m) = None" by (simp add: row_ok_def)
    note d = validateSchedulerTaskD[OF v]
    have adm: "md_AdmissionTargetID m \<noteq> []" "validSchedulerServiceClass (md_AdmissionServiceClass m)"
      using that by (simp_all add: row_ok_def)
    have shape: "stateColumnCheck (md_Task m)"
      using d(1,4) by (auto simp: taskFieldsInvalid_def split: SchedulerTaskState.splits)
    have err: "case tk_LastErrorClass (md_Task m) of None \<Rightarrow> True | Some e \<Rightarrow> validRuntimeErrorClass e"
      using d(5) by (auto simp: validateRuntimeErrorClass_def split: option.splits if_splits)
    show ?thesis
      unfolding scheduler_tasks_check_def Let_def
      using d(1,3) adm shape err
      by (intro conjI)
        (auto simp: taskFieldsInvalid_def taskTimesInvalid_def enum_valid_defs split: option.splits)
  qed
  then show "rows_inv ms \<Longrightarrow> list_all scheduler_tasks_check ms"
    by (auto simp: rows_inv_def list_all_iff)
qed

lemma row_ok_all_read: "rows_inv ms \<Longrightarrow> list_all (\<lambda>m. schedulerTaskFromModel m = Inr (md_Task m)) ms"
  by (auto simp: rows_inv_def list_all_iff row_ok_fromModel)

lemma schedulerTaskModelByID_mem:
  assumes "rows_inv (db_Tasks db)" and "m \<in> set (db_Tasks db)"
  shows "schedulerTaskModelByID (row_id m) db = Some m"
  using find_unique_id[of row_id "db_Tasks db" m] assms
  by (simp add: schedulerTaskModelByID_def rows_inv_def)

lemma schedulerTaskByID_mem:
  assumes "rows_inv (db_Tasks db)" and "m \<in> set (db_Tasks db)"
  shows "schedulerTaskByID (row_id m) db = Inr (Some (md_Task m))"
proof -
  have "row_ok m" using assms by (simp add: rows_inv_def list_all_iff)
  with schedulerTaskModelByID_mem[OF assms] show ?thesis
    by (simp add: schedulerTaskByID_def row_ok_fromModel)
qed

lemma run_lifecycle_present:
  "sched_inv db \<Longrightarrow> db_Lifecycle db \<noteq> None \<Longrightarrow> db_Lifecycle (sched_run db xs) \<noteq> None"
proof (induction xs arbitrary: db)
  case (Cons x xs)
  then have "sched_inv (sched_apply db x)" "db_Lifecycle (sched_apply db x) \<noteq> None"
    using sched_apply_step[of db x] scheduler.inv_step[of db x] by (auto simp: step_ok_def)
  from Cons.IH[OF this] show ?case by (simp add: sched_run_def)
qed (simp add: sched_run_def)

lemma ensure_present:
  assumes "lifecycle_inv (db_Lifecycle db)" and "db_Lifecycle db \<noteq> None"
  shows "ensureSchedulerLifecycleForAdmission t db = Inr db"
  using assms
  by (auto simp: ensureSchedulerLifecycleForAdmission_def schedulerLifecycleIn_def lifecycle_inv_def)

lemma Enqueue_row_present:
  assumes "EnqueueSchedulerTask t cap db = Inr db'"
  shows "\<exists>m \<in> set (db_Tasks db'). schedulerTaskAdmissionMatches m t"
proof -
  from assms obtain db1 where v: "validateSchedulerAdmissionTask t = None"
    and db1: "ensureSchedulerLifecycleForAdmission t db = Inr db1"
    by (simp add: EnqueueSchedulerTask_def split: if_splits option.splits sum.splits)
  show ?thesis
  proof (cases "schedulerTaskModelByID (tk_TaskID t) db1")
    case (Some m)
    with assms v db1 have "schedulerTaskAdmissionMatches m t" "db' = db1"
      by (auto simp: EnqueueSchedulerTask_def split: if_splits)
    moreover have "m \<in> set (db_Tasks db1)"
      using Some by (auto simp: schedulerTaskModelByID_def find_Some_iff)
    ultimately show ?thesis by blast
  next
    case None
    with assms v db1 have "db' = db1\<lparr>db_Tasks := db_Tasks db1 @ [schedulerTaskModelFromDomain t]\<rparr>"
      by (auto simp: EnqueueSchedulerTask_def split: if_splits option.splits)
    then show ?thesis
      by (simp add: schedulerTaskAdmissionMatches_def schedulerTaskModelFromDomain_def)
  qed
qed

lemma admissionMatches_key:
  "admissionKey m' = admissionKey m \<Longrightarrow> schedulerTaskAdmissionMatches m t \<Longrightarrow>
   schedulerTaskAdmissionMatches m' t"
  by (simp add: admissionKey_def schedulerTaskAdmissionMatches_def)

lemma Enqueue_replay:
  assumes "sched_inv db" and "db_Lifecycle db \<noteq> None" and "m \<in> set (db_Tasks db)"
    and "schedulerTaskAdmissionMatches m t" and "validateSchedulerAdmissionTask t = None"
    and "1 \<le> cap" "cap \<le> 10000"
  shows "EnqueueSchedulerTask t cap db = Inr db"
proof -
  note inv = sched_invD[OF assms(1)]
  have "ensureSchedulerLifecycleForAdmission t db = Inr db" using inv(4) assms(2) by (rule ensure_present)
  moreover have "schedulerTaskModelByID (tk_TaskID t) db = Some m"
    using schedulerTaskModelByID_mem[OF inv(1) assms(3)] assms(4)
    by (simp add: schedulerTaskAdmissionMatches_def)
  ultimately show ?thesis using assms by (simp add: EnqueueSchedulerTask_def)
qed

lemma run_progress:
  assumes "sched_inv db" and "m \<in> set (db_Tasks db)"
  shows "\<exists>m' \<in> set (db_Tasks (sched_run db xs)).
           admissionKey m' = admissionKey m \<and> progress_le (md_Task m) (md_Task m') \<and>
           (row_state m = SchedulerTaskSucceeded \<longrightarrow> m' = m)"
  using assms
proof (induction xs arbitrary: db m)
  case (Cons x xs)
  note st = sched_apply_step[OF Cons.prems(1), of x, unfolded step_ok_def]
  obtain m1 where m1: "m1 \<in> set (db_Tasks (sched_apply db x))" "admissionKey m1 = admissionKey m"
    "progress_le (md_Task m) (md_Task m1)" "row_state m = SchedulerTaskSucceeded \<longrightarrow> m1 = m"
    using table_step_progress[OF conjunct1[OF st] sched_invD(1)[OF Cons.prems(1)] Cons.prems(2)] by blast
  have "sched_inv (sched_apply db x)" using scheduler.inv_step[OF Cons.prems(1)] by simp
  from Cons.IH[OF this m1(1)] obtain m' where "m' \<in> set (db_Tasks (sched_run db (x # xs)))"
    "admissionKey m' = admissionKey m1" "progress_le (md_Task m1) (md_Task m')"
    "row_state m1 = SchedulerTaskSucceeded \<longrightarrow> m' = m1" by (auto simp: sched_run_def)
  with m1 show ?case by (metis progress_le_trans)
qed (auto simp: sched_run_def progress_le_refl)

text \<open>Rewriting a row that is there, without rebinding it, always succeeds.\<close>

lemma CAS_succeeds:
  assumes inv: "rows_inv (db_Tasks db)" and m: "m \<in> set (db_Tasks db)"
    and t': "same_columns (md_Task m) t'" "tk_TargetID t' = row_target m"
  shows "\<exists>db'. updateSchedulerTaskCAS t' (row_state m) db = Inr db'"
proof -
  have d: "distinct (map row_id (db_Tasks db))" "distinct (map row_target (db_Tasks db))"
    using inv by (simp_all add: rows_inv_def)
  have "casHit t' (row_state m) x \<longleftrightarrow> x = m" if "x \<in> set (db_Tasks db)" for x
    using distinct_row_unique[OF d(1) that m] t'(1) by (auto simp: casHit_def same_columns_def)
  then have "filter (casHit t' (row_state m)) (db_Tasks db) = filter (\<lambda>x. x = m) (db_Tasks db)"
    by (rule filter_cong[OF refl])
  moreover have "length (filter (\<lambda>x. x = m) (db_Tasks db)) = 1"
    using d(1) m by (simp add: filter_eq_length_one distinct_map)
  ultimately have one: "length (filter (casHit t' (row_state m)) (db_Tasks db)) = 1" by simp
  have "\<not> list_ex (\<lambda>x. row_id x \<noteq> tk_TaskID t' \<and> row_target x = tk_TargetID t') (db_Tasks db)"
    using d(2) m t' by (auto simp: list_ex_iff same_columns_def distinct_map inj_on_def)
  with one show ?thesis by (auto simp: updateSchedulerTaskCAS_def Let_def)
qed

lemma Claim_ok_iff:
  assumes "sched_inv db"
  shows "(\<exists>t' db'. ClaimSchedulerTask i a db = Inr (t', db')) \<longleftrightarrow>
         (\<exists>m l. m \<in> set (db_Tasks db) \<and> row_id m = i \<and> row_state m = SchedulerTaskQueued \<and>
            tk_UpdatedAtMS (md_Task m) < a \<and> a \<le> MaxSchedulerRunningTimestampMS \<and>
            db_Lifecycle db = Some l \<and>
            lifecyclePermitsTask l (tk_HomeGeneration (md_Task m)) (tk_Lane (md_Task m)) \<and>
            running_rows (db_Tasks db) = [])" (is "?L = ?R")
proof
  note inv = sched_invD[OF assms]
  assume ?L
  then obtain t' db' where ok: "ClaimSchedulerTask i a db = Inr (t', db')" by blast
  show ?R
  proof (rule ClaimSchedulerTask_cases[OF ok])
    fix t l
    assume c: "schedulerTaskByID i db = Inr (Some t)" "tk_State t = SchedulerTaskQueued"
      "tk_UpdatedAtMS t < a" "a \<le> MaxSchedulerRunningTimestampMS" "db_Lifecycle db = Some l"
      "lifecyclePermitsTask l (tk_HomeGeneration t) (tk_Lane t)"
      "\<not> list_ex (\<lambda>m. row_state m = SchedulerTaskRunning \<and> row_id m \<noteq> i) (db_Tasks db)"
    obtain m where m: "m \<in> set (db_Tasks db)" "md_Task m = t" "tk_TaskID t = i"
      using schedulerTaskByID_Some[OF c(1)] by blast
    have "row_state x \<noteq> SchedulerTaskRunning" if x: "x \<in> set (db_Tasks db)" for x
    proof
      assume r: "row_state x = SchedulerTaskRunning"
      with c(7) x have "row_id x = i" by (auto simp: list_ex_iff)
      then have "schedulerTaskByID i db = Inr (Some (md_Task x))"
        using schedulerTaskByID_mem[OF inv(1) x] by simp
      with c(1,2) r show False by simp
    qed
    then have "running_rows (db_Tasks db) = []" by (simp add: filter_empty_conv)
    with c m show ?R by (intro exI[of _ m] exI[of _ l]) simp
  qed
next
  note inv = sched_invD[OF assms]
  assume ?R
  then obtain m l where r: "m \<in> set (db_Tasks db)" "row_id m = i" "row_state m = SchedulerTaskQueued"
    "tk_UpdatedAtMS (md_Task m) < a" "a \<le> MaxSchedulerRunningTimestampMS" "db_Lifecycle db = Some l"
    "lifecyclePermitsTask l (tk_HomeGeneration (md_Task m)) (tk_Lane (md_Task m))"
    "running_rows (db_Tasks db) = []" by blast
  let ?t = "md_Task m"
  have t: "schedulerTaskByID i db = Inr (Some ?t)" using schedulerTaskByID_mem[OF inv(1) r(1)] r(2) by simp
  have "row_ok m" using inv(1) r(1) by (simp add: rows_inv_def list_all_iff)
  then have i: "i \<noteq> []"
    using r(2) validateSchedulerTaskD(1)[of ?t] by (auto simp: row_ok_def taskFieldsInvalid_def)
  have l: "schedulerLifecycleIn db = Inr (Some l)"
    using inv(4) r(6) by (simp add: schedulerLifecycleIn_def lifecycle_inv_def)
  have busy: "\<not> list_ex (\<lambda>m. row_state m = SchedulerTaskRunning \<and> row_id m \<noteq> i) (db_Tasks db)"
    using r(8) by (simp add: list_ex_iff filter_empty_conv)
  have "same_columns ?t (claimed a ?t)" "tk_TargetID (claimed a ?t) = row_target m"
    by (simp_all add: same_columns_def claimed_def)
  from CAS_succeeds[OF inv(1) r(1) this] r(3)
  obtain db' where "updateSchedulerTaskCAS (claimed a ?t) SchedulerTaskQueued db = Inr db'" by auto
  with i t r l busy show ?L by (simp add: ClaimSchedulerTask_def)
qed

lemma replaced_set:
  "distinct (map f (pre @ m # suf)) \<Longrightarrow> set (pre @ m' # suf) = insert m' (set (pre @ m # suf) - {m})"
  by auto

lemma Commit_retry_row:
  assumes inv: "retries_inv (db_Retries db)"
    and ok: "applySchedulerRetryMutation i a m db = Inr db'"
  shows "schedulerRetryStateIn i db' = Inr (Some (retryCandidate i a m))"
proof -
  let ?c = "retryCandidate i a m"
  note inv' = applySchedulerRetryMutation_ok[OF inv ok]
  have id: "rt_TaskID ?c = i" by (simp add: retryCandidate_def)
  from ok have g: "rm_ExpectedRevision m \<noteq> max_int64" "rm_FailureCount m \<noteq> max_int64"
    by (simp_all add: applySchedulerRetryMutation_def split: if_splits)
  with ok obtain cur where cur: "schedulerRetryStateIn i db = Inr cur"
    by (simp add: applySchedulerRetryMutation_def split: sum.splits)
  with ok g have v: "validateSchedulerRetryState ?c = None"
    by (simp add: applySchedulerRetryMutation_def split: option.splits)
  have mem: "?c \<in> set (db_Retries db')"
  proof (cases cur)
    case None
    with ok g cur v show ?thesis by (auto simp: applySchedulerRetryMutation_def split: if_splits)
  next
    case (Some r)
    with cur have r: "r \<in> set (db_Retries db)" "rt_TaskID r = i"
      using schedulerRetryStateIn_Some by blast+
    from ok g cur v Some have "rt_Revision r = rm_ExpectedRevision m"
      and "db_Retries db' = map (\<lambda>r. if rt_TaskID r = i \<and> rt_Revision r = rm_ExpectedRevision m
             then ?c else r) (db_Retries db)"
      by (auto simp: applySchedulerRetryMutation_def Let_def split: if_splits)
    with r show ?thesis by (auto simp: image_iff intro!: bexI[of _ r])
  qed
  have "distinct (map rt_TaskID (db_Retries db'))" using inv' by (simp add: retries_inv_def)
  from find_unique_id[OF this mem] id v show ?thesis by (simp add: schedulerRetryStateIn_def)
qed

lemma Commit_effect:
  assumes inv: "sched_inv db" and ok: "CommitSchedulerCycle c db = Inr db'"
  shows "\<exists>m \<in> set (db_Tasks db). row_id m = cm_TaskID c \<and> row_state m = SchedulerTaskRunning \<and>
           set (db_Tasks db') = insert (m\<lparr>md_Task := committed c (md_Task m)\<rparr>) (set (db_Tasks db) - {m}) \<and>
           tk_FilesProcessed (committed c (md_Task m)) = tk_FilesProcessed (md_Task m) + cm_FilesDelta c \<and>
           tk_BytesProcessed (committed c (md_Task m)) = tk_BytesProcessed (md_Task m) + cm_BytesDelta c \<and>
           tk_SliceCount (committed c (md_Task m)) = tk_SliceCount (md_Task m) + 1 \<and>
           running_rows (db_Tasks db') = [] \<and> db_Cycles db' = cm_Cycle c # db_Cycles db"
proof -
  obtain t db1 db2 where c: "validateSchedulerCycleCommit c = None"
    "schedulerTaskByID (cm_TaskID c) db = Inr (Some t)" "\<not> commitRefused c t"
    "validateSchedulerTask (committed c t) = None"
    "updateSchedulerTaskCAS (committed c t) (cm_ExpectedState c) db = Inr db1"
    "(case cm_Retry c of None \<Rightarrow> Inr db1
      | Some m \<Rightarrow> applySchedulerRetryMutation (tk_TaskID t) (cm_AtMS c) m db1) = Inr db2"
    "cy_CycleID (cm_Cycle c) \<notin> cy_CycleID ` set (db_Cycles db2)"
    "db' = db2\<lparr>db_Cycles := cm_Cycle c # db_Cycles db2\<rparr>"
    by (rule CommitSchedulerCycle_cases[OF ok])
  note i = sched_invD[OF inv]
  have st: "task_step t (committed c t)" using c(1,3) by (rule task_step.commit)
  obtain pre m suf where m: "db_Tasks db = pre @ m # suf" "md_Task m = t" "tk_State t = cm_ExpectedState c"
    "db1 = db\<lparr>db_Tasks := pre @ m\<lparr>md_Task := committed c t\<rparr> # suf\<rparr>"
    "tk_TargetID (committed c t) \<notin> row_target ` set (pre @ suf)" "row_ok m"
    by (rule updateSchedulerTaskCAS_ok[OF i(1) c(2) task_step_same_columns[OF st] c(5)])
  have run: "tk_State t = SchedulerTaskRunning" using c(3) by (auto simp: commitRefused_def)
  have tid: "tk_TaskID t = cm_TaskID c" using schedulerTaskByID_Some[OF c(2)] by blast
  have db2: "db_Tasks db2 = db_Tasks db1 \<and> db_Cycles db2 = db_Cycles db1"
  proof (cases "cm_Retry c")
    case (Some mu)
    with c(6) have a: "applySchedulerRetryMutation (tk_TaskID t) (cm_AtMS c) mu db1 = Inr db2" by simp
    have "retries_inv (db_Retries db1)" using i(2) m(4) by simp
    from applySchedulerRetryMutation_ok[OF this a] have e: "db2 = db1\<lparr>db_Retries := db_Retries db2\<rparr>" by simp
    from arg_cong[OF e, of db_Tasks] arg_cong[OF e, of db_Cycles] show ?thesis by simp
  qed (use c(6) in simp)
  have new: "tk_State (committed c t) \<noteq> SchedulerTaskRunning"
    using commit_stateD[OF c(1)] by (auto simp: committed_def)
  have "length (running_rows (pre @ m # suf)) \<le> 1" using i(1) m(1) by (simp add: rows_inv_def)
  then have none: "running_rows pre = []" "running_rows suf = []" using run m(2) by simp_all
  have dist: "distinct (map row_id (pre @ m # suf))" using i(1) m(1) by (simp add: rows_inv_def)
  have t: "validateSchedulerTask t = None" "tk_SliceCount t \<le> max_int64"
    using m(2,6) by (auto simp: row_ok_def)
  note cnt = committed_counters[OF c(1,3) task_boundsD(2-4)[OF t(1)] t(2)]
  have rows: "db_Tasks db' = pre @ m\<lparr>md_Task := committed c t\<rparr> # suf" using c(8) db2 m(4) by simp
  show ?thesis
  proof (intro bexI[of _ m] conjI)
    show "set (db_Tasks db') = insert (m\<lparr>md_Task := committed c (md_Task m)\<rparr>) (set (db_Tasks db) - {m})"
      unfolding rows m(1,2) by (rule replaced_set[OF dist])
    show "running_rows (db_Tasks db') = []" using rows none new by simp
    show "db_Cycles db' = cm_Cycle c # db_Cycles db" using c(8) db2 m(4) by simp
    show "m \<in> set (db_Tasks db)" using m(1) by simp
    show "row_id m = cm_TaskID c" "row_state m = SchedulerTaskRunning" using m(2) tid run by simp_all
  qed (simp_all only: m(2) cnt)
qed

lemma schedulerRetryStateIn_mem:
  assumes "retries_inv (db_Retries db)" and "r \<in> set (db_Retries db)"
  shows "schedulerRetryStateIn (rt_TaskID r) db = Inr (Some r)"
proof -
  have "find (\<lambda>y. rt_TaskID y = rt_TaskID r) (db_Retries db) = Some r"
    using assms by (intro find_unique_id) (simp_all add: retries_inv_def)
  with assms show ?thesis by (simp add: schedulerRetryStateIn_def retries_inv_def list_all_iff)
qed

text \<open>After a requeue the task is queued on the new target and its retry fact is resolved.\<close>

lemma Requeue_result:
  assumes inv: "sched_inv db"
    and ok: "RequeueFailedSchedulerTask i e target n q a db = Inr (t', db')"
  shows "\<exists>r. schedulerTaskByID i db' = Inr (Some t') \<and> tk_State t' = SchedulerTaskQueued \<and>
           tk_TargetID t' = target \<and> schedulerRetryStateIn i db' = Inr (Some r) \<and>
           rt_Disposition r = SchedulerRetryResolved \<and> rt_Revision r = n + 1"
proof -
  note d = sched_invD[OF inv]
  have inv': "sched_inv db'"
    using scheduler.inv_step[OF inv, of "OpRequeue i e target n q a"] ok by (simp add: on_ok_def)
  show ?thesis
  proof (cases rule: RequeueFailedSchedulerTask_cases[OF ok, case_names replay rebind])
    case (replay t r)
    then show ?thesis by auto
  next
    case (rebind t r db1)
    note rb = rebindTask_ok[OF rebind(13)]
    have "task_step t t'" using rb rebind(2,8-10) task_step.rebind by simp
    then obtain pre m suf where m: "db_Tasks db = pre @ m # suf" "md_Task m = t"
      "tk_State t = tk_State t" "db1 = db\<lparr>db_Tasks := pre @ m\<lparr>md_Task := t'\<rparr> # suf\<rparr>"
      "tk_TargetID t' \<notin> row_target ` set (pre @ suf)" "row_ok m"
      using updateSchedulerTaskCAS_ok[OF d(1) rebind(1) task_step_same_columns] rb by metis
    have id: "tk_TaskID t' = i"
      using schedulerTaskByID_Some[OF rebind(1)] rb by (auto simp: rebound_def)
    have mem: "m\<lparr>md_Task := t'\<rparr> \<in> set (db_Tasks db')" using m(4) rebind(15) by simp
    have task: "schedulerTaskByID i db' = Inr (Some t')"
      using schedulerTaskByID_mem[OF sched_invD(1)[OF inv'] mem] id by simp
    have r: "r \<in> set (db_Retries db1)" "rt_TaskID r = i"
      using schedulerRetryStateIn_Some[OF rebind(3)] m(4) by simp_all
    have "resolveRetry n a r \<in> set (db_Retries db')"
      using r rebind(4,5,15) by (auto simp: retryHit_def image_iff intro!: bexI[of _ r])
    then have "schedulerRetryStateIn i db' = Inr (Some (resolveRetry n a r))"
      using schedulerRetryStateIn_mem[OF sched_invD(2)[OF inv']] r(2) by fastforce
    with task rb show ?thesis by (simp add: resolveRetry_def rebound_def)
  qed
qed

section \<open>A concrete run\<close>

text \<open>One live-scan job that is admitted, claimed and committed, for the witnesses.\<close>

definition ex_job :: "JobRun" where
  "ex_job = \<lparr>jb_JobID = ''j1'', jb_State = JobQueued, jb_Phase = JobPhaseLive, jb_ErrorClass = None,
             jb_UpdatedAtMS = 900\<rparr>"

definition ex_task :: SchedulerTask where
  "ex_task = \<lparr>tk_TaskID = ''t1'', tk_DedupeKey = ''d1'', tk_TargetKind = SchedulerTargetLiveScan,
     tk_TargetID = ''j1'', tk_HomeGeneration = 0, tk_Lane = SchedulerLaneLive,
     tk_ServiceClass = SchedulerServiceBackground, tk_State = SchedulerTaskQueued,
     tk_QueueOrderMS = 1000, tk_EnqueuedAtMS = 1000, tk_FirstStartedAtMS = None,
     tk_LastStartedAtMS = None, tk_FinishedAtMS = None, tk_FilesProcessed = 0,
     tk_BytesProcessed = 0, tk_SliceCount = 0, tk_LastErrorClass = None, tk_UpdatedAtMS = 1000\<rparr>"

definition ex_cycle :: SchedulerCycle where
  "ex_cycle = \<lparr>cy_CycleID = ''c1'', cy_TaskID = ''t1'', cy_Lane = SchedulerLaneLive,
     cy_SelectionReason = SchedulerSelectionLiveOnly, cy_StopReason = SchedulerStopCompleted,
     cy_Outcome = SchedulerCycleCompleted, cy_BudgetFiles = 4, cy_BudgetBytes = 100,
     cy_BudgetActiveMS = 50, cy_ConsumedFiles = 1, cy_ConsumedBytes = 7, cy_ActiveMS = 5,
     cy_LiveDepth = 1, cy_BackfillDepth = 0, cy_OldestLiveWaitMS = 1, cy_OldestBackfillWaitMS = 0,
     cy_StartedAtMS = 1001, cy_FinishedAtMS = 1006\<rparr>"

definition ex_commit :: SchedulerCycleCommit where
  "ex_commit = \<lparr>cm_TaskID = ''t1'', cm_ExpectedState = SchedulerTaskRunning,
     cm_State = SchedulerTaskSucceeded, cm_QueueOrderMS = 1000, cm_FilesDelta = 1, cm_BytesDelta = 7,
     cm_ErrorClass = None, cm_AtMS = 1007, cm_Cycle = ex_cycle, cm_Retry = None\<rparr>"

definition ex_queued :: sched_db where
  "ex_queued = sched_run sched_empty [OpJobs [''j1'' \<mapsto> ex_job], OpEnqueue ex_task 10]"

definition ex_running :: sched_db where
  "ex_running = sched_run ex_queued [OpClaim ''t1'' 1001]"

lemma ex_queued_inv: "sched_inv ex_queued"
  unfolding ex_queued_def by (rule sched_inv_run[OF sched_inv_empty])

lemma ex_running_inv: "sched_inv ex_running"
  unfolding ex_running_def by (rule sched_inv_run[OF ex_queued_inv])

section \<open>Properties\<close>

text \<open>C1: Starting from empty tables, after any sequence of scheduler transactions, lifecycle writes
  and job changes, at most one task is running, task ids, dedupe keys and targets are unique, every
  stored row reads back without error, and every row satisfies the CHECK clauses of the
  \<open>scheduler_tasks\<close> table.\<close>

theorem every_run_keeps_tables:
  "let ms = db_Tasks (sched_run sched_empty xs) in
     length (filter (\<lambda>m. tk_State (md_Task m) = SchedulerTaskRunning) ms) \<le> 1 \<and>
     distinct (map (\<lambda>m. tk_TaskID (md_Task m)) ms) \<and>
     distinct (map (\<lambda>m. tk_DedupeKey (md_Task m)) ms) \<and>
     distinct (map (\<lambda>m. tk_TargetID (md_Task m)) ms) \<and>
     list_all (\<lambda>m. schedulerTaskFromModel m = Inr (md_Task m)) ms \<and>
     list_all scheduler_tasks_check ms"
proof -
  have r: "rows_inv (db_Tasks (sched_run sched_empty xs))"
    by (rule sched_invD(1)[OF sched_inv_run[OF sched_inv_empty]])
  then show ?thesis
    using rows_inv_schema[OF r] row_ok_all_read[OF r] by (simp add: rows_inv_def Let_def)
qed

text \<open>C5: Every transaction refines the abstract table machine: it leaves the task table as it is,
  appends one freshly admitted queued row whose identity is new, or lets exactly one row take a
  step of the task machine (claim, commit, rebind, promotion) while every other row stays.\<close>

theorem transactions_refine_table_machine:
  assumes "sched_inv db"
  shows "table_step (db_Tasks db) (db_Tasks (sched_apply db x)) \<and> sched_inv (sched_apply db x)"
  using sched_apply_step[OF assms, of x] scheduler.inv_step[OF assms, of x]
  by (simp add: step_ok_def)

theorem transactions_refine_table_machine_witness:
  "table_step (db_Tasks ex_queued) (db_Tasks (sched_apply ex_queued (OpClaim ''t1'' 1001))) \<and>
   row_state (hd (db_Tasks (sched_apply ex_queued (OpClaim ''t1'' 1001)))) = SchedulerTaskRunning"
proof
  show "table_step (db_Tasks ex_queued) (db_Tasks (sched_apply ex_queued (OpClaim ''t1'' 1001)))"
    using transactions_refine_table_machine[OF ex_queued_inv] by blast
  show "row_state (hd (db_Tasks (sched_apply ex_queued (OpClaim ''t1'' 1001)))) = SchedulerTaskRunning"
    by code_simp
qed





text \<open>C20: A claim succeeds exactly when the task is queued, the claim time is later than its last
  update and inside the running window, the lifecycle row permits its generation and lane, and
  nothing is running.\<close>

theorem claim_succeeds_iff:
  assumes "sched_inv db"
  shows "(\<exists>t' db'. ClaimSchedulerTask i a db = Inr (t', db')) \<longleftrightarrow>
         (\<exists>m l. m \<in> set (db_Tasks db) \<and> row_id m = i \<and> row_state m = SchedulerTaskQueued \<and>
            tk_UpdatedAtMS (md_Task m) < a \<and> a \<le> MaxSchedulerRunningTimestampMS \<and>
            db_Lifecycle db = Some l \<and>
            lifecyclePermitsTask l (tk_HomeGeneration (md_Task m)) (tk_Lane (md_Task m)) \<and>
            filter (\<lambda>m. row_state m = SchedulerTaskRunning) (db_Tasks db) = [])"
  by (rule Claim_ok_iff[OF assms])

theorem claim_succeeds_iff_witness:
  "(\<exists>t' db'. ClaimSchedulerTask ''t1'' 1001 ex_queued = Inr (t', db')) \<and>
   \<not> (\<exists>t' db'. ClaimSchedulerTask ''t1'' 1002 ex_running = Inr (t', db'))"
proof
  have "db_Tasks ex_queued = [schedulerTaskModelFromDomain ex_task]"
    "db_Lifecycle ex_queued = Some (admissionLifecycle ex_task)"
    by code_simp+
  then show "\<exists>t' db'. ClaimSchedulerTask ''t1'' 1001 ex_queued = Inr (t', db')"
    unfolding claim_succeeds_iff[OF ex_queued_inv]
    by (simp add: schedulerTaskModelFromDomain_def ex_task_def admissionLifecycle_def
        lifecyclePermitsTask_def scheduler_limits)
  have "filter (\<lambda>m. row_state m = SchedulerTaskRunning) (db_Tasks ex_running) \<noteq> []" by code_simp
  then show "\<not> (\<exists>t' db'. ClaimSchedulerTask ''t1'' 1002 ex_running = Inr (t', db'))"
    unfolding claim_succeeds_iff[OF ex_running_inv] by simp
qed

text \<open>C21: A committed cycle moves its running task to the committed state, adds exactly the
  consumed files and bytes and one slice to its counters without overflow, leaves no task running,
  changes no other row and records the cycle first.\<close>

theorem commit_effect:
  assumes "sched_inv db" and "CommitSchedulerCycle c db = Inr db'"
  shows "\<exists>m \<in> set (db_Tasks db). row_id m = cm_TaskID c \<and> row_state m = SchedulerTaskRunning \<and>
           set (db_Tasks db') = insert (m\<lparr>md_Task := committed c (md_Task m)\<rparr>) (set (db_Tasks db) - {m}) \<and>
           tk_FilesProcessed (committed c (md_Task m)) = tk_FilesProcessed (md_Task m) + cm_FilesDelta c \<and>
           tk_BytesProcessed (committed c (md_Task m)) = tk_BytesProcessed (md_Task m) + cm_BytesDelta c \<and>
           tk_SliceCount (committed c (md_Task m)) = tk_SliceCount (md_Task m) + 1 \<and>
           filter (\<lambda>m. row_state m = SchedulerTaskRunning) (db_Tasks db') = [] \<and>
           db_Cycles db' = cm_Cycle c # db_Cycles db"
  by (rule Commit_effect[OF assms])

theorem commit_effect_witness:
  "\<exists>db'. CommitSchedulerCycle ex_commit ex_running = Inr db' \<and> db_Cycles db' = [ex_cycle]"
proof -
  have "(case CommitSchedulerCycle ex_commit ex_running of Inl _ \<Rightarrow> False | Inr _ \<Rightarrow> True)"
    by code_simp
  then obtain db' where ok: "CommitSchedulerCycle ex_commit ex_running = Inr db'"
    by (auto split: sum.splits)
  have "db_Cycles ex_running = []" by code_simp
  with commit_effect[OF ex_running_inv ok] ok show ?thesis by (auto simp: ex_commit_def)
qed

text \<open>C11: Requeueing a failed task happens once and never early: a call that changes the tables
  finds a waiting retry of exactly the expected revision that is due, and repeating the call
  (whatever times it carries) returns the same task and changes nothing.\<close>

theorem requeue_once_and_not_early:
  assumes "sched_inv db"
    and "RequeueFailedSchedulerTask i e target n q a db = Inr (t', db')"
  shows "RequeueFailedSchedulerTask i e target n q2 a2 db' = Inr (t', db') \<and>
         (db' = db \<or> (\<exists>r due. schedulerRetryStateIn i db = Inr (Some r) \<and> rt_Revision r = n \<and>
            rt_Disposition r = SchedulerRetryWaiting \<and> rt_NextRetryAtMS r = Some due \<and> due \<le> a))"
proof
  have args: "\<not> (i = [] \<or> e = [] \<or> target = [] \<or> n < 1 \<or> n = max_int64)"
    using assms(2) by (simp add: RequeueFailedSchedulerTask_def split: if_splits)
  obtain r where "schedulerTaskByID i db' = Inr (Some t')" "tk_State t' = SchedulerTaskQueued"
    "tk_TargetID t' = target" "schedulerRetryStateIn i db' = Inr (Some r)"
    "rt_Disposition r = SchedulerRetryResolved" "rt_Revision r = n + 1"
    using Requeue_result[OF assms] by metis
  with args show "RequeueFailedSchedulerTask i e target n q2 a2 db' = Inr (t', db')"
    by (simp add: RequeueFailedSchedulerTask_def)
  show "db' = db \<or> (\<exists>r due. schedulerRetryStateIn i db = Inr (Some r) \<and> rt_Revision r = n \<and>
      rt_Disposition r = SchedulerRetryWaiting \<and> rt_NextRetryAtMS r = Some due \<and> due \<le> a)"
    by (rule RequeueFailedSchedulerTask_cases[OF assms(2)]) blast+
qed

definition ex_fail :: SchedulerCycleCommit where
  "ex_fail = ex_commit\<lparr>cm_State := SchedulerTaskFailed, cm_ErrorClass := Some RuntimeErrorIO,
     cm_Cycle := ex_cycle\<lparr>cy_StopReason := SchedulerStopDependencyError,
                          cy_Outcome := SchedulerCycleFailed\<rparr>,
     cm_Retry := Some \<lparr>rm_ExpectedRevision = 0, rm_Disposition = SchedulerRetryWaiting,
       rm_FailureCount = 1, rm_LastErrorClass = RuntimeErrorIO, rm_NextRetryAtMS = Some 2000,
       rm_RecoveryAction = SchedulerRecoveryNone\<rparr>\<rparr>"

definition ex_failed :: sched_db where
  "ex_failed = sched_run ex_running [OpCommit ex_fail, OpJobs [''j2'' \<mapsto> ex_job]]"

theorem requeue_once_and_not_early_witness:
  "\<exists>t db. RequeueFailedSchedulerTask ''t1'' ''j1'' ''j2'' 1 2000 2000 ex_failed = Inr (t, db) \<and>
          RequeueFailedSchedulerTask ''t1'' ''j1'' ''j2'' 1 3000 3000 db = Inr (t, db)"
proof -
  have i: "sched_inv ex_failed" unfolding ex_failed_def by (rule sched_inv_run[OF ex_running_inv])
  have "(case RequeueFailedSchedulerTask ''t1'' ''j1'' ''j2'' 1 2000 2000 ex_failed of
           Inl _ \<Rightarrow> False | Inr _ \<Rightarrow> True)" by code_simp
  then obtain t db where
    ok: "RequeueFailedSchedulerTask ''t1'' ''j1'' ''j2'' 1 2000 2000 ex_failed = Inr (t, db)"
    by (auto split: sum.splits)
  with requeue_once_and_not_early[OF i ok] show ?thesis by blast
qed

end
