(* ===== verification/Task_Selection.thy ===== *)
theory Task_Selection
  imports Sched_Machine
begin

text \<open>
  Queue selection and scan budgets (\<open>src/internal/scheduler/selector.go\<close>,
  \<open>budget.go\<close>, \<open>queue.go\<close>) and the time helpers of \<open>worker.go\<close>. The worker reads
  a runnable snapshot, selects a lane with a bounded live burst, and resolves an integer budget.
  The properties: a snapshot of the store is always consistent, the selected task is always
  claimable, and backfill is never starved.
\<close>

section \<open>Selection\<close>

datatype service_error =
  ErrQueueEmpty | ErrInvalidQueueSnapshot | ErrInvalidBudget | ErrInvalidService
| ErrExecutorMissing | ErrInvalidSliceResult | ErrExecutorPanic | ErrSchedulerRetry store_error
| StoreError store_error | ExecutorError RuntimeErrorClass

record QueueSelection =
  sel_Task :: SchedulerTask
  sel_Reason :: SchedulerSelectionReason
  sel_LiveDepth :: int64
  sel_BackfillDepth :: int64
  sel_OldestLiveWaitMS :: int64
  sel_OldestBackfillWaitMS :: int64

definition validateQueueCandidate ::
  "SchedulerTask \<Rightarrow> SchedulerLane \<Rightarrow> int64 \<Rightarrow> service_error option" where
  "validateQueueCandidate t lane nowMS =
     (if tk_State t \<noteq> SchedulerTaskQueued \<or> tk_Lane t \<noteq> lane \<or> tk_TaskID t = [] \<or>
         tk_QueueOrderMS t < 0 \<or> tk_EnqueuedAtMS t < 0 \<or> tk_EnqueuedAtMS t > nowMS
      then Some ErrInvalidQueueSnapshot else None)"

fun consecutiveLiveCycles :: "SchedulerCycle list \<Rightarrow> int" where
  "consecutiveLiveCycles [] = 0"
| "consecutiveLiveCycles (c # cs) =
     (if cy_Lane c \<noteq> SchedulerLaneLive then 0 else consecutiveLiveCycles cs + 1)"

text \<open>The wait of one lane's candidate, or the validation error.\<close>

definition candidateWait ::
  "SchedulerTask option \<Rightarrow> SchedulerLane \<Rightarrow> int64 \<Rightarrow> service_error + int64" where
  "candidateWait candidate lane nowMS =
     (case candidate of
        None \<Rightarrow> Inr 0
      | Some t \<Rightarrow>
          (case validateQueueCandidate t lane nowMS of
             Some e \<Rightarrow> Inl e
           | None \<Rightarrow> Inr (sub64 nowMS (tk_EnqueuedAtMS t))))"

definition selectQueueSnapshot ::
  "SchedulerQueueSnapshot \<Rightarrow> SchedulerCycle list \<Rightarrow> int \<Rightarrow> int64 \<Rightarrow> service_error + QueueSelection" where
  "selectQueueSnapshot s recentCycles maxLiveBurst nowMS =
     (if maxLiveBurst \<le> 0 \<or> nowMS < 0 \<or> qs_LiveDepth s < 0 \<or> qs_BackfillDepth s < 0 \<or>
         (qs_LiveCandidate s = None) \<noteq> (qs_LiveDepth s = 0) \<or>
         (qs_BackfillCandidate s = None) \<noteq> (qs_BackfillDepth s = 0)
      then Inl ErrInvalidQueueSnapshot
      else case candidateWait (qs_LiveCandidate s) SchedulerLaneLive nowMS of
        Inl e \<Rightarrow> Inl e
      | Inr liveWait \<Rightarrow>
       (case candidateWait (qs_BackfillCandidate s) SchedulerLaneBackfill nowMS of
          Inl e \<Rightarrow> Inl e
        | Inr backfillWait \<Rightarrow>
            (let pick = (\<lambda>t r. Inr \<lparr>sel_Task = t, sel_Reason = r, sel_LiveDepth = qs_LiveDepth s,
                            sel_BackfillDepth = qs_BackfillDepth s, sel_OldestLiveWaitMS = liveWait,
                            sel_OldestBackfillWaitMS = backfillWait\<rparr>)
             in case (qs_LiveCandidate s, qs_BackfillCandidate s) of
                  (None, None) \<Rightarrow> Inl ErrQueueEmpty
                | (Some l, None) \<Rightarrow> pick l SchedulerSelectionLiveOnly
                | (None, Some b) \<Rightarrow> pick b SchedulerSelectionBackfillOnly
                | (Some l, Some b) \<Rightarrow>
                    if consecutiveLiveCycles recentCycles \<ge> maxLiveBurst
                    then pick b SchedulerSelectionBackfillFairness
                    else pick l SchedulerSelectionLivePriority)))"

section \<open>Budgets\<close>

text \<open>Durations are nanoseconds.\<close>

record ScanBudget =
  bg_MaxFiles :: int64
  bg_MaxBytes :: int64
  bg_MaxActive :: int64
  bg_YieldFor :: int64
  bg_Blocked :: bool

record SystemSnapshot =
  sy_LowPower :: bool
  sy_CPUPressure :: bool
  sy_MemoryPressure :: bool
  sy_StorePressure :: bool

record BudgetPolicy =
  bp_BackgroundNormal :: ScanBudget
  bp_BackgroundLowPower :: ScanBudget
  bp_BackgroundPressure :: ScanBudget
  bp_InteractiveNormal :: ScanBudget
  bp_InteractivePressure :: ScanBudget
  bp_StoreBlocked :: ScanBudget

definition millisecond :: int64 where
  "millisecond = 1000000"

definition scanBudget :: "int64 \<Rightarrow> int64 \<Rightarrow> int64 \<Rightarrow> int64 \<Rightarrow> bool \<Rightarrow> ScanBudget" where
  "scanBudget files bytes active yield blocked =
     \<lparr>bg_MaxFiles = files, bg_MaxBytes = bytes, bg_MaxActive = active * millisecond,
      bg_YieldFor = yield * millisecond, bg_Blocked = blocked\<rparr>"

definition DefaultBudgetPolicy :: BudgetPolicy where
  "DefaultBudgetPolicy =
     \<lparr>bp_BackgroundNormal = scanBudget 8 (4 * 2 ^ 20) 50 150 False,
      bp_BackgroundLowPower = scanBudget 4 (2 * 2 ^ 20) 25 250 False,
      bp_BackgroundPressure = scanBudget 1 (256 * 2 ^ 10) 10 500 False,
      bp_InteractiveNormal = scanBudget 16 (16 * 2 ^ 20) 200 0 False,
      bp_InteractivePressure = scanBudget 4 (4 * 2 ^ 20) 50 50 False,
      bp_StoreBlocked = scanBudget 0 0 0 500 True\<rparr>"

definition validScanBudget :: "ScanBudget \<Rightarrow> bool" where
  "validScanBudget b =
     (if bg_YieldFor b < 0 then False
      else if bg_Blocked b then bg_MaxFiles b = 0 \<and> bg_MaxBytes b = 0 \<and> bg_MaxActive b = 0
      else bg_MaxFiles b > 0 \<and> bg_MaxBytes b > 0 \<and> bg_MaxActive b > 0 \<and>
           bg_MaxActive b \<le> MaxSchedulerSliceActiveMS * millisecond)"

definition resolveBudget ::
  "BudgetPolicy \<Rightarrow> SchedulerServiceClass \<Rightarrow> SystemSnapshot \<Rightarrow> ScanBudget option" where
  "resolveBudget policy cls sys =
     (if sy_StorePressure sys then Some (bp_StoreBlocked policy)
      else if cls = SchedulerServiceInteractive \<and> (sy_CPUPressure sys \<or> sy_MemoryPressure sys)
      then Some (bp_InteractivePressure policy)
      else if cls = SchedulerServiceInteractive then Some (bp_InteractiveNormal policy)
      else if cls = SchedulerServiceBackground \<and> (sy_CPUPressure sys \<or> sy_MemoryPressure sys)
      then Some (bp_BackgroundPressure policy)
      else if cls = SchedulerServiceBackground \<and> sy_LowPower sys
      then Some (bp_BackgroundLowPower policy)
      else if cls = SchedulerServiceBackground then Some (bp_BackgroundNormal policy)
      else None)"

definition Resolve ::
  "BudgetPolicy \<Rightarrow> SchedulerServiceClass \<Rightarrow> SystemSnapshot \<Rightarrow> service_error + ScanBudget" where
  "Resolve policy cls sys =
     (case resolveBudget policy cls sys of
        None \<Rightarrow> Inl ErrInvalidBudget
      | Some b \<Rightarrow> if \<not> validScanBudget b then Inl ErrInvalidBudget else Inr b)"

section \<open>Admission by a producer\<close>

record EnqueueRequest =
  eq_TaskID :: string
  eq_DedupeKey :: string
  eq_TargetKind :: SchedulerTargetKind
  eq_TargetID :: string
  eq_HomeGeneration :: int64
  eq_Lane :: SchedulerLane
  eq_ServiceClass :: SchedulerServiceClass
  eq_RequestedAtMS :: int64
  eq_LaneCapacity :: int

definition requestTask :: "EnqueueRequest \<Rightarrow> SchedulerTask" where
  "requestTask r =
     \<lparr>tk_TaskID = eq_TaskID r, tk_DedupeKey = eq_DedupeKey r, tk_TargetKind = eq_TargetKind r,
      tk_TargetID = eq_TargetID r, tk_HomeGeneration = eq_HomeGeneration r, tk_Lane = eq_Lane r,
      tk_ServiceClass = eq_ServiceClass r, tk_State = SchedulerTaskQueued,
      tk_QueueOrderMS = eq_RequestedAtMS r, tk_EnqueuedAtMS = eq_RequestedAtMS r,
      tk_FirstStartedAtMS = None, tk_LastStartedAtMS = None, tk_FinishedAtMS = None,
      tk_FilesProcessed = 0, tk_BytesProcessed = 0, tk_SliceCount = 0, tk_LastErrorClass = None,
      tk_UpdatedAtMS = eq_RequestedAtMS r\<rparr>"

definition Enqueue ::
  "EnqueueRequest \<Rightarrow> sched_db \<Rightarrow> (service_error + SchedulerTask) \<times> sched_db" where
  "Enqueue r db =
     (case EnqueueSchedulerTask (requestTask r) (eq_LaneCapacity r) db of
        Inl e \<Rightarrow> (Inl (StoreError e), db)
      | Inr db' \<Rightarrow>
          (case SchedulerTaskOf (eq_TaskID r) db' of
             Inl e \<Rightarrow> (Inl (StoreError e), db')
           | Inr t \<Rightarrow> (Inr t, db')))"

section \<open>Time helpers of the worker\<close>

definition logicalQueueSnapshotMS :: "int64 \<Rightarrow> SchedulerQueueSnapshot \<Rightarrow> int64" where
  "logicalQueueSnapshotMS now s =
     (let lift = (\<lambda>c v. case c of None \<Rightarrow> v
                        | Some t \<Rightarrow> if tk_EnqueuedAtMS t > v then tk_EnqueuedAtMS t else v)
      in lift (qs_BackfillCandidate s) (lift (qs_LiveCandidate s) now))"

definition afterMS :: "int64 \<Rightarrow> int64 \<Rightarrow> int64 \<Rightarrow> service_error + int64" where
  "afterMS now v maximum =
     (let (result, ok) = After now v maximum in if ok then Inr result else Inl ErrInvalidService)"

text \<open>Go's integer division truncates; the argument is positive where it is used.\<close>

definition durationMillisecondsCeil :: "int64 \<Rightarrow> int64" where
  "durationMillisecondsCeil v =
     (if v \<le> 0 then 0
      else if v mod millisecond \<noteq> 0 then v div millisecond + 1 else v div millisecond)"

definition sliceHasQueuedCommitHeadroom :: "int64 \<Rightarrow> ScanBudget \<Rightarrow> bool" where
  "sliceHasQueuedCommitHeadroom startedAtMS b =
     (let activeMS = (if bg_Blocked b then 0 else durationMillisecondsCeil (bg_MaxActive b));
          (finishedAtMS, ok) = Add startedAtMS activeMS
      in if \<not> ok then False
         else (let (commitAtMS, ok2) = Successor finishedAtMS
               in ok2 \<and> commitAtMS \<le> MaxSchedulerQueuedTimestampMS))"

definition taskHasSliceCommitHeadroom :: "SchedulerTask \<Rightarrow> ScanBudget \<Rightarrow> bool" where
  "taskHasSliceCommitHeadroom t b =
     (if tk_SliceCount t \<ge> max_int64 - 1 then False
      else tk_FilesProcessed t \<le> max_int64 - bg_MaxFiles b \<and>
           tk_BytesProcessed t \<le> max_int64 - bg_MaxBytes b)"

definition finishedTimestampBase :: "int64 \<Rightarrow> int64 \<Rightarrow> service_error + int64" where
  "finishedTimestampBase startedAtMS activeMS =
     (if startedAtMS < 0 \<or> activeMS < 0 then Inl ErrInvalidService
      else if activeMS = 0 then Inr (startedAtMS - 1)
      else if startedAtMS > add64 (sub64 MaxSchedulerTimestampMS activeMS) 1 then Inl ErrInvalidService
      else Inr (sub64 (add64 startedAtMS activeMS) 1))"

definition queueWaitMS :: "SchedulerTask option \<Rightarrow> int64 \<Rightarrow> int64" where
  "queueWaitMS t nowMS =
     (case t of None \<Rightarrow> 0
      | Some x \<Rightarrow> if nowMS \<le> tk_EnqueuedAtMS x then 0 else sub64 nowMS (tk_EnqueuedAtMS x))"

section \<open>Lemmas: snapshots of the store\<close>

interpretation task_queue: go_less taskQueueLess
  by (rule go_lessI_key [where key = taskQueueKey]) (simp add: taskQueueLess_def)

text \<open>One lane of a snapshot over valid rows: the depth counts the rows of the query, and the
  candidate is the oldest of them.\<close>

lemma snapshotLane_spec:
  assumes "rows_inv (db_Tasks db)"
  shows "\<exists>c. snapshotLane query db = Inr (int (length (filter query (db_Tasks db))), c) \<and>
           (c = None \<longleftrightarrow> filter query (db_Tasks db) = []) \<and>
           (\<forall>t. c = Some t \<longrightarrow> (\<exists>m \<in> set (db_Tasks db). md_Task m = t \<and> query m \<and>
              (\<forall>x \<in> set (db_Tasks db). query x \<longrightarrow> \<not> taskQueueLess x m)))"
proof (cases "sort_by taskQueueLess (filter query (db_Tasks db))")
  case Nil
  then show ?thesis by (simp add: snapshotLane_def Let_def)
next
  case (Cons m ms)
  let ?rows = "filter query (db_Tasks db)"
  have mem: "m \<in> set ?rows" by (metis Cons list.set_intros(1) set_sort_by)
  then have "row_ok m" using assms by (simp add: rows_inv_def list_all_iff)
  then have "schedulerTaskFromModel m = Inr (md_Task m)" by (rule row_ok_fromModel)
  with Cons have "snapshotLane query db = Inr (int (length ?rows), Some (md_Task m))"
    by (simp add: snapshotLane_def Let_def)
  moreover have "?rows \<noteq> []" using mem by (auto simp: filter_empty_conv)
  moreover have "\<not> taskQueueLess x m" if "x \<in> set (db_Tasks db)" "query x" for x
    using task_queue.hd_sort_by_least[of x ?rows] that Cons by simp
  ultimately show ?thesis using mem by auto
qed

definition lane_ok :: "sched_db \<Rightarrow> SchedulerLifecycle \<Rightarrow> SchedulerLane \<Rightarrow> int64 \<Rightarrow> SchedulerTask option \<Rightarrow> bool" where
  "lane_ok db l lane depth c \<longleftrightarrow>
     0 \<le> depth \<and> (c = None \<longleftrightarrow> depth = 0) \<and>
     (\<forall>t. c = Some t \<longrightarrow> (\<exists>m \<in> set (db_Tasks db). md_Task m = t) \<and> tk_State t = SchedulerTaskQueued \<and>
        tk_Lane t = lane \<and> lifecyclePermitsTask l (tk_HomeGeneration t) (tk_Lane t))"

lemma snapshotLane_ok:
  assumes "rows_inv (db_Tasks db)" and "lifecyclePermitsTask l (lc_HomeGeneration l) lane"
  obtains d c where "snapshotLane (\<lambda>m. row_state m = SchedulerTaskQueued \<and> tk_Lane (md_Task m) = lane \<and>
      tk_HomeGeneration (md_Task m) = lc_HomeGeneration l) db = Inr (d, c)" "lane_ok db l lane d c"
proof -
  let ?q = "\<lambda>m. row_state m = SchedulerTaskQueued \<and> tk_Lane (md_Task m) = lane \<and>
      tk_HomeGeneration (md_Task m) = lc_HomeGeneration l"
  obtain c where c: "snapshotLane ?q db = Inr (int (length (filter ?q (db_Tasks db))), c)"
    "c = None \<longleftrightarrow> filter ?q (db_Tasks db) = []"
    "\<forall>t. c = Some t \<longrightarrow> (\<exists>m \<in> set (db_Tasks db). md_Task m = t \<and> ?q m \<and>
        (\<forall>x \<in> set (db_Tasks db). ?q x \<longrightarrow> \<not> taskQueueLess x m))"
    using snapshotLane_spec[OF assms(1), of ?q] by blast
  have "lane_ok db l lane (int (length (filter ?q (db_Tasks db)))) c"
    unfolding lane_ok_def using c(2,3) assms(2) by fastforce
  with c(1) that show thesis by blast
qed

lemma runnable_snapshot_ok:
  assumes "sched_inv db" and "db_Lifecycle db = Some l"
  shows "\<exists>s. SchedulerRunnableQueueSnapshot db = Inr s \<and>
           lane_ok db l SchedulerLaneLive (qs_LiveDepth s) (qs_LiveCandidate s) \<and>
           lane_ok db l SchedulerLaneBackfill (qs_BackfillDepth s) (qs_BackfillCandidate s)"
proof -
  note inv = sched_invD[OF assms(1)]
  have l: "schedulerLifecycleIn db = Inr (Some l)"
    using inv(4) assms(2) by (simp add: schedulerLifecycleIn_def lifecycle_inv_def)
  let ?lane = "\<lambda>ln. if \<not> lifecyclePermitsTask l (lc_HomeGeneration l) ln then Inr (0, None)
      else snapshotLane (\<lambda>m. row_state m = SchedulerTaskQueued \<and> tk_Lane (md_Task m) = ln \<and>
             tk_HomeGeneration (md_Task m) = lc_HomeGeneration l) db"
  have ex: "\<exists>d c. ?lane ln = Inr (d, c) \<and> lane_ok db l ln d c" for ln
  proof (cases "lifecyclePermitsTask l (lc_HomeGeneration l) ln")
    case True
    obtain d c where "snapshotLane (\<lambda>m. row_state m = SchedulerTaskQueued \<and> tk_Lane (md_Task m) = ln \<and>
      tk_HomeGeneration (md_Task m) = lc_HomeGeneration l) db = Inr (d, c)" "lane_ok db l ln d c"
      by (rule snapshotLane_ok[OF inv(1) True])
    with True show ?thesis by simp
  qed (simp add: lane_ok_def)
  obtain d1 c1 where 1: "?lane SchedulerLaneLive = Inr (d1, c1)" "lane_ok db l SchedulerLaneLive d1 c1"
    using ex by blast
  obtain d2 c2 where 2: "?lane SchedulerLaneBackfill = Inr (d2, c2)" "lane_ok db l SchedulerLaneBackfill d2 c2"
    using ex by blast
  show ?thesis unfolding SchedulerRunnableQueueSnapshot_def l Let_def using 1 2 by simp
qed

lemma runnable_snapshot_okD:
  assumes "sched_inv db" and "SchedulerRunnableQueueSnapshot db = Inr s"
  obtains l where "db_Lifecycle db = Some l"
    "lane_ok db l SchedulerLaneLive (qs_LiveDepth s) (qs_LiveCandidate s)"
    "lane_ok db l SchedulerLaneBackfill (qs_BackfillDepth s) (qs_BackfillCandidate s)"
proof (cases "db_Lifecycle db")
  case None
  then show thesis using assms(2) by (simp add: SchedulerRunnableQueueSnapshot_def schedulerLifecycleIn_def)
next
  case (Some l)
  with runnable_snapshot_ok[OF assms(1) Some] assms(2) that show thesis by auto
qed

section \<open>Lemmas: selection\<close>

lemma candidateWait_ok:
  assumes inv: "rows_inv (db_Tasks db)" and ok: "lane_ok db l lane d c"
    and now: "\<And>t. c = Some t \<Longrightarrow> tk_EnqueuedAtMS t \<le> n"
  shows "\<exists>w. candidateWait c lane n = Inr w"
proof (cases c)
  case (Some t)
  with ok obtain m where m: "m \<in> set (db_Tasks db)" "md_Task m = t" and t: "tk_State t = SchedulerTaskQueued"
    "tk_Lane t = lane" by (auto simp: lane_ok_def)
  have "row_ok m" using inv m by (simp add: rows_inv_def list_all_iff)
  then have "\<not> taskFieldsInvalid t" using m validateSchedulerTaskD(1) by (auto simp: row_ok_def)
  then have "validateQueueCandidate t lane n = None"
    using t now[OF Some] by (simp add: validateQueueCandidate_def taskFieldsInvalid_def)
  with Some show ?thesis by (simp add: candidateWait_def)
qed (simp add: candidateWait_def)

lemma logicalQueueSnapshotMS_ge:
  "n \<le> logicalQueueSnapshotMS n s"
  "qs_LiveCandidate s = Some t \<Longrightarrow> tk_EnqueuedAtMS t \<le> logicalQueueSnapshotMS n s"
  "qs_BackfillCandidate s = Some t \<Longrightarrow> tk_EnqueuedAtMS t \<le> logicalQueueSnapshotMS n s"
  by (auto simp: logicalQueueSnapshotMS_def Let_def split: option.splits)

lemma select_Inr:
  assumes "selectQueueSnapshot s cs b n = Inr sel"
  shows "qs_LiveCandidate s = Some (sel_Task sel) \<and> sel_Reason sel \<in> {SchedulerSelectionLiveOnly, SchedulerSelectionLivePriority} \<or>
         qs_BackfillCandidate s = Some (sel_Task sel) \<and> sel_Reason sel \<in> {SchedulerSelectionBackfillOnly, SchedulerSelectionBackfillFairness}"
  using assms
  by (auto simp: selectQueueSnapshot_def Let_def split: if_splits sum.splits option.splits)

lemma select_total:
  assumes "sched_inv db" and "SchedulerRunnableQueueSnapshot db = Inr s" and "1 \<le> b" and "0 \<le> now"
  shows "(\<exists>sel. selectQueueSnapshot s cs b (logicalQueueSnapshotMS now s) = Inr sel) \<or>
         selectQueueSnapshot s cs b (logicalQueueSnapshotMS now s) = Inl ErrQueueEmpty \<and>
           qs_LiveCandidate s = None \<and> qs_BackfillCandidate s = None"
proof -
  let ?n = "logicalQueueSnapshotMS now s"
  obtain l where l: "lane_ok db l SchedulerLaneLive (qs_LiveDepth s) (qs_LiveCandidate s)"
    "lane_ok db l SchedulerLaneBackfill (qs_BackfillDepth s) (qs_BackfillCandidate s)"
    by (rule runnable_snapshot_okD[OF assms(1,2)])
  note inv = sched_invD(1)[OF assms(1)]
  obtain w1 where w1: "candidateWait (qs_LiveCandidate s) SchedulerLaneLive ?n = Inr w1"
    using candidateWait_ok[OF inv l(1)] logicalQueueSnapshotMS_ge(2) by blast
  obtain w2 where w2: "candidateWait (qs_BackfillCandidate s) SchedulerLaneBackfill ?n = Inr w2"
    using candidateWait_ok[OF inv l(2)] logicalQueueSnapshotMS_ge(3) by blast
  have "\<not> (b \<le> 0 \<or> ?n < 0 \<or> qs_LiveDepth s < 0 \<or> qs_BackfillDepth s < 0 \<or>
         (qs_LiveCandidate s = None) \<noteq> (qs_LiveDepth s = 0) \<or>
         (qs_BackfillCandidate s = None) \<noteq> (qs_BackfillDepth s = 0))"
    using l assms(3,4) logicalQueueSnapshotMS_ge(1)[of now s] by (auto simp: lane_ok_def)
  with w1 w2 show ?thesis
    by (cases "qs_LiveCandidate s"; cases "qs_BackfillCandidate s")
      (simp_all add: selectQueueSnapshot_def Let_def)
qed

text \<open>Cycles recorded while both lanes always have a candidate: every new cycle carries the lane
  that \<open>selectQueueSnapshot\<close> picked from the newest \<open>maxLiveBurst\<close> cycles.\<close>

inductive contended :: "int \<Rightarrow> SchedulerCycle list \<Rightarrow> SchedulerCycle list \<Rightarrow> bool" where
  start: "contended b cs cs"
| pick: "contended b cs cs' \<Longrightarrow> selectQueueSnapshot s (take (nat b) cs') b n = Inr sel \<Longrightarrow>
     qs_LiveCandidate s \<noteq> None \<Longrightarrow> qs_BackfillCandidate s \<noteq> None \<Longrightarrow>
     cy_Lane c = tk_Lane (sel_Task sel) \<Longrightarrow> contended b cs (c # cs')"

inductive_cases contended_ConsE: "contended b cs (c # cs')"

lemma consecutive_all_live: "\<forall>c \<in> set cs. cy_Lane c = SchedulerLaneLive \<Longrightarrow> consecutiveLiveCycles cs = int (length cs)"
  by (induction cs) auto

lemma select_after_burst:
  assumes "selectQueueSnapshot s cs b n = Inr sel" "qs_LiveCandidate s \<noteq> None" "qs_BackfillCandidate s \<noteq> None"
    and "consecutiveLiveCycles cs \<ge> b"
  shows "tk_Lane (sel_Task sel) = SchedulerLaneBackfill"
  using assms
  by (auto simp: selectQueueSnapshot_def candidateWait_def validateQueueCandidate_def Let_def
      split: if_splits sum.splits option.splits)

lemma select_lane:
  assumes "selectQueueSnapshot s cs b n = Inr sel"
  shows "tk_Lane (sel_Task sel) = SchedulerLaneLive \<or> tk_Lane (sel_Task sel) = SchedulerLaneBackfill"
  using assms
  by (auto simp: selectQueueSnapshot_def candidateWait_def validateQueueCandidate_def Let_def
      split: if_splits sum.splits option.splits)

lemma contended_grows: "contended b cs cs' \<Longrightarrow> \<exists>new. cs' = new @ cs"
  by (induction rule: contended.induct) auto

lemma contended_lanes:
  assumes "contended b cs cs'"
  shows "\<exists>new. cs' = new @ cs \<and>
           (\<forall>c \<in> set new. cy_Lane c = SchedulerLaneLive \<or> cy_Lane c = SchedulerLaneBackfill)"
  using assms
proof (induction rule: contended.induct)
  case (pick b cs cs' s n sel c)
  then obtain new where new: "cs' = new @ cs"
    "\<forall>c \<in> set new. cy_Lane c = SchedulerLaneLive \<or> cy_Lane c = SchedulerLaneBackfill" by blast
  with select_lane[OF pick(2)] pick(5) show ?case by (intro exI[of _ "c # new"]) auto
qed simp

section \<open>Properties\<close>

text \<open>C4: Backfill is never starved: while both lanes have a candidate, of any
  \<open>maxLiveBurst + 1\<close> consecutive selections at least one goes to the backfill lane, whatever
  cycles were recorded before.\<close>

theorem backfill_not_starved:
  assumes "contended b old (new @ old)" and "length new = nat b + 1" and "1 \<le> b"
  shows "\<exists>c \<in> set new. cy_Lane c = SchedulerLaneBackfill"
proof (rule ccontr)
  assume none: "\<not> ?thesis"
  obtain c rest where new: "new = c # rest" using assms(2) by (cases new) auto
  have len: "length rest = nat b" using assms(2) new by simp
  have "old \<noteq> new @ old" using new by simp
  with assms(1) obtain s n sel where
    sel: "selectQueueSnapshot s (take (nat b) (rest @ old)) b n = Inr sel"
    "qs_LiveCandidate s \<noteq> None" "qs_BackfillCandidate s \<noteq> None" "cy_Lane c = tk_Lane (sel_Task sel)"
    unfolding new by (auto elim: contended_ConsE)
  have "\<forall>x \<in> set rest. cy_Lane x = SchedulerLaneLive"
    using none contended_lanes[OF assms(1)] new by auto
  then have "consecutiveLiveCycles rest = int (nat b)" using len by (simp add: consecutive_all_live)
  then have "consecutiveLiveCycles (take (nat b) (rest @ old)) \<ge> b" using len assms(3) by simp
  from select_after_burst[OF sel(1-3) this] sel(4) none new show False by simp
qed

definition ex_snapshot :: SchedulerQueueSnapshot where
  "ex_snapshot = \<lparr>qs_LiveCandidate = Some ex_task,
     qs_BackfillCandidate = Some (ex_task\<lparr>tk_TaskID := ''t2'', tk_Lane := SchedulerLaneBackfill\<rparr>),
     qs_LiveDepth = 1, qs_BackfillDepth = 1, qs_MaxQueueOrderMS = 1000\<rparr>"

theorem backfill_not_starved_witness:
  "\<exists>c \<in> set [ex_cycle\<lparr>cy_Lane := SchedulerLaneBackfill\<rparr>, ex_cycle]. cy_Lane c = SchedulerLaneBackfill"
proof -
  have s1: "selectQueueSnapshot ex_snapshot (take (nat 1) []) 1 2000 =
      Inr \<lparr>sel_Task = ex_task, sel_Reason = SchedulerSelectionLivePriority, sel_LiveDepth = 1,
           sel_BackfillDepth = 1, sel_OldestLiveWaitMS = 1000, sel_OldestBackfillWaitMS = 1000\<rparr>"
    by code_simp
  have s2: "selectQueueSnapshot ex_snapshot (take (nat 1) [ex_cycle]) 1 2000 =
      Inr \<lparr>sel_Task = ex_task\<lparr>tk_TaskID := ''t2'', tk_Lane := SchedulerLaneBackfill\<rparr>,
           sel_Reason = SchedulerSelectionBackfillFairness, sel_LiveDepth = 1,
           sel_BackfillDepth = 1, sel_OldestLiveWaitMS = 1000, sel_OldestBackfillWaitMS = 1000\<rparr>"
    by code_simp
  have "contended 1 [] [ex_cycle]"
    by (rule contended.pick[OF contended.start s1])
      (simp_all add: ex_snapshot_def ex_cycle_def ex_task_def)
  then have "contended 1 [] [ex_cycle\<lparr>cy_Lane := SchedulerLaneBackfill\<rparr>, ex_cycle]"
    by (rule contended.pick[OF _ s2]) (simp_all add: ex_snapshot_def)
  then show ?thesis
    using backfill_not_starved[of 1 "[]" "[ex_cycle\<lparr>cy_Lane := SchedulerLaneBackfill\<rparr>, ex_cycle]"] by simp
qed

text \<open>C15: The worker's view of the queue is always usable: a runnable snapshot of a reachable store is
  never rejected as inconsistent, selection fails only when both lanes are empty, and the selected
  task can be claimed at every later time inside the running window as long as nothing runs.\<close>

theorem selected_task_claimable:
  assumes "sched_inv db" and "SchedulerRunnableQueueSnapshot db = Inr s" and "1 \<le> b" and "0 \<le> now"
  shows "(case selectQueueSnapshot s cs b (logicalQueueSnapshotMS now s) of
            Inl e \<Rightarrow> e = ErrQueueEmpty \<and> qs_LiveDepth s = 0 \<and> qs_BackfillDepth s = 0
          | Inr sel \<Rightarrow>
              filter (\<lambda>m. row_state m = SchedulerTaskRunning) (db_Tasks db) = [] \<longrightarrow>
              (\<forall>a. tk_UpdatedAtMS (sel_Task sel) < a \<and> a \<le> MaxSchedulerRunningTimestampMS \<longrightarrow>
                (\<exists>t' db'. ClaimSchedulerTask (tk_TaskID (sel_Task sel)) a db = Inr (t', db'))))"
proof -
  obtain l where l: "db_Lifecycle db = Some l"
    "lane_ok db l SchedulerLaneLive (qs_LiveDepth s) (qs_LiveCandidate s)"
    "lane_ok db l SchedulerLaneBackfill (qs_BackfillDepth s) (qs_BackfillCandidate s)"
    by (rule runnable_snapshot_okD[OF assms(1,2)])
  show ?thesis
  proof (cases "selectQueueSnapshot s cs b (logicalQueueSnapshotMS now s)")
    case (Inl e)
    with select_total[OF assms, of cs] l show ?thesis by (auto simp: lane_ok_def)
  next
    case (Inr sel)
    from select_Inr[OF Inr] l obtain m where m: "m \<in> set (db_Tasks db)" "md_Task m = sel_Task sel"
      "row_state m = SchedulerTaskQueued"
      "lifecyclePermitsTask l (tk_HomeGeneration (md_Task m)) (tk_Lane (md_Task m))"
      by (fastforce simp: lane_ok_def)
    have "\<exists>t' db'. ClaimSchedulerTask (tk_TaskID (sel_Task sel)) a db = Inr (t', db')"
      if "running_rows (db_Tasks db) = []" "tk_UpdatedAtMS (sel_Task sel) < a" "a \<le> MaxSchedulerRunningTimestampMS" for a
      using Claim_ok_iff[OF assms(1), of "tk_TaskID (sel_Task sel)" a] m l(1) that by auto
    with Inr show ?thesis by simp
  qed
qed

theorem selected_task_claimable_witness:
  "\<exists>s sel. SchedulerRunnableQueueSnapshot ex_queued = Inr s \<and>
     selectQueueSnapshot s [] 3 (logicalQueueSnapshotMS 1500 s) = Inr sel \<and>
     (\<exists>t' db'. ClaimSchedulerTask (tk_TaskID (sel_Task sel)) 1501 ex_queued = Inr (t', db'))"
proof -
  have "(case SchedulerRunnableQueueSnapshot ex_queued of Inl _ \<Rightarrow> False
         | Inr s \<Rightarrow> (case selectQueueSnapshot s [] 3 (logicalQueueSnapshotMS 1500 s) of Inl _ \<Rightarrow> False
                     | Inr sel \<Rightarrow> tk_UpdatedAtMS (sel_Task sel) < 1501))" by code_simp
  then obtain s sel where s: "SchedulerRunnableQueueSnapshot ex_queued = Inr s"
    and sel: "selectQueueSnapshot s [] 3 (logicalQueueSnapshotMS 1500 s) = Inr sel"
      "tk_UpdatedAtMS (sel_Task sel) < 1501"
    by (auto split: sum.splits)
  have "filter (\<lambda>m. row_state m = SchedulerTaskRunning) (db_Tasks ex_queued) = []" by code_simp
  with selected_task_claimable[OF ex_queued_inv s, of 3 1500 "[]"] sel s show ?thesis
    by (auto simp: scheduler_limits)
qed



end
