(* ===== verification/Float64.thy ===== *)
theory Float64
  imports Complex_Main Pulse_Prelude "HOL-Library.Log_Nat"
begin

text \<open>
  Go's \<open>float64\<close>: finite values are the rationals they denote, with the IEEE 754
  round-to-nearest-even of every arithmetic result written out (53 significant bits, gradual
  underflow at \<open>2 ^ -1074\<close>, overflow to infinity). The sign of zero is not kept: no
  code modelled here observes it.
\<close>

datatype float64 = NaN | PosInf | NegInf | Fin rat

text \<open>The exponent \<open>e\<close> with \<open>2 ^ e \<le> x < 2 ^ (e + 1)\<close>, for positive \<open>x\<close>.\<close>

definition exponent2 :: "rat \<Rightarrow> int" where
  "exponent2 x = (let (p, q) = quotient_of x; e = bitlen p - bitlen q
                  in if 2 powi e \<le> x then e else e - 1)"

definition round_half_even :: "rat \<Rightarrow> int" where
  "round_half_even x =
     (let n = \<lfloor>x\<rfloor>; d = x - of_int n
      in if d < 1 / 2 then n else if d > 1 / 2 then n + 1
         else if n mod 2 = 0 then n else n + 1)"

definition ulp :: "rat \<Rightarrow> rat" where
  "ulp x = 2 powi (max (exponent2 x - 52) (-1074))"

definition round_pos :: "rat \<Rightarrow> rat" where
  "round_pos x = of_int (round_half_even (x / ulp x)) * ulp x"

definition round64 :: "rat \<Rightarrow> float64" where
  "round64 x =
     (let r = (if x = 0 then 0 else if x > 0 then round_pos x else - round_pos (- x))
      in if r \<ge> 2 ^ 1024 then PosInf else if r \<le> - (2 ^ 1024) then NegInf else Fin r)"

definition float_of_int :: "int \<Rightarrow> float64" where
  "float_of_int n = round64 (of_int n)"

fun fsgn :: "float64 \<Rightarrow> int" where
  "fsgn (Fin x) = (if x > 0 then 1 else if x < 0 then -1 else 0)"
| "fsgn PosInf = 1"
| "fsgn NegInf = -1"
| "fsgn NaN = 0"

definition fmul :: "float64 \<Rightarrow> float64 \<Rightarrow> float64" where
  "fmul a b =
     (case (a, b) of
        (Fin x, Fin y) \<Rightarrow> round64 (x * y)
      | (NaN, _) \<Rightarrow> NaN
      | (_, NaN) \<Rightarrow> NaN
      | _ \<Rightarrow> if fsgn a * fsgn b > 0 then PosInf else if fsgn a * fsgn b < 0 then NegInf else NaN)"

text \<open>Conversion of a float to a signed integer truncates toward zero; it is only defined on
  values in range, and every use below is proved to be in range.\<close>

fun int_of_float :: "float64 \<Rightarrow> int option" where
  "int_of_float (Fin x) =
     (let n = (if x \<ge> 0 then \<lfloor>x\<rfloor> else - \<lfloor>- x\<rfloor>) in if in64 n then Some n else None)"
| "int_of_float _ = None"

section \<open>Lemmas\<close>

lemma powi_le_self:
  assumes "0 < x"
  shows "2 powi (exponent2 x) \<le> x"
proof -
  obtain p q where pq: "quotient_of x = (p, q)" by fastforce
  have q: "q > 0" using quotient_of_denom_pos[OF pq] .
  have x: "x = of_int p / of_int q" using quotient_of_div[OF pq] .
  with assms q have p: "p > 0" by (simp add: zero_less_divide_iff)
  let ?e = "bitlen p - bitlen q"
  have bp: "2 ^ nat (bitlen p - 1) \<le> p" and bq: "q < 2 ^ nat (bitlen q)"
    using bitlen_bounds p q by auto
  have pp: "0 < bitlen p" "0 < bitlen q" 
    using p q bitlen_eq_zero_iff[of p] bitlen_eq_zero_iff[of q] bitlen_nonneg[of p] bitlen_nonneg[of q]
    by linarith+
  have "(2 :: rat) powi (?e - 1) = 2 powi (bitlen p - 1) / 2 powi (bitlen q)"
    by (simp add: power_int_diff[symmetric] algebra_simps)
  also have "\<dots> = 2 ^ nat (bitlen p - 1) / 2 ^ nat (bitlen q)"
    using pp by (simp add: power_int_def)
  also have "\<dots> \<le> of_int p / of_int q"
  proof (rule frac_le)
    have "rat_of_int (2 ^ nat (bitlen p - 1)) \<le> of_int p" using bp by (simp only: of_int_le_iff)
    then show "(2 :: rat) ^ nat (bitlen p - 1) \<le> of_int p" by simp
    have "rat_of_int q \<le> of_int (2 ^ nat (bitlen q))" using bq by (simp only: of_int_le_iff)
    then show "rat_of_int q \<le> 2 ^ nat (bitlen q)" by simp
  qed (use p q in simp_all)
  finally have "2 powi (?e - 1) \<le> x" using x by simp
  then show ?thesis by (simp add: exponent2_def pq Let_def)
qed

lemma ulp_pos: "0 < ulp x"
  by (simp add: ulp_def)

lemma ulp_le:
  assumes "0 < x"
  shows "ulp x \<le> x / 2 ^ 52 + 1 / 2 ^ 1074"
proof (cases "exponent2 x - 52 \<ge> -1074")
  case True
  then have "ulp x = 2 powi (exponent2 x - 52)" by (auto simp: ulp_def)
  also have "\<dots> = 2 powi (exponent2 x) / 2 powi 52" by (rule power_int_diff) simp
  also have "\<dots> = 2 powi (exponent2 x) / 2 ^ 52" by simp
  also have "\<dots> \<le> x / 2 ^ 52" using powi_le_self[OF assms] by (simp add: divide_right_mono)
  finally show ?thesis by simp
next
  case False
  then have "ulp x = 2 powi (- 1074)" by (auto simp: ulp_def)
  also have "\<dots> = inverse (2 powi 1074)" by (rule power_int_minus)
  also have "\<dots> = 1 / 2 ^ 1074" by (simp add: inverse_eq_divide)
  finally have "ulp x = 1 / 2 ^ 1074" .
  with assms show ?thesis by simp
qed

lemma round_half_even_near: "\<bar>of_int (round_half_even x) - x\<bar> \<le> 1 / 2"
proof -
  have "of_int \<lfloor>x\<rfloor> \<le> x" "x < of_int \<lfloor>x\<rfloor> + 1" by linarith+
  then show ?thesis by (auto simp: round_half_even_def Let_def abs_le_iff)
qed

lemma round_half_even_nonneg: "0 \<le> x \<Longrightarrow> 0 \<le> round_half_even x"
  by (auto simp: round_half_even_def Let_def)

lemma round_pos_near: "\<bar>round_pos x - x\<bar> \<le> ulp x / 2"
proof -
  have "round_pos x - x = (of_int (round_half_even (x / ulp x)) - x / ulp x) * ulp x"
    using ulp_pos[of x] by (simp add: round_pos_def left_diff_distrib)
  then have "\<bar>round_pos x - x\<bar> = \<bar>of_int (round_half_even (x / ulp x)) - x / ulp x\<bar> * ulp x"
    using ulp_pos[of x] by (simp add: abs_mult)
  also have "\<dots> \<le> 1 / 2 * ulp x"
    using round_half_even_near ulp_pos[of x] by (intro mult_right_mono) simp_all
  finally show ?thesis by simp
qed

lemma round_pos_nonneg: "0 < x \<Longrightarrow> 0 \<le> round_pos x"
  using ulp_pos[of x] round_half_even_nonneg[of "x / ulp x"] by (simp add: round_pos_def)

lemma round64_finite:
  assumes "0 \<le> x" and "x \<le> 2 ^ 70"
  shows "\<exists>r. round64 x = Fin r \<and> 0 \<le> r \<and> r \<le> x + x / 2 ^ 52 + 1"
proof (cases "x = 0")
  case False
  with assms have x: "0 < x" by simp
  have "ulp x / 2 \<le> x / 2 ^ 52 + 1 / 2 ^ 1074" using ulp_le[OF x] ulp_pos[of x] by linarith
  moreover have "(1 :: rat) / 2 ^ 1074 \<le> 1" by simp
  ultimately have up: "round_pos x \<le> x + x / 2 ^ 52 + 1" using round_pos_near[of x] by linarith
  have "x / 2 ^ 52 \<le> x" using x by (simp add: field_simps)
  with up assms(2) have "round_pos x \<le> 2 ^ 70 + 2 ^ 70 + 1" by linarith
  also have "\<dots> < (2 :: rat) ^ 1024" by simp
  finally have "round_pos x < 2 ^ 1024" .
  with x up round_pos_nonneg[OF x] show ?thesis by (simp add: round64_def Let_def)
qed (simp add: round64_def)

end
