(* ===== verification/Retry_Policy.thy ===== *)
theory Retry_Policy
  imports Float64
begin

text \<open>
  The exponential backoff of \<open>src/internal/retry/policy.go\<close>. Durations are nanoseconds
  (int64). The jitter source is the injected function \<open>jitter\<close>; each call of \<open>Delay\<close>
  takes one sample of it. The locale \<open>backoff\<close> is what the scheduler relies on: a granted
  delay is positive and bounded, and the number of granted attempts is finite.
\<close>

record Policy =
  po_baseDelay :: int64
  po_maxDelay :: int64
  po_maxAttempts :: int

definition NewPolicy :: "int64 \<Rightarrow> int64 \<Rightarrow> int \<Rightarrow> Policy option" where
  "NewPolicy baseDelay maxDelay maxAttempts =
     (if baseDelay \<le> 0 \<or> maxDelay < baseDelay \<or> maxAttempts < 1 \<or> maxAttempts > 100 then None
      else Some \<lparr>po_baseDelay = baseDelay, po_maxDelay = maxDelay, po_maxAttempts = maxAttempts\<rparr>)"

text \<open>The doubling loop: \<open>n\<close> iterations are left.\<close>

fun doubling :: "int64 \<Rightarrow> nat \<Rightarrow> int64 \<Rightarrow> int64" where
  "doubling maxDelay 0 exponential = exponential"
| "doubling maxDelay (Suc n) exponential =
     (if exponential \<ge> maxDelay \<or> exponential > maxDelay div 2 then maxDelay
      else doubling maxDelay n (mul64 exponential 2))"

text \<open>\<open>None\<close> is \<open>ErrInvalidPolicy\<close>; otherwise the delay and whether to retry.\<close>

definition Delay :: "Policy \<Rightarrow> float64 \<Rightarrow> int \<Rightarrow> (int64 \<times> bool) option" where
  "Delay po sample attempt =
     (if attempt < 1 \<or> po_baseDelay po \<le> 0 \<or> po_maxDelay po < po_baseDelay po \<or>
         po_maxAttempts po < 1
      then None
      else if attempt > po_maxAttempts po then Some (0, False)
      else
        (let exponential = doubling (po_maxDelay po) (nat (attempt - 1)) (po_baseDelay po) in
         case sample of
           Fin s \<Rightarrow>
             if s < 0 \<or> s \<ge> 1 then None
             else (case int_of_float (fmul (fmul (float_of_int exponential) (Fin (1 / 2))) (Fin s)) of
                     None \<Rightarrow> None
                   | Some jitter \<Rightarrow>
                       if jitter > sub64 (po_maxDelay po) exponential
                       then Some (po_maxDelay po, True)
                       else Some (add64 exponential jitter, True))
         | _ \<Rightarrow> None))"

section \<open>Lemmas\<close>

definition policy_ok :: "Policy \<Rightarrow> bool" where
  "policy_ok po \<longleftrightarrow>
     0 < po_baseDelay po \<and> po_baseDelay po \<le> po_maxDelay po \<and> in64 (po_maxDelay po) \<and>
     1 \<le> po_maxAttempts po"

lemma NewPolicy_ok: "NewPolicy b m n = Some po \<Longrightarrow> in64 m \<Longrightarrow> policy_ok po"
  by (auto simp: NewPolicy_def policy_ok_def split: if_splits)

text \<open>The loop computes the capped power of two.\<close>

lemma doubling_eq:
  assumes "0 < e" "e \<le> m" "in64 m"
  shows "doubling m n e = min m (e * 2 ^ n)"
  using assms
proof (induction n arbitrary: e)
  case (Suc n)
  show ?case
  proof (cases "e \<ge> m \<or> e > m div 2")
    case True
    have "m \<le> e * 2 ^ Suc n"
    proof -
      have "m \<le> e * 2" using True Suc.prems by auto
      also have "\<dots> \<le> e * 2 ^ Suc n" using Suc.prems by simp
      finally show ?thesis .
    qed
    with True show ?thesis by auto
  next
    case False
    then have e: "0 < e * 2" "e * 2 \<le> m" using Suc.prems by auto
    then have "mul64 e 2 = e * 2" using Suc.prems(3) by (intro mul64_id) (auto simp: in64_def)
    with False Suc.IH[OF e Suc.prems(3)] show ?thesis by (simp add: mult.assoc)
  qed
qed simp

lemma jitter_in_range:
  assumes "0 \<le> e" "in64 e" "0 \<le> s" "s < 1"
  shows "\<exists>j. int_of_float (fmul (fmul (float_of_int e) (Fin (1 / 2))) (Fin s)) = Some j \<and> 0 \<le> j"
proof -
  have e: "of_int e \<le> (2 :: rat) ^ 63"
  proof -
    have "e \<le> 2 ^ 63" using assms(2) by (simp add: in64_def)
    then have "rat_of_int e \<le> of_int (2 ^ 63)" by (simp only: of_int_le_iff)
    then show ?thesis by simp
  qed
  have "of_int e \<le> (2 :: rat) ^ 70" using e by simp
  then obtain a where a: "float_of_int e = Fin a" "0 \<le> a" "a \<le> of_int e + of_int e / 2 ^ 52 + 1"
    using round64_finite[of "of_int e"] assms(1) by (auto simp: float_of_int_def)
  have a2: "a \<le> 2 ^ 63 + 2 ^ 12" using a(3) e by simp
  then have "a * (1 / 2) \<le> 2 ^ 70" by simp
  then obtain b where b: "round64 (a * (1 / 2)) = Fin b" "0 \<le> b" "b \<le> a * (1/2) + a * (1/2) / 2 ^ 52 + 1"
    using round64_finite[of "a * (1 / 2)"] a(2) by auto
  have b2: "b \<le> 2 ^ 62 + 2 ^ 13" using b(3) a2 by simp
  have bs: "0 \<le> b * s" "b * s \<le> b" using b(2) assms(3,4) by (simp_all add: mult_left_le)
  then obtain c where c: "round64 (b * s) = Fin c" "0 \<le> c" "c \<le> b * s + b * s / 2 ^ 52 + 1"
    using round64_finite[of "b * s"] b2 by auto
  have "c \<le> 2 ^ 62 + 2 ^ 14" using c(3) bs(2) b2 by simp
  then have "of_int \<lfloor>c\<rfloor> \<le> (2 :: rat) ^ 62 + 2 ^ 14" using of_int_floor_le[of c] by linarith
  then have "rat_of_int \<lfloor>c\<rfloor> \<le> of_int (2 ^ 62 + 2 ^ 14)" by simp
  then have "\<lfloor>c\<rfloor> \<le> 2 ^ 62 + 2 ^ 14" by (simp only: of_int_le_iff)
  moreover have "0 \<le> \<lfloor>c\<rfloor>" using c(2) by simp
  ultimately have "int_of_float (Fin c) = Some \<lfloor>c\<rfloor>" "0 \<le> \<lfloor>c\<rfloor>"
    using c(2) by (simp_all add: Let_def in64_def)
  with a(1) b(1) c(1) show ?thesis by (simp add: fmul_def)
qed

lemma Delay_spec:
  assumes po: "policy_ok po" and a: "1 \<le> attempt" "attempt \<le> po_maxAttempts po"
    and s: "0 \<le> s" "s < 1"
  shows "\<exists>d. Delay po (Fin s) attempt = Some (d, True) \<and>
           min (po_maxDelay po) (po_baseDelay po * 2 ^ nat (attempt - 1)) \<le> d \<and> d \<le> po_maxDelay po"
proof -
  let ?m = "po_maxDelay po" and ?e = "doubling (po_maxDelay po) (nat (attempt - 1)) (po_baseDelay po)"
  from po have p: "0 < po_baseDelay po" "po_baseDelay po \<le> ?m" "in64 ?m" by (auto simp: policy_ok_def)
  note e = doubling_eq[OF p, of "nat (attempt - 1)"]
  have "0 \<le> po_baseDelay po * 2 ^ nat (attempt - 1)" using p by simp
  then have e0: "0 \<le> ?e" "?e \<le> ?m" using p by (auto simp: e)
  then have e1: "in64 ?e" using p(3) by (simp add: in64_def)
  obtain j where j: "int_of_float (fmul (fmul (float_of_int ?e) (Fin (1 / 2))) (Fin s)) = Some j" "0 \<le> j"
    using jitter_in_range[OF e0(1) e1 s] by blast
  have sub: "sub64 ?m ?e = ?m - ?e" using e0 p(3) by (intro sub64_nonneg)
  have "\<not> (attempt < 1 \<or> po_baseDelay po \<le> 0 \<or> ?m < po_baseDelay po \<or> po_maxAttempts po < 1)"
    using a p by auto
  then have D: "Delay po (Fin s) attempt =
      (if j > ?m - ?e then Some (?m, True) else Some (add64 ?e j, True))"
    using a s j(1) by (simp add: Delay_def Let_def sub)
  show ?thesis
  proof (cases "j > ?m - ?e")
    case True
    with D e e0 show ?thesis by simp
  next
    case False
    then have "add64 ?e j = ?e + j" using e0 j(2) p(3) by (intro add64_id) (simp add: in64_def)
    with D False e j(2) show ?thesis by simp
  qed
qed

lemma Delay_granted:
  assumes "Delay po x attempt = Some (d, True)" and "policy_ok po"
  shows "0 < d \<and> d \<le> po_maxDelay po \<and> 1 \<le> attempt \<and> attempt \<le> po_maxAttempts po"
proof -
  from assms(1) have a: "1 \<le> attempt" "attempt \<le> po_maxAttempts po"
    by (auto simp: Delay_def split: if_splits)
  from assms(1) a obtain s where s: "x = Fin s" "0 \<le> s" "s < 1"
    by (auto simp: Delay_def Let_def split: if_splits float64.splits)
  from Delay_spec[OF assms(2) a s(2,3)] assms(1) s(1)
  have "min (po_maxDelay po) (po_baseDelay po * 2 ^ nat (attempt - 1)) \<le> d" "d \<le> po_maxDelay po" by auto
  moreover have "0 < min (po_maxDelay po) (po_baseDelay po * 2 ^ nat (attempt - 1))"
    using assms(2) by (auto simp: policy_ok_def)
  ultimately show ?thesis using a by linarith
qed

section \<open>The contract of a backoff\<close>

locale backoff =
  fixes delay :: "int \<Rightarrow> (int64 \<times> bool) option"
    and maxDelay :: int64
    and maxAttempts :: int
  assumes granted_pos: "delay n = Some (d, True) \<Longrightarrow> 0 < d \<and> d \<le> maxDelay"
    and granted_attempt: "delay n = Some (d, True) \<Longrightarrow> 1 \<le> n \<and> n \<le> maxAttempts"
begin

lemma attempts_exhausted: "maxAttempts < n \<Longrightarrow> delay n \<noteq> Some (d, True)"
  using granted_attempt by fastforce

end

text \<open>C23: For every valid policy and every jitter sample in \<open>[0, 1)\<close>, each permitted attempt
  is granted a delay that is at least the capped exponential \<open>base * 2 ^ (attempt - 1)\<close> and at
  most the maximum delay; the doubling loop, the float64 rounding of the jitter and its conversion
  to an integer never leave the int64 range.\<close>

theorem delay_between_exponential_and_max:
  assumes "policy_ok po" and "1 \<le> attempt" and "attempt \<le> po_maxAttempts po" and "0 \<le> s" and "s < 1"
  shows "\<exists>d. Delay po (Fin s) attempt = Some (d, True) \<and>
           min (po_maxDelay po) (po_baseDelay po * 2 ^ nat (attempt - 1)) \<le> d \<and> d \<le> po_maxDelay po"
  by (rule Delay_spec[OF assms])

text \<open>The policy of the scheduler service when none is configured.\<close>

definition defaultRetryPolicy :: Policy where
  "defaultRetryPolicy = \<lparr>po_baseDelay = 1000000000, po_maxDelay = 30000000000, po_maxAttempts = 5\<rparr>"

lemma defaultRetryPolicy_ok: "policy_ok defaultRetryPolicy"
  by (simp add: policy_ok_def defaultRetryPolicy_def in64_def)

interpretation default_backoff: backoff "Delay defaultRetryPolicy sample" "30000000000" "5" for sample
proof
  fix n d assume "Delay defaultRetryPolicy sample n = Some (d, True)"
  from Delay_granted[OF this defaultRetryPolicy_ok]
  show "0 < d \<and> d \<le> 30000000000" "1 \<le> n \<and> n \<le> 5" by (simp_all add: defaultRetryPolicy_def)
qed

theorem delay_between_exponential_and_max_witness:
  "\<exists>d. Delay defaultRetryPolicy (Fin (1 / 3)) 3 = Some (d, True) \<and> 4000000000 \<le> d \<and> d \<le> 30000000000"
  using delay_between_exponential_and_max[OF defaultRetryPolicy_ok, of 3 "1 / 3"] by (simp add: defaultRetryPolicy_def)

end
