(* ===== verification/Cycle_Worker.thy ===== *)
theory Cycle_Worker
  imports Task_Selection Retry_Policy
begin

text \<open>
  One worker cycle (\<open>src/internal/scheduler/worker.go\<close>): select, claim, run a slice, turn its
  result into a transition, and commit it. The executor, the clock, the id generator and the retry
  policy are injected into the service, and are parameters here: each clock reading of a cycle is a
  field of \<open>cycle_env\<close>, and \<open>ev_during\<close> is what other writers do to the tables while
  the slice runs. An executor error is the list of the sentinel errors it wraps
  (\<open>errors.Is\<close>).
\<close>

section \<open>Errors\<close>

datatype sentinel =
  CtxDeadlineExceeded | CtxCanceled | SqliteCanceled | SqliteBusy | SqliteQueueFull | SqliteDiskFull
| SqliteReadOnly | SqlitePermission | SqliteIO | SqliteCorrupt | SqliteClosing | SqliteClosed
| SqliteInvalidConfig | SqliteInvalidPath

type_synonym go_error = "sentinel list"

definition ClassifyRuntimeError :: "go_error \<Rightarrow> RuntimeErrorClass" where
  "ClassifyRuntimeError err =
     (let is = (\<lambda>s. List.member err s) in
      if is CtxDeadlineExceeded then RuntimeErrorTimeout
      else if is CtxCanceled \<or> is SqliteCanceled then RuntimeErrorCanceled
      else if is SqliteBusy \<or> is SqliteQueueFull then RuntimeErrorBusy
      else if is SqliteDiskFull then RuntimeErrorDiskFull
      else if is SqliteReadOnly then RuntimeErrorReadOnly
      else if is SqlitePermission then RuntimeErrorPermission
      else if is SqliteIO then RuntimeErrorIO
      else if is SqliteCorrupt then RuntimeErrorCorrupt
      else if is SqliteClosing \<or> is SqliteClosed then RuntimeErrorUnavailable
      else if is SqliteInvalidConfig \<or> is SqliteInvalidPath then RuntimeErrorInvalid
      else RuntimeErrorUnknown)"

section \<open>Transitions\<close>

record SliceResult =
  sr_FilesProcessed :: int64
  sr_BytesProcessed :: int64
  sr_Active :: int64
  sr_StopReason :: SchedulerStopReason

record cycleTransition =
  ct_state :: SchedulerTaskState
  ct_outcome :: SchedulerCycleOutcome
  ct_stopReason :: SchedulerStopReason
  ct_errorClass :: "RuntimeErrorClass option"
  ct_returnErr :: "service_error option"

definition yieldedTransition :: "SchedulerStopReason \<Rightarrow> cycleTransition" where
  "yieldedTransition reason =
     \<lparr>ct_state = SchedulerTaskQueued, ct_outcome = SchedulerCycleYielded, ct_stopReason = reason,
      ct_errorClass = None, ct_returnErr = None\<rparr>"

definition failedTransition :: "RuntimeErrorClass \<Rightarrow> cycleTransition" where
  "failedTransition cls =
     \<lparr>ct_state = SchedulerTaskFailed, ct_outcome = SchedulerCycleFailed,
      ct_stopReason = SchedulerStopDependencyError, ct_errorClass = Some cls,
      ct_returnErr = Some ErrInvalidSliceResult\<rparr>"

definition yieldFor :: "cycleTransition \<Rightarrow> ScanBudget \<Rightarrow> int64" where
  "yieldFor tr b =
     (if ct_outcome tr = SchedulerCycleYielded \<or> ct_outcome tr = SchedulerCycleCompleted
      then bg_YieldFor b else 0)"

text \<open>\<open>interrupted\<close> is the result of \<open>executor.Interrupt\<close>; an error there is the
  error of the whole function.\<close>

definition cycleTransitionOf ::
  "ScanBudget \<Rightarrow> SliceResult \<Rightarrow> go_error option \<Rightarrow> bool \<Rightarrow> go_error option \<Rightarrow>
   service_error + cycleTransition" where
  "cycleTransitionOf b result executeErr panicked interrupted =
     (if bg_Blocked b then Inr (yieldedTransition SchedulerStopSystemPressure)
      else if panicked \<or>
              (case executeErr of None \<Rightarrow> False
               | Some e \<Rightarrow> List.member e CtxCanceled \<or> List.member e CtxDeadlineExceeded)
      then (let cls = (if panicked then RuntimeErrorUnknown else RuntimeErrorCanceled);
                stop = (if panicked then SchedulerStopWorkerPanic else SchedulerStopCancelled);
                returnErr = (if panicked then Some ErrExecutorPanic
                             else map_option (\<lambda>e. ExecutorError (ClassifyRuntimeError e)) executeErr)
            in case interrupted of
                 Some e \<Rightarrow> Inl (ExecutorError (ClassifyRuntimeError e))
               | None \<Rightarrow>
                   Inr \<lparr>ct_state = SchedulerTaskInterrupted, ct_outcome = SchedulerCycleInterrupted,
                        ct_stopReason = stop, ct_errorClass = Some cls, ct_returnErr = returnErr\<rparr>)
      else case executeErr of
        Some e \<Rightarrow>
          Inr \<lparr>ct_state = SchedulerTaskFailed, ct_outcome = SchedulerCycleFailed,
               ct_stopReason = SchedulerStopDependencyError,
               ct_errorClass = Some (ClassifyRuntimeError e),
               ct_returnErr = Some (ExecutorError (ClassifyRuntimeError e))\<rparr>
      | None \<Rightarrow>
          (case sr_StopReason result of
             SchedulerStopCompleted \<Rightarrow>
               Inr \<lparr>ct_state = SchedulerTaskSucceeded, ct_outcome = SchedulerCycleCompleted,
                    ct_stopReason = SchedulerStopCompleted, ct_errorClass = None, ct_returnErr = None\<rparr>
           | SchedulerStopFileBudget \<Rightarrow> Inr (yieldedTransition SchedulerStopFileBudget)
           | SchedulerStopByteBudget \<Rightarrow> Inr (yieldedTransition SchedulerStopByteBudget)
           | SchedulerStopTimeBudget \<Rightarrow> Inr (yieldedTransition SchedulerStopTimeBudget)
           | SchedulerStopLivePreempted \<Rightarrow> Inr (yieldedTransition SchedulerStopLivePreempted)
           | _ \<Rightarrow> Inr (failedTransition RuntimeErrorInvalid)))"

definition validateSliceConsumption :: "SliceResult \<Rightarrow> ScanBudget \<Rightarrow> bool \<Rightarrow> bool" where
  "validateSliceConsumption r b blocked =
     (if sr_FilesProcessed r < 0 \<or> sr_BytesProcessed r < 0 \<or> sr_Active r < 0 then False
      else if blocked then sr_FilesProcessed r = 0 \<and> sr_BytesProcessed r = 0 \<and> sr_Active r = 0
      else sr_FilesProcessed r \<le> bg_MaxFiles b \<and> sr_BytesProcessed r \<le> bg_MaxBytes b \<and>
           sr_Active r \<le> bg_MaxActive b)"

section \<open>Retry facts\<close>

fun transientRuntimeError :: "RuntimeErrorClass \<Rightarrow> bool" where
  "transientRuntimeError RuntimeErrorBusy = True"
| "transientRuntimeError RuntimeErrorTimeout = True"
| "transientRuntimeError RuntimeErrorIO = True"
| "transientRuntimeError RuntimeErrorUnavailable = True"
| "transientRuntimeError RuntimeErrorUnknown = True"
| "transientRuntimeError _ = False"

fun recoveryActionFor :: "RuntimeErrorClass \<Rightarrow> bool \<Rightarrow> SchedulerRecoveryAction" where
  "recoveryActionFor RuntimeErrorDiskFull _ = SchedulerRecoveryFreeSpace"
| "recoveryActionFor RuntimeErrorReadOnly _ = SchedulerRecoveryGrantPermission"
| "recoveryActionFor RuntimeErrorPermission _ = SchedulerRecoveryGrantPermission"
| "recoveryActionFor RuntimeErrorCorrupt _ = SchedulerRecoveryRepairStore"
| "recoveryActionFor RuntimeErrorInvalid _ = SchedulerRecoveryChooseHome"
| "recoveryActionFor RuntimeErrorUnavailable exhausted =
     (if exhausted then SchedulerRecoveryCheckSource else SchedulerRecoveryRetry)"
| "recoveryActionFor _ _ = SchedulerRecoveryRetry"

definition retryMutation ::
  "(int \<Rightarrow> (int64 \<times> bool) option) \<Rightarrow> string \<Rightarrow> RuntimeErrorClass \<Rightarrow> int64 \<Rightarrow> sched_db \<Rightarrow>
   service_error + SchedulerRetryMutation" where
  "retryMutation delay taskID cls atMS db =
     (let base = (case SchedulerRetryStateOf taskID db of
                    Inr current \<Rightarrow>
                      if rt_Revision current = max_int64 \<or> rt_FailureCount current = max_int64
                      then Inl ErrInvalidService
                      else Inr (rt_Revision current, rt_FailureCount current + 1)
                  | Inl ErrNotFound \<Rightarrow> Inr (0, 1)
                  | Inl e \<Rightarrow> Inl (StoreError e))
      in case base of
           Inl e \<Rightarrow> Inl e
         | Inr (expected, failures) \<Rightarrow>
             (let blocked = (\<lambda>action.
                    \<lparr>rm_ExpectedRevision = expected, rm_Disposition = SchedulerRetryBlocked,
                     rm_FailureCount = failures, rm_LastErrorClass = cls, rm_NextRetryAtMS = None,
                     rm_RecoveryAction = action\<rparr>)
              in if \<not> transientRuntimeError cls then Inr (blocked (recoveryActionFor cls False))
                 else case delay failures of
                   None \<Rightarrow> Inl ErrInvalidService
                 | Some (d, retry) \<Rightarrow>
                     if \<not> retry then Inr (blocked (recoveryActionFor cls True))
                     else
                       (let delayMS = durationMillisecondsCeil d;
                            (nextRetryAt, ok) = Add atMS delayMS
                        in if delayMS \<le> 0 \<or> \<not> ok \<or> nextRetryAt > MaxSchedulerRetryDueTimestampMS
                           then Inr (blocked (recoveryActionFor cls True))
                           else Inr \<lparr>rm_ExpectedRevision = expected,
                                     rm_Disposition = SchedulerRetryWaiting,
                                     rm_FailureCount = failures, rm_LastErrorClass = cls,
                                     rm_NextRetryAtMS = Some nextRetryAt,
                                     rm_RecoveryAction = SchedulerRecoveryNone\<rparr>)))"

definition rebaseRetryDue ::
  "SchedulerRetryMutation option \<Rightarrow> int64 \<Rightarrow> int64 \<Rightarrow> service_error + SchedulerRetryMutation option" where
  "rebaseRetryDue mutation previousAtMS rebasedAtMS =
     (case mutation of
        None \<Rightarrow> Inr None
      | Some m \<Rightarrow>
          if rm_Disposition m \<noteq> SchedulerRetryWaiting \<or> previousAtMS = rebasedAtMS then Inr (Some m)
          else case rm_NextRetryAtMS m of
            None \<Rightarrow> Inl ErrInvalidService
          | Some due \<Rightarrow>
              if due \<le> previousAtMS \<or> rebasedAtMS < previousAtMS then Inl ErrInvalidService
              else
                (let (nextRetryAtMS, ok) = Add rebasedAtMS (sub64 due previousAtMS)
                 in if \<not> ok \<or> nextRetryAtMS > MaxSchedulerRetryDueTimestampMS
                    then Inr (Some (m\<lparr>rm_Disposition := SchedulerRetryBlocked, rm_NextRetryAtMS := None,
                           rm_RecoveryAction := recoveryActionFor (rm_LastErrorClass m) True\<rparr>))
                    else Inr (Some (m\<lparr>rm_NextRetryAtMS := Some nextRetryAtMS\<rparr>))))"

section \<open>Commit with readback\<close>

definition SchedulerCycleOf :: "string \<Rightarrow> sched_db \<Rightarrow> store_error + SchedulerCycle" where
  "SchedulerCycleOf cycleID db =
     (if cycleID = [] then Inl ErrInvalidRepository
      else case find (\<lambda>c. cy_CycleID c = cycleID) (db_Cycles db) of
        None \<Rightarrow> Inl ErrNotFound
      | Some c \<Rightarrow> schedulerCycleFromModel c)"

definition committedCycleExact :: "SchedulerCycle \<Rightarrow> sched_db \<Rightarrow> bool" where
  "committedCycleExact expected db \<longleftrightarrow> SchedulerCycleOf (cy_CycleID expected) db = Inr expected"

definition commitMaximum :: "SchedulerTaskState \<Rightarrow> int64" where
  "commitMaximum s =
     (if s = SchedulerTaskQueued then MaxSchedulerQueuedTimestampMS
      else if s = SchedulerTaskInterrupted then MaxSchedulerRunningTimestampMS
      else MaxSchedulerTimestampMS)"

definition commitCycleWithReadback ::
  "int64 \<Rightarrow> SchedulerCycleCommit \<Rightarrow> sched_db \<Rightarrow> service_error + sched_db" where
  "commitCycleWithReadback now c db =
     (case CommitSchedulerCycle c db of
        Inr db' \<Rightarrow> Inr db'
      | Inl err \<Rightarrow>
          if committedCycleExact (cm_Cycle c) db then Inr db
          else if err \<noteq> ErrSchedulerTransition then Inl (StoreError err)
          else case SchedulerTaskOf (cm_TaskID c) db of
            Inl _ \<Rightarrow> Inl (StoreError err)
          | Inr t \<Rightarrow>
              if tk_State t \<noteq> SchedulerTaskRunning \<or>
                 tk_LastStartedAtMS t \<noteq> Some (cy_StartedAtMS (cm_Cycle c))
              then Inl (StoreError err)
              else case SchedulerQueueSnapshotOf db of
                Inl _ \<Rightarrow> Inl (StoreError err)
              | Inr s \<Rightarrow>
                 (case afterMS now (max (tk_UpdatedAtMS t) (qs_MaxQueueOrderMS s))
                        (commitMaximum (cm_State c)) of
                    Inl _ \<Rightarrow> Inl (StoreError err)
                  | Inr rebasedAtMS \<Rightarrow>
                     (case rebaseRetryDue (cm_Retry c) (cm_AtMS c) rebasedAtMS of
                        Inl _ \<Rightarrow> Inl (StoreError err)
                      | Inr retry \<Rightarrow>
                         (case CommitSchedulerCycle (c\<lparr>cm_AtMS := rebasedAtMS,
                                 cm_QueueOrderMS := rebasedAtMS, cm_Retry := retry\<rparr>) db of
                            Inr db' \<Rightarrow> Inr db'
                          | Inl e \<Rightarrow>
                              if committedCycleExact (cm_Cycle c) db then Inr db
                              else Inl (StoreError e)))))"

section \<open>One cycle\<close>

record Service =
  sv_budgetPolicy :: BudgetPolicy
  sv_maxLiveBurst :: int
  sv_recoveryPageSize :: int

record cycle_env =
  ev_system :: SystemSnapshot
  ev_cycleID :: string
  ev_nowSnapshot :: int64
  ev_nowStart :: int64
  ev_nowFinish :: int64
  ev_nowCommit :: int64
  ev_nowRebase :: int64
  ev_execute :: "SchedulerTask \<Rightarrow> ScanBudget \<Rightarrow> (SliceResult \<times> go_error option) option"
  ev_interrupt :: "go_error option"
  ev_during :: "sched_db \<Rightarrow> sched_db"
  ev_cancelled :: bool
  ev_delay :: "int \<Rightarrow> (int64 \<times> bool) option"

definition zeroResult :: "SchedulerStopReason \<Rightarrow> SliceResult" where
  "zeroResult stop =
     \<lparr>sr_FilesProcessed = 0, sr_BytesProcessed = 0, sr_Active = 0, sr_StopReason = stop\<rparr>"

text \<open>A panic (\<open>None\<close>) yields the zero result, an error that wraps no sentinel, and the
  panic flag.\<close>

definition executeSliceSafely ::
  "(SliceResult \<times> go_error option) option \<Rightarrow> SliceResult \<times> go_error option \<times> bool" where
  "executeSliceSafely r =
     (case r of
        None \<Rightarrow> (zeroResult (SchedulerStopOther []), Some [], True)
      | Some (result, err) \<Rightarrow> (result, err, False))"

definition preemptedStop ::
  "SchedulerLane \<Rightarrow> go_error option \<Rightarrow> bool \<Rightarrow> int64 \<Rightarrow> SliceResult \<Rightarrow> SliceResult" where
  "preemptedStop lane executeErr panicked liveDepth r =
     (if lane = SchedulerLaneBackfill \<and> executeErr = None \<and> \<not> panicked \<and>
         (sr_StopReason r = SchedulerStopFileBudget \<or> sr_StopReason r = SchedulerStopByteBudget \<or>
          sr_StopReason r = SchedulerStopTimeBudget) \<and> liveDepth > 0
      then r\<lparr>sr_StopReason := SchedulerStopLivePreempted\<rparr> else r)"

text \<open>The transition of the slice, and the consumption that is reported: an inconsistent report
  becomes a failed cycle that consumed nothing.\<close>

definition sliceTransition ::
  "ScanBudget \<Rightarrow> bool \<Rightarrow> SliceResult \<Rightarrow> go_error option \<Rightarrow> bool \<Rightarrow> go_error option \<Rightarrow>
   service_error + (cycleTransition \<times> SliceResult)" where
  "sliceTransition b persistenceExhausted r executeErr panicked interrupted =
     (case (if persistenceExhausted then Inr (failedTransition RuntimeErrorInvalid)
            else cycleTransitionOf b r executeErr panicked interrupted) of
        Inl e \<Rightarrow> Inl e
      | Inr tr \<Rightarrow>
          if validateSliceConsumption r b (bg_Blocked b) then Inr (tr, r)
          else Inr (failedTransition RuntimeErrorUnknown,
                    r\<lparr>sr_FilesProcessed := 0, sr_BytesProcessed := 0, sr_Active := 0\<rparr>))"

definition buildCycle ::
  "string \<Rightarrow> SchedulerTask \<Rightarrow> QueueSelection \<Rightarrow> ScanBudget \<Rightarrow> cycleTransition \<Rightarrow> SliceResult \<Rightarrow>
   int64 \<Rightarrow> int64 \<Rightarrow> SchedulerCycle" where
  "buildCycle cycleID t sel b tr r startedAtMS finishedAtMS =
     \<lparr>cy_CycleID = cycleID, cy_TaskID = tk_TaskID t, cy_Lane = tk_Lane t,
      cy_SelectionReason = sel_Reason sel, cy_StopReason = ct_stopReason tr,
      cy_Outcome = ct_outcome tr, cy_BudgetFiles = bg_MaxFiles b, cy_BudgetBytes = bg_MaxBytes b,
      cy_BudgetActiveMS = durationMillisecondsCeil (bg_MaxActive b),
      cy_ConsumedFiles = sr_FilesProcessed r, cy_ConsumedBytes = sr_BytesProcessed r,
      cy_ActiveMS = durationMillisecondsCeil (sr_Active r), cy_LiveDepth = sel_LiveDepth sel,
      cy_BackfillDepth = sel_BackfillDepth sel, cy_OldestLiveWaitMS = sel_OldestLiveWaitMS sel,
      cy_OldestBackfillWaitMS = sel_OldestBackfillWaitMS sel, cy_StartedAtMS = startedAtMS,
      cy_FinishedAtMS = finishedAtMS\<rparr>"

definition buildCommit ::
  "SchedulerTask \<Rightarrow> cycleTransition \<Rightarrow> SliceResult \<Rightarrow> int64 \<Rightarrow> SchedulerCycle \<Rightarrow>
   SchedulerRetryMutation option \<Rightarrow> SchedulerCycleCommit" where
  "buildCommit t tr r commitAtMS cycle retry =
     \<lparr>cm_TaskID = tk_TaskID t, cm_ExpectedState = SchedulerTaskRunning, cm_State = ct_state tr,
      cm_QueueOrderMS = commitAtMS, cm_FilesDelta = sr_FilesProcessed r,
      cm_BytesDelta = sr_BytesProcessed r, cm_ErrorClass = ct_errorClass tr, cm_AtMS = commitAtMS,
      cm_Cycle = cycle, cm_Retry = retry\<rparr>"

text \<open>From the end of the slice to the commit request.\<close>

definition finishSlice ::
  "cycle_env \<Rightarrow> SchedulerTask \<Rightarrow> QueueSelection \<Rightarrow> ScanBudget \<Rightarrow> int64 \<Rightarrow> int64 \<Rightarrow>
   cycleTransition \<Rightarrow> SliceResult \<Rightarrow> sched_db \<Rightarrow> service_error + SchedulerCycleCommit" where
  "finishSlice env t sel b startedAtMS maxQueueOrderMS tr r db =
     (case finishedTimestampBase startedAtMS (durationMillisecondsCeil (sr_Active r)) of
        Inl e \<Rightarrow> Inl e
      | Inr finishedBaseMS \<Rightarrow>
       (case afterMS (ev_nowFinish env) finishedBaseMS MaxSchedulerRunningTimestampMS of
          Inl e \<Rightarrow> Inl e
        | Inr finishedAtMS \<Rightarrow>
         (case afterMS (ev_nowCommit env) (max maxQueueOrderMS finishedAtMS) MaxSchedulerTimestampMS of
            Inl e \<Rightarrow> Inl e
          | Inr commitAtMS \<Rightarrow>
             (let cycle = buildCycle (ev_cycleID env) t sel b tr r startedAtMS finishedAtMS in
              case ct_errorClass tr of
                Some cls \<Rightarrow>
                  if ct_outcome tr = SchedulerCycleFailed
                  then (case retryMutation (ev_delay env) (tk_TaskID t) cls commitAtMS db of
                          Inl e \<Rightarrow> Inl e
                        | Inr m \<Rightarrow> Inr (buildCommit t tr r commitAtMS cycle (Some m)))
                  else Inr (buildCommit t tr r commitAtMS cycle None)
              | None \<Rightarrow> Inr (buildCommit t tr r commitAtMS cycle None)))))"

definition executorPresent :: "SchedulerTask \<Rightarrow> bool" where
  "executorPresent t = validSchedulerTargetKind (tk_TargetKind t)"

text \<open>The part of a cycle after the claim. The result is the error, or the cycle, the wait, and the
  error that is reported beside the committed cycle.\<close>

definition runClaimed ::
  "cycle_env \<Rightarrow> SchedulerQueueSnapshot \<Rightarrow> QueueSelection \<Rightarrow> ScanBudget \<Rightarrow> int64 \<Rightarrow> SchedulerTask \<Rightarrow>
   sched_db \<Rightarrow> sched_db \<times> (service_error + SchedulerCycle \<times> int64 \<times> service_error option)" where
  "runClaimed env snapshot sel b startedAtMS t db1 =
     (let exhausted = \<not> sliceHasQueuedCommitHeadroom startedAtMS b \<or> \<not> taskHasSliceCommitHeadroom t b;
          (r0, executeErr, panicked) =
            (if \<not> bg_Blocked b \<and> \<not> exhausted then executeSliceSafely (ev_execute env t b)
             else (zeroResult SchedulerStopSystemPressure, None, False));
          db2 = ev_during env db1
      in case (if ev_cancelled env then Inr snapshot
               else SchedulerRunnableQueueSnapshot db2) of
           Inl e \<Rightarrow> (db2, Inl (StoreError e))
         | Inr post \<Rightarrow>
             (let r = (if ev_cancelled env then r0
                       else preemptedStop (tk_Lane t) executeErr panicked (qs_LiveDepth post) r0)
              in case sliceTransition b exhausted r executeErr panicked (ev_interrupt env) of
                   Inl e \<Rightarrow> (db2, Inl e)
                 | Inr (tr, r') \<Rightarrow>
                     (case finishSlice env t sel b startedAtMS (qs_MaxQueueOrderMS post) tr r' db2 of
                        Inl e \<Rightarrow> (db2, Inl e)
                      | Inr c \<Rightarrow>
                          (case commitCycleWithReadback (ev_nowRebase env) c db2 of
                             Inl e \<Rightarrow> (db2, Inl e)
                           | Inr db3 \<Rightarrow> (db3, Inr (cm_Cycle c, yieldFor tr b, ct_returnErr tr))))))"

definition claimError :: "store_error \<Rightarrow> service_error" where
  "claimError e =
     (if e = ErrSchedulerBusy \<or> e = ErrSchedulerTransition \<or> e = ErrSchedulerPaused
      then ErrSchedulerRetry e else StoreError e)"

text \<open>A cycle after recovery and retry preflight.\<close>

definition runCycle ::
  "Service \<Rightarrow> cycle_env \<Rightarrow> sched_db \<Rightarrow>
   sched_db \<times> (service_error + SchedulerCycle \<times> int64 \<times> service_error option)" where
  "runCycle sv env db =
     (case SchedulerRunnableQueueSnapshot db of
        Inl e \<Rightarrow> (db, Inl (StoreError e))
      | Inr snapshot \<Rightarrow>
       (case ListSchedulerCycles None None (sv_maxLiveBurst sv) db of
          Inl e \<Rightarrow> (db, Inl (StoreError e))
        | Inr recent \<Rightarrow>
         (case selectQueueSnapshot snapshot recent (sv_maxLiveBurst sv)
                 (logicalQueueSnapshotMS (ev_nowSnapshot env) snapshot) of
            Inl e \<Rightarrow> (db, Inl e)
          | Inr sel \<Rightarrow>
           (case Resolve (sv_budgetPolicy sv) (tk_ServiceClass (sel_Task sel)) (ev_system env) of
              Inl e \<Rightarrow> (db, Inl e)
            | Inr b \<Rightarrow>
                if \<not> executorPresent (sel_Task sel) then (db, Inl ErrExecutorMissing)
                else if ev_cycleID env = [] then (db, Inl ErrInvalidService)
                else
             (case afterMS (ev_nowStart env) (tk_UpdatedAtMS (sel_Task sel))
                     MaxSchedulerRunningTimestampMS of
                Inl e \<Rightarrow> (db, Inl e)
              | Inr startedAtMS \<Rightarrow>
               (case ClaimSchedulerTask (tk_TaskID (sel_Task sel)) startedAtMS db of
                  Inl e \<Rightarrow> (db, Inl (claimError e))
                | Inr (t, db1) \<Rightarrow> runClaimed env snapshot sel b startedAtMS t db1))))))"

end
