(* ===== verification/Worker_Commit.thy ===== *)
theory Worker_Commit
  imports Cycle_Worker
begin

text \<open>
  What the worker asks the store to commit is always acceptable: whatever the executor reports
  (an error, a panic, a cancellation, negative or excessive consumption), the commit built for the
  claimed task passes the store's validation and, if the task row was not changed meanwhile, is
  committed at the first attempt.
\<close>

section \<open>Durations and times\<close>

lemma durationMillisecondsCeil_nonneg: "0 \<le> durationMillisecondsCeil v"
  by (auto simp: durationMillisecondsCeil_def millisecond_def)

lemma durationMillisecondsCeil_eq: "0 < v \<Longrightarrow> durationMillisecondsCeil v = - ((- v) div millisecond)"
  by (simp add: durationMillisecondsCeil_def zdiv_zminus1_eq_if millisecond_def)

lemma durationMillisecondsCeil_mono:
  assumes "v \<le> w"
  shows "durationMillisecondsCeil v \<le> durationMillisecondsCeil w"
proof (cases "v \<le> 0")
  case True
  then show ?thesis using durationMillisecondsCeil_nonneg[of w] by (simp add: durationMillisecondsCeil_def)
next
  case False
  have "(- w) div millisecond \<le> (- v) div millisecond"
    using assms by (intro zdiv_mono1) (simp_all add: millisecond_def)
  with False assms show ?thesis by (simp add: durationMillisecondsCeil_eq)
qed

lemma durationMillisecondsCeil_le:
  assumes "v \<le> k * millisecond" and "0 \<le> k"
  shows "durationMillisecondsCeil v \<le> k"
proof -
  have "durationMillisecondsCeil (k * millisecond) \<le> k"
    using assms(2) by (simp add: durationMillisecondsCeil_def millisecond_def)
  then show ?thesis using durationMillisecondsCeil_mono[OF assms(1)] by linarith
qed

lemma afterMS_Inr:
  assumes "afterMS now v m = Inr x"
  shows "v < x" "now \<le> x" "x \<le> m" "0 \<le> x" "x \<le> MaxTimestampMS"
proof -
  from assms have "After now v m = (x, True)" by (auto simp: afterMS_def split: prod.splits if_splits)
  from After_ok[OF this] show "v < x" "now \<le> x" "x \<le> m" "0 \<le> x" "x \<le> MaxTimestampMS" by auto
qed

lemma finishedTimestampBase_Inr:
  assumes "finishedTimestampBase st ac = Inr v" and "st \<le> MaxTimestampMS" and "ac \<le> MaxSchedulerSliceActiveMS"
  shows "st - 1 \<le> v \<and> v = st + ac - 1 \<and> 0 \<le> st \<and> 0 \<le> ac"
  using assms
  by (auto simp: finishedTimestampBase_def scheduler_limits add64_id sub64_id in64_def split: if_splits)

section \<open>Transitions\<close>

definition transition_ok :: "cycleTransition \<Rightarrow> bool" where
  "transition_ok tr \<longleftrightarrow>
     (case ct_outcome tr of
        SchedulerCycleCompleted \<Rightarrow> ct_state tr = SchedulerTaskSucceeded \<and>
          ct_stopReason tr = SchedulerStopCompleted \<and> ct_errorClass tr = None
      | SchedulerCycleYielded \<Rightarrow> ct_state tr = SchedulerTaskQueued \<and> ct_errorClass tr = None \<and>
          ct_stopReason tr \<in> {SchedulerStopFileBudget, SchedulerStopByteBudget, SchedulerStopTimeBudget,
                             SchedulerStopSystemPressure, SchedulerStopLivePreempted}
      | SchedulerCycleFailed \<Rightarrow> ct_state tr = SchedulerTaskFailed \<and>
          ct_stopReason tr = SchedulerStopDependencyError \<and>
          (\<exists>e. ct_errorClass tr = Some e \<and> validRuntimeErrorClass e)
      | SchedulerCycleInterrupted \<Rightarrow> ct_state tr = SchedulerTaskInterrupted \<and>
          ct_stopReason tr \<in> {SchedulerStopCancelled, SchedulerStopWorkerPanic} \<and>
          (\<exists>e. ct_errorClass tr = Some e \<and> validRuntimeErrorClass e)
      | SchedulerCycleOther _ \<Rightarrow> False)"

lemma ClassifyRuntimeError_valid: "validRuntimeErrorClass (ClassifyRuntimeError e)"
  by (simp add: ClassifyRuntimeError_def Let_def)

lemma cycleTransitionOf_ok: "cycleTransitionOf b r e p i = Inr tr \<Longrightarrow> transition_ok tr"
  by (auto simp: cycleTransitionOf_def transition_ok_def yieldedTransition_def failedTransition_def
      ClassifyRuntimeError_valid Let_def split: if_splits option.splits SchedulerStopReason.splits)

lemma failedTransition_ok: "validRuntimeErrorClass e \<Longrightarrow> transition_ok (failedTransition e)"
  by (simp add: transition_ok_def failedTransition_def)

lemma sliceTransition_ok:
  assumes "sliceTransition b ex r e p i = Inr (tr, r')" and "validScanBudget b"
  shows "transition_ok tr \<and> validateSliceConsumption r' b (bg_Blocked b) \<and>
         (ex \<longrightarrow> ct_outcome tr = SchedulerCycleFailed) \<and>
         (r' = r \<or> sr_FilesProcessed r' = 0 \<and> sr_BytesProcessed r' = 0)"
proof (cases "validateSliceConsumption r b (bg_Blocked b)")
  case True
  have "transition_ok (failedTransition RuntimeErrorInvalid)" by (simp add: failedTransition_ok)
  with True assms(1) cycleTransitionOf_ok[of b r e p i tr] show ?thesis
    by (auto simp: sliceTransition_def failedTransition_def split: if_splits sum.splits)
next
  case False
  with assms have "tr = failedTransition RuntimeErrorUnknown"
    "r' = r\<lparr>sr_FilesProcessed := 0, sr_BytesProcessed := 0, sr_Active := 0\<rparr>"
    by (auto simp: sliceTransition_def split: if_splits sum.splits)
  with assms(2) show ?thesis
    by (auto simp: transition_ok_def validateSliceConsumption_def validScanBudget_def
        failedTransition_def split: if_splits)
qed

section \<open>Retry facts\<close>

definition retry_headroom :: "string \<Rightarrow> sched_db \<Rightarrow> bool" where
  "retry_headroom i db \<longleftrightarrow>
     (\<forall>r. schedulerRetryStateIn i db = Inr (Some r) \<longrightarrow>
        rt_Revision r < max_int64 \<and> rt_FailureCount r < max_int64 - 1)"

lemma recoveryActionFor_ok:
  "recoveryActionFor c x \<noteq> SchedulerRecoveryNone" "validSchedulerRecoveryAction (recoveryActionFor c x)"
  by (cases c; simp)+

lemma schedulerRetryStateIn_not_ErrNotFound: "schedulerRetryStateIn i db \<noteq> Inl ErrNotFound"
  by (auto simp: schedulerRetryStateIn_def validateSchedulerRetryState_def
      split: option.splits if_splits SchedulerRetryDisposition.splits)

lemma retryMutation_Inr:
  assumes ok: "retryMutation delay i cls w db = Inr m" and i: "i \<noteq> []"
    and room: "retry_headroom i db" and cls: "validRuntimeErrorClass cls"
    and at: "0 \<le> w" "w \<le> MaxSchedulerTimestampMS"
  shows "\<exists>found. schedulerRetryStateIn i db = Inr found \<and>
           (case found of
              None \<Rightarrow> rm_ExpectedRevision m = 0 \<and> rm_FailureCount m = 1
            | Some r \<Rightarrow> rm_ExpectedRevision m = rt_Revision r \<and> rm_FailureCount m = rt_FailureCount r + 1) \<and>
           rm_LastErrorClass m = cls \<and> 0 \<le> rm_ExpectedRevision m \<and> rm_ExpectedRevision m < max_int64 \<and>
           rm_FailureCount m \<noteq> max_int64 \<and>
           rm_Disposition m \<in> {SchedulerRetryWaiting, SchedulerRetryBlocked} \<and>
           validateSchedulerRetryState (retryCandidate i w m) = None"
proof -
  let ?base = "case SchedulerRetryStateOf i db of
      Inr current \<Rightarrow> if rt_Revision current = max_int64 \<or> rt_FailureCount current = max_int64
        then Inl ErrInvalidService else Inr (rt_Revision current, rt_FailureCount current + 1)
    | Inl ErrNotFound \<Rightarrow> Inr (0, 1) | Inl e \<Rightarrow> Inl (StoreError e)"
  from ok obtain x f where base: "?base = Inr (x, f)"
    by (cases ?base) (auto simp: retryMutation_def Let_def)
  have "\<exists>found. schedulerRetryStateIn i db = Inr found \<and>
      (case found of None \<Rightarrow> x = 0 \<and> f = 1 | Some r \<Rightarrow> x = rt_Revision r \<and> f = rt_FailureCount r + 1)"
    using base i schedulerRetryStateIn_not_ErrNotFound[of i db]
    by (auto simp: SchedulerRetryStateOf_def split: sum.splits option.splits if_splits store_error.splits)
  then obtain found where fd: "schedulerRetryStateIn i db = Inr found"
    "case found of None \<Rightarrow> x = 0 \<and> f = 1 | Some r \<Rightarrow> x = rt_Revision r \<and> f = rt_FailureCount r + 1" by blast
  have b: "0 \<le> x" "x < max_int64" "1 \<le> f" "f \<noteq> max_int64"
  proof -
    have "0 \<le> x \<and> x < max_int64 \<and> 1 \<le> f \<and> f \<noteq> max_int64"
    proof (cases found)
      case None
      with fd(2) show ?thesis by (simp add: max_int64_def)
    next
      case (Some r)
      with fd schedulerRetryStateIn_Some[of i db r] have "validateSchedulerRetryState r = None" by blast
      then have "1 \<le> rt_Revision r" "1 \<le> rt_FailureCount r"
        by (auto simp: validateSchedulerRetryState_def split: if_splits)
      with Some fd room show ?thesis by (auto simp: retry_headroom_def)
    qed
    then show "0 \<le> x" "x < max_int64" "1 \<le> f" "f \<noteq> max_int64" by auto
  qed
  have rev: "add64 x 1 = x + 1" using b by (intro add64_id) (simp add: in64_def max_int64_def)
  have m: "rm_ExpectedRevision m = x" "rm_FailureCount m = f" "rm_LastErrorClass m = cls"
    "rm_Disposition m = SchedulerRetryBlocked \<and> rm_NextRetryAtMS m = None \<and>
       (\<exists>y. rm_RecoveryAction m = recoveryActionFor cls y) \<or>
     rm_Disposition m = SchedulerRetryWaiting \<and> rm_RecoveryAction m = SchedulerRecoveryNone \<and>
       (\<exists>n. rm_NextRetryAtMS m = Some n \<and> w < n \<and> n \<le> MaxSchedulerRetryDueTimestampMS)"
    using ok base
    by (auto simp: retryMutation_def Let_def Add_eq split: if_splits option.splits prod.splits)
  have "validateSchedulerRetryState (retryCandidate i w m) = None"
    using m(4)
  proof (elim disjE conjE exE)
    fix y assume "rm_Disposition m = SchedulerRetryBlocked" "rm_NextRetryAtMS m = None"
      "rm_RecoveryAction m = recoveryActionFor cls y"
    then show ?thesis
      using b rev m(1-3) i cls at recoveryActionFor_ok[of cls y]
      by (simp add: validateSchedulerRetryState_def retryCandidate_def enum_valid_defs)
  next
    fix n assume "rm_Disposition m = SchedulerRetryWaiting" "rm_RecoveryAction m = SchedulerRecoveryNone"
      "rm_NextRetryAtMS m = Some n" "w < n" "n \<le> MaxSchedulerRetryDueTimestampMS"
    then show ?thesis
      using b rev m(1-3) i cls at
      by (simp add: validateSchedulerRetryState_def retryCandidate_def enum_valid_defs)
  qed
  moreover have "rm_Disposition m \<in> {SchedulerRetryWaiting, SchedulerRetryBlocked}" using m(4) by blast
  ultimately show ?thesis using fd b m(1-3) by (intro exI[of _ found]) (simp split: option.splits)
qed

section \<open>The commit of a claimed task\<close>

definition claimed_ok :: "SchedulerTask \<Rightarrow> int64 \<Rightarrow> bool" where
  "claimed_ok t startedAtMS \<longleftrightarrow>
     validateSchedulerTask t = None \<and> tk_State t = SchedulerTaskRunning \<and>
     tk_LastStartedAtMS t = Some startedAtMS \<and> tk_UpdatedAtMS t = startedAtMS \<and>
     tk_QueueOrderMS t \<le> startedAtMS \<and> tk_SliceCount t \<le> max_int64 \<and>
     tk_FilesProcessed t \<le> max_int64 \<and> tk_BytesProcessed t \<le> max_int64"

definition selection_ok :: "QueueSelection \<Rightarrow> bool" where
  "selection_ok sel \<longleftrightarrow>
     validSchedulerSelectionReason (sel_Reason sel) \<and> 0 \<le> sel_LiveDepth sel \<and>
     0 \<le> sel_BackfillDepth sel \<and> 0 \<le> sel_OldestLiveWaitMS sel \<and> 0 \<le> sel_OldestBackfillWaitMS sel"

text \<open>Everything \<open>finishSlice\<close> decides, in one place.\<close>

lemma finishSlice_Inr:
  assumes "finishSlice env t sel b st q tr r db = Inr c" and "transition_ok tr"
  obtains base fin at' retry where
    "finishedTimestampBase st (durationMillisecondsCeil (sr_Active r)) = Inr base"
    "afterMS (ev_nowFinish env) base MaxSchedulerRunningTimestampMS = Inr fin"
    "afterMS (ev_nowCommit env) (max q fin) MaxSchedulerTimestampMS = Inr at'"
    "c = buildCommit t tr r at' (buildCycle (ev_cycleID env) t sel b tr r st fin) retry"
    "case retry of
       None \<Rightarrow> ct_outcome tr \<noteq> SchedulerCycleFailed
     | Some m \<Rightarrow> ct_outcome tr = SchedulerCycleFailed \<and>
         (\<exists>cls. ct_errorClass tr = Some cls \<and> retryMutation (ev_delay env) (tk_TaskID t) cls at' db = Inr m)"
proof -
  from assms(1) obtain base where b: "finishedTimestampBase st (durationMillisecondsCeil (sr_Active r)) = Inr base"
    by (auto simp: finishSlice_def split: sum.splits)
  with assms(1) obtain fin where f: "afterMS (ev_nowFinish env) base MaxSchedulerRunningTimestampMS = Inr fin"
    by (auto simp: finishSlice_def split: sum.splits)
  with assms(1) b obtain at' where a: "afterMS (ev_nowCommit env) (max q fin) MaxSchedulerTimestampMS = Inr at'"
    by (auto simp: finishSlice_def split: sum.splits)
  let ?cy = "buildCycle (ev_cycleID env) t sel b tr r st fin"
  show thesis
  proof (cases "ct_outcome tr = SchedulerCycleFailed")
    case True
    with assms(2) obtain cls where cls: "ct_errorClass tr = Some cls" by (auto simp: transition_ok_def)
    with assms(1) b f a True obtain m where m: "retryMutation (ev_delay env) (tk_TaskID t) cls at' db = Inr m"
      "c = buildCommit t tr r at' ?cy (Some m)"
      by (auto simp: finishSlice_def Let_def split: sum.splits)
    with that[OF b f a m(2)] True cls show thesis by simp
  next
    case False
    with assms(1) b f a have "c = buildCommit t tr r at' ?cy None"
      by (auto simp: finishSlice_def Let_def split: option.splits if_splits)
    with that[OF b f a] False show thesis by simp
  qed
qed

lemma validSchedulerStopReason_transition:
  "transition_ok tr \<Longrightarrow> validSchedulerStopReason (ct_stopReason tr) \<and> validSchedulerCycleOutcome (ct_outcome tr) \<and>
     validSchedulerTaskState (ct_state tr)"
  by (auto simp: transition_ok_def split: SchedulerCycleOutcome.splits)

lemma built_commit_valid:
  assumes t: "claimed_ok t st" and sel: "selection_ok sel" and b: "validScanBudget b"
    and tr: "transition_ok tr" and r: "validateSliceConsumption r b (bg_Blocked b)"
    and c: "finishSlice env t sel b st q tr r db = Inr c" and id: "ev_cycleID env \<noteq> []"
    and room: "retry_headroom (tk_TaskID t) db"
  shows "validateSchedulerCycleCommit c = None"
proof -
  obtain base fin at' retry where f:
    "finishedTimestampBase st (durationMillisecondsCeil (sr_Active r)) = Inr base"
    "afterMS (ev_nowFinish env) base MaxSchedulerRunningTimestampMS = Inr fin"
    "afterMS (ev_nowCommit env) (max q fin) MaxSchedulerTimestampMS = Inr at'"
    "c = buildCommit t tr r at' (buildCycle (ev_cycleID env) t sel b tr r st fin) retry"
    "case retry of None \<Rightarrow> ct_outcome tr \<noteq> SchedulerCycleFailed
     | Some m \<Rightarrow> ct_outcome tr = SchedulerCycleFailed \<and>
         (\<exists>cls. ct_errorClass tr = Some cls \<and> retryMutation (ev_delay env) (tk_TaskID t) cls at' db = Inr m)"
    by (rule finishSlice_Inr[OF c tr])
  note v = validateSchedulerTaskD(1)[of t]
  have tv: "\<not> taskFieldsInvalid t" "tk_TaskID t \<noteq> []" "validSchedulerLane (tk_Lane t)"
    and st: "st \<le> MaxTimestampMS"
    using t v by (auto simp: claimed_ok_def taskFieldsInvalid_def MaxSchedulerTimestampMS_def)
  have act: "durationMillisecondsCeil (sr_Active r) \<le> durationMillisecondsCeil (bg_MaxActive b)"
    using r b by (intro durationMillisecondsCeil_mono)
      (auto simp: validateSliceConsumption_def validScanBudget_def split: if_splits)
  have maxact: "durationMillisecondsCeil (bg_MaxActive b) \<le> MaxSchedulerSliceActiveMS"
    using b by (intro durationMillisecondsCeil_le)
      (auto simp: validScanBudget_def scheduler_limits millisecond_def split: if_splits)
  have base: "st - 1 \<le> base \<and> 0 \<le> st"
    using finishedTimestampBase_Inr[OF f(1) st] act maxact by auto
  note fin = afterMS_Inr[OF f(2)] and at' = afterMS_Inr[OF f(3)]
  have times: "st \<le> fin" "fin < at'" "0 \<le> at'" "at' \<le> MaxSchedulerTimestampMS" "fin \<le> MaxSchedulerTimestampMS"
    using fin at' base by (auto simp: scheduler_limits)
  have cons: "0 \<le> sr_FilesProcessed r" "0 \<le> sr_BytesProcessed r"
    "sr_FilesProcessed r \<le> bg_MaxFiles b" "sr_BytesProcessed r \<le> bg_MaxBytes b"
    "0 \<le> bg_MaxFiles b" "0 \<le> bg_MaxBytes b"
    using r b by (auto simp: validateSliceConsumption_def validScanBudget_def split: if_splits)
  note trv = validSchedulerStopReason_transition[OF tr]
  have fields: "\<not> commitFieldsInvalid c"
    unfolding commitFieldsInvalid_def f(4) buildCommit_def buildCycle_def Let_def
    using tv times cons trv sel act st base id durationMillisecondsCeil_nonneg[of "sr_Active r"]
      durationMillisecondsCeil_nonneg[of "bg_MaxActive b"]
    by (simp add: selection_ok_def MaxSchedulerTimestampMS_def)
  have match: "schedulerCycleMatchesTaskState (cm_Cycle c) (cm_State c)"
    using tr by (auto simp: f(4) buildCommit_def buildCycle_def transition_ok_def
        split: SchedulerCycleOutcome.splits)
  have err: "cm_ErrorClass c = ct_errorClass tr" "cm_State c = ct_state tr" "cm_Retry c = retry"
    "cm_TaskID c = tk_TaskID t" "cm_AtMS c = at'"
    by (simp_all add: f(4) buildCommit_def)
  have retry: "validateCommitRetry c = None"
  proof (cases retry)
    case None
    with f(5) tr have "cm_State c \<noteq> SchedulerTaskFailed"
      by (auto simp: err transition_ok_def split: SchedulerCycleOutcome.splits)
    with None show ?thesis by (simp add: validateCommitRetry_def err)
  next
    case (Some m)
    with f(5) obtain cls where cls: "ct_outcome tr = SchedulerCycleFailed" "ct_errorClass tr = Some cls"
      "retryMutation (ev_delay env) (tk_TaskID t) cls at' db = Inr m" by auto
    with tr have "validRuntimeErrorClass cls" "ct_state tr = SchedulerTaskFailed"
      by (auto simp: transition_ok_def)
    with retryMutation_Inr[OF cls(3) tv(2) room _ times(3,4)] cls Some show ?thesis
      by (auto simp: validateCommitRetry_def err)
  qed
  have "validateRuntimeErrorClass (cm_ErrorClass c) = None" "\<not> (cm_State c = SchedulerTaskFailed \<and> cm_ErrorClass c = None \<or>
      (cm_State c = SchedulerTaskQueued \<or> cm_State c = SchedulerTaskSucceeded) \<and> cm_ErrorClass c \<noteq> None)"
    using tr by (auto simp: err transition_ok_def validateRuntimeErrorClass_def split: SchedulerCycleOutcome.splits)
  with fields match retry show ?thesis by (simp add: validateSchedulerCycleCommit_def)
qed

text \<open>The headroom the worker checks before it runs a slice is what the commit needs.\<close>

definition slice_headroom :: "SchedulerTask \<Rightarrow> ScanBudget \<Rightarrow> cycleTransition \<Rightarrow> SliceResult \<Rightarrow> bool" where
  "slice_headroom t b tr r \<longleftrightarrow>
     taskHasSliceCommitHeadroom t b \<or>
     ct_outcome tr = SchedulerCycleFailed \<and> sr_FilesProcessed r = 0 \<and> sr_BytesProcessed r = 0 \<and>
     tk_SliceCount t < max_int64"

lemma built_commit_accepted_by_row:
  assumes t: "claimed_ok t st" and b: "validScanBudget b"
    and tr: "transition_ok tr" and r: "validateSliceConsumption r b (bg_Blocked b)"
    and c: "finishSlice env t sel b st q tr r db = Inr c" and room: "slice_headroom t b tr r"
    and horizon: "cm_AtMS c \<le> MaxSchedulerQueuedTimestampMS"
    and cv: "validateSchedulerCycleCommit c = None"
  shows "\<not> commitRefused c t" and "validateSchedulerTask (committed c t) = None"
proof -
  obtain base fin at' retry where f:
    "finishedTimestampBase st (durationMillisecondsCeil (sr_Active r)) = Inr base"
    "afterMS (ev_nowFinish env) base MaxSchedulerRunningTimestampMS = Inr fin"
    "afterMS (ev_nowCommit env) (max q fin) MaxSchedulerTimestampMS = Inr at'"
    "c = buildCommit t tr r at' (buildCycle (ev_cycleID env) t sel b tr r st fin) retry"
    by (rule finishSlice_Inr[OF c tr])
  have tv: "validateSchedulerTask t = None" "tk_State t = SchedulerTaskRunning"
    "tk_LastStartedAtMS t = Some st" "tk_UpdatedAtMS t = st" "tk_QueueOrderMS t \<le> st"
    "tk_SliceCount t \<le> max_int64" "tk_FilesProcessed t \<le> max_int64" "tk_BytesProcessed t \<le> max_int64"
    using t by (simp_all add: claimed_ok_def)
  note d = validateSchedulerTaskD[OF tv(1)]
  have stmax: "st \<le> MaxTimestampMS" using task_boundsD(7)[OF tv(1)] tv(4) by (simp add: MaxSchedulerTimestampMS_def)
  have act: "durationMillisecondsCeil (sr_Active r) \<le> MaxSchedulerSliceActiveMS"
    using r b by (intro durationMillisecondsCeil_le)
      (auto simp: validateSliceConsumption_def validScanBudget_def scheduler_limits millisecond_def split: if_splits)
  have at': "st < at'" "at' \<le> MaxSchedulerTimestampMS"
    using finishedTimestampBase_Inr[OF f(1) stmax act] afterMS_Inr[OF f(2)] afterMS_Inr[OF f(3)] by auto
  have cf: "cm_State c = ct_state tr" "cm_AtMS c = at'" "cm_QueueOrderMS c = at'"
    "cm_ExpectedState c = SchedulerTaskRunning" "cy_StartedAtMS (cm_Cycle c) = st"
    "cm_FilesDelta c = sr_FilesProcessed r" "cm_BytesDelta c = sr_BytesProcessed r"
    "cm_ErrorClass c = ct_errorClass tr"
    by (simp_all add: f(4) buildCommit_def buildCycle_def)
  have cons: "sr_FilesProcessed r \<le> bg_MaxFiles b" "sr_BytesProcessed r \<le> bg_MaxBytes b"
    using r b by (auto simp: validateSliceConsumption_def validScanBudget_def split: if_splits)
  have cnt: "tk_FilesProcessed t \<le> max_int64 - sr_FilesProcessed r"
    "tk_BytesProcessed t \<le> max_int64 - sr_BytesProcessed r" "tk_SliceCount t < max_int64"
    using room cons tv by (auto simp: slice_headroom_def taskHasSliceCommitHeadroom_def split: if_splits)
  show nr: "\<not> commitRefused c t"
    using tv at' cnt by (simp add: commitRefused_def cf)
  note k = committed_counters[OF cv nr task_boundsD(2-4)[OF tv(1)] tv(6)]
  have state: "ct_state tr \<in> {SchedulerTaskQueued, SchedulerTaskSucceeded, SchedulerTaskFailed, SchedulerTaskInterrupted}"
    using commit_stateD[OF cv] by (simp add: cf)
  show "validateSchedulerTask (committed c t) = None"
  proof (rule validateSchedulerTaskI)
    show "\<not> taskFieldsInvalid (committed c t)"
      unfolding taskFieldsInvalid_def k
      using d(1) at' tv k(4,5) state task_boundsD[OF tv(1)]
      by (auto simp: taskFieldsInvalid_def committed_def cf timestampPointerAfter_def)
    show "\<not> taskLimitsInvalid (committed c t)"
    proof -
      have "tk_SliceCount t + 1 \<noteq> max_int64" if "ct_state tr = SchedulerTaskQueued \<or> ct_state tr = SchedulerTaskInterrupted"
        using room that tr
        by (auto simp: slice_headroom_def taskHasSliceCommitHeadroom_def transition_ok_def
            split: if_splits SchedulerCycleOutcome.splits)
      then show ?thesis
        unfolding taskLimitsInvalid_def k using horizon state
        by (auto simp: committed_def cf scheduler_limits)
    qed
    show "\<not> taskTimesInvalid (committed c t)"
      using d(3) at' tv task_boundsD(1)[OF tv(1)]
      by (auto simp: taskTimesInvalid_def committed_def cf split: option.splits)
    show "\<not> taskStateShapeInvalid (committed c t)"
      using tr tv(3)
      by (auto simp: committed_def cf transition_ok_def split: SchedulerCycleOutcome.splits)
    show "validateRuntimeErrorClass (tk_LastErrorClass (committed c t)) = None"
      using tr by (auto simp: committed_def cf transition_ok_def validateRuntimeErrorClass_def
          split: SchedulerCycleOutcome.splits)
  qed
qed

lemma retry_time_of_row:
  assumes "sched_inv db" and "m \<in> set (db_Tasks db)" and "schedulerRetryStateIn (row_id m) db = Inr (Some r)"
  shows "rt_UpdatedAtMS r \<le> tk_UpdatedAtMS (md_Task m)"
proof -
  from schedulerRetryStateIn_Some[OF assms(3)] have r: "r \<in> set (db_Retries db)" "rt_TaskID r = row_id m" by auto
  with sched_invD(5)[OF assms(1)] obtain m' where m': "m' \<in> set (db_Tasks db)" "row_id m' = row_id m"
    "rt_UpdatedAtMS r \<le> tk_UpdatedAtMS (md_Task m')" by (auto simp: retry_times_def)
  have "m' = m"
    using distinct_row_unique[OF _ m'(1) assms(2) m'(2)] sched_invD(1)[OF assms(1)] by (simp add: rows_inv_def)
  with m' show ?thesis by simp
qed

lemma retry_applied:
  assumes inv: "retries_inv (db_Retries db)"
    and found: "schedulerRetryStateIn i db = Inr found"
    and shape: "case found of None \<Rightarrow> rm_ExpectedRevision m = 0 \<and> rm_FailureCount m = 1
      | Some r \<Rightarrow> rm_ExpectedRevision m = rt_Revision r \<and> rm_FailureCount m = rt_FailureCount r + 1 \<and>
          rt_UpdatedAtMS r < a"
    and g: "rm_ExpectedRevision m < max_int64" "rm_FailureCount m \<noteq> max_int64"
      "validateSchedulerRetryState (retryCandidate i a m) = None"
    and small: "\<And>r. found = Some r \<Longrightarrow> rt_FailureCount r \<noteq> max_int64"
  shows "\<exists>db'. applySchedulerRetryMutation i a m db = Inr db'"
proof (cases found)
  case None
  with shape found g show ?thesis by (simp add: applySchedulerRetryMutation_def max_int64_def)
next
  case (Some r)
  with found have r: "r \<in> set (db_Retries db)" "rt_TaskID r = i" using schedulerRetryStateIn_Some by blast+
  have d: "distinct (map rt_TaskID (db_Retries db))" using inv by (simp add: retries_inv_def)
  then have "filter (\<lambda>x. rt_TaskID x = i \<and> rt_Revision x = rm_ExpectedRevision m) (db_Retries db) =
      filter (\<lambda>x. x = r) (db_Retries db)"
    using r shape Some by (intro filter_cong) (auto simp: distinct_map inj_on_def)
  then have "length (filter (\<lambda>x. rt_TaskID x = i \<and> rt_Revision x = rm_ExpectedRevision m) (db_Retries db)) = 1"
    using filter_eq_length_one[of "db_Retries db" r] d r by (simp add: distinct_map)
  with Some shape found g small[OF Some] show ?thesis
    by (simp add: applySchedulerRetryMutation_def Let_def)
qed

lemma Commit_succeeds:
  assumes inv: "sched_inv db" and m: "m \<in> set (db_Tasks db)" and id: "row_id m = cm_TaskID c"
    and v: "validateSchedulerCycleCommit c = None" and nr: "\<not> commitRefused c (md_Task m)"
    and tv: "validateSchedulerTask (committed c (md_Task m)) = None"
    and fresh: "cy_CycleID (cm_Cycle c) \<notin> cy_CycleID ` set (db_Cycles db)"
    and retry: "\<And>mu d. cm_Retry c = Some mu \<Longrightarrow> db_Retries d = db_Retries db \<Longrightarrow>
      \<exists>d'. applySchedulerRetryMutation (row_id m) (cm_AtMS c) mu d = Inr d'"
  shows "\<exists>db'. CommitSchedulerCycle c db = Inr db'"
proof -
  note i = sched_invD[OF inv]
  let ?t = "md_Task m"
  have t: "schedulerTaskByID (cm_TaskID c) db = Inr (Some ?t)"
    using schedulerTaskByID_mem[OF i(1) m] id by simp
  have "row_state m = cm_ExpectedState c" using nr by (simp add: commitRefused_def)
  moreover have "same_columns ?t (committed c ?t)" "tk_TargetID (committed c ?t) = row_target m"
    by (simp_all add: same_columns_def committed_def)
  ultimately obtain db1 where db1: "updateSchedulerTaskCAS (committed c ?t) (cm_ExpectedState c) db = Inr db1"
    using CAS_succeeds[OF i(1) m] by metis
  then have same: "db_Retries db1 = db_Retries db" "db_Cycles db1 = db_Cycles db"
    by (auto simp: updateSchedulerTaskCAS_def Let_def split: if_splits)
  obtain db2 where db2: "(case cm_Retry c of None \<Rightarrow> Inr db1
      | Some mu \<Rightarrow> applySchedulerRetryMutation (tk_TaskID ?t) (cm_AtMS c) mu db1) = Inr db2"
    using retry[OF _ same(1)] by (cases "cm_Retry c") auto
  have "db_Cycles db2 = db_Cycles db"
  proof (cases "cm_Retry c")
    case (Some mu)
    with db2 have a: "applySchedulerRetryMutation (tk_TaskID ?t) (cm_AtMS c) mu db1 = Inr db2" by simp
    have "retries_inv (db_Retries db1)" using i(2) same by simp
    from applySchedulerRetryMutation_ok[OF this a] have "db2 = db1\<lparr>db_Retries := db_Retries db2\<rparr>" by simp
    from arg_cong[OF this, of db_Cycles] same show ?thesis by simp
  qed (use db2 same in simp)
  with v t nr tv db1 db2 fresh show ?thesis by (simp add: CommitSchedulerCycle_def)
qed

section \<open>Properties\<close>

text \<open>The retry a failed slice asks for is accepted.\<close>

lemma built_retry_applied:
  assumes inv: "sched_inv db" and m: "m \<in> set (db_Tasks db)" and room: "retry_headroom (row_id m) db" and i: "row_id m \<noteq> []"
    and cls: "retryMutation delay (row_id m) cls at' db = Inr mu" "validRuntimeErrorClass cls"
    and at': "0 \<le> at'" "at' \<le> MaxSchedulerTimestampMS" "tk_UpdatedAtMS (md_Task m) < at'"
    and d: "db_Retries d = db_Retries db"
  shows "\<exists>d'. applySchedulerRetryMutation (row_id m) at' mu d = Inr d'"
proof -
  obtain found where fd: "schedulerRetryStateIn (row_id m) db = Inr found"
    "case found of None \<Rightarrow> rm_ExpectedRevision mu = 0 \<and> rm_FailureCount mu = 1
      | Some r \<Rightarrow> rm_ExpectedRevision mu = rt_Revision r \<and> rm_FailureCount mu = rt_FailureCount r + 1"
    "rm_ExpectedRevision mu < max_int64" "rm_FailureCount mu \<noteq> max_int64"
    "validateSchedulerRetryState (retryCandidate (row_id m) at' mu) = None"
    using retryMutation_Inr[OF cls(1) i room cls(2) at'(1,2)] by blast
  have "rt_UpdatedAtMS r < at'" if "found = Some r" for r
    using retry_time_of_row[OF inv m, of r] fd(1) at'(3) that by simp
  then have sh: "case found of None \<Rightarrow> rm_ExpectedRevision mu = 0 \<and> rm_FailureCount mu = 1
    | Some r \<Rightarrow> rm_ExpectedRevision mu = rt_Revision r \<and> rm_FailureCount mu = rt_FailureCount r + 1 \<and>
        rt_UpdatedAtMS r < at'" using fd(2) by (auto split: option.splits)
  have small: "rt_FailureCount r \<noteq> max_int64" if "found = Some r" for r
    using room fd(1) that by (auto simp: retry_headroom_def)
  have "retries_inv (db_Retries d)" "schedulerRetryStateIn (row_id m) d = Inr found"
    using sched_invD(2)[OF inv] d fd(1) by (simp_all add: schedulerRetryStateIn_def)
  from retry_applied[OF this sh fd(3-5) small] show ?thesis .
qed


definition ex_budget :: ScanBudget where
  "ex_budget = bp_BackgroundNormal DefaultBudgetPolicy"

definition ex_sel :: QueueSelection where
  "ex_sel = \<lparr>sel_Task = ex_task, sel_Reason = SchedulerSelectionLiveOnly, sel_LiveDepth = 1,
     sel_BackfillDepth = 0, sel_OldestLiveWaitMS = 1, sel_OldestBackfillWaitMS = 0\<rparr>"

text \<open>A slice that fails with an I/O error after two files.\<close>

definition ex_env :: cycle_env where
  "ex_env = \<lparr>ev_system = \<lparr>sy_LowPower = False, sy_CPUPressure = False, sy_MemoryPressure = False,
       sy_StorePressure = False\<rparr>, ev_cycleID = ''c9'', ev_nowSnapshot = 1001, ev_nowStart = 1001,
     ev_nowFinish = 1003, ev_nowCommit = 1003, ev_nowRebase = 1004,
     ev_execute = (\<lambda>_ _. Some (\<lparr>sr_FilesProcessed = 2, sr_BytesProcessed = 99, sr_Active = 1500000,
       sr_StopReason = SchedulerStopFileBudget\<rparr>, Some [SqliteIO])),
     ev_interrupt = None, ev_during = (\<lambda>d. d), ev_cancelled = False,
     ev_delay = (\<lambda>n. if n \<le> 5 then Some (1000000000, True) else Some (0, False))\<rparr>"

definition ex_result :: SliceResult where
  "ex_result = \<lparr>sr_FilesProcessed = 2, sr_BytesProcessed = 99, sr_Active = 1500000,
     sr_StopReason = SchedulerStopFileBudget\<rparr>"

definition ex_row :: schedulerTaskModel where
  "ex_row = (schedulerTaskModelFromDomain ex_task)\<lparr>md_Task := claimed 1001 ex_task\<rparr>"


section \<open>A whole cycle\<close>

lemma commitCycleWithReadback_Inr:
  assumes "commitCycleWithReadback now c db = Inr db'"
  shows "db' = db \<and> committedCycleExact (cm_Cycle c) db \<or>
         (\<exists>c'. CommitSchedulerCycle c' db = Inr db' \<and> cm_Cycle c' = cm_Cycle c)"
proof (cases "CommitSchedulerCycle c db")
  case (Inr d)
  with assms show ?thesis by (auto simp: commitCycleWithReadback_def)
next
  case (Inl e)
  show ?thesis
  proof (cases "committedCycleExact (cm_Cycle c) db")
    case True
    with Inl assms show ?thesis by (simp add: commitCycleWithReadback_def)
  next
    case False
    with Inl assms obtain x y where
      "CommitSchedulerCycle (c\<lparr>cm_AtMS := x, cm_QueueOrderMS := x, cm_Retry := y\<rparr>) db = Inr db'"
      by (auto simp: commitCycleWithReadback_def split: if_splits sum.splits)
    then show ?thesis
      by (intro disjI2 exI[of _ "c\<lparr>cm_AtMS := x, cm_QueueOrderMS := x, cm_Retry := y\<rparr>"]) simp
  qed
qed

lemma commit_readback_safe:
  assumes inv: "sched_inv db" and ok: "commitCycleWithReadback now c db = Inr db'"
  shows "sched_inv db' \<and> cm_Cycle c \<in> set (db_Cycles db')"
  using commitCycleWithReadback_Inr[OF ok]
proof (elim disjE conjE exE)
  assume "db' = db" "committedCycleExact (cm_Cycle c) db"
  then obtain x where x: "find (\<lambda>y. cy_CycleID y = cy_CycleID (cm_Cycle c)) (db_Cycles db) = Some x"
    "schedulerCycleFromModel x = Inr (cm_Cycle c)"
    by (auto simp: committedCycleExact_def SchedulerCycleOf_def split: if_splits option.splits)
  then have "x \<in> set (db_Cycles db)" "x = cm_Cycle c"
    by (metis find_Some_iff nth_mem) (use x in \<open>simp add: schedulerCycleFromModel_def split: if_splits\<close>)
  with inv \<open>db' = db\<close> show ?thesis by simp
next
  fix c' assume c': "CommitSchedulerCycle c' db = Inr db'" "cm_Cycle c' = cm_Cycle c"
  have "sched_inv db'" using scheduler.inv_step[OF inv, of "OpCommit c'"] c'(1) by simp
  moreover have "db_Cycles db' = cm_Cycle c' # db_Cycles db" using Commit_effect[OF inv c'(1)] by auto
  ultimately show ?thesis using c'(2) by simp
qed

definition cycle_ok :: "sched_db \<times> (service_error + SchedulerCycle \<times> int64 \<times> service_error option) \<Rightarrow> bool" where
  "cycle_ok x \<longleftrightarrow>
     sched_inv (fst x) \<and>
     (case snd x of Inl _ \<Rightarrow> True | Inr (cy, _, _) \<Rightarrow> cy \<in> set (db_Cycles (fst x)))"

lemma cycle_ok_Inl: "sched_inv db \<Longrightarrow> cycle_ok (db, Inl e)"
  by (simp add: cycle_ok_def)

lemma cycle_ok_case:
  "sched_inv db \<Longrightarrow> (\<And>v. x = Inr v \<Longrightarrow> cycle_ok (f v)) \<Longrightarrow>
   cycle_ok (case x of Inl e \<Rightarrow> (db, Inl (g e)) | Inr v \<Rightarrow> f v)"
  by (cases x) (simp_all add: cycle_ok_Inl)

lemma runClaimed_safe:
  assumes inv: "sched_inv (ev_during env db1)"
  shows "cycle_ok (runClaimed env s sel b st t db1)"
proof -
  have fin: "cycle_ok (case commitCycleWithReadback n c (ev_during env db1) of
      Inl e \<Rightarrow> (ev_during env db1, Inl e) | Inr db3 \<Rightarrow> (db3, Inr (cm_Cycle c, y, z)))" for n c y z
    using commit_readback_safe[OF inv]
    by (intro cycle_ok_case[where g = "\<lambda>e. e", OF inv]) (simp add: cycle_ok_def)
  show ?thesis
    unfolding runClaimed_def Let_def
    by (auto split: prod.split intro!: cycle_ok_case[OF inv] cycle_ok_case[where g = "\<lambda>e. e", OF inv] fin)
qed

lemma runCycle_ok:
  assumes "sched_inv db" and "\<And>d. sched_inv d \<Longrightarrow> sched_inv (ev_during env d)"
  shows "cycle_ok (runCycle sv env db)"
proof -
  have claim: "sched_inv db1" if "ClaimSchedulerTask i a db = Inr (t, db1)" for i a t db1
    using scheduler.inv_step[OF assms(1), of "OpClaim i a"] that by (simp add: on_ok_def)
  have run: "cycle_ok (case ClaimSchedulerTask i a db of Inl e \<Rightarrow> (db, Inl (claimError e))
      | Inr (t, db1) \<Rightarrow> runClaimed env s sel b st t db1)" for i a s sel b st
    by (rule cycle_ok_case[OF assms(1)]) (auto split: prod.split intro!: runClaimed_safe assms(2) dest: claim)
  show ?thesis
    unfolding runCycle_def
    by (auto split: prod.split intro!: cycle_ok_case[OF assms(1)] cycle_ok_case[where g = "\<lambda>e. e", OF assms(1)]
        run cycle_ok_Inl[OF assms(1)])
qed

text \<open>C17: A worker cycle keeps the tables valid whatever happens in it (a lost claim, an executor
  error or panic, a failed commit), and a cycle that is reported to the caller is durably recorded.\<close>

theorem worker_cycle_safe:
  assumes "sched_inv db" and "\<And>d. sched_inv d \<Longrightarrow> sched_inv (ev_during env d)"
  shows "sched_inv (fst (runCycle sv env db)) \<and>
         (case snd (runCycle sv env db) of
            Inl _ \<Rightarrow> True
          | Inr (cy, _, _) \<Rightarrow> cy \<in> set (db_Cycles (fst (runCycle sv env db))))"
  using runCycle_ok[OF assms] by (simp add: cycle_ok_def)

theorem worker_cycle_safe_witness:
  "sched_inv (fst (runCycle \<lparr>sv_budgetPolicy = DefaultBudgetPolicy, sv_maxLiveBurst = 3, sv_recoveryPageSize = 500\<rparr> ex_env ex_queued)) \<and>
   db_Cycles (fst (runCycle \<lparr>sv_budgetPolicy = DefaultBudgetPolicy, sv_maxLiveBurst = 3, sv_recoveryPageSize = 500\<rparr> ex_env ex_queued)) \<noteq> []"
proof
  show "sched_inv (fst (runCycle \<lparr>sv_budgetPolicy = DefaultBudgetPolicy, sv_maxLiveBurst = 3, sv_recoveryPageSize = 500\<rparr> ex_env ex_queued))"
    using worker_cycle_safe[OF ex_queued_inv, of ex_env] by (simp add: ex_env_def)
  show "db_Cycles (fst (runCycle \<lparr>sv_budgetPolicy = DefaultBudgetPolicy, sv_maxLiveBurst = 3, sv_recoveryPageSize = 500\<rparr> ex_env ex_queued)) \<noteq> []"
    by code_simp
qed

end
