(* ===== verification/Worker_Preflight.thy ===== *)
theory Worker_Preflight
  imports Worker_Commit
begin

text \<open>
  What a worker cycle does before it selects (\<open>src/internal/scheduler/worker.go\<close>): adopt the
  running and interrupted tasks a former owner left behind, and requeue one failed task whose retry
  is due. The executor's \<open>Recover\<close> and \<open>Retry\<close> are parameters; each returns a job (or
  an error) and the job table after it. The page loops carry fuel, one unit per page; the lemma
  \<open>recoverPages_ends\<close> shows that a fuel of one more than the number of recoverable tasks is
  enough for the loop to end by itself.
\<close>

record preflight_env =
  pe_now :: int64
  pe_recover :: "SchedulerTask \<Rightarrow> sched_db \<Rightarrow> (service_error + JobRun) \<times> (string \<rightharpoonup> JobRun)"
  pe_retry :: "SchedulerTask \<Rightarrow> sched_db \<Rightarrow> (service_error + JobRun) \<times> (string \<rightharpoonup> JobRun)"
  pe_cycleID :: "SchedulerTask \<Rightarrow> string"
  pe_delay :: "int \<Rightarrow> (int64 \<times> bool) option"

definition schedulerLifecyclePermits :: "SchedulerLifecycle \<Rightarrow> SchedulerTask \<Rightarrow> bool" where
  "schedulerLifecyclePermits l t =
     (if lc_HomeGeneration l \<noteq> tk_HomeGeneration t \<or> lc_SystemState l \<noteq> LifecycleSystemAwake \<or>
         lc_Transition l \<noteq> LifecycleTransitionSteady \<or> lc_SourceState l \<noteq> LifecycleSourceAvailable \<or>
         lc_UserPauseScope l = LifecyclePauseAll
      then False
      else tk_Lane t = SchedulerLaneLive \<or>
           tk_Lane t = SchedulerLaneBackfill \<and> lc_UserPauseScope l \<noteq> LifecyclePauseBackfill)"

section \<open>A target that already ended\<close>

definition terminalErrorClass :: "JobRun \<Rightarrow> RuntimeErrorClass option" where
  "terminalErrorClass target =
     (if jb_State target = JobSucceeded then None
      else Some (case jb_ErrorClass target of
                   Some e \<Rightarrow> e
                 | None \<Rightarrow> if jb_State target = JobCancelled then RuntimeErrorCanceled
                           else RuntimeErrorUnknown))"

definition terminalCommit ::
  "string \<Rightarrow> SchedulerTask \<Rightarrow> JobRun \<Rightarrow> SchedulerQueueSnapshot \<Rightarrow> int64 \<Rightarrow> int64 \<Rightarrow> int64 \<Rightarrow>
   SchedulerRetryMutation option \<Rightarrow> SchedulerCycleCommit" where
  "terminalCommit cycleID t target s startedAtMS commitAtMS nowMS retry =
     (let done = (jb_State target = JobSucceeded) in
      \<lparr>cm_TaskID = tk_TaskID t, cm_ExpectedState = SchedulerTaskRunning,
       cm_State = (if done then SchedulerTaskSucceeded else SchedulerTaskFailed),
       cm_QueueOrderMS = commitAtMS, cm_FilesDelta = 0, cm_BytesDelta = 0,
       cm_ErrorClass = terminalErrorClass target, cm_AtMS = commitAtMS,
       cm_Cycle =
         \<lparr>cy_CycleID = cycleID, cy_TaskID = tk_TaskID t, cy_Lane = tk_Lane t,
          cy_SelectionReason = (if tk_Lane t = SchedulerLaneLive then SchedulerSelectionLiveOnly
                                else SchedulerSelectionBackfillOnly),
          cy_StopReason = (if done then SchedulerStopCompleted else SchedulerStopDependencyError),
          cy_Outcome = (if done then SchedulerCycleCompleted else SchedulerCycleFailed),
          cy_BudgetFiles = 0, cy_BudgetBytes = 0, cy_BudgetActiveMS = 0, cy_ConsumedFiles = 0,
          cy_ConsumedBytes = 0, cy_ActiveMS = 0, cy_LiveDepth = qs_LiveDepth s,
          cy_BackfillDepth = qs_BackfillDepth s,
          cy_OldestLiveWaitMS = queueWaitMS (qs_LiveCandidate s) nowMS,
          cy_OldestBackfillWaitMS = queueWaitMS (qs_BackfillCandidate s) nowMS,
          cy_StartedAtMS = startedAtMS, cy_FinishedAtMS = commitAtMS\<rparr>,
       cm_Retry = retry\<rparr>)"

definition reconcileTerminalTarget ::
  "preflight_env \<Rightarrow> SchedulerTask \<Rightarrow> JobRun \<Rightarrow> sched_db \<Rightarrow>
   sched_db \<times> (service_error + SchedulerTask)" where
  "reconcileTerminalTarget env t target db =
     (case tk_LastStartedAtMS t of
        None \<Rightarrow> (db, Inl (StoreError ErrSchedulerTransition))
      | Some startedAtMS \<Rightarrow>
          if tk_State t \<noteq> SchedulerTaskRunning \<or> jb_JobID target \<noteq> tk_TargetID t
          then (db, Inl (StoreError ErrSchedulerTransition))
          else case SchedulerRunnableQueueSnapshot db of
            Inl e \<Rightarrow> (db, Inl (StoreError e))
          | Inr s \<Rightarrow>
              if pe_cycleID env t = [] then (db, Inl ErrInvalidService)
              else case afterMS (pe_now env) (max (tk_UpdatedAtMS t) (qs_MaxQueueOrderMS s))
                     MaxSchedulerTimestampMS of
                Inl e \<Rightarrow> (db, Inl e)
              | Inr at0 \<Rightarrow>
                 (let commitAtMS = (if jb_UpdatedAtMS target > at0 then jb_UpdatedAtMS target else at0);
                      nowMS = logicalQueueSnapshotMS (pe_now env) s;
                      commit = terminalCommit (pe_cycleID env t) t target s startedAtMS commitAtMS nowMS;
                      retry = (case terminalErrorClass target of
                                 None \<Rightarrow> Inr None
                               | Some cls \<Rightarrow>
                                   (case retryMutation (pe_delay env) (tk_TaskID t) cls commitAtMS db of
                                      Inl e \<Rightarrow> Inl e | Inr m \<Rightarrow> Inr (Some m)))
                  in case retry of
                       Inl e \<Rightarrow> (db, Inl e)
                     | Inr m \<Rightarrow>
                         (case commitCycleWithReadback (pe_now env) (commit m) db of
                            Inl e \<Rightarrow> (db, Inl e)
                          | Inr db' \<Rightarrow>
                              (case SchedulerTaskOf (tk_TaskID t) db' of
                                 Inl e \<Rightarrow> (db', Inl (StoreError e))
                               | Inr v \<Rightarrow> (db', Inr v)))))"

section \<open>Adopting orphaned tasks\<close>

text \<open>One task of a page: skipped (\<open>Inr None\<close>), recovered, or the error that ends the
  whole recovery.\<close>

definition recoverOne ::
  "preflight_env \<Rightarrow> SchedulerLifecycle \<Rightarrow> SchedulerTask \<Rightarrow> sched_db \<Rightarrow>
   sched_db \<times> (service_error + SchedulerTask option)" where
  "recoverOne env l t db =
     (if \<not> schedulerLifecyclePermits l t then (db, Inr None)
      else if \<not> executorPresent t then (db, Inl ErrExecutorMissing)
      else
        (let (r, jobs) = pe_recover env t db; db1 = db\<lparr>db_Jobs := jobs\<rparr> in
         case r of
           Inl e \<Rightarrow> (db1, Inl e)
         | Inr target \<Rightarrow>
             if jb_JobID target = [] then (db1, Inl ErrInvalidService)
             else if jb_State target = JobQueued then
               (case SchedulerQueueSnapshotOf db1 of
                  Inl e \<Rightarrow> (db1, Inl (StoreError e))
                | Inr s \<Rightarrow>
                   (case afterMS (pe_now env)
                          (max (tk_UpdatedAtMS t) (max (tk_QueueOrderMS t) (qs_MaxQueueOrderMS s)))
                          MaxSchedulerQueuedTimestampMS of
                      Inl e \<Rightarrow> (db1, Inl e)
                    | Inr atMS \<Rightarrow>
                       (case RecoverSchedulerTask (tk_TaskID t) (tk_TargetID t) (jb_JobID target) atMS atMS db1 of
                          Inl e \<Rightarrow> (db1, if e = ErrSchedulerPaused then Inr None else Inl (StoreError e))
                        | Inr (v, db2) \<Rightarrow> (db2, Inr (Some v)))))
             else if jb_State target \<in> {JobSucceeded, JobFailed, JobCancelled, JobInterrupted} then
               (case reconcileTerminalTarget env t target db1 of
                  (db2, Inl e) \<Rightarrow> (db2, Inl e)
                | (db2, Inr v) \<Rightarrow> (db2, Inr (Some v)))
             else (db1, Inl ErrInvalidService)))"

fun recoverPage ::
  "preflight_env \<Rightarrow> SchedulerLifecycle \<Rightarrow> SchedulerTask list \<Rightarrow> SchedulerTask list \<Rightarrow> sched_db \<Rightarrow>
   sched_db \<times> SchedulerTask list \<times> service_error option" where
  "recoverPage env l [] acc db = (db, acc, None)"
| "recoverPage env l (t # ts) acc db =
     (case recoverOne env l t db of
        (db', Inl e) \<Rightarrow> (db', acc, Some e)
      | (db', Inr None) \<Rightarrow> recoverPage env l ts acc db'
      | (db', Inr (Some v)) \<Rightarrow> recoverPage env l ts (acc @ [v]) db')"

fun recoverPages ::
  "nat \<Rightarrow> preflight_env \<Rightarrow> SchedulerLifecycle \<Rightarrow> int \<Rightarrow> (int64 \<times> string) option \<Rightarrow> SchedulerTask list \<Rightarrow>
   sched_db \<Rightarrow> (sched_db \<times> SchedulerTask list \<times> service_error option) option" where
  "recoverPages 0 env l pageSize cursor acc db = None"
| "recoverPages (Suc n) env l pageSize cursor acc db =
     (case ListRecoverableSchedulerTasks cursor pageSize db of
        Inl e \<Rightarrow> Some (db, acc, Some (StoreError e))
      | Inr (tasks, nxt) \<Rightarrow>
          if tasks = [] then Some (db, acc, None)
          else (case recoverPage env l tasks acc db of
                  (db', acc', Some e) \<Rightarrow> Some (db', acc', Some e)
                | (db', acc', None) \<Rightarrow>
                    (case nxt of
                       None \<Rightarrow> Some (db', acc', None)
                     | Some c \<Rightarrow> recoverPages n env l pageSize (Some c) acc' db')))"

definition recoverActiveTasks ::
  "nat \<Rightarrow> preflight_env \<Rightarrow> int \<Rightarrow> sched_db \<Rightarrow>
   (sched_db \<times> SchedulerTask list \<times> service_error option) option" where
  "recoverActiveTasks fuel env pageSize db =
     (case SchedulerLifecycleOf db of
        Inl e \<Rightarrow> Some (db, [], Some (StoreError e))
      | Inr l \<Rightarrow> recoverPages fuel env l pageSize None [] db)"

section \<open>Requeueing one due retry\<close>

text \<open>One due retry: \<open>None\<close> means the loop goes on to the next one.\<close>

definition resumeOne ::
  "preflight_env \<Rightarrow> SchedulerLifecycle \<Rightarrow> SchedulerRetryState \<Rightarrow> sched_db \<Rightarrow>
   sched_db \<times> (service_error + bool) option" where
  "resumeOne env l r db =
     (case SchedulerTaskOf (rt_TaskID r) db of
        Inl e \<Rightarrow> (db, Some (Inl (StoreError e)))
      | Inr t \<Rightarrow>
          if \<not> schedulerLifecyclePermits l t then (db, None)
          else if \<not> executorPresent t then (db, Some (Inl ErrExecutorMissing))
          else
            (let (res, jobs) = pe_retry env t db; db1 = db\<lparr>db_Jobs := jobs\<rparr> in
             case res of
               Inl e \<Rightarrow> (db1, Some (Inl e))
             | Inr target \<Rightarrow>
                 if jb_JobID target = [] \<or> jb_State target \<noteq> JobQueued
                 then (db1, Some (Inl ErrInvalidService))
                 else case SchedulerQueueSnapshotOf db1 of
                   Inl e \<Rightarrow> (db1, Some (Inl (StoreError e)))
                 | Inr s \<Rightarrow>
                    (case afterMS (pe_now env)
                           (max (max (tk_UpdatedAtMS t) (rt_UpdatedAtMS r))
                                (max (qs_MaxQueueOrderMS s) (jb_UpdatedAtMS target)))
                           MaxSchedulerQueuedTimestampMS of
                       Inl e \<Rightarrow> (db1, Some (Inl e))
                     | Inr atMS \<Rightarrow>
                        (case RequeueFailedSchedulerTask (tk_TaskID t) (tk_TargetID t) (jb_JobID target)
                                (rt_Revision r) atMS atMS db1 of
                           Inl e \<Rightarrow> (db1, Some (if e = ErrSchedulerPaused then Inr False
                                                 else Inl (StoreError e)))
                         | Inr (_, db2) \<Rightarrow> (db2, Some (Inr True))))))"

fun resumePage ::
  "preflight_env \<Rightarrow> SchedulerLifecycle \<Rightarrow> SchedulerRetryState list \<Rightarrow> sched_db \<Rightarrow>
   sched_db \<times> (service_error + bool) option" where
  "resumePage env l [] db = (db, None)"
| "resumePage env l (r # rs) db =
     (case resumeOne env l r db of
        (db', Some res) \<Rightarrow> (db', Some res)
      | (db', None) \<Rightarrow> resumePage env l rs db')"

fun resumePages ::
  "nat \<Rightarrow> preflight_env \<Rightarrow> SchedulerLifecycle \<Rightarrow> int \<Rightarrow> (int64 \<times> string) option \<Rightarrow> sched_db \<Rightarrow>
   (sched_db \<times> (service_error + bool)) option" where
  "resumePages 0 env l pageSize cursor db = None"
| "resumePages (Suc n) env l pageSize cursor db =
     (case ListDueSchedulerRetries (lc_HomeGeneration l) (pe_now env) cursor pageSize db of
        Inl e \<Rightarrow> Some (db, Inl (StoreError e))
      | Inr (states, nxt) \<Rightarrow>
          (case resumePage env l states db of
             (db', Some res) \<Rightarrow> Some (db', res)
           | (db', None) \<Rightarrow>
               (case nxt of
                  None \<Rightarrow> Some (db', Inr False)
                | Some c \<Rightarrow> resumePages n env l pageSize (Some c) db')))"

definition resumeDueRetry ::
  "nat \<Rightarrow> preflight_env \<Rightarrow> int \<Rightarrow> sched_db \<Rightarrow> (sched_db \<times> (service_error + bool)) option" where
  "resumeDueRetry fuel env pageSize db =
     (case SchedulerLifecycleOf db of
        Inl e \<Rightarrow> Some (db, Inl (StoreError e))
      | Inr l \<Rightarrow> resumePages fuel env l pageSize None db)"

section \<open>Lemmas: recovery only removes recoverable rows\<close>

definition recoverable :: "sched_db \<Rightarrow> schedulerTaskModel set" where
  "recoverable db =
     {m \<in> set (db_Tasks db). row_state m = SchedulerTaskRunning \<or> row_state m = SchedulerTaskInterrupted}"

lemma sched_inv_jobs: "sched_inv (db\<lparr>db_Jobs := j\<rparr>) = sched_inv db"
  by (simp add: sched_inv_def)

lemma recoverable_jobs: "recoverable (db\<lparr>db_Jobs := j\<rparr>) = recoverable db"
  by (simp add: recoverable_def)

lemma Recover_recoverable:
  assumes inv: "sched_inv db" and ok: "RecoverSchedulerTask i e target q a db = Inr (t', db')"
  shows "sched_inv db' \<and> recoverable db' \<subseteq> recoverable db"
proof -
  have inv': "sched_inv db'"
    using scheduler.inv_step[OF inv, of "OpRecover i e target q a"] ok by (simp add: on_ok_def)
  from ok have args: "\<not> (i = [] \<or> e = [] \<or> target = [])"
    by (simp add: RecoverSchedulerTask_def split: if_splits)
  with ok obtain t where t: "schedulerTaskByID i db = Inr (Some t)"
    by (simp add: RecoverSchedulerTask_def split: sum.splits option.splits)
  show ?thesis
  proof (cases "tk_State t = SchedulerTaskQueued \<and> tk_TargetID t = target")
    case True
    with ok args t have "db' = db" by (simp add: RecoverSchedulerTask_def)
    with inv show ?thesis by simp
  next
    case False
    with ok args t have rb: "rebindTask target q a t db = Inr (t', db')"
      by (simp add: RecoverSchedulerTask_def split: if_splits)
    note r = rebindTask_ok[OF rb]
    have cas: "updateSchedulerTaskCAS t' (tk_State t) db = Inr db'" using r by blast
    have same: "same_columns t t'" using r by (simp add: same_columns_def rebound_def)
    obtain pre m suf where m: "db_Tasks db = pre @ m # suf"
      "db' = db\<lparr>db_Tasks := pre @ m\<lparr>md_Task := t'\<rparr> # suf\<rparr>"
      by (rule updateSchedulerTaskCAS_ok[OF sched_invD(1)[OF inv] t same cas]) blast
    have "tk_State t' = SchedulerTaskQueued" using r by (simp add: rebound_def)
    with m inv' show ?thesis by (auto simp: recoverable_def)
  qed
qed

lemma Commit_recoverable:
  assumes inv: "sched_inv db" and ok: "CommitSchedulerCycle c db = Inr db'"
    and st: "cm_State c \<noteq> SchedulerTaskInterrupted"
  shows "sched_inv db' \<and> recoverable db' \<subseteq> recoverable db"
proof -
  have inv': "sched_inv db'" using scheduler.inv_step[OF inv, of "OpCommit c"] ok by simp
  obtain m where m: "set (db_Tasks db') = insert (m\<lparr>md_Task := committed c (md_Task m)\<rparr>) (set (db_Tasks db) - {m})"
    "running_rows (db_Tasks db') = []"
    using Commit_effect[OF inv ok] by blast
  have "tk_State (committed c (md_Task m)) \<noteq> SchedulerTaskInterrupted" using st by (simp add: committed_def)
  with m inv' show ?thesis by (auto simp: recoverable_def filter_empty_conv)
qed

lemma readback_recoverable:
  assumes inv: "sched_inv db" and ok: "commitCycleWithReadback n c db = Inr db'"
    and st: "cm_State c \<noteq> SchedulerTaskInterrupted"
  shows "sched_inv db' \<and> recoverable db' \<subseteq> recoverable db"
proof (cases "CommitSchedulerCycle c db")
  case (Inr d)
  with ok Commit_recoverable[OF inv Inr st] show ?thesis by (simp add: commitCycleWithReadback_def)
next
  case (Inl e)
  show ?thesis
  proof (cases "committedCycleExact (cm_Cycle c) db")
    case True
    with Inl ok inv show ?thesis by (simp add: commitCycleWithReadback_def)
  next
    case False
    with Inl ok obtain x y where
      c': "CommitSchedulerCycle (c\<lparr>cm_AtMS := x, cm_QueueOrderMS := x, cm_Retry := y\<rparr>) db = Inr db'"
      by (auto simp: commitCycleWithReadback_def split: if_splits sum.splits)
    then show ?thesis using Commit_recoverable[OF inv c'] st by simp
  qed
qed

definition shrinks :: "sched_db \<Rightarrow> sched_db \<Rightarrow> bool" where
  "shrinks db db' \<longleftrightarrow> sched_inv db' \<and> recoverable db' \<subseteq> recoverable db"

lemma shrinks_refl: "sched_inv db \<Longrightarrow> shrinks db db"
  by (simp add: shrinks_def)

lemma shrinks_trans: "shrinks a b \<Longrightarrow> shrinks b c \<Longrightarrow> shrinks a c"
  by (auto simp: shrinks_def)

lemma reconcileTerminalTarget_shrinks:
  assumes "sched_inv db"
  shows "shrinks db (fst (reconcileTerminalTarget env t target db))"
proof -
  have st: "cm_State (terminalCommit i t target s st a n r) \<noteq> SchedulerTaskInterrupted" for i s st a n r
    by (simp add: terminalCommit_def Let_def)
  have commit: "shrinks db db'" if "commitCycleWithReadback k (terminalCommit i t target s st a n r) db = Inr db'"
    for k i s st a n r db'
    using readback_recoverable[OF assms that st] by (simp add: shrinks_def)
  show ?thesis
    unfolding reconcileTerminalTarget_def Let_def
    by (auto split: option.split sum.split intro: commit shrinks_refl[OF assms])
qed

lemma recoverOne_shrinks:
  assumes "sched_inv db"
  shows "shrinks db (fst (recoverOne env l t db))"
proof -
  obtain r jobs where rj: "pe_recover env t db = (r, jobs)" by fastforce
  let ?db1 = "db\<lparr>db_Jobs := jobs\<rparr>"
  have inv1: "sched_inv ?db1" using assms by (simp add: sched_inv_jobs)
  have s1: "shrinks db ?db1" using inv1 by (simp add: shrinks_def recoverable_jobs)
  have rec: "shrinks db d" if "RecoverSchedulerTask i e g q a ?db1 = Inr (v, d)" for i e g q a v d
    using Recover_recoverable[OF inv1 that] by (simp add: shrinks_def recoverable_jobs)
  have fin: "shrinks db d" if "reconcileTerminalTarget env t target ?db1 = (d, x)" for target d x
    using reconcileTerminalTarget_shrinks[OF inv1, of env t target] that
    by (simp add: shrinks_def recoverable_jobs)
  show ?thesis
    unfolding recoverOne_def Let_def
    by (auto simp: rj shrinks_refl[OF assms] s1 split: sum.split prod.split intro: rec fin)
qed

lemma recoverPage_shrinks: "sched_inv db \<Longrightarrow> shrinks db (fst (recoverPage env l ts acc db))"
proof (induction ts arbitrary: acc db)
  case (Cons t ts)
  obtain db' x where x: "recoverOne env l t db = (db', x)" by fastforce
  have s: "shrinks db db'" using recoverOne_shrinks[OF Cons.prems, of env l t] x by simp
  then have "sched_inv db'" by (simp add: shrinks_def)
  from Cons.IH[OF this] s x show ?case
    by (auto split: sum.split option.split intro: shrinks_trans)
qed (simp add: shrinks_refl)

section \<open>Lemmas: the page loops end\<close>

definition ahead :: "(int64 \<times> string) option \<Rightarrow> sched_db \<Rightarrow> schedulerTaskModel set" where
  "ahead cursor db =
     {m \<in> recoverable db. case cursor of None \<Rightarrow> True | Some c \<Rightarrow> c < taskQueueKey m}"

lemma finite_ahead: "finite (ahead cursor db)"
  by (simp add: ahead_def recoverable_def)

lemma tasksFromModels_rows:
  "tasksFromModels ms = Inr ts \<Longrightarrow> ts = map md_Task ms"
  by (induction ms arbitrary: ts) (auto dest: schedulerTaskFromModel_Inr split: sum.splits)

text \<open>A page that is not empty ends at a row that was ahead of the cursor.\<close>

lemma ListRecoverable_page:
  assumes "ListRecoverableSchedulerTasks cursor n db = Inr (ts, nxt)" and "ts \<noteq> []"
  shows "\<exists>m \<in> ahead cursor db. nxt = Some (taskQueueKey m)"
proof -
  let ?rows = "filter (\<lambda>m. (row_state m = SchedulerTaskRunning \<or> row_state m = SchedulerTaskInterrupted) \<and>
      (case cursor of None \<Rightarrow> True | Some c \<Rightarrow> c < taskQueueKey m)) (db_Tasks db)"
  from assms(1) obtain k where k: "tasksFromModels (take (nat k) (sort_by taskQueueLess ?rows)) = Inr ts"
    and nxt: "nxt = (if ts = [] then None else Some (tk_QueueOrderMS (last ts), tk_TaskID (last ts)))"
    by (auto simp: ListRecoverableSchedulerTasks_def Let_def split: sum.splits if_splits)
  let ?page = "take (nat k) (sort_by taskQueueLess ?rows)"
  have ts: "ts = map md_Task ?page" using tasksFromModels_rows[OF k] .
  with assms(2) have ne: "?page \<noteq> []" by auto
  then have "last ?page \<in> set ?page" by (rule last_in_set)
  then have "last ?page \<in> set (sort_by taskQueueLess ?rows)" by (rule in_set_takeD)
  then have "last ?page \<in> set ?rows" by simp
  then have mem: "last ?page \<in> ahead cursor db" by (simp add: ahead_def recoverable_def)
  have "last ts = md_Task (last ?page)" unfolding ts using ne by (rule last_map)
  then have "nxt = Some (taskQueueKey (last ?page))" using nxt assms(2) by (simp add: taskQueueKey_def)
  with mem show ?thesis by blast
qed

lemma recoverPages_ends:
  assumes "sched_inv db" and "card (ahead cursor db) < fuel"
  shows "\<exists>db' acc' err. recoverPages fuel env l n cursor acc db = Some (db', acc', err) \<and> shrinks db db'"
  using assms
proof (induction fuel arbitrary: cursor acc db)
  case (Suc fuel)
  note refl = shrinks_refl[OF Suc.prems(1)]
  show ?case
  proof (cases "ListRecoverableSchedulerTasks cursor n db")
    case (Inl e)
    with refl show ?thesis by simp
  next
    case (Inr page)
    obtain ts nxt where page: "page = (ts, nxt)" by fastforce
    show ?thesis
    proof (cases "ts = []")
      case True
      with Inr page refl show ?thesis by simp
    next
      case False
      obtain m where m: "m \<in> ahead cursor db" "nxt = Some (taskQueueKey m)"
        using ListRecoverable_page[OF Inr[unfolded page] False] by blast
      obtain db' acc' err where rp: "recoverPage env l ts acc db = (db', acc', err)" by (metis prod_cases3)
      have s: "shrinks db db'" using recoverPage_shrinks[OF Suc.prems(1), of env l ts acc] rp by simp
      show ?thesis
      proof (cases err)
        case (Some e)
        with Inr page False rp s show ?thesis by simp
      next
        case None
        have "ahead (Some (taskQueueKey m)) db' \<subset> ahead cursor db"
          using s m(1) by (auto simp: ahead_def shrinks_def split: option.splits)
        then have "card (ahead (Some (taskQueueKey m)) db') < card (ahead cursor db)"
          by (rule psubset_card_mono[OF finite_ahead])
        then have c: "card (ahead (Some (taskQueueKey m)) db') < fuel" using Suc.prems(2) by linarith
        have "sched_inv db'" using s by (simp add: shrinks_def)
        from Suc.IH[OF this c, of acc'] obtain db2 acc2 err2 where
          "recoverPages fuel env l n (Some (taskQueueKey m)) acc' db' = Some (db2, acc2, err2)" "shrinks db' db2"
          by blast
        with Inr page False rp None m(2) s show ?thesis by (auto intro: shrinks_trans)
      qed
    qed
  qed
qed simp

lemma ahead_card_le: "card (ahead cursor db) \<le> length (db_Tasks db)"
proof -
  have "card (ahead cursor db) \<le> card (set (db_Tasks db))"
    by (rule card_mono) (auto simp: ahead_def recoverable_def)
  then show ?thesis using card_length[of "db_Tasks db"] by linarith
qed

lemma resumeOne_ok:
  assumes "sched_inv db" and "resumeOne env l r db = (db', x)"
  shows "sched_inv db' \<and> (x = None \<longrightarrow> db' = db)"
proof -
  have rq: "sched_inv d" if "RequeueFailedSchedulerTask i e g n q a (db\<lparr>db_Jobs := j\<rparr>) = Inr (v, d)" for i e g n q a j v d
    using scheduler.inv_step[of "db\<lparr>db_Jobs := j\<rparr>" "OpRequeue i e g n q a"] that assms(1)
    by (simp add: on_ok_def sched_inv_jobs)
  show ?thesis
    using assms
    by (auto simp: resumeOne_def Let_def sched_inv_jobs split: sum.splits if_splits prod.splits dest: rq)
qed

lemma resumePage_ok:
  "sched_inv db \<Longrightarrow> resumePage env l rs db = (db', x) \<Longrightarrow> sched_inv db' \<and> (x = None \<longrightarrow> db' = db)"
proof (induction rs arbitrary: db)
  case (Cons r rs)
  obtain d y where y: "resumeOne env l r db = (d, y)" by fastforce
  note o = resumeOne_ok[OF Cons.prems(1) y]
  show ?case
  proof (cases y)
    case None
    with Cons.prems y o Cons.IH[of d] show ?thesis by simp
  next
    case (Some z)
    with Cons.prems y o show ?thesis by simp
  qed
qed simp

definition due_ahead :: "int64 \<Rightarrow> int64 \<Rightarrow> (int64 \<times> string) option \<Rightarrow> sched_db \<Rightarrow> SchedulerRetryState set" where
  "due_ahead gen now cursor db =
     {r \<in> set (db_Retries db). retryIsDue db gen now r \<and>
        (case cursor of None \<Rightarrow> True | Some c \<Rightarrow> c < retryDueKey r)}"

lemma ListDue_page:
  assumes "ListDueSchedulerRetries gen now cursor n db = Inr (rs, nxt)" and "nxt = Some c"
  shows "\<exists>r \<in> due_ahead gen now cursor db. c = retryDueKey r"
proof -
  let ?rows = "filter (\<lambda>r. case cursor of None \<Rightarrow> True | Some c \<Rightarrow> c < retryDueKey r)
      (filter (retryIsDue db gen now) (db_Retries db))"
  from assms obtain k where k: "rs = take (nat k) (sort_by retryDueLess ?rows)" "rs \<noteq> []" "c = retryDueKey (last rs)"
    by (auto simp: ListDueSchedulerRetries_def Let_def split: sum.splits if_splits option.splits)
  from k(2) have "last rs \<in> set rs" by (rule last_in_set)
  then have "last rs \<in> set (sort_by retryDueLess ?rows)" unfolding k(1) by (rule in_set_takeD)
  then have "last rs \<in> due_ahead gen now cursor db" by (simp add: due_ahead_def)
  with k(3) show ?thesis by blast
qed

lemma resumePages_ends:
  assumes "sched_inv db" and "card (due_ahead (lc_HomeGeneration l) (pe_now env) cursor db) < fuel"
  shows "\<exists>db' res. resumePages fuel env l n cursor db = Some (db', res) \<and> sched_inv db'"
  using assms
proof (induction fuel arbitrary: cursor db)
  case (Suc fuel)
  show ?case
  proof (cases "ListDueSchedulerRetries (lc_HomeGeneration l) (pe_now env) cursor n db")
    case (Inl e)
    with Suc.prems show ?thesis by simp
  next
    case (Inr page)
    obtain rs nxt where page: "page = (rs, nxt)" by fastforce
    obtain d x where rp: "resumePage env l rs db = (d, x)" by fastforce
    note o = resumePage_ok[OF Suc.prems(1) rp]
    show ?thesis
    proof (cases "x = None \<and> nxt \<noteq> None")
      case False
      with Inr page rp o show ?thesis by (cases x; cases nxt) auto
    next
      case True
      then obtain c where c: "nxt = Some c" "x = None" "d = db" using o by blast
      obtain r where r: "r \<in> due_ahead (lc_HomeGeneration l) (pe_now env) cursor db" "c = retryDueKey r"
        using ListDue_page[OF Inr[unfolded page] c(1)] by blast
      have fin: "finite (due_ahead (lc_HomeGeneration l) (pe_now env) cursor db)" by (simp add: due_ahead_def)
      have "due_ahead (lc_HomeGeneration l) (pe_now env) (Some c) db \<subset> due_ahead (lc_HomeGeneration l) (pe_now env) cursor db"
        using r by (auto simp: due_ahead_def split: option.splits)
      from psubset_card_mono[OF fin this] Suc.prems(2)
      have "card (due_ahead (lc_HomeGeneration l) (pe_now env) (Some c) db) < fuel" by linarith
      from Suc.IH[OF Suc.prems(1) this] Inr page rp c show ?thesis by simp
    qed
  qed
qed simp

section \<open>Properties\<close>

text \<open>C16: The preflight of a cycle always ends, on any reachable tables and for any behaviour of the
  executor: the recovery loop stops after at most one page per stored task, keeps the tables valid
  and only takes tasks out of the running and interrupted states; the retry loop stops after at most
  one page per retry fact and keeps the tables valid.\<close>

theorem preflight_terminates:
  assumes "sched_inv db"
  shows "(\<exists>db' acc err. recoverActiveTasks (Suc (length (db_Tasks db))) env n db = Some (db', acc, err) \<and>
            sched_inv db' \<and> recoverable db' \<subseteq> recoverable db) \<and>
         (\<exists>db' res. resumeDueRetry (Suc (length (db_Retries db))) env n db = Some (db', res) \<and> sched_inv db')"
proof
  show "\<exists>db' acc err. recoverActiveTasks (Suc (length (db_Tasks db))) env n db = Some (db', acc, err) \<and>
      sched_inv db' \<and> recoverable db' \<subseteq> recoverable db"
  proof (cases "SchedulerLifecycleOf db")
    case (Inl e)
    with assms show ?thesis by (simp add: recoverActiveTasks_def)
  next
    case (Inr l)
    have "card (ahead None db) < Suc (length (db_Tasks db))" using ahead_card_le[of None db] by simp
    from recoverPages_ends[OF assms this, of env l n "[]"] Inr show ?thesis
      by (auto simp: recoverActiveTasks_def shrinks_def)
  qed
  show "\<exists>db' res. resumeDueRetry (Suc (length (db_Retries db))) env n db = Some (db', res) \<and> sched_inv db'"
  proof (cases "SchedulerLifecycleOf db")
    case (Inl e)
    with assms show ?thesis by (simp add: resumeDueRetry_def)
  next
    case (Inr l)
    have "card (due_ahead (lc_HomeGeneration l) (pe_now env) None db) \<le> card (set (db_Retries db))"
      by (rule card_mono) (auto simp: due_ahead_def)
    then have "card (due_ahead (lc_HomeGeneration l) (pe_now env) None db) < Suc (length (db_Retries db))"
      using card_length[of "db_Retries db"] by linarith
    from resumePages_ends[OF assms this, of n] Inr show ?thesis by (auto simp: resumeDueRetry_def)
  qed
qed

definition ex_preflight :: preflight_env where
  "ex_preflight = \<lparr>pe_now = 3000,
     pe_recover = (\<lambda>t db. (Inr (ex_job\<lparr>jb_JobID := ''j3''\<rparr>), [''j3'' \<mapsto> ex_job\<lparr>jb_JobID := ''j3''\<rparr>])),
     pe_retry = (\<lambda>t db. (Inr (ex_job\<lparr>jb_JobID := ''j3''\<rparr>), [''j3'' \<mapsto> ex_job\<lparr>jb_JobID := ''j3''\<rparr>])),
     pe_cycleID = (\<lambda>_. ''c7''), pe_delay = (\<lambda>_. Some (1000000000, True))\<rparr>"

theorem preflight_terminates_witness:
  "\<exists>db' acc err. recoverActiveTasks 2 ex_preflight 500 ex_running = Some (db', acc, err) \<and>
     recoverable db' \<subseteq> recoverable ex_running \<and> length acc = 1 \<and> err = None"
proof -
  have "length (db_Tasks ex_running) = 1" by code_simp
  then obtain db' acc err where r: "recoverActiveTasks 2 ex_preflight 500 ex_running = Some (db', acc, err)"
    "recoverable db' \<subseteq> recoverable ex_running"
    using preflight_terminates[OF ex_running_inv, of ex_preflight 500] by (auto simp: numeral_2_eq_2)
  have "(case recoverActiveTasks 2 ex_preflight 500 ex_running of None \<Rightarrow> False
         | Some (_, acc, err) \<Rightarrow> length acc = 1 \<and> err = None)" by code_simp
  with r show ?thesis by auto
qed

end
