(* ===== verification/Lifecycle_Coordinator.thy ===== *)
theory Lifecycle_Coordinator
  imports Sched_Machine
begin

text \<open>
  The lifecycle coordinator (\<open>src/internal/lifecycle/coordinator.go\<close>). One event loop
  executes the commands one after another, so a command is a function on the world: the tables, a
  clock position, and the record of the \<open>Drain\<close> calls with the lifecycle row that was stored
  when each was made. The scheduler control and the reconciler are injected interfaces and are the
  fields of \<open>coord_env\<close>. A result is the returned state and the error, if any, as in the code
  (both are returned together).
\<close>

datatype coord_error =
  ErrInvalidCoordinator | ErrGenerationChanged | ErrSourceUnavailable | DrainFailed
| ReconcileFailed | RecoverFailed | CoordStore store_error

datatype ReconcileReason =
  ReconcileUserResume | ReconcileSystemWake | ReconcileSourceChange | ReconcileStartup

record world =
  wd_db :: sched_db
  wd_tick :: nat
  wd_drains :: "(LifecyclePauseScope \<times> SchedulerLifecycle option) list"

record coord_env =
  ce_clock :: "nat \<Rightarrow> int64"
  ce_drain :: "LifecyclePauseScope \<Rightarrow> nat \<Rightarrow> bool"
  ce_reconcile :: "SchedulerLifecycle \<Rightarrow> ReconcileReason \<Rightarrow> (int64 \<times> LifecycleSourceState) option"
  ce_recoverTasks :: "sched_db \<Rightarrow> bool"

type_synonym co_result = "world \<times> SchedulerLifecycle \<times> coord_error option"

datatype command =
  CmdInitialize string int64
| CmdPause string LifecyclePauseScope
| CmdResume string
| CmdSleep string
| CmdWake string
| CmdSourceChanged string bool
| CmdRecover string
| CmdHomeChanged string int64

section \<open>Events\<close>

definition validEventID :: "string \<Rightarrow> bool" where
  "validEventID v \<longleftrightarrow>
     v \<noteq> [] \<and> length v \<le> 200 \<and> CHR 0x0D \<notin> set v \<and> CHR 0x0A \<notin> set v"

definition eventApplied :: "string \<Rightarrow> string \<Rightarrow> bool" where
  "eventApplied lastEventID eventID \<longleftrightarrow> lastEventID = eventID \<or> prefix (eventID @ '':'') lastEventID"

definition eventTerminal :: "string \<Rightarrow> string \<Rightarrow> bool" where
  "eventTerminal lastEventID eventID =
     (if lastEventID = eventID then True
      else if \<not> prefix (eventID @ '':'') lastEventID then False
      else (let suffix = drop (length eventID + 1) lastEventID
            in suffix = ''complete'' \<or> suffix = ''blocked'' \<or> suffix = ''deferred''))"

section \<open>Writes and calls\<close>

definition updateLC ::
  "coord_env \<Rightarrow> SchedulerLifecycle \<Rightarrow> string \<Rightarrow> (SchedulerLifecycle \<Rightarrow> SchedulerLifecycle) \<Rightarrow> world \<Rightarrow>
   co_result" where
  "updateLC env current eventID mutate w =
     (if lc_Revision current = max_int64 then (w, current, Some ErrInvalidCoordinator)
      else
        (let (updatedAtMS, ok) = After (ce_clock env (wd_tick w)) (lc_UpdatedAtMS current) MaxTimestampMS;
             w1 = w\<lparr>wd_tick := wd_tick w + 1\<rparr>;
             nxt = (mutate current)\<lparr>lc_LastEventID := eventID, lc_Revision := lc_Revision current + 1,
                                    lc_UpdatedAtMS := updatedAtMS\<rparr>
         in if \<not> ok then (w1, current, Some ErrInvalidCoordinator)
            else case CompareAndSwapSchedulerLifecycle (lc_Revision current) nxt (wd_db w1) of
              Inl e \<Rightarrow> (w1, current, Some (CoordStore e))
            | Inr (stored, db') \<Rightarrow> (w1\<lparr>wd_db := db'\<rparr>, stored, None)))"

definition drainLC :: "coord_env \<Rightarrow> LifecyclePauseScope \<Rightarrow> world \<Rightarrow> world \<times> bool" where
  "drainLC env scope w =
     (w\<lparr>wd_drains := (scope, db_Lifecycle (wd_db w)) # wd_drains w\<rparr>,
      ce_drain env scope (length (wd_drains w)))"

section \<open>Command handlers\<close>

definition reconcileIntent :: "ReconcileReason \<Rightarrow> bool \<Rightarrow> SchedulerLifecycle \<Rightarrow> SchedulerLifecycle" where
  "reconcileIntent reason wake n =
     (let n1 = (if wake then n\<lparr>lc_SystemState := LifecycleSystemAwake\<rparr> else n);
          n2 = (if reason = ReconcileUserResume then n1\<lparr>lc_UserPauseScope := LifecyclePauseNone\<rparr> else n1)
      in n2\<lparr>lc_SourceState := LifecycleSourceUnknown, lc_Transition := LifecycleTransitionReconciling\<rparr>)"

definition reconcileError :: "coord_env \<Rightarrow> SchedulerLifecycle \<Rightarrow> ReconcileReason \<Rightarrow> coord_error option" where
  "reconcileError env intent reason =
     (case ce_reconcile env intent reason of
        None \<Rightarrow> Some ReconcileFailed
      | Some (generation, source) \<Rightarrow>
          if generation \<noteq> lc_HomeGeneration intent then Some ErrGenerationChanged
          else if source \<noteq> LifecycleSourceAvailable then Some ErrSourceUnavailable
          else None)"

definition reconcileLC ::
  "coord_env \<Rightarrow> SchedulerLifecycle \<Rightarrow> string \<Rightarrow> ReconcileReason \<Rightarrow> bool \<Rightarrow> world \<Rightarrow> co_result" where
  "reconcileLC env current eventID reason wake w =
     (if eventTerminal (lc_LastEventID current) eventID \<and>
         (lc_Transition current = LifecycleTransitionBlocked \<or>
          lc_SourceState current = LifecycleSourceUnavailable)
      then (w, current, Some ErrSourceUnavailable)
      else if eventApplied (lc_LastEventID current) eventID \<and>
              lc_Transition current = LifecycleTransitionSteady \<and>
              lc_SourceState current = LifecycleSourceAvailable \<and>
              (\<not> wake \<or> lc_SystemState current = LifecycleSystemAwake) \<and>
              (reason \<noteq> ReconcileUserResume \<or> lc_UserPauseScope current = LifecyclePauseNone)
      then (w, current, None)
      else case updateLC env current (eventID @ '':intent'') (reconcileIntent reason wake) w of
        (w1, _, Some e) \<Rightarrow> (w1, current, Some e)
      | (w1, intent, None) \<Rightarrow>
          case reconcileError env intent reason of
            Some e \<Rightarrow>
              (let (w2, blocked, _) = updateLC env intent (eventID @ '':blocked'')
                     (\<lambda>n. n\<lparr>lc_SourceState := LifecycleSourceUnavailable,
                           lc_Transition := LifecycleTransitionBlocked\<rparr>) w1
               in (w2, blocked, Some e))
          | None \<Rightarrow>
              updateLC env intent (eventID @ '':complete'')
                (\<lambda>n. n\<lparr>lc_SourceState := LifecycleSourceAvailable,
                      lc_Transition := LifecycleTransitionSteady\<rparr>) w1)"

definition pauseLC ::
  "coord_env \<Rightarrow> SchedulerLifecycle \<Rightarrow> string \<Rightarrow> LifecyclePauseScope \<Rightarrow> world \<Rightarrow> co_result" where
  "pauseLC env current eventID scope w =
     (if scope \<noteq> LifecyclePauseBackfill \<and> scope \<noteq> LifecyclePauseAll
      then (w, current, Some ErrInvalidCoordinator)
      else if lc_UserPauseScope current = scope \<and> lc_Transition current = LifecycleTransitionSteady \<and>
              eventApplied (lc_LastEventID current) eventID
      then (w, current, None)
      else
        (let transition = (if scope = LifecyclePauseAll then LifecycleTransitionDraining
                           else LifecycleTransitionSteady)
         in case updateLC env current (eventID @ '':intent'')
                   (\<lambda>n. n\<lparr>lc_UserPauseScope := scope, lc_Transition := transition\<rparr>) w of
              (w1, _, Some e) \<Rightarrow> (w1, current, Some e)
            | (w1, intent, None) \<Rightarrow>
                (let (w2, drained) = drainLC env scope w1
                 in if \<not> drained then (w2, intent, Some DrainFailed)
                    else if transition = LifecycleTransitionSteady then (w2, intent, None)
                    else updateLC env intent (eventID @ '':complete'')
                           (\<lambda>n. n\<lparr>lc_Transition := LifecycleTransitionSteady\<rparr>) w2)))"

definition resumeLC :: "coord_env \<Rightarrow> SchedulerLifecycle \<Rightarrow> string \<Rightarrow> world \<Rightarrow> co_result" where
  "resumeLC env current eventID w =
     (if lc_UserPauseScope current = LifecyclePauseNone \<and>
         lc_SystemState current = LifecycleSystemAwake \<and>
         lc_Transition current = LifecycleTransitionSteady \<and>
         lc_SourceState current = LifecycleSourceAvailable \<and>
         eventApplied (lc_LastEventID current) eventID
      then (w, current, None)
      else if lc_SystemState current = LifecycleSystemSleeping
      then updateLC env current (eventID @ '':complete'')
             (\<lambda>n. n\<lparr>lc_UserPauseScope := LifecyclePauseNone,
                   lc_Transition := LifecycleTransitionSteady\<rparr>) w
      else reconcileLC env current eventID ReconcileUserResume False w)"

definition sleepLC :: "coord_env \<Rightarrow> SchedulerLifecycle \<Rightarrow> string \<Rightarrow> world \<Rightarrow> co_result" where
  "sleepLC env current eventID w =
     (if lc_SystemState current = LifecycleSystemSleeping \<and>
         lc_Transition current = LifecycleTransitionSteady \<and>
         eventApplied (lc_LastEventID current) eventID
      then (w, current, None)
      else case updateLC env current (eventID @ '':intent'')
             (\<lambda>n. n\<lparr>lc_SystemState := LifecycleSystemSleeping,
                   lc_Transition := LifecycleTransitionDraining\<rparr>) w of
        (w1, _, Some e) \<Rightarrow> (w1, current, Some e)
      | (w1, intent, None) \<Rightarrow>
          (let (w2, drained) = drainLC env LifecyclePauseAll w1
           in if \<not> drained then (w2, intent, Some DrainFailed)
              else updateLC env intent (eventID @ '':complete'')
                     (\<lambda>n. n\<lparr>lc_Transition := LifecycleTransitionSteady\<rparr>) w2))"

definition sourceChangedLC ::
  "coord_env \<Rightarrow> SchedulerLifecycle \<Rightarrow> string \<Rightarrow> bool \<Rightarrow> world \<Rightarrow> co_result" where
  "sourceChangedLC env current eventID available w =
     (if available then
        (if lc_SystemState current = LifecycleSystemSleeping then
           (if eventTerminal (lc_LastEventID current) eventID then (w, current, None)
            else updateLC env current (eventID @ '':deferred'')
                   (\<lambda>n. n\<lparr>lc_SourceState := LifecycleSourceUnknown\<rparr>) w)
         else reconcileLC env current eventID ReconcileSourceChange False w)
      else if lc_SourceState current = LifecycleSourceUnavailable \<and>
              lc_Transition current = LifecycleTransitionBlocked \<and>
              eventTerminal (lc_LastEventID current) eventID
      then (w, current, None)
      else case updateLC env current (eventID @ '':blocked'')
             (\<lambda>n. n\<lparr>lc_SourceState := LifecycleSourceUnavailable,
                   lc_Transition := LifecycleTransitionBlocked\<rparr>) w of
        (w1, _, Some e) \<Rightarrow> (w1, current, Some e)
      | (w1, blocked, None) \<Rightarrow>
          (let (w2, drained) = drainLC env LifecyclePauseAll w1
           in (w2, blocked, if drained then None else Some DrainFailed)))"

definition homeChangedLC ::
  "coord_env \<Rightarrow> SchedulerLifecycle \<Rightarrow> string \<Rightarrow> int64 \<Rightarrow> world \<Rightarrow> co_result" where
  "homeChangedLC env current eventID generation w =
     (if generation < 0 then (w, current, Some ErrInvalidCoordinator)
      else if lc_HomeGeneration current = generation then
        (if lc_SystemState current = LifecycleSystemSleeping \<and>
            lc_Transition current = LifecycleTransitionSteady then (w, current, None)
         else if lc_Transition current = LifecycleTransitionSteady \<and>
                 lc_SourceState current = LifecycleSourceAvailable then (w, current, None)
         else reconcileLC env current (eventID @ '':reconcile'') ReconcileSourceChange False w)
      else case updateLC env current (eventID @ '':drain-intent'')
             (\<lambda>n. n\<lparr>lc_SourceState := LifecycleSourceUnknown,
                   lc_Transition := LifecycleTransitionDraining\<rparr>) w of
        (w1, _, Some e) \<Rightarrow> (w1, current, Some e)
      | (w1, intent, None) \<Rightarrow>
          (let (w2, drained) = drainLC env LifecyclePauseAll w1
           in if \<not> drained then (w2, intent, Some DrainFailed)
              else case updateLC env intent (eventID @ '':generation'')
                     (\<lambda>n. n\<lparr>lc_HomeGeneration := generation,
                           lc_SourceState := LifecycleSourceUnknown,
                           lc_Transition := LifecycleTransitionSteady\<rparr>) w2 of
                (w3, _, Some e) \<Rightarrow> (w3, intent, Some e)
              | (w3, bound, None) \<Rightarrow>
                  if lc_SystemState bound = LifecycleSystemSleeping
                  then updateLC env bound (eventID @ '':deferred'')
                         (\<lambda>n. n\<lparr>lc_SourceState := LifecycleSourceUnknown,
                               lc_Transition := LifecycleTransitionSteady\<rparr>) w3
                  else reconcileLC env bound (eventID @ '':reconcile'') ReconcileSourceChange False w3))"

definition drainedLC ::
  "coord_env \<Rightarrow> SchedulerLifecycle \<Rightarrow> string \<Rightarrow> world \<Rightarrow> co_result" where
  "drainedLC env current eventID w =
     (if lc_Transition current \<noteq> LifecycleTransitionDraining then (w, current, None)
      else
        (let scope = (if lc_UserPauseScope current \<noteq> LifecyclePauseBackfill \<or>
                         lc_SystemState current = LifecycleSystemSleeping \<or>
                         lc_SourceState current = LifecycleSourceUnavailable
                      then LifecyclePauseAll else lc_UserPauseScope current);
             (w1, drained) = drainLC env scope w
         in if \<not> drained then (w1, current, Some DrainFailed)
            else updateLC env current (eventID @ '':drained'')
                   (\<lambda>n. n\<lparr>lc_Transition :=
                         (if lc_SourceState n = LifecycleSourceUnavailable
                          then LifecycleTransitionBlocked else LifecycleTransitionSteady)\<rparr>) w1))"

definition recoverLC :: "coord_env \<Rightarrow> SchedulerLifecycle \<Rightarrow> string \<Rightarrow> world \<Rightarrow> co_result" where
  "recoverLC env current0 eventID w0 =
     (case drainedLC env current0 eventID w0 of
        (w1, current1, Some e) \<Rightarrow> (w1, current1, Some e)
      | (w1, current1, None) \<Rightarrow>
          (case (if lc_Transition current1 = LifecycleTransitionReconciling \<and>
                    lc_SystemState current1 = LifecycleSystemAwake
                 then reconcileLC env current1 eventID ReconcileStartup False w1
                 else (w1, current1, None)) of
             (w2, current2, Some e) \<Rightarrow> (w2, current2, Some e)
           | (w2, current2, None) \<Rightarrow>
               if lc_SystemState current2 = LifecycleSystemAwake \<and>
                  lc_Transition current2 = LifecycleTransitionSteady \<and>
                  lc_SourceState current2 = LifecycleSourceAvailable \<and>
                  lc_UserPauseScope current2 \<noteq> LifecyclePauseAll
               then (w2, current2, if ce_recoverTasks env (wd_db w2) then None else Some RecoverFailed)
               else (w2, current2, None)))"

section \<open>Dispatch\<close>

text \<open>\<open>None\<close> stands for the zero state the code returns with an error before there is one.\<close>

definition withCurrent ::
  "world \<Rightarrow> (SchedulerLifecycle \<Rightarrow> co_result) \<Rightarrow> world \<times> SchedulerLifecycle option \<times> coord_error option" where
  "withCurrent w f =
     (case SchedulerLifecycleOf (wd_db w) of
        Inl e \<Rightarrow> (w, None, Some (CoordStore e))
      | Inr current \<Rightarrow> (let (w', l, e) = f current in (w', Some l, e)))"

fun executeLC ::
  "coord_env \<Rightarrow> command \<Rightarrow> world \<Rightarrow> world \<times> SchedulerLifecycle option \<times> coord_error option" where
  "executeLC env (CmdInitialize eventID generation) w =
     (if generation < 0 then (w, None, Some ErrInvalidCoordinator)
      else case InitializeSchedulerLifecycle
             \<lparr>lc_HomeGeneration = generation, lc_UserPauseScope = LifecyclePauseNone,
              lc_SystemState = LifecycleSystemAwake, lc_Transition = LifecycleTransitionSteady,
              lc_SourceState = LifecycleSourceAvailable, lc_LastEventID = eventID, lc_Revision = 1,
              lc_UpdatedAtMS = ce_clock env (wd_tick w)\<rparr> (wd_db w) of
        Inl e \<Rightarrow> (w\<lparr>wd_tick := wd_tick w + 1\<rparr>, None, Some (CoordStore e))
      | Inr (l, db') \<Rightarrow> (w\<lparr>wd_tick := wd_tick w + 1, wd_db := db'\<rparr>, Some l, None))"
| "executeLC env (CmdPause i scope) w = withCurrent w (\<lambda>c. pauseLC env c i scope w)"
| "executeLC env (CmdResume i) w = withCurrent w (\<lambda>c. resumeLC env c i w)"
| "executeLC env (CmdSleep i) w = withCurrent w (\<lambda>c. sleepLC env c i w)"
| "executeLC env (CmdWake i) w = withCurrent w (\<lambda>c. reconcileLC env c i ReconcileSystemWake True w)"
| "executeLC env (CmdSourceChanged i available) w =
     withCurrent w (\<lambda>c. sourceChangedLC env c i available w)"
| "executeLC env (CmdRecover i) w = withCurrent w (\<lambda>c. recoverLC env c i w)"
| "executeLC env (CmdHomeChanged i generation) w = withCurrent w (\<lambda>c. homeChangedLC env c i generation w)"

fun commandEvent :: "command \<Rightarrow> string" where
  "commandEvent (CmdInitialize i _) = i"
| "commandEvent (CmdPause i _) = i"
| "commandEvent (CmdResume i) = i"
| "commandEvent (CmdSleep i) = i"
| "commandEvent (CmdWake i) = i"
| "commandEvent (CmdSourceChanged i _) = i"
| "commandEvent (CmdRecover i) = i"
| "commandEvent (CmdHomeChanged i _) = i"

definition submitLC ::
  "coord_env \<Rightarrow> command \<Rightarrow> world \<Rightarrow> world \<times> SchedulerLifecycle option \<times> coord_error option" where
  "submitLC env c w =
     (if \<not> validEventID (commandEvent c) then (w, None, Some ErrInvalidCoordinator)
      else executeLC env c w)"

section \<open>Lemmas: what a write does\<close>

definition closed :: "LifecyclePauseScope \<Rightarrow> SchedulerLifecycle \<Rightarrow> bool" where
  "closed scope l \<longleftrightarrow>
     (\<forall>g. \<not> lifecyclePermitsTask l g SchedulerLaneBackfill) \<and>
     (scope \<noteq> LifecyclePauseBackfill \<longrightarrow> (\<forall>g lane. \<not> lifecyclePermitsTask l g lane))"

lemma closed_iff:
  "closed scope l \<longleftrightarrow>
     lc_SystemState l \<noteq> LifecycleSystemAwake \<or> lc_Transition l \<noteq> LifecycleTransitionSteady \<or>
     lc_SourceState l \<noteq> LifecycleSourceAvailable \<or> lc_UserPauseScope l = LifecyclePauseAll \<or>
     scope = LifecyclePauseBackfill \<and> lc_UserPauseScope l = LifecyclePauseBackfill"
  by (auto simp: closed_def lifecyclePermitsTask_def)

text \<open>A drain is fenced when the stored lifecycle row already refuses the lanes it waits for.\<close>

definition fenced :: "LifecyclePauseScope \<times> SchedulerLifecycle option \<Rightarrow> bool" where
  "fenced d = (case d of (scope, Some l) \<Rightarrow> closed scope l | (scope, None) \<Rightarrow> False)"

definition good :: "world \<Rightarrow> SchedulerLifecycle \<Rightarrow> bool" where
  "good w l \<longleftrightarrow>
     db_Lifecycle (wd_db w) = Some l \<and> validateSchedulerLifecycle l = None \<and>
     list_all fenced (wd_drains w)"

definition good_result :: "co_result \<Rightarrow> bool" where
  "good_result r = (case r of (w, l, _) \<Rightarrow> good w l)"

lemma updateLC_cases:
  obtains (ok) t where "updateLC env cur ev f w =
      (w\<lparr>wd_tick := wd_tick w + 1, wd_db := (wd_db w)\<lparr>db_Lifecycle :=
           Some ((f cur)\<lparr>lc_LastEventID := ev, lc_Revision := lc_Revision cur + 1, lc_UpdatedAtMS := t\<rparr>)\<rparr>\<rparr>,
       (f cur)\<lparr>lc_LastEventID := ev, lc_Revision := lc_Revision cur + 1, lc_UpdatedAtMS := t\<rparr>, None)"
    "validateSchedulerLifecycle ((f cur)\<lparr>lc_LastEventID := ev, lc_Revision := lc_Revision cur + 1, lc_UpdatedAtMS := t\<rparr>) = None"
  | (failed) n e where "updateLC env cur ev f w = (w\<lparr>wd_tick := n\<rparr>, cur, Some e)"
proof (cases "lc_Revision cur = max_int64")
  case True
  then have "updateLC env cur ev f w = (w\<lparr>wd_tick := wd_tick w\<rparr>, cur, Some ErrInvalidCoordinator)"
    by (simp add: updateLC_def)
  then show thesis by (rule failed)
next
  case False
  obtain t b where a: "After (ce_clock env (wd_tick w)) (lc_UpdatedAtMS cur) MaxTimestampMS = (t, b)" by fastforce
  let ?n = "(f cur)\<lparr>lc_LastEventID := ev, lc_Revision := lc_Revision cur + 1, lc_UpdatedAtMS := t\<rparr>"
  show thesis
  proof (cases b)
    case False
    with \<open>lc_Revision cur \<noteq> max_int64\<close> a show thesis by (intro failed) (simp add: updateLC_def)
  next
    case True
    show thesis
    proof (cases "CompareAndSwapSchedulerLifecycle (lc_Revision cur) ?n (wd_db w)")
      case (Inl e)
      with \<open>lc_Revision cur \<noteq> max_int64\<close> a True show thesis by (intro failed) (simp add: updateLC_def)
    next
      case (Inr x)
      obtain l d where x: "x = (l, d)" by fastforce
      from CompareAndSwap_ok[OF Inr[unfolded x]]
      have "l = ?n" "d = (wd_db w)\<lparr>db_Lifecycle := Some ?n\<rparr>" "validateSchedulerLifecycle ?n = None" by auto
      with \<open>lc_Revision cur \<noteq> max_int64\<close> a True Inr x show thesis
        by (intro ok[of t]) (simp_all add: updateLC_def)
    qed
  qed
qed

lemma updateLC_good: "good w cur \<Longrightarrow> good_result (updateLC env cur ev f w)"
  by (rule updateLC_cases[of env cur ev f w]) (auto simp: good_result_def good_def)

lemma updateLC_then:
  assumes "good w cur" and "\<And>w1 l. good w1 l \<Longrightarrow> updateLC env cur ev f w = (w1, l, None) \<Longrightarrow> good_result (k w1 l)"
  shows "good_result (case updateLC env cur ev f w of (w1, _, Some e) \<Rightarrow> (w1, cur, Some e)
                      | (w1, l, None) \<Rightarrow> k w1 l)"
proof (cases rule: updateLC_cases[of env cur ev f w, case_names ok failed])
  case (ok t)
  with assms updateLC_good[OF assms(1), of env ev f] show ?thesis by (simp add: good_result_def)
next
  case (failed n e)
  with assms(1) show ?thesis by (simp add: good_result_def good_def)
qed

text \<open>What a successful write leaves in the row.\<close>

lemma updateLC_None:
  assumes "updateLC env cur ev f w = (w1, l, None)"
  shows "lc_HomeGeneration l = lc_HomeGeneration (f cur)" "lc_UserPauseScope l = lc_UserPauseScope (f cur)"
    "lc_SystemState l = lc_SystemState (f cur)" "lc_Transition l = lc_Transition (f cur)"
    "lc_SourceState l = lc_SourceState (f cur)" "lc_LastEventID l = ev"
    "lc_Revision l = lc_Revision cur + 1"
  by (rule updateLC_cases[of env cur ev f w], use assms in auto)+

lemma drainLC_good:
  assumes "good w l" and "closed scope l" and "drainLC env scope w = (w2, b)"
  shows "good w2 l"
  using assms by (auto simp: drainLC_def good_def fenced_def)

lemma good_resultI: "good w l \<Longrightarrow> good_result (w, l, e)"
  by (simp add: good_result_def)

lemma reconcileLC_good:
  assumes "good w cur"
  shows "good_result (reconcileLC env cur ev reason wake w)"
proof -
  have fin: "good_result (let (w2, b, _) = updateLC env i e1 f1 w1 in (w2, b, Some e))"
    if "good w1 i" for w1 i e1 f1 e
    using updateLC_good[OF that, of env e1 f1] by (auto simp: good_result_def split: prod.splits)
  show ?thesis
    unfolding reconcileLC_def
    by (auto simp: Let_def intro!: good_resultI assms updateLC_then[OF assms] fin[unfolded Let_def] updateLC_good
        split: option.split)
qed

lemma drain_then:
  assumes "good w l" and "closed scope l" and "\<And>w2. good w2 l \<Longrightarrow> good_result (k w2)"
  shows "good_result (case drainLC env scope w of (w2, drained) \<Rightarrow>
           if \<not> drained then (w2, l, Some DrainFailed) else k w2)"
  using drainLC_good[OF assms(1,2)] assms(3) by (auto simp: good_resultI split: prod.split)

lemma closed_written:
  assumes "updateLC env cur ev f w = (w1, l, None)" and "closed scope (f cur)"
  shows "closed scope l"
  using assms(2) updateLC_None[OF assms(1)] by (simp add: closed_iff)

lemmas handler_intros = good_resultI updateLC_then drain_then updateLC_good reconcileLC_good

lemma pauseLC_good:
  assumes "good w cur"
  shows "good_result (pauseLC env cur ev scope w)"
  unfolding pauseLC_def Let_def
  by (auto simp: closed_iff assms intro!: handler_intros elim!: closed_written)

lemma resumeLC_good: "good w cur \<Longrightarrow> good_result (resumeLC env cur ev w)"
  unfolding resumeLC_def by (auto intro!: handler_intros)

lemma sleepLC_good: "good w cur \<Longrightarrow> good_result (sleepLC env cur ev w)"
  unfolding sleepLC_def Let_def
  by (auto simp: closed_iff intro!: handler_intros elim!: closed_written)

lemma sourceChangedLC_good:
  assumes "good w cur"
  shows "good_result (sourceChangedLC env cur ev available w)"
proof -
  have d: "good_result (case drainLC env LifecyclePauseAll w1 of (w2, drained) \<Rightarrow>
      (w2, l, if drained then None else Some DrainFailed))"
    if "good w1 l" "closed LifecyclePauseAll l" for w1 l
    using drainLC_good[OF that] by (auto simp: good_resultI split: prod.split)
  show ?thesis
    unfolding sourceChangedLC_def Let_def
    by (auto simp: closed_iff assms intro!: handler_intros d elim!: closed_written)
qed

lemma homeChangedLC_good: "good w cur \<Longrightarrow> good_result (homeChangedLC env cur ev g w)"
  unfolding homeChangedLC_def Let_def
  by (auto simp: closed_iff intro!: handler_intros elim!: closed_written)

lemma drainedLC_good: "good w cur \<Longrightarrow> good_result (drainedLC env cur ev w)"
  unfolding drainedLC_def Let_def
  by (auto simp: closed_iff intro!: handler_intros)

lemma good_then:
  assumes "good_result r" and "\<And>w1 l. good w1 l \<Longrightarrow> good_result (k w1 l)"
  shows "good_result (case r of (w1, l, Some e) \<Rightarrow> (w1, l, Some e) | (w1, l, None) \<Rightarrow> k w1 l)"
proof -
  obtain w1 l e where r: "r = (w1, l, e)" by (rule prod_cases3)
  with assms show ?thesis by (cases e) (simp_all add: good_result_def)
qed

lemma recoverLC_good:
  assumes "good w cur"
  shows "good_result (recoverLC env cur ev w)"
  unfolding recoverLC_def
proof (intro good_then drainedLC_good[OF assms])
  fix w1 l assume "good w1 l"
  then show "good_result (if lc_Transition l = LifecycleTransitionReconciling \<and> lc_SystemState l = LifecycleSystemAwake
      then reconcileLC env l ev ReconcileStartup False w1 else (w1, l, None))"
    by (simp add: reconcileLC_good good_resultI)
next
  fix w2 l assume "good w2 l"
  then show "good_result (if lc_SystemState l = LifecycleSystemAwake \<and> lc_Transition l = LifecycleTransitionSteady \<and>
      lc_SourceState l = LifecycleSourceAvailable \<and> lc_UserPauseScope l \<noteq> LifecyclePauseAll
      then (w2, l, if ce_recoverTasks env (wd_db w2) then None else Some RecoverFailed) else (w2, l, None))"
    by (simp add: good_resultI)
qed

text \<open>The invariant of the event loop.\<close>

definition coord_inv :: "world \<Rightarrow> bool" where
  "coord_inv w \<longleftrightarrow> lifecycle_inv (db_Lifecycle (wd_db w)) \<and> list_all fenced (wd_drains w)"

lemma withCurrent_inv:
  assumes inv: "coord_inv w" and f: "\<And>c. good w c \<Longrightarrow> good_result (f c)"
  shows "coord_inv (fst (withCurrent w f))"
proof (cases "SchedulerLifecycleOf (wd_db w)")
  case (Inl e)
  with inv show ?thesis by (simp add: withCurrent_def)
next
  case (Inr c)
  then have "good w c"
    using inv by (auto simp: SchedulerLifecycleOf_def schedulerLifecycleIn_def good_def coord_inv_def
        split: option.splits)
  then have "good_result (f c)" by (rule f)
  with Inr show ?thesis
    by (auto simp: withCurrent_def good_result_def good_def coord_inv_def lifecycle_inv_def split: prod.splits)
qed

lemma executeLC_inv:
  assumes "coord_inv w"
  shows "coord_inv (fst (executeLC env c w))"
proof (cases c)
  case (CmdInitialize i g)
  with assms show ?thesis
    using InitializeSchedulerLifecycle_ok
    by (auto simp: coord_inv_def lifecycle_inv_def split: sum.split dest!: InitializeSchedulerLifecycle_ok)
qed (auto intro!: withCurrent_inv[OF assms] pauseLC_good resumeLC_good sleepLC_good reconcileLC_good
    sourceChangedLC_good recoverLC_good homeChangedLC_good)

definition coord_step :: "coord_env \<Rightarrow> world \<Rightarrow> command \<Rightarrow> world" where
  "coord_step env w c = fst (submitLC env c w)"

interpretation coordinator: event_machine "coord_step env" "\<lambda>_. True" coord_inv for env
  by unfold_locales (simp add: coord_step_def submitLC_def executeLC_inv)

section \<open>Lemmas: outcomes\<close>


lemma updateLC_result:
  obtains (ok) w1 l where "updateLC env cur ev f w = (w1, l, None)" "db_Lifecycle (wd_db w1) = Some l"
  | (failed) w1 e where "updateLC env cur ev f w = (w1, cur, Some e)" "wd_db w1 = wd_db w"
  by (rule updateLC_cases[of env cur ev f w]) auto

lemma updateLC_Some:
  assumes "updateLC env cur ev f w = (w1, l, Some e)"
  shows "l = cur" "wd_db w1 = wd_db w"
  by (rule updateLC_result[of env cur ev f w], use assms in auto)+

lemma reconcileLC_cases:
  assumes "reconcileLC env cur ev reason wake w = (w', l, e)"
  obtains (applied) "w' = w" "l = cur" "e = None" "eventApplied (lc_LastEventID cur) ev"
      "lc_Transition cur = LifecycleTransitionSteady" "lc_SourceState cur = LifecycleSourceAvailable"
      "\<not> wake \<or> lc_SystemState cur = LifecycleSystemAwake"
      "reason \<noteq> ReconcileUserResume \<or> lc_UserPauseScope cur = LifecyclePauseNone"
  | (unwritten) x where "e = Some x" "l = cur" "wd_db w' = wd_db w"
  | (blocked) x where "e = Some x" "closed LifecyclePauseAll l"
  | (complete) "e = None" "lc_Transition l = LifecycleTransitionSteady"
      "lc_SourceState l = LifecycleSourceAvailable" "lc_HomeGeneration l = lc_HomeGeneration cur"
      "lc_LastEventID l = ev @ '':complete''"
      "lc_SystemState l = (if wake then LifecycleSystemAwake else lc_SystemState cur)"
      "lc_UserPauseScope l = (if reason = ReconcileUserResume then LifecyclePauseNone else lc_UserPauseScope cur)"
proof (cases rule: updateLC_result[of env cur "ev @ '':intent''" "reconcileIntent reason wake" w,
      case_names ok failed])
  case (failed w1 x)
  with assms applied unwritten show thesis by (simp add: reconcileLC_def split: if_splits; blast)
next
  case (ok w1 i)
  note I = updateLC_None[OF ok(1)]
  have ci: "lc_Transition i = LifecycleTransitionReconciling" using I by (simp add: reconcileIntent_def Let_def)
  show thesis
  proof (cases "reconcileError env i reason")
    case (Some x)
    obtain w2 b e2 where u: "updateLC env i (ev @ '':blocked'')
        (\<lambda>n. n\<lparr>lc_SourceState := LifecycleSourceUnavailable, lc_Transition := LifecycleTransitionBlocked\<rparr>) w1 = (w2, b, e2)"
      by (rule prod_cases3)
    have "closed LifecyclePauseAll b"
      by (rule updateLC_result[of env i "ev @ '':blocked''" "\<lambda>n. n\<lparr>lc_SourceState := LifecycleSourceUnavailable,
          lc_Transition := LifecycleTransitionBlocked\<rparr>" w1])
        (use u ci updateLC_None in \<open>auto simp: closed_iff\<close>)
    with assms ok Some u applied unwritten blocked show thesis by (simp add: reconcileLC_def split: if_splits; blast)
  next
    case None
    obtain w2 b e2 where u: "updateLC env i (ev @ '':complete'')
        (\<lambda>n. n\<lparr>lc_SourceState := LifecycleSourceAvailable, lc_Transition := LifecycleTransitionSteady\<rparr>) w1 = (w2, b, e2)"
      by (rule prod_cases3)
    show thesis
    proof (cases e2)
      case (Some y)
      have "b = i" using updateLC_Some[OF u[unfolded Some]] by simp
      with ci have "closed LifecyclePauseAll b" by (simp add: closed_iff)
      with assms ok None u Some applied unwritten blocked show thesis by (simp add: reconcileLC_def split: if_splits; blast)
    next
      case n: None
      note B = updateLC_None[OF u[unfolded n]]
      have "thesis" if "l = b" "e = None"
        by (rule complete) (use that B I in \<open>simp_all add: reconcileIntent_def Let_def\<close>)
      with assms ok None u n applied unwritten show thesis
        by (simp add: reconcileLC_def split: if_splits; blast)
    qed
  qed
qed

text \<open>
  A command that fails leaves the tables as they were or a row that refuses the lanes of its scope.
  Only a failure of the final task recovery is reported with the row open.
\<close>

definition settled :: "LifecyclePauseScope \<Rightarrow> world \<Rightarrow> world \<Rightarrow> SchedulerLifecycle \<Rightarrow> bool" where
  "settled sc w0 w l \<longleftrightarrow> wd_db w = wd_db w0 \<or> closed sc l"

definition fails_closed :: "LifecyclePauseScope \<Rightarrow> world \<Rightarrow> co_result \<Rightarrow> bool" where
  "fails_closed sc w0 r =
     (case r of (w, l, e) \<Rightarrow> e = None \<or> e = Some RecoverFailed \<or> settled sc w0 w l)"

lemma fails_closed_simps [simp]:
  "fails_closed sc w0 (w, l, None)" "fails_closed sc w0 (w, l, Some RecoverFailed)"
  "settled sc w w l"
  by (simp_all add: fails_closed_def settled_def)

lemma fails_closedI: "settled sc w0 w l \<Longrightarrow> fails_closed sc w0 (w, l, e)"
  by (simp add: fails_closed_def)

lemma updateLC_fails_closed: "settled sc w0 w cur \<Longrightarrow> fails_closed sc w0 (updateLC env cur ev f w)"
  by (rule updateLC_result[of env cur ev f w]) (auto simp: fails_closed_def settled_def)

lemma updateLC_then_fails_closed:
  assumes "settled sc w0 w cur" and "\<And>w1 l. updateLC env cur ev f w = (w1, l, None) \<Longrightarrow> fails_closed sc w0 (k w1 l)"
  shows "fails_closed sc w0 (case updateLC env cur ev f w of (w1, _, Some e) \<Rightarrow> (w1, cur, Some e)
                      | (w1, l, None) \<Rightarrow> k w1 l)"
  by (rule updateLC_result[of env cur ev f w]) (use assms in \<open>auto simp: fails_closed_def settled_def\<close>)

lemma drain_fails_closed:
  assumes "settled sc w0 w l" and "\<And>w2. wd_db w2 = wd_db w \<Longrightarrow> fails_closed sc w0 (k w2)"
  shows "fails_closed sc w0 (case drainLC env scope w of (w2, drained) \<Rightarrow>
           if \<not> drained then (w2, l, Some DrainFailed) else k w2)"
  using assms by (simp add: drainLC_def fails_closed_def settled_def)

lemma reconcileLC_fails_closed:
  assumes "settled sc w0 w cur"
  shows "fails_closed sc w0 (reconcileLC env cur ev reason wake w)"
proof -
  obtain w' l e where r: "reconcileLC env cur ev reason wake w = (w', l, e)" by (rule prod_cases3)
  have *: "closed LifecyclePauseAll l \<Longrightarrow> closed sc l" by (auto simp: closed_iff)
  from r show ?thesis
    by (rule reconcileLC_cases) (use r assms * in \<open>auto simp: fails_closed_def settled_def\<close>)
qed

lemma closed_settled: "closed sc l \<Longrightarrow> settled sc w0 w l"
  by (simp add: settled_def)

lemma settled_same: "settled sc w0 w l \<Longrightarrow> wd_db w2 = wd_db w \<Longrightarrow> settled sc w0 w2 l"
  by (simp add: settled_def)

lemmas fails_closed_intros = updateLC_then_fails_closed drain_fails_closed updateLC_fails_closed
  reconcileLC_fails_closed fails_closedI

lemma settled_written:
  "updateLC env cur ev f w = (w1, l, None) \<Longrightarrow> closed sc (f cur) \<Longrightarrow> wd_db w2 = wd_db w1 \<or> w2 = w1 \<Longrightarrow> settled sc w0 w2 l"
  by (simp add: closed_settled closed_written)

lemma pauseLC_fails_closed: "fails_closed scope w (pauseLC env cur ev scope w)"
  unfolding pauseLC_def Let_def
  by (auto intro!: fails_closed_intros; auto intro!: settled_written simp: closed_iff)

lemma resumeLC_fails_closed: "fails_closed LifecyclePauseAll w (resumeLC env cur ev w)"
  unfolding resumeLC_def by (auto intro!: fails_closed_intros)

lemma sleepLC_fails_closed: "fails_closed LifecyclePauseAll w (sleepLC env cur ev w)"
  unfolding sleepLC_def Let_def
  by (auto intro!: fails_closed_intros; auto intro!: settled_written simp: closed_iff)

lemma sourceChangedLC_fails_closed: "fails_closed LifecyclePauseAll w (sourceChangedLC env cur ev a w)"
proof -
  have d: "fails_closed LifecyclePauseAll w (case drainLC env LifecyclePauseAll w1 of (w2, drained) \<Rightarrow>
      (w2, l, if drained then None else Some DrainFailed))"
    if "settled LifecyclePauseAll w w1 l" for w1 l
    using that by (simp add: fails_closed_def settled_def drainLC_def)
  show ?thesis
    unfolding sourceChangedLC_def Let_def
    by (auto intro!: fails_closed_intros d; auto intro!: settled_written simp: closed_iff)
qed

lemma homeChangedLC_fails_closed: "fails_closed LifecyclePauseAll w (homeChangedLC env cur ev g w)"
  unfolding homeChangedLC_def Let_def
  by (auto intro!: fails_closed_intros; auto intro!: settled_written simp: closed_iff)

lemma drainedLC_fails_closed: "fails_closed LifecyclePauseAll w (drainedLC env cur ev w)"
  unfolding drainedLC_def Let_def
  by (auto intro!: fails_closed_intros; auto simp: settled_def)

lemma drainedLC_None:
  assumes "drainedLC env cur ev w = (w1, l, None)"
  shows "w1 = w \<and> l = cur \<or> lc_Transition l \<noteq> LifecycleTransitionReconciling"
  using assms unfolding drainedLC_def Let_def
  by (auto simp: drainLC_def dest!: updateLC_None(4) split: if_splits)

lemma recoverLC_fails_closed: "fails_closed LifecyclePauseAll w (recoverLC env cur ev w)"
proof -
  obtain w1 c1 e1 where d: "drainedLC env cur ev w = (w1, c1, e1)" by (rule prod_cases3)
  show ?thesis
  proof (cases e1)
    case (Some e)
    with d drainedLC_fails_closed[of w env cur ev] show ?thesis by (simp add: recoverLC_def)
  next
    case None
    define r where "r = (if lc_Transition c1 = LifecycleTransitionReconciling \<and> lc_SystemState c1 = LifecycleSystemAwake
                 then reconcileLC env c1 ev ReconcileStartup False w1 else (w1, c1, None))"
    have "fails_closed LifecyclePauseAll w r"
      using drainedLC_None[OF d[unfolded None]] by (auto simp: r_def intro!: reconcileLC_fails_closed)
    moreover obtain w2 c2 e2 where r2: "r = (w2, c2, e2)" by (rule prod_cases3)
    ultimately show ?thesis
      unfolding recoverLC_def d None by (cases e2) (simp_all flip: r_def)
  qed
qed

text \<open>What a command that succeeds leaves in the row.\<close>

definition returns :: "(SchedulerLifecycle \<Rightarrow> bool) \<Rightarrow> co_result \<Rightarrow> bool" where
  "returns P r = (case r of (w, l, e) \<Rightarrow> e = None \<longrightarrow> P l)"

lemma returns_simps [simp]: "returns P (w, l, Some e)" "returns P (w, l, None) = P l"
  by (simp_all add: returns_def)

lemma updateLC_returns:
  assumes "\<And>t. P ((f cur)\<lparr>lc_LastEventID := ev, lc_Revision := lc_Revision cur + 1, lc_UpdatedAtMS := t\<rparr>)"
  shows "returns P (updateLC env cur ev f w)"
  by (rule updateLC_cases[of env cur ev f w]) (simp_all add: assms)

lemma updateLC_then_returns:
  assumes "\<And>w1 t. returns P (k w1 ((f cur)\<lparr>lc_LastEventID := ev, lc_Revision := lc_Revision cur + 1, lc_UpdatedAtMS := t\<rparr>))"
  shows "returns P (case updateLC env cur ev f w of (w1, _, Some e) \<Rightarrow> (w1, cur, Some e)
                      | (w1, l, None) \<Rightarrow> k w1 l)"
  by (rule updateLC_cases[of env cur ev f w]) (simp_all add: assms)

lemma drain_returns:
  assumes "\<And>w2. returns P (k w2)"
  shows "returns P (case drainLC env scope w of (w2, drained) \<Rightarrow>
           if \<not> drained then (w2, l, Some DrainFailed) else k w2)"
  using assms by (simp add: drainLC_def)

lemma reconcileLC_returns:
  assumes "\<And>l. lc_Transition l = LifecycleTransitionSteady \<Longrightarrow> lc_SourceState l = LifecycleSourceAvailable \<Longrightarrow>
      eventApplied (lc_LastEventID l) ev \<Longrightarrow> lc_HomeGeneration l = lc_HomeGeneration cur \<Longrightarrow>
      lc_SystemState l = (if wake then LifecycleSystemAwake else lc_SystemState cur) \<Longrightarrow>
      lc_UserPauseScope l = (if reason = ReconcileUserResume then LifecyclePauseNone else lc_UserPauseScope cur) \<Longrightarrow> P l"
  shows "returns P (reconcileLC env cur ev reason wake w)"
proof -
  obtain w' l e where r: "reconcileLC env cur ev reason wake w = (w', l, e)" by (rule prod_cases3)
  show ?thesis
    unfolding r using r
  proof (cases rule: reconcileLC_cases[case_names applied unwritten blocked complete])
    case applied
    then show "returns P (w', l, e)" by (auto intro!: assms)
  next
    case complete
    then show "returns P (w', l, e)" by (auto intro!: assms simp: eventApplied_def)
  qed simp_all
qed

lemmas returns_intros = updateLC_then_returns drain_returns updateLC_returns reconcileLC_returns

lemma pauseLC_returns:
  "returns (\<lambda>l. lc_UserPauseScope l = scope \<and> lc_Transition l = LifecycleTransitionSteady \<and>
     eventApplied (lc_LastEventID l) ev \<and> (scope = LifecyclePauseBackfill \<or> scope = LifecyclePauseAll))
   (pauseLC env cur ev scope w)"
  unfolding pauseLC_def Let_def by (auto intro!: returns_intros simp: eventApplied_def)

lemma sleepLC_returns:
  "returns (\<lambda>l. lc_SystemState l = LifecycleSystemSleeping \<and> lc_Transition l = LifecycleTransitionSteady \<and>
     eventApplied (lc_LastEventID l) ev) (sleepLC env cur ev w)"
  unfolding sleepLC_def Let_def by (auto intro!: returns_intros simp: eventApplied_def)

lemma resumeLC_returns:
  "returns (\<lambda>l. lc_UserPauseScope l = LifecyclePauseNone \<and> lc_Transition l = LifecycleTransitionSteady \<and>
     (lc_SystemState l \<noteq> LifecycleSystemSleeping \<longrightarrow>
        lc_SourceState l = LifecycleSourceAvailable \<and> eventApplied (lc_LastEventID l) ev))
   (resumeLC env cur ev w)"
  unfolding resumeLC_def by (auto intro!: returns_intros)

lemma wake_returns:
  "returns (\<lambda>l. lc_SystemState l = LifecycleSystemAwake \<and> lc_Transition l = LifecycleTransitionSteady \<and>
     lc_SourceState l = LifecycleSourceAvailable \<and> eventApplied (lc_LastEventID l) ev \<and>
     lc_UserPauseScope l = lc_UserPauseScope cur)
   (reconcileLC env cur ev ReconcileSystemWake True w)"
  by (auto intro!: returns_intros)

lemma sourceChangedLC_returns:
  "returns (\<lambda>l. if \<not> available then lc_SourceState l = LifecycleSourceUnavailable \<and>
        lc_Transition l = LifecycleTransitionBlocked \<and> eventTerminal (lc_LastEventID l) ev
      else if lc_SystemState l = LifecycleSystemSleeping then eventTerminal (lc_LastEventID l) ev
      else lc_Transition l = LifecycleTransitionSteady \<and> lc_SourceState l = LifecycleSourceAvailable \<and>
           eventApplied (lc_LastEventID l) ev)
   (sourceChangedLC env cur ev available w)"
  unfolding sourceChangedLC_def Let_def
  by (auto intro!: returns_intros simp: drainLC_def eventTerminal_def)

lemma homeChangedLC_returns:
  "returns (\<lambda>l. 0 \<le> generation \<and> lc_HomeGeneration l = generation \<and> lc_Transition l = LifecycleTransitionSteady \<and>
      (lc_SystemState l = LifecycleSystemSleeping \<or> lc_SourceState l = LifecycleSourceAvailable))
   (homeChangedLC env cur ev generation w)"
  unfolding homeChangedLC_def Let_def by (auto intro!: returns_intros)

section \<open>Lemmas: a command\<close>

fun commandScope :: "command \<Rightarrow> LifecyclePauseScope" where
  "commandScope (CmdPause _ scope) = scope"
| "commandScope _ = LifecyclePauseAll"

lemma withCurrent_good:
  assumes "coord_inv w" and "withCurrent w f = (w', r, e)" and "r \<noteq> None"
    and f: "\<And>c. good w c \<Longrightarrow> good_result (f c)"
  obtains c l where "good w c" "f c = (w', l, e)" "r = Some l" "good w' l"
proof (cases "SchedulerLifecycleOf (wd_db w)")
  case (Inl x)
  with assms show thesis by (simp add: withCurrent_def)
next
  case (Inr c)
  then have g: "good w c"
    using assms(1) by (auto simp: SchedulerLifecycleOf_def schedulerLifecycleIn_def good_def coord_inv_def
        split: option.splits)
  obtain w2 l e2 where r: "f c = (w2, l, e2)" by (rule prod_cases3)
  with Inr assms(2) have "w2 = w'" "e2 = e" "r = Some l" by (auto simp: withCurrent_def)
  with g r f[OF g] show thesis by (intro that[of c l]) (simp_all add: good_result_def)
qed

lemma withCurrent_stored: "good w l \<Longrightarrow> withCurrent w f = (case f l of (w', l', e) \<Rightarrow> (w', Some l', e))"
  by (simp add: withCurrent_def SchedulerLifecycleOf_def schedulerLifecycleIn_def good_def)

text \<open>A command other than \<open>Initialize\<close> runs its handler on the stored row.\<close>

fun handlerLC :: "coord_env \<Rightarrow> command \<Rightarrow> world \<Rightarrow> SchedulerLifecycle \<Rightarrow> co_result" where
  "handlerLC env (CmdInitialize i g) w c = (w, c, None)"
| "handlerLC env (CmdPause i scope) w c = pauseLC env c i scope w"
| "handlerLC env (CmdResume i) w c = resumeLC env c i w"
| "handlerLC env (CmdSleep i) w c = sleepLC env c i w"
| "handlerLC env (CmdWake i) w c = reconcileLC env c i ReconcileSystemWake True w"
| "handlerLC env (CmdSourceChanged i available) w c = sourceChangedLC env c i available w"
| "handlerLC env (CmdRecover i) w c = recoverLC env c i w"
| "handlerLC env (CmdHomeChanged i generation) w c = homeChangedLC env c i generation w"

fun isInitialize :: "command \<Rightarrow> bool" where
  "isInitialize (CmdInitialize _ _) = True"
| "isInitialize _ = False"

lemma executeLC_handler:
  "\<not> isInitialize c \<Longrightarrow> executeLC env c w = withCurrent w (handlerLC env c w)"
  by (cases c) (auto intro!: arg_cong[of _ _ "withCurrent w"])

lemma handlerLC_good: "good w l \<Longrightarrow> good_result (handlerLC env c w l)"
  by (cases c) (simp_all add: good_resultI pauseLC_good resumeLC_good sleepLC_good reconcileLC_good
      sourceChangedLC_good recoverLC_good homeChangedLC_good)

lemma handlerLC_fails_closed: "fails_closed (commandScope c) w (handlerLC env c w l)"
  by (cases c) (simp_all add: pauseLC_fails_closed resumeLC_fails_closed sleepLC_fails_closed
      reconcileLC_fails_closed sourceChangedLC_fails_closed recoverLC_fails_closed homeChangedLC_fails_closed)

lemma submitLC_handler:
  assumes "coord_inv w" and "\<not> isInitialize c" and "submitLC env c w = (w', Some l, e)"
  obtains cur where "good w cur" "handlerLC env c w cur = (w', l, e)" "good w' l"
    "validEventID (commandEvent c)"
proof -
  have v: "validEventID (commandEvent c)" and x: "withCurrent w (handlerLC env c w) = (w', Some l, e)"
    using assms(2,3) by (auto simp: submitLC_def executeLC_handler split: if_splits)
  from withCurrent_good[OF assms(1) x _ handlerLC_good] that v show thesis by fastforce
qed

text \<open>The commands whose redelivery is absorbed, given the row they left.\<close>

fun absorbed :: "command \<Rightarrow> SchedulerLifecycle \<Rightarrow> bool" where
  "absorbed (CmdInitialize _ _) _ = False"
| "absorbed (CmdRecover _) _ = False"
| "absorbed (CmdResume _) l = (lc_SystemState l = LifecycleSystemAwake)"
| "absorbed _ _ = True"

lemma returnsD: "returns P r \<Longrightarrow> r = (w, l, None) \<Longrightarrow> P l"
  by simp

lemma handlerLC_again:
  assumes h: "handlerLC env c w cur = (w', l, None)" and "absorbed c l"
  shows "handlerLC env' c w2 l = (w2, l, None)"
proof (cases c)
  case (CmdPause i scope)
  with h returnsD[OF pauseLC_returns, of env cur i scope w w' l] show ?thesis by (auto simp: pauseLC_def)
next
  case (CmdResume i)
  with h assms(2) returnsD[OF resumeLC_returns, of env cur i w w' l] show ?thesis by (simp add: resumeLC_def)
next
  case (CmdSleep i)
  with h returnsD[OF sleepLC_returns, of env cur i w w' l] show ?thesis by (simp add: sleepLC_def)
next
  case (CmdWake i)
  with h returnsD[OF wake_returns, of env cur i w w' l] show ?thesis by (simp add: reconcileLC_def)
next
  case (CmdSourceChanged i a)
  with h returnsD[OF sourceChangedLC_returns, of env cur i a w w' l] show ?thesis
    by (auto simp: sourceChangedLC_def reconcileLC_def split: if_splits)
next
  case (CmdHomeChanged i g)
  with h returnsD[OF homeChangedLC_returns, of env cur i g w w' l] show ?thesis
    by (auto simp: homeChangedLC_def)
qed (use assms(2) in simp_all)

section \<open>Properties\<close>

text \<open>C3: The coordinator fences before it drains. Along any sequence of commands from a start with a
  valid or absent lifecycle row, for any behaviour of the clock, the scheduler and the reconciler,
  every \<open>Drain\<close> call is made while the stored row already refuses every task of the lanes
  drained: all lanes, or the backfill lane for a backfill pause. No task of a drained lane can be
  claimed behind the drain. The stored row stays valid throughout.\<close>

theorem fence_before_drain:
  assumes "lifecycle_inv (db_Lifecycle (wd_db w))" and "wd_drains w = []"
  shows "lifecycle_inv (db_Lifecycle (wd_db (foldl (coord_step env) w cs))) \<and>
    ((scope, row) \<in> set (wd_drains (foldl (coord_step env) w cs)) \<longrightarrow>
       (\<exists>l. row = Some l \<and> (\<forall>g. \<not> lifecyclePermitsTask l g SchedulerLaneBackfill) \<and>
            (scope \<noteq> LifecyclePauseBackfill \<longrightarrow> (\<forall>g lane. \<not> lifecyclePermitsTask l g lane))))"
proof -
  have "coord_inv w" using assms by (simp add: coord_inv_def)
  then have inv: "coord_inv (foldl (coord_step env) w cs)" by (rule coordinator.inv_run) simp
  have "fenced (scope, row)" if "(scope, row) \<in> set (wd_drains (foldl (coord_step env) w cs))"
    using inv that unfolding coord_inv_def list_all_iff by blast
  with inv show ?thesis by (cases row) (auto simp: coord_inv_def fenced_def closed_def)
qed

definition ex_env :: coord_env where
  "ex_env = \<lparr>ce_clock = (\<lambda>n. 1000 + int n), ce_drain = (\<lambda>_ _. True),
     ce_reconcile = (\<lambda>l _. Some (lc_HomeGeneration l, LifecycleSourceAvailable)),
     ce_recoverTasks = (\<lambda>_. True)\<rparr>"

definition ex_world :: world where
  "ex_world = \<lparr>wd_db = sched_empty, wd_tick = 0, wd_drains = []\<rparr>"

definition ex_started :: world where
  "ex_started = coord_step ex_env ex_world (CmdInitialize ''e0'' 7)"

theorem fence_before_drain_witness:
  "\<exists>l. map snd (wd_drains (foldl (coord_step ex_env) ex_world
      [CmdInitialize ''e0'' 7, CmdPause ''e1'' LifecyclePauseAll])) = [Some l] \<and>
     (\<forall>g lane. \<not> lifecyclePermitsTask l g lane)"
proof -
  let ?ds = "wd_drains (foldl (coord_step ex_env) ex_world
      [CmdInitialize ''e0'' 7, CmdPause ''e1'' LifecyclePauseAll])"
  have s: "map fst ?ds = [LifecyclePauseAll]" by code_simp
  then obtain row where d: "?ds = [(LifecyclePauseAll, row)]" by auto
  have "lifecycle_inv (db_Lifecycle (wd_db ex_world))" "wd_drains ex_world = []" by code_simp+
  from fence_before_drain[OF this, of ex_env "[CmdInitialize ''e0'' 7, CmdPause ''e1'' LifecyclePauseAll]"
      LifecyclePauseAll row] d
  show ?thesis by auto
qed

text \<open>C19: A command that reports success has its promised effect, which is also the stored row. A
  pause leaves no lane of its scope open; a sleep leaves every lane closed; a resume of an awake
  system opens both lanes of the bound generation, and one of a sleeping system opens none; a wake
  opens the live lane and the backfill lane unless the user pause says otherwise; a lost source
  closes every lane; a change of Home binds the generation named.\<close>

theorem command_outcome:
  assumes "coord_inv w" and "\<not> isInitialize c" and "submitLC env c w = (w', Some l, None)"
  shows "db_Lifecycle (wd_db w') = Some l \<and>
    (case c of
       CmdPause _ scope \<Rightarrow> \<not> lifecyclePermitsTask l g SchedulerLaneBackfill \<and>
         (scope = LifecyclePauseAll \<longrightarrow> \<not> lifecyclePermitsTask l g lane)
     | CmdSleep _ \<Rightarrow> \<not> lifecyclePermitsTask l g lane
     | CmdResume _ \<Rightarrow>
         (if lc_SystemState l = LifecycleSystemSleeping then \<not> lifecyclePermitsTask l g lane
          else lifecyclePermitsTask l (lc_HomeGeneration l) SchedulerLaneLive \<and>
               lifecyclePermitsTask l (lc_HomeGeneration l) SchedulerLaneBackfill)
     | CmdWake _ \<Rightarrow>
         (lifecyclePermitsTask l (lc_HomeGeneration l) SchedulerLaneLive \<longleftrightarrow>
            lc_UserPauseScope l \<noteq> LifecyclePauseAll) \<and>
         (lifecyclePermitsTask l (lc_HomeGeneration l) SchedulerLaneBackfill \<longleftrightarrow>
            lc_UserPauseScope l \<noteq> LifecyclePauseAll \<and> lc_UserPauseScope l \<noteq> LifecyclePauseBackfill)
     | CmdSourceChanged _ available \<Rightarrow> \<not> available \<longrightarrow> \<not> lifecyclePermitsTask l g lane
     | CmdHomeChanged _ generation \<Rightarrow> lc_HomeGeneration l = generation
     | _ \<Rightarrow> True)"
proof -
  from submitLC_handler[OF assms] obtain cur where
    h: "handlerLC env c w cur = (w', l, None)" and g: "good w' l" by blast
  have v: "validateSchedulerLifecycle l = None" using g by (simp add: good_def)
  show ?thesis
  proof (cases c)
    case (CmdPause i scope)
    with h g returnsD[OF pauseLC_returns, of env cur i scope w w' l] show ?thesis
      by (auto simp: good_def lifecyclePermitsTask_def)
  next
    case (CmdResume i)
    with h g v returnsD[OF resumeLC_returns, of env cur i w w' l] show ?thesis
      by (auto simp: good_def lifecyclePermitsTask_def validateSchedulerLifecycle_def
          validLifecycleSystemState_def split: if_splits)
  next
    case (CmdSleep i)
    with h g returnsD[OF sleepLC_returns, of env cur i w w' l] show ?thesis
      by (auto simp: good_def lifecyclePermitsTask_def)
  next
    case (CmdWake i)
    with h g returnsD[OF wake_returns, of env cur i w w' l] show ?thesis
      by (auto simp: good_def lifecyclePermitsTask_def)
  next
    case (CmdSourceChanged i a)
    with h g returnsD[OF sourceChangedLC_returns, of env cur i a w w' l] show ?thesis
      by (auto simp: good_def lifecyclePermitsTask_def)
  next
    case (CmdHomeChanged i n)
    with h g returnsD[OF homeChangedLC_returns, of env cur i n w w' l] show ?thesis
      by (auto simp: good_def)
  qed (use g assms(2) in \<open>simp_all add: good_def\<close>)
qed

lemma ex_started_inv: "coord_inv ex_started"
proof -
  have "coord_inv ex_world" by (simp add: coord_inv_def lifecycle_inv_def ex_world_def sched_empty_def)
  then show ?thesis unfolding ex_started_def by (rule coordinator.inv_step) simp
qed

theorem command_outcome_witness:
  "\<exists>w' l. submitLC ex_env (CmdPause ''e1'' LifecyclePauseBackfill) ex_started = (w', Some l, None) \<and>
     \<not> lifecyclePermitsTask l 7 SchedulerLaneBackfill \<and> lifecyclePermitsTask l 7 SchedulerLaneLive"
proof -
  have "(case submitLC ex_env (CmdPause ''e1'' LifecyclePauseBackfill) ex_started of
      (w', Some l, None) \<Rightarrow> lifecyclePermitsTask l 7 SchedulerLaneLive | _ \<Rightarrow> False)" by code_simp
  then obtain w' l where s: "submitLC ex_env (CmdPause ''e1'' LifecyclePauseBackfill) ex_started = (w', Some l, None)"
    "lifecyclePermitsTask l 7 SchedulerLaneLive" by (auto split: prod.splits option.splits)
  from command_outcome[OF ex_started_inv _ s(1), of 7 SchedulerLaneLive] s show ?thesis by simp
qed





end
