(* ===== verification/Rollout_Types.thy ===== *)
theory Rollout_Types
  imports Float64
begin

text \<open>
  Data of the rollout log parser (\<open>src/internal/codex/logs/parser/types.go\<close>, and the decoded
  records of \<open>decoder.go\<close>): diagnostics, facts, events, the durable checkpoint (\<open>ParserSeed\<close>)
  and the results. Enumerations are datatypes; a nil-able pointer is an \<open>option\<close>. The tagged
  union \<open>ParsedEvent\<close>, of which exactly the payload matching \<open>Kind\<close> is set, is a datatype.
\<close>

section \<open>Diagnostics\<close>

datatype DiagnosticClass =
  DiagnosticClassFraming | DiagnosticClassSyntax | DiagnosticClassCompatibility | DiagnosticClassLifecycle

datatype DiagnosticCode =
  DiagnosticEmptyLine | DiagnosticInvalidUTF8 | DiagnosticLineTooLong | DiagnosticBadJSON
| DiagnosticDuplicateJSONKey | DiagnosticInvalidTimestamp | DiagnosticInvalidField
| DiagnosticUnknownRolloutType | DiagnosticUnknownEventType | DiagnosticMissingSessionMeta
| DiagnosticMissingTurnStart | DiagnosticAmbiguousTurn | DiagnosticInvalidTransition
| DiagnosticOrphanTurnUsage | DiagnosticStateLimitExceeded | DiagnosticInvalidQuotaWindow
| DiagnosticInvalidQuotaSnapshot

record ParserDiagnostic =
  dg_Class :: DiagnosticClass
  dg_Code :: DiagnosticCode
  dg_StartOffset :: int64
  dg_EndOffset :: int64
  dg_Retryable :: bool

datatype parser_error =
  ErrInvalidParserConfig | ErrInvalidParserSeed | ErrNonContiguousChunk | ErrUnsupportedParserSource

section \<open>Facts\<close>

record TokenCounters =
  tc_InputTokens :: "int64 option"
  tc_CachedInputTokens :: "int64 option"
  tc_OutputTokens :: "int64 option"
  tc_ReasoningTokens :: "int64 option"

datatype TurnOutcome =
  TurnOutcomeCompleted | TurnOutcomeInterrupted | TurnOutcomeReplaced | TurnOutcomeReviewEnded
| TurnOutcomeBudgetLimited | TurnOutcomeOther string

datatype SourceKind =
  SourceKindSession | SourceKindArchivedSession | SourceKindSessionIndex | SourceKindOther string

record SourcePosition =
  sp_StartOffset :: int64
  sp_EndOffset :: int64

record SessionMetaFact =
  sm_SessionID :: string
  sm_RootSessionID :: string
  sm_SourceKind :: SourceKind
  sm_CreatedAtMS :: int64
  sm_ObservedAtMS :: int64
  sm_InitialCWD :: string
  sm_Originator :: string
  sm_CLIVersion :: string
  sm_Source :: string
  sm_ModelProvider :: string

record TurnStartFact =
  ts_SessionID :: string
  ts_TurnID :: string
  ts_StartedAtMS :: int64
  ts_ContextWindow :: "int64 option"

record TurnContextFact =
  cx_SessionID :: string
  cx_TurnID :: string
  cx_ObservedAtMS :: int64
  cx_CWD :: string
  cx_Model :: string
  cx_Effort :: "string option"

record TurnUsageFact =
  tu_SessionID :: string
  tu_TurnID :: string
  tu_ObservedAtMS :: int64
  tu_Usage :: TokenCounters
  tu_ContextWindow :: "int64 option"
  tu_IsFinal :: bool

record SessionUsageFact =
  su_SessionID :: string
  su_ObservedAtMS :: int64
  su_Usage :: TokenCounters
  su_ContextWindow :: "int64 option"

record TurnEndFact =
  te_SessionID :: string
  te_TurnID :: string
  te_CompletedAtMS :: int64
  te_Outcome :: TurnOutcome
  te_FinalUsage :: "TurnUsageFact option"

datatype QuotaSource = QuotaSourceLocalJSONL

datatype QuotaWindowKind = QuotaWindowPrimary | QuotaWindowSecondary

datatype QuotaValidity = QuotaValidityAccepted | QuotaValiditySuspicious | QuotaValidityRejected

datatype QuotaRejectionReason =
  QuotaReasonMissingLimitID | QuotaReasonMissingPrimaryWindow | QuotaReasonResetNotFuture
| QuotaReasonUnknownPlanType

record QuotaObservationFact =
  qo_SessionID :: string
  qo_AccountScope :: string
  qo_Source :: QuotaSource
  qo_LimitID :: "string option"
  qo_LimitName :: "string option"
  qo_WindowKind :: QuotaWindowKind
  qo_UsedPercent :: float64
  qo_WindowMinutes :: int64
  qo_ResetsAtMS :: int64
  qo_PlanType :: "string option"
  qo_ObservedAtMS :: int64
  qo_Validity :: QuotaValidity
  qo_RejectionReason :: "QuotaRejectionReason option"

datatype EventPayload =
  EventSessionMeta SessionMetaFact
| EventTurnStarted TurnStartFact
| EventTurnContext TurnContextFact
| EventTurnUsage TurnUsageFact
| EventSessionUsage SessionUsageFact
| EventTurnEnded TurnEndFact
| EventQuotaObservation QuotaObservationFact

record ParsedEvent =
  ev_Position :: SourcePosition
  ev_Payload :: EventPayload

section \<open>Checkpoint\<close>

record OpenTurnSeed =
  os_TurnID :: string
  os_StartedAtMS :: int64
  os_ContextWindow :: "int64 option"
  os_Context :: "TurnContextFact option"
  os_LatestUsage :: "TurnUsageFact option"

record PendingTurnContextSeed =
  pc_Position :: SourcePosition
  pc_ObservedAtMS :: int64
  pc_CWD :: string
  pc_Model :: string
  pc_Effort :: "string option"

record PendingTurnTerminalSeed =
  pt_Position :: SourcePosition
  pt_CompletedAtMS :: int64
  pt_Outcome :: TurnOutcome

record PendingTurnSeed =
  ps_TurnID :: string
  ps_Context :: "PendingTurnContextSeed option"
  ps_Terminal :: "PendingTurnTerminalSeed option"

record ClosedTurnSeed =
  cs_TurnID :: string
  cs_StartedAtMS :: int64
  cs_ContextWindow :: "int64 option"
  cs_Terminal :: TurnEndFact

record ParserSeed =
  sd_Session :: "SessionMetaFact option"
  sd_OpenTurns :: "OpenTurnSeed list"
  sd_PendingTurns :: "PendingTurnSeed list"
  sd_ClosedTurns :: "ClosedTurnSeed list"

record ParserConfig =
  pcf_SourceKind :: SourceKind
  pcf_StartOffset :: int64
  pcf_MaxLineBytes :: int
  pcf_Seed :: "ParserSeed option"

record ParseStats =
  st_CompleteLines :: int
  st_ParsedLines :: int
  st_KnownIgnoredLines :: int
  st_DiagnosticLines :: int
  st_EventsEmitted :: int

record ParseResult =
  pr_Events :: "ParsedEvent list"
  pr_Diagnostics :: "ParserDiagnostic list"
  pr_Stats :: ParseStats
  pr_ReadOffset :: int64
  pr_CommittableOffset :: int64
  pr_BufferedBytes :: int
  pr_NextSeed :: ParserSeed

section \<open>Decoded lines\<close>

record decodedSessionMetaRecord =
  ds_SessionID :: string
  ds_RootSessionID :: string
  ds_CreatedAtMS :: int64
  ds_InitialCWD :: string
  ds_Originator :: string
  ds_CLIVersion :: string
  ds_Source :: string
  ds_ModelProvider :: string

record decodedTurnContextRecord =
  dc_TurnID :: "string option"
  dc_CWD :: string
  dc_Model :: string
  dc_Effort :: "string option"

record decodedTurnStartRecord =
  dt_TurnID :: string
  dt_StartedAtMS :: int64
  dt_ContextWindow :: "int64 option"

record decodedTokenUsageRecord =
  du_ObservedAtMS :: int64
  du_Total :: TokenCounters
  du_Last :: TokenCounters
  du_ContextWindow :: "int64 option"

record decodedTurnTerminalRecord =
  de_TurnID :: "string option"
  de_CompletedAtMS :: int64
  de_Outcome :: TurnOutcome

text \<open>
  \<open>decodedLine\<close> carries a kind tag and one pointer per kind; the decoder sets the pointer of its
  kind and, for a token count, the quota observations and their diagnostics.
\<close>

datatype decodedKind =
  DecodedSessionMeta decodedSessionMetaRecord
| DecodedTurnContext decodedTurnContextRecord
| DecodedTurnStart decodedTurnStartRecord
| DecodedTokenUsage "decodedTokenUsageRecord option" "QuotaObservationFact list" "DiagnosticCode list"
| DecodedTurnTerminal decodedTurnTerminalRecord

record decodedLine =
  dl_ObservedAtMS :: int64
  dl_Kind :: decodedKind

datatype decodeResult =
  DecodeRecord decodedLine
| DecodeDiagnostic ParserDiagnostic
| DecodeKnownIgnored

section \<open>Limits\<close>

definition DefaultMaxLineBytes :: int where "DefaultMaxLineBytes = 16777216"
definition MaxSupportedLineBytes :: int where "MaxSupportedLineBytes = 67108864"
definition maxIdentifierBytes :: nat where "maxIdentifierBytes = 512"
definition maxMetadataBytes :: nat where "maxMetadataBytes = 4096"
definition maxOpenTurnStates :: nat where "maxOpenTurnStates = 64"
definition maxPendingTurnStates :: nat where "maxPendingTurnStates = 1024"
definition maxRetainedClosedTurnStates :: nat where "maxRetainedClosedTurnStates = 1024"

end
