(* ===== verification/Line_Framer.thy ===== *)
theory Line_Framer
  imports Rollout_Types
begin

text \<open>
  The line framer (\<open>src/internal/codex/logs/parser/framer.go\<close>): it cuts a byte stream that
  arrives in arbitrary chunks into lines, keeps the unfinished tail, and replaces a line above the
  size limit by one diagnostic. A reference definition, \<open>frames\<close>, cuts the whole stream at once;
  the lemmas show that every chunking computes it.
\<close>

record lineFrame =
  lf_StartOffset :: int64
  lf_EndOffset :: int64
  lf_Content :: string

record lineFrameResult =
  fr_Lines :: "lineFrame list"
  fr_Diagnostics :: "ParserDiagnostic list"
  fr_ReadOffset :: int64
  fr_CommittableOffset :: int64
  fr_BufferedBytes :: nat

record lineFramer =
  lr_readOffset :: int64
  lr_committableOffset :: int64
  lr_lineStartOffset :: int64
  lr_maxLineBytes :: int
  lr_buffer :: string
  lr_discarding :: bool

definition newLineFramer :: "int64 \<Rightarrow> int \<Rightarrow> parser_error + lineFramer" where
  "newLineFramer startOffset maxLineBytes =
     (if startOffset < 0 \<or> maxLineBytes \<le> 0 then Inl ErrInvalidParserConfig
      else Inr \<lparr>lr_readOffset = startOffset, lr_committableOffset = startOffset,
                lr_lineStartOffset = startOffset, lr_maxLineBytes = maxLineBytes,
                lr_buffer = [], lr_discarding = False\<rparr>)"

abbreviation NL :: char where "NL \<equiv> CHR 0x0A"
abbreviation CR :: char where "CR \<equiv> CHR 0x0D"

fun indexByte :: "string \<Rightarrow> char \<Rightarrow> nat option" where
  "indexByte [] c = None"
| "indexByte (x # xs) c = (if x = c then Some 0 else map_option Suc (indexByte xs c))"

definition tooLongDiagnostic :: "int64 \<Rightarrow> int64 \<Rightarrow> ParserDiagnostic" where
  "tooLongDiagnostic startOffset endOffset =
     \<lparr>dg_Class = DiagnosticClassFraming, dg_Code = DiagnosticLineTooLong,
      dg_StartOffset = startOffset, dg_EndOffset = endOffset, dg_Retryable = False\<rparr>"

text \<open>Whether the pending line, \<open>buffer\<close> followed by \<open>part\<close>, ends with a carriage return.\<close>

definition endsWithCarriageReturn :: "string \<Rightarrow> string \<Rightarrow> bool" where
  "endsWithCarriageReturn buffer part =
     (if part = [] \<and> buffer \<noteq> [] then last buffer = CR else part \<noteq> [] \<and> last part = CR)"

definition stripCR :: "string \<Rightarrow> string" where
  "stripCR content = (if content \<noteq> [] \<and> last content = CR then butlast content else content)"

lemma indexByte_Some: "indexByte xs c = Some n \<Longrightarrow> n < length xs"
  by (induction xs arbitrary: n) (auto split: if_splits)

text \<open>The loop of \<open>Feed\<close> over the rest of the chunk; \<open>off\<close> is \<open>startOffset + cursor\<close>.\<close>

function feedLoop ::
  "int64 \<Rightarrow> string \<Rightarrow> lineFramer \<Rightarrow> lineFrame list \<Rightarrow> ParserDiagnostic list \<Rightarrow>
   lineFramer \<times> lineFrame list \<times> ParserDiagnostic list" where
  "feedLoop off rest f lines diags =
     (if rest = [] then (f, lines, diags)
      else case indexByte rest NL of
        None \<Rightarrow>
          if lr_discarding f then (f, lines, diags)
          else
            (let combinedLength = int (length (lr_buffer f) + length rest)
             in if combinedLength > lr_maxLineBytes f \<and>
                   \<not> (combinedLength = lr_maxLineBytes f + 1 \<and>
                      endsWithCarriageReturn (lr_buffer f) rest)
                then (f\<lparr>lr_buffer := [], lr_discarding := True\<rparr>, lines, diags)
                else (f\<lparr>lr_buffer := lr_buffer f @ rest\<rparr>, lines, diags))
      | Some newline \<Rightarrow>
          (let endOffset = off + int (newline + 1);
               f' = f\<lparr>lr_buffer := [], lr_discarding := False,
                      lr_committableOffset := endOffset, lr_lineStartOffset := endOffset\<rparr>;
               rest' = drop (newline + 1) rest
           in if lr_discarding f
              then feedLoop endOffset rest' (f'\<lparr>lr_buffer := lr_buffer f\<rparr>) lines
                     (diags @ [tooLongDiagnostic (lr_lineStartOffset f) endOffset])
              else
                (let linePart = take newline rest;
                     combinedLength = int (length (lr_buffer f) + length linePart);
                     contentLength = (if endsWithCarriageReturn (lr_buffer f) linePart
                                      then combinedLength - 1 else combinedLength)
                 in if contentLength > lr_maxLineBytes f
                    then feedLoop endOffset rest' f' lines
                           (diags @ [tooLongDiagnostic (lr_lineStartOffset f) endOffset])
                    else feedLoop endOffset rest' f'
                           (lines @ [\<lparr>lf_StartOffset = lr_lineStartOffset f, lf_EndOffset = endOffset,
                                      lf_Content = stripCR (lr_buffer f @ linePart)\<rparr>]) diags)))"
  by pat_completeness auto
termination
  by (relation "measure (\<lambda>(_, rest, _). length rest)") (auto dest: indexByte_Some)

declare feedLoop.simps [simp del]

definition Feed :: "int64 \<Rightarrow> string \<Rightarrow> lineFramer \<Rightarrow> parser_error + (lineFrameResult \<times> lineFramer)" where
  "Feed startOffset chunk f =
     (if startOffset \<noteq> lr_readOffset f then Inl ErrNonContiguousChunk
      else if int (length chunk) > max_int64 - startOffset then Inl ErrInvalidParserConfig
      else
        (let (f1, lines, diags) = feedLoop startOffset chunk f [] [];
             f2 = f1\<lparr>lr_readOffset := startOffset + int (length chunk)\<rparr>
         in Inr (\<lparr>fr_Lines = lines, fr_Diagnostics = diags, fr_ReadOffset = lr_readOffset f2,
                  fr_CommittableOffset = lr_committableOffset f2,
                  fr_BufferedBytes = length (lr_buffer f2)\<rparr>, f2)))"

section \<open>Reference: cutting the whole stream\<close>

text \<open>The complete lines of a byte string, without their newline, and the unfinished tail.\<close>

fun splitLines :: "string \<Rightarrow> string list \<times> string" where
  "splitLines [] = ([], [])"
| "splitLines (c # cs) =
     (case splitLines cs of
        (ls, t) \<Rightarrow>
          if c = NL then ([] # ls, t)
          else case ls of [] \<Rightarrow> ([], c # t) | l # ls' \<Rightarrow> ((c # l) # ls', t))"

text \<open>One line at its offset: a frame of its content, or the diagnostic when it is too long.\<close>

definition lineItem :: "int \<Rightarrow> int64 \<Rightarrow> string \<Rightarrow> lineFrame + ParserDiagnostic" where
  "lineItem m off l =
     (if int (length (stripCR l)) > m then Inr (tooLongDiagnostic off (off + int (length l) + 1))
      else Inl \<lparr>lf_StartOffset = off, lf_EndOffset = off + int (length l) + 1, lf_Content = stripCR l\<rparr>)"

fun lineItems :: "int \<Rightarrow> int64 \<Rightarrow> string list \<Rightarrow> (lineFrame + ParserDiagnostic) list" where
  "lineItems m off [] = []"
| "lineItems m off (l # ls) = lineItem m off l # lineItems m (off + int (length l) + 1) ls"

definition frames :: "int \<Rightarrow> int64 \<Rightarrow> string \<Rightarrow> (lineFrame + ParserDiagnostic) list" where
  "frames m s d = lineItems m s (fst (splitLines d))"

fun lefts :: "('a + 'b) list \<Rightarrow> 'a list" where
  "lefts [] = []"
| "lefts (Inl x # r) = x # lefts r"
| "lefts (Inr _ # r) = lefts r"

fun rights :: "('a + 'b) list \<Rightarrow> 'b list" where
  "rights [] = []"
| "rights (Inr x # r) = x # rights r"
| "rights (Inl _ # r) = rights r"

definition longTail :: "int \<Rightarrow> string \<Rightarrow> bool" where
  "longTail m t \<longleftrightarrow> int (length t) > m \<and> \<not> (int (length t) = m + 1 \<and> t \<noteq> [] \<and> last t = CR)"

text \<open>The framer after the bytes \<open>d\<close> of a stream that starts at offset \<open>s\<close>.\<close>

definition framerAt :: "int \<Rightarrow> int64 \<Rightarrow> string \<Rightarrow> lineFramer" where
  "framerAt m s d =
     (let t = snd (splitLines d); lineStart = s + int (length d) - int (length t)
      in \<lparr>lr_readOffset = s + int (length d), lr_committableOffset = lineStart,
          lr_lineStartOffset = lineStart, lr_maxLineBytes = m,
          lr_buffer = (if longTail m t then [] else t), lr_discarding = longTail m t\<rparr>)"

section \<open>Lemmas: splitting\<close>

lemma lefts_append [simp]: "lefts (xs @ ys) = lefts xs @ lefts ys"
  by (induction xs rule: lefts.induct) auto

lemma rights_append [simp]: "rights (xs @ ys) = rights xs @ rights ys"
  by (induction xs rule: rights.induct) auto

lemma splitLines_no_NL: "NL \<notin> set x \<Longrightarrow> splitLines x = ([], x)"
  by (induction x) auto

lemma splitLines_append_part:
  "NL \<notin> set x \<Longrightarrow> splitLines (d @ x) = (fst (splitLines d), snd (splitLines d) @ x)"
  by (induction d) (auto simp: splitLines_no_NL split: prod.splits list.splits)

lemma splitLines_append_NL:
  "splitLines (d @ [NL]) = (fst (splitLines d) @ [snd (splitLines d)], [])"
  by (induction d) (auto split: prod.splits list.splits)

lemma splitLines_append_line:
  "NL \<notin> set x \<Longrightarrow>
   splitLines (d @ x @ [NL]) = (fst (splitLines d) @ [snd (splitLines d) @ x], [])"
  using splitLines_append_NL[of "d @ x"] by (simp add: splitLines_append_part)

text \<open>The lines and the tail put back together are the stream.\<close>

lemma splitLines_concat:
  "d = concat (map (\<lambda>l. l @ [NL]) (fst (splitLines d))) @ snd (splitLines d)"
  by (induction d) (auto split: prod.splits list.splits)

lemma splitLines_no_NL_in:
  "NL \<notin> set (snd (splitLines d)) \<and> (\<forall>l \<in> set (fst (splitLines d)). NL \<notin> set l)"
  by (induction d) (auto split: prod.splits list.splits)

lemma splitLines_length:
  "int (length d) = (\<Sum>l\<leftarrow>fst (splitLines d). int (length l) + 1) + int (length (snd (splitLines d)))"
  by (induction d) (auto split: prod.splits list.splits)

lemma lineItems_snoc:
  "lineItems m off (ls @ [l]) =
   lineItems m off ls @ [lineItem m (off + (\<Sum>l\<leftarrow>ls. int (length l) + 1)) l]"
  by (induction ls arbitrary: off) (auto simp: add.assoc)

lemma frames_append_part: "NL \<notin> set x \<Longrightarrow> frames m s (d @ x) = frames m s d"
  by (simp add: frames_def splitLines_append_part)

lemma frames_append_line:
  assumes "NL \<notin> set x"
  shows "frames m s (d @ x @ [NL]) =
    frames m s d @ [lineItem m (s + int (length d) - int (length (snd (splitLines d)))) (snd (splitLines d) @ x)]"
  unfolding frames_def splitLines_append_line[OF assms] fst_conv lineItems_snoc
  using splitLines_length[of d] by simp

lemma indexByte_None: "indexByte xs c = None \<longleftrightarrow> c \<notin> set xs"
  by (induction xs) (auto split: if_splits)

lemma indexByte_split:
  "indexByte xs c = Some n \<Longrightarrow> xs = take n xs @ [c] @ drop (n + 1) xs \<and> c \<notin> set (take n xs)"
  by (induction xs arbitrary: n) (auto split: if_splits)

section \<open>Lemmas: the loop computes the reference\<close>

lemma ecr_append: "endsWithCarriageReturn b p \<longleftrightarrow> b @ p \<noteq> [] \<and> last (b @ p) = CR"
  by (auto simp: endsWithCarriageReturn_def)

lemma length_stripCR:
  "int (length (stripCR l)) = (if l \<noteq> [] \<and> last l = CR then int (length l) - 1 else int (length l))"
  by (cases l rule: rev_cases) (auto simp: stripCR_def)

lemma longTail_append:
  assumes "longTail m t" and "x \<noteq> []"
  shows "longTail m (t @ x)"
proof -
  have "int (length x) \<ge> 1" using assms(2) by (cases x) auto
  then show ?thesis using assms(1) by (auto simp: longTail_def)
qed

lemma longTail_line: "longTail m t \<Longrightarrow> m < int (length (stripCR (t @ x)))"
  by (cases x) (auto simp: longTail_def length_stripCR)

lemma framerAt_simps [simp]:
  "lr_readOffset (framerAt m s d) = s + int (length d)"
  "lr_maxLineBytes (framerAt m s d) = m"
  "lr_committableOffset (framerAt m s d) = s + int (length d) - int (length (snd (splitLines d)))"
  "lr_lineStartOffset (framerAt m s d) = s + int (length d) - int (length (snd (splitLines d)))"
  "lr_buffer (framerAt m s d) = (if longTail m (snd (splitLines d)) then [] else snd (splitLines d))"
  "lr_discarding (framerAt m s d) = longTail m (snd (splitLines d))"
  by (simp_all add: framerAt_def Let_def)

lemma not_longTail_Nil [simp]: "0 \<le> m \<Longrightarrow> \<not> longTail m []"
  by (simp add: longTail_def)

lemma framerAt_eq:
  "snd (splitLines d) = t \<Longrightarrow> framerAt m s d =
     \<lparr>lr_readOffset = s + int (length d), lr_committableOffset = s + int (length d) - int (length t),
      lr_lineStartOffset = s + int (length d) - int (length t), lr_maxLineBytes = m,
      lr_buffer = (if longTail m t then [] else t), lr_discarding = longTail m t\<rparr>"
  by (simp add: framerAt_def Let_def)

lemma feedLoop_tail:
  assumes "rest \<noteq> []" and "indexByte rest NL = None" and "\<not> lr_discarding f"
  shows "feedLoop off rest f L D =
    (if longTail (lr_maxLineBytes f) (lr_buffer f @ rest)
     then (f\<lparr>lr_buffer := [], lr_discarding := True\<rparr>, L, D)
     else (f\<lparr>lr_buffer := lr_buffer f @ rest\<rparr>, L, D))"
proof -
  have "longTail (lr_maxLineBytes f) (lr_buffer f @ rest) \<longleftrightarrow>
      int (length (lr_buffer f) + length rest) > lr_maxLineBytes f \<and>
      \<not> (int (length (lr_buffer f) + length rest) = lr_maxLineBytes f + 1 \<and>
         endsWithCarriageReturn (lr_buffer f) rest)"
    by (auto simp: longTail_def ecr_append)
  with assms show ?thesis unfolding feedLoop.simps[of off rest f L D] Let_def by (simp only: if_False option.case)
qed

lemma feedLoop_part:
  assumes "NL \<notin> set x" and "0 \<le> m"
  shows "feedLoop (s + int (length d)) x ((framerAt m s d)\<lparr>lr_readOffset := r\<rparr>) L D =
    ((framerAt m s (d @ x))\<lparr>lr_readOffset := r\<rparr>, L, D)"
proof (cases "x = []")
  case True
  then show ?thesis by (simp add: feedLoop.simps)
next
  case False
  let ?t = "snd (splitLines d)"
  have t: "snd (splitLines (d @ x)) = ?t @ x" using assms(1) by (simp add: splitLines_append_part)
  have i: "indexByte x NL = None" using assms(1) by (simp add: indexByte_None)
  note fd = framerAt_eq[OF refl, of m s d] and fdx = framerAt_eq[OF t, of m s]
  show ?thesis
  proof (cases "longTail m ?t")
    case True
    then have "longTail m (?t @ x)" using False by (rule longTail_append)
    with True False i show ?thesis unfolding fd fdx by (simp add: feedLoop.simps)
  next
    case nl: False
    with False i show ?thesis
      unfolding fd fdx by (subst feedLoop_tail) simp_all
  qed
qed

lemma feedLoop_line:
  assumes "NL \<notin> set x" and "0 \<le> m"
    and step: "feedLoop (s + int (length (d @ x @ [NL]))) rest ((framerAt m s (d @ x @ [NL]))\<lparr>lr_readOffset := r\<rparr>)
        (L @ lefts [lineItem m (s + int (length d) - int (length (snd (splitLines d)))) (snd (splitLines d) @ x)])
        (D @ rights [lineItem m (s + int (length d) - int (length (snd (splitLines d)))) (snd (splitLines d) @ x)])
      = res"
  shows "feedLoop (s + int (length d)) (x @ NL # rest) ((framerAt m s d)\<lparr>lr_readOffset := r\<rparr>) L D = res"
proof -
  let ?t = "snd (splitLines d)"
  have i: "indexByte (x @ NL # rest) NL = Some (length x)"
    using assms(1) by (induction x) auto
  have tl: "snd (splitLines (d @ x @ [NL])) = []" using splitLines_append_line[OF assms(1)] by simp
  have f: "framerAt m s (d @ x @ [NL]) = \<lparr>lr_readOffset = s + int (length d) + int (length x) + 1,
      lr_committableOffset = s + int (length d) + int (length x) + 1,
      lr_lineStartOffset = s + int (length d) + int (length x) + 1, lr_maxLineBytes = m,
      lr_buffer = [], lr_discarding = False\<rparr>"
    using framerAt_eq[OF tl, of m s] assms(2) by simp
  note fd = framerAt_eq[OF refl, of m s d] and st = step[unfolded f]
  show ?thesis
  proof (cases "longTail m ?t")
    case True
    with i st longTail_line[OF True, of x] show ?thesis
      unfolding fd by (simp add: feedLoop.simps[of _ "x @ NL # rest"] lineItem_def algebra_simps)
  next
    case False
    have c: "(if endsWithCarriageReturn ?t x then int (length ?t + length x) - 1 else int (length ?t + length x))
        = int (length (stripCR (?t @ x)))"
      by (simp add: length_stripCR ecr_append)
    show ?thesis
    proof (cases "m < int (length (stripCR (?t @ x)))")
      case True
      with False i st c show ?thesis
        unfolding fd by (cases "endsWithCarriageReturn ?t x")
          (simp_all add: feedLoop.simps[of _ "x @ NL # rest"] lineItem_def algebra_simps)
    next
      case short: False
      with False i st c show ?thesis
        unfolding fd by (cases "endsWithCarriageReturn ?t x")
          (simp_all add: feedLoop.simps[of _ "x @ NL # rest"] lineItem_def algebra_simps)
    qed
  qed
qed

lemma feedLoop_frames:
  assumes "0 \<le> m"
  shows "\<exists>new. frames m s (d @ rest) = frames m s d @ new \<and>
    feedLoop (s + int (length d)) rest ((framerAt m s d)\<lparr>lr_readOffset := r\<rparr>) L D =
      ((framerAt m s (d @ rest))\<lparr>lr_readOffset := r\<rparr>, L @ lefts new, D @ rights new)"
proof (induction rest arbitrary: d L D rule: length_induct)
  case (1 rest)
  show ?case
  proof (cases "indexByte rest NL")
    case None
    then have "NL \<notin> set rest" by (simp add: indexByte_None)
    with feedLoop_part[OF this assms] frames_append_part[OF this] show ?thesis by (intro exI[of _ "[]"]) simp
  next
    case (Some n)
    define x rest' where "x = take n rest" and "rest' = drop (n + 1) rest"
    have x: "rest = x @ NL # rest'" "NL \<notin> set x"
      using indexByte_split[OF Some] by (simp_all add: x_def rest'_def)
    let ?it = "lineItem m (s + int (length d) - int (length (snd (splitLines d)))) (snd (splitLines d) @ x)"
    from 1[rule_format, of rest' "d @ x @ [NL]" "L @ lefts [?it]" "D @ rights [?it]"] x(1)
    obtain new where n: "frames m s ((d @ x @ [NL]) @ rest') = frames m s (d @ x @ [NL]) @ new"
      "feedLoop (s + int (length (d @ x @ [NL]))) rest' ((framerAt m s (d @ x @ [NL]))\<lparr>lr_readOffset := r\<rparr>)
         (L @ lefts [?it]) (D @ rights [?it]) =
       ((framerAt m s ((d @ x @ [NL]) @ rest'))\<lparr>lr_readOffset := r\<rparr>,
         (L @ lefts [?it]) @ lefts new, (D @ rights [?it]) @ rights new)"
      by auto
    have "frames m s (d @ rest) = frames m s d @ (?it # new)"
      using n(1) frames_append_line[OF x(2)] x(1) by simp
    moreover have "lefts (?it # new) = lefts [?it] @ lefts new" "rights (?it # new) = rights [?it] @ rights new"
      using lefts_append[of "[?it]" new] rights_append[of "[?it]" new] by simp_all
    moreover note feedLoop_line[OF x(2) assms n(2)]
    ultimately show ?thesis using x(1) by (intro exI[of _ "?it # new"]) simp
  qed
qed

lemma Feed_frames:
  assumes "0 \<le> m" and "s + int (length d) + int (length c) \<le> max_int64"
  shows "\<exists>new. frames m s (d @ c) = frames m s d @ new \<and>
    Feed (s + int (length d)) c (framerAt m s d) =
      Inr (\<lparr>fr_Lines = lefts new, fr_Diagnostics = rights new, fr_ReadOffset = s + int (length (d @ c)),
            fr_CommittableOffset = lr_committableOffset (framerAt m s (d @ c)),
            fr_BufferedBytes = length (lr_buffer (framerAt m s (d @ c)))\<rparr>, framerAt m s (d @ c))"
proof -
  have u: "f\<lparr>lr_readOffset := lr_readOffset f\<rparr> = f" for f :: lineFramer by simp
  from feedLoop_frames[OF assms(1), of s d c "lr_readOffset (framerAt m s d)" "[]" "[]"] obtain new where
    n: "frames m s (d @ c) = frames m s d @ new"
      "feedLoop (s + int (length d)) c (framerAt m s d) [] [] =
        ((framerAt m s (d @ c))\<lparr>lr_readOffset := lr_readOffset (framerAt m s d)\<rparr>, lefts new, rights new)"
    unfolding u by auto
  have r: "(framerAt m s (d @ c))\<lparr>lr_readOffset := s + int (length d) + int (length c)\<rparr> = framerAt m s (d @ c)"
    by (simp add: framerAt_def Let_def)
  from n assms(2) show ?thesis by (intro exI[of _ new]) (simp add: Feed_def r add.assoc)
qed

section \<open>Lemmas: runs and restarts\<close>

text \<open>A run of the framer over contiguous chunks, collecting what each call returns.\<close>

fun feedChunks ::
  "string list \<Rightarrow> lineFramer \<Rightarrow> parser_error + (lineFrame list \<times> ParserDiagnostic list \<times> lineFramer)" where
  "feedChunks [] f = Inr ([], [], f)"
| "feedChunks (c # cs) f =
     (case Feed (lr_readOffset f) c f of
        Inl e \<Rightarrow> Inl e
      | Inr (r, f') \<Rightarrow>
          (case feedChunks cs f' of
             Inl e \<Rightarrow> Inl e
           | Inr (ls, ds, f'') \<Rightarrow> Inr (fr_Lines r @ ls, fr_Diagnostics r @ ds, f'')))"

lemma feedChunks_frames:
  assumes "0 \<le> m" and "s + int (length d) + int (length (concat cs)) \<le> max_int64"
  shows "\<exists>new. frames m s (d @ concat cs) = frames m s d @ new \<and>
    feedChunks cs (framerAt m s d) = Inr (lefts new, rights new, framerAt m s (d @ concat cs))"
  using assms(2)
proof (induction cs arbitrary: d)
  case Nil
  then show ?case by simp
next
  case (Cons c cs)
  have "s + int (length d) + int (length c) \<le> max_int64" using Cons.prems by simp
  from Feed_frames[OF assms(1) this] obtain n1 where
    n1: "frames m s (d @ c) = frames m s d @ n1"
    "Feed (s + int (length d)) c (framerAt m s d) =
      Inr (\<lparr>fr_Lines = lefts n1, fr_Diagnostics = rights n1, fr_ReadOffset = s + int (length (d @ c)),
            fr_CommittableOffset = lr_committableOffset (framerAt m s (d @ c)),
            fr_BufferedBytes = length (lr_buffer (framerAt m s (d @ c)))\<rparr>, framerAt m s (d @ c))" by blast
  from Cons.prems have "s + int (length (d @ c)) + int (length (concat cs)) \<le> max_int64" by simp
  from Cons.IH[OF this] obtain n2 where
    n2: "frames m s ((d @ c) @ concat cs) = frames m s (d @ c) @ n2"
    "feedChunks cs (framerAt m s (d @ c)) = Inr (lefts n2, rights n2, framerAt m s ((d @ c) @ concat cs))" by blast
  have "frames m s (d @ concat (c # cs)) = frames m s d @ n1 @ n2" using n1(1) n2(1) by simp
  moreover have "feedChunks (c # cs) (framerAt m s d) =
      Inr (lefts (n1 @ n2), rights (n1 @ n2), framerAt m s (d @ concat (c # cs)))"
    using n1(2) n2(2) by simp
  ultimately show ?case by blast
qed

lemma newLineFramer_at:
  assumes "newLineFramer s m = Inr f"
  shows "f = framerAt m s []" and "0 < m" and "0 \<le> s"
  using assms by (auto simp: newLineFramer_def framerAt_def Let_def split: if_splits)

text \<open>Restarting at the committable offset on the bytes from there loses nothing.\<close>

lemma splitLines_append:
  "splitLines (d @ e) =
     (fst (splitLines d) @ fst (splitLines (snd (splitLines d) @ e)), snd (splitLines (snd (splitLines d) @ e)))"
  by (induction d) (auto split: prod.splits list.splits)

lemma lineItems_append:
  "lineItems m off (ls @ ls') =
   lineItems m off ls @ lineItems m (off + (\<Sum>l\<leftarrow>ls. int (length l) + 1)) ls'"
  by (induction ls arbitrary: off) (auto simp: add.assoc)

lemma frames_restart:
  "frames m s (d @ e) = frames m s d @ frames m (lr_committableOffset (framerAt m s d)) (snd (splitLines d) @ e)"
  unfolding frames_def splitLines_append[of d e] fst_conv lineItems_append
  using splitLines_length[of d] by simp

lemma framerAt_restart:
  "framerAt m s (d @ e) = framerAt m (lr_committableOffset (framerAt m s d)) (snd (splitLines d) @ e)"
  using splitLines_length[of d] by (simp add: framerAt_def Let_def splitLines_append[of d e])

lemma tail_drop:
  "snd (splitLines d) = drop (nat (lr_committableOffset (framerAt m s d) - s)) d"
proof -
  let ?b = "concat (map (\<lambda>l. l @ [NL]) (fst (splitLines d)))"
  have c: "d = ?b @ snd (splitLines d)" by (rule splitLines_concat)
  then have l: "length d = length ?b + length (snd (splitLines d))" by (metis length_append)
  then have "nat (lr_committableOffset (framerAt m s d) - s) = length ?b" by simp
  moreover have "drop (length ?b) d = snd (splitLines d)" by (subst c) simp
  ultimately show ?thesis by simp
qed

text \<open>The items tile the stream from its start to the committable offset.\<close>

fun itemStart :: "lineFrame + ParserDiagnostic \<Rightarrow> int64" where
  "itemStart (Inl l) = lf_StartOffset l"
| "itemStart (Inr d) = dg_StartOffset d"

fun itemEnd :: "lineFrame + ParserDiagnostic \<Rightarrow> int64" where
  "itemEnd (Inl l) = lf_EndOffset l"
| "itemEnd (Inr d) = dg_EndOffset d"

fun tiles :: "int64 \<Rightarrow> (lineFrame + ParserDiagnostic) list \<Rightarrow> int64 \<Rightarrow> bool" where
  "tiles a [] b \<longleftrightarrow> a = b"
| "tiles a (i # is) b \<longleftrightarrow> itemStart i = a \<and> a < itemEnd i \<and> tiles (itemEnd i) is b"

lemma lineItem_span [simp]:
  "itemStart (lineItem m off l) = off" "itemEnd (lineItem m off l) = off + int (length l) + 1"
  by (simp_all add: lineItem_def tooLongDiagnostic_def)

lemma tiles_lineItems: "tiles off (lineItems m off ls) (off + (\<Sum>l\<leftarrow>ls. int (length l) + 1))"
proof (induction ls arbitrary: off)
  case (Cons l ls)
  from Cons[of "off + int (length l) + 1"] show ?case by (simp add: add.assoc)
qed simp

lemma tiles_frames: "tiles s (frames m s d) (lr_committableOffset (framerAt m s d))"
  using tiles_lineItems[of s m "fst (splitLines d)"] splitLines_length[of d]
  by (simp add: frames_def algebra_simps)

lemma tiles_append: "tiles a (xs @ ys) b \<longleftrightarrow> (\<exists>c. tiles a xs c \<and> tiles c ys b)"
  by (induction xs arbitrary: a) auto

lemma tiles_le: "tiles a is b \<Longrightarrow> a \<le> b"
  by (induction "is" arbitrary: a) force+

lemma tiles_within: "tiles a is b \<Longrightarrow> i \<in> set is \<Longrightarrow> a \<le> itemStart i \<and> itemStart i < itemEnd i \<and> itemEnd i \<le> b"
proof (induction "is" arbitrary: a)
  case (Cons j "is")
  then have "itemEnd j \<le> b" using tiles_le[of "itemEnd j" "is" b] by simp
  with Cons show ?case by fastforce
qed simp

section \<open>Properties\<close>

text \<open>C9: Chunking is irrelevant. However a byte stream is cut into chunks, feeding the chunks to a
  fresh framer returns exactly the lines and the too-long diagnostics of the whole stream cut at its
  newlines (the carriage return of a CRLF ending is removed and does not count against the limit),
  the framer ends in a state that depends on the stream alone, and the lines and diagnostics tile the
  stream from its start to the committable offset, which is just after the last newline.\<close>

theorem framer_chunking_irrelevant:
  assumes "newLineFramer s m = Inr f" and "s + int (length (concat chunks)) \<le> max_int64"
  shows "\<exists>f'. feedChunks chunks f =
      Inr (lefts (frames m s (concat chunks)), rights (frames m s (concat chunks)), f') \<and>
    tiles s (frames m s (concat chunks)) (lr_committableOffset f') \<and>
    lr_readOffset f' = s + int (length (concat chunks)) \<and>
    f' = framerAt m s (concat chunks) \<and>
    NL \<notin> set (drop (nat (lr_committableOffset f' - s)) (concat chunks))"
proof -
  note f = newLineFramer_at[OF assms(1)]
  have z: "frames m s [] = []" by (simp add: frames_def)
  from feedChunks_frames[of m s "[]" chunks] f assms(2) z
  have "feedChunks chunks f = Inr (lefts (frames m s (concat chunks)), rights (frames m s (concat chunks)),
      framerAt m s (concat chunks))" by auto
  moreover have "NL \<notin> set (drop (nat (lr_committableOffset (framerAt m s (concat chunks)) - s)) (concat chunks))"
    unfolding tail_drop[symmetric] using splitLines_no_NL_in by blast
  ultimately show ?thesis using tiles_frames by (intro exI[of _ "framerAt m s (concat chunks)"]) simp
qed

definition ex_stream :: "string list" where
  "ex_stream = [''ab'', [CR], [NL, CHR ''c''], ''defgh'', [NL, CHR ''x'']]"

theorem framer_chunking_irrelevant_witness:
  "\<exists>f f'. newLineFramer 10 3 = Inr f \<and>
     feedChunks ex_stream f = Inr ([\<lparr>lf_StartOffset = 10, lf_EndOffset = 14, lf_Content = ''ab''\<rparr>],
       [tooLongDiagnostic 14 21], f') \<and> lr_committableOffset f' = 21 \<and> lr_buffer f' = ''x''"
proof -
  define f where "f = framerAt 3 10 []"
  have n: "newLineFramer 10 3 = Inr f" unfolding f_def by code_simp
  have b: "10 + int (length (concat ex_stream)) \<le> max_int64" by code_simp
  have e: "lefts (frames 3 10 (concat ex_stream)) = [\<lparr>lf_StartOffset = 10, lf_EndOffset = 14, lf_Content = ''ab''\<rparr>]"
    "rights (frames 3 10 (concat ex_stream)) = [tooLongDiagnostic 14 21]"
    "lr_committableOffset (framerAt 3 10 (concat ex_stream)) = 21"
    "lr_buffer (framerAt 3 10 (concat ex_stream)) = ''x''" by code_simp+
  from framer_chunking_irrelevant[OF n b] e n show ?thesis by auto
qed

end
