(* ===== verification/Rollout_Decoder.thy ===== *)
theory Rollout_Decoder
  imports Line_Framer
begin

text \<open>
  The line decoder (\<open>src/internal/codex/logs/parser/decoder.go\<close>) and the JSON shape check it
  calls first (\<open>src/internal/jsonshape/validate.go\<close>). The scanner and the parser of
  \<open>encoding/json\<close>, its Unicode case folding of keys, \<open>time.Parse\<close> and the reading of a float
  literal are the fields of \<open>rollout_env\<close>; what \<open>json.Unmarshal\<close> does with a parsed value
  and a Go struct (matching of keys exactly or by folding, the last match winning, nil for
  \<open>null\<close>, an error for a value of another type) is written out. A \<open>json.RawMessage\<close> is
  \<open>None\<close> when the key is absent and the parsed value otherwise.
\<close>

datatype json =
  JNull | JBool bool | JNum string | JStr string | JArr "json list" | JObj "(string \<times> json) list"

datatype jtoken = TDelim char | TString string | TScalar

record rollout_env =
  re_tokens :: "string \<Rightarrow> jtoken list"
  re_clean :: "string \<Rightarrow> bool"
  re_parse :: "string \<Rightarrow> json option"
  re_fold :: "string \<Rightarrow> string"
  re_time :: "string \<Rightarrow> int64 option"
  re_float :: "string \<Rightarrow> float64 option"

section \<open>JSON shape\<close>

datatype shape_error = ErrDuplicateKey | ErrShape | ErrFuel

text \<open>
  The tokens are those \<open>Decoder.Token\<close> returns up to the end or the first syntax error. The
  recursion is bounded by the number of tokens; \<open>ErrFuel\<close> is proved unreachable.
\<close>

fun validateValue :: "nat \<Rightarrow> jtoken list \<Rightarrow> shape_error + jtoken list"
  and validateMembers :: "nat \<Rightarrow> string list \<Rightarrow> jtoken list \<Rightarrow> shape_error + jtoken list"
  and validateElements :: "nat \<Rightarrow> jtoken list \<Rightarrow> shape_error + jtoken list" where
  "validateValue 0 ts = Inl ErrFuel"
| "validateValue (Suc n) ts =
     (case ts of
        [] \<Rightarrow> Inl ErrShape
      | TDelim d # r \<Rightarrow>
          if d = CHR ''{'' then validateMembers n [] r
          else if d = CHR ''['' then validateElements n r
          else Inl ErrShape
      | _ # r \<Rightarrow> Inr r)"
| "validateMembers 0 seen ts = Inl ErrFuel"
| "validateMembers (Suc n) seen ts =
     (case ts of
        TString key # r \<Rightarrow>
          if key \<in> set seen then Inl ErrDuplicateKey
          else (case validateValue n r of
                  Inl e \<Rightarrow> Inl e
                | Inr r' \<Rightarrow> validateMembers n (key # seen) r')
      | TDelim d # r \<Rightarrow> if d = CHR ''}'' then Inr r else Inl ErrShape
      | _ \<Rightarrow> Inl ErrShape)"
| "validateElements 0 ts = Inl ErrFuel"
| "validateElements (Suc n) ts =
     (case ts of
        [] \<Rightarrow> Inl ErrShape
      | t # r \<Rightarrow>
          if t = TDelim (CHR '']'') then Inr r
          else if t = TDelim (CHR ''}'') then Inl ErrShape
          else (case validateValue n ts of
                  Inl e \<Rightarrow> Inl e
                | Inr r' \<Rightarrow> validateElements n r'))"

definition ValidateDocument :: "rollout_env \<Rightarrow> string \<Rightarrow> shape_error option" where
  "ValidateDocument env content =
     (let ts = re_tokens env content
      in case validateValue (2 * length ts + 1) ts of
           Inl e \<Rightarrow> Some e
         | Inr r \<Rightarrow> if r = [] \<and> re_clean env content then None else Some ErrShape)"

section \<open>UTF-8\<close>

definition byteIn :: "nat \<Rightarrow> nat \<Rightarrow> char \<Rightarrow> bool" where
  "byteIn lo hi c \<longleftrightarrow> lo \<le> of_char c \<and> of_char c \<le> hi"

fun utf8Valid :: "string \<Rightarrow> bool" where
  "utf8Valid [] = True"
| "utf8Valid (a # r) =
     (if byteIn 0 0x7F a then utf8Valid r
      else if byteIn 0xC2 0xDF a
      then (case r of b # r' \<Rightarrow> byteIn 0x80 0xBF b \<and> utf8Valid r' | _ \<Rightarrow> False)
      else if byteIn 0xE0 0xEF a
      then (case r of
              b # c # r' \<Rightarrow>
                byteIn (if of_char a = (0xE0 :: nat) then 0xA0 else 0x80)
                       (if of_char a = (0xED :: nat) then 0x9F else 0xBF) b \<and>
                byteIn 0x80 0xBF c \<and> utf8Valid r'
            | _ \<Rightarrow> False)
      else if byteIn 0xF0 0xF4 a
      then (case r of
              b # c # d # r' \<Rightarrow>
                byteIn (if of_char a = (0xF0 :: nat) then 0x90 else 0x80)
                       (if of_char a = (0xF4 :: nat) then 0x8F else 0xBF) b \<and>
                byteIn 0x80 0xBF c \<and> byteIn 0x80 0xBF d \<and> utf8Valid r'
            | _ \<Rightarrow> False)
      else False)"

section \<open>Unmarshalling\<close>

fun parseDigits :: "string \<Rightarrow> int option" where
  "parseDigits [] = None"
| "parseDigits cs =
     foldl (\<lambda>acc c. case acc of
               None \<Rightarrow> None
             | Some n \<Rightarrow> if byteIn 48 57 c then Some (n * 10 + (of_char c - 48)) else None)
           (Some 0) cs"

definition parseInt64 :: "string \<Rightarrow> int64 option" where
  "parseInt64 s =
     (case (case s of
              [] \<Rightarrow> None
            | c # cs \<Rightarrow> if c = CHR ''-'' then map_option uminus (parseDigits cs) else parseDigits s) of
        None \<Rightarrow> None
      | Some n \<Rightarrow> if in64 n then Some n else None)"

definition resolveField :: "rollout_env \<Rightarrow> string list \<Rightarrow> string \<Rightarrow> string option" where
  "resolveField env names key =
     (if key \<in> set names then Some key
      else find (\<lambda>n. re_fold env n = re_fold env key) names)"

definition fieldValues :: "rollout_env \<Rightarrow> string list \<Rightarrow> (string \<times> json) list \<Rightarrow> string \<Rightarrow> json list" where
  "fieldValues env names kvs f =
     map snd (filter (\<lambda>(k, _). resolveField env names k = Some f) kvs)"

text \<open>The members of a value decoded into a struct: \<open>None\<close> is an error, \<open>null\<close> sets nothing.\<close>

definition structMembers :: "json option \<Rightarrow> (string \<times> json) list option" where
  "structMembers raw =
     (case raw of
        Some (JObj kvs) \<Rightarrow> Some kvs
      | Some JNull \<Rightarrow> Some []
      | _ \<Rightarrow> None)"

definition rawField :: "json list \<Rightarrow> json option" where
  "rawField vs = (if vs = [] then None else Some (last vs))"

definition intPtr :: "json \<Rightarrow> int64 option option" where
  "intPtr v = (case v of JNull \<Rightarrow> Some None | JNum s \<Rightarrow> map_option Some (parseInt64 s) | _ \<Rightarrow> None)"

definition floatPtr :: "rollout_env \<Rightarrow> json \<Rightarrow> float64 option option" where
  "floatPtr env v = (case v of JNull \<Rightarrow> Some None | JNum s \<Rightarrow> map_option Some (re_float env s) | _ \<Rightarrow> None)"

text \<open>A pointer field over the values of its keys, from what the struct held before.\<close>

definition ptrField :: "(json \<Rightarrow> 'a option option) \<Rightarrow> 'a option \<Rightarrow> json list \<Rightarrow> 'a option option" where
  "ptrField dec before vs =
     foldl (\<lambda>acc v. case acc of None \<Rightarrow> None | Some _ \<Rightarrow> dec v) (Some before) vs"

record tokenUsagePayload =
  tp_InputTokens :: "int64 option"
  tp_CachedInputTokens :: "int64 option"
  tp_OutputTokens :: "int64 option"
  tp_ReasoningOutputTokens :: "int64 option"
  tp_TotalTokens :: "int64 option"

definition usageNames :: "string list" where
  "usageNames = [''input_tokens'', ''cached_input_tokens'', ''output_tokens'',
     ''reasoning_output_tokens'', ''total_tokens'']"

definition usageStruct ::
  "rollout_env \<Rightarrow> tokenUsagePayload \<Rightarrow> (string \<times> json) list \<Rightarrow> tokenUsagePayload option" where
  "usageStruct env b kvs =
     (let get = (\<lambda>f before. ptrField intPtr before (fieldValues env usageNames kvs f))
      in case (get ''input_tokens'' (tp_InputTokens b), get ''cached_input_tokens'' (tp_CachedInputTokens b),
               get ''output_tokens'' (tp_OutputTokens b),
               get ''reasoning_output_tokens'' (tp_ReasoningOutputTokens b),
               get ''total_tokens'' (tp_TotalTokens b)) of
           (Some i, Some c, Some q, Some r, Some t) \<Rightarrow>
             Some \<lparr>tp_InputTokens = i, tp_CachedInputTokens = c, tp_OutputTokens = q,
                   tp_ReasoningOutputTokens = r, tp_TotalTokens = t\<rparr>
         | _ \<Rightarrow> None)"

definition emptyUsage :: tokenUsagePayload where
  "emptyUsage = \<lparr>tp_InputTokens = None, tp_CachedInputTokens = None, tp_OutputTokens = None,
     tp_ReasoningOutputTokens = None, tp_TotalTokens = None\<rparr>"

definition usagePtr :: "rollout_env \<Rightarrow> tokenUsagePayload option \<Rightarrow> json \<Rightarrow> tokenUsagePayload option option" where
  "usagePtr env before v =
     (case v of
        JNull \<Rightarrow> Some None
      | JObj kvs \<Rightarrow>
          map_option Some (usageStruct env (case before of None \<Rightarrow> emptyUsage | Some b \<Rightarrow> b) kvs)
      | _ \<Rightarrow> None)"

definition usageField :: "rollout_env \<Rightarrow> json list \<Rightarrow> tokenUsagePayload option option" where
  "usageField env vs =
     foldl (\<lambda>acc v. case acc of None \<Rightarrow> None | Some before \<Rightarrow> usagePtr env before v) (Some None) vs"

section \<open>Scalars\<close>

definition decodeRequiredString :: "json option \<Rightarrow> nat \<Rightarrow> string option" where
  "decodeRequiredString raw maxBytes =
     (case raw of
        Some (JStr value) \<Rightarrow> if value = [] \<or> length value > maxBytes then None else Some value
      | _ \<Rightarrow> None)"

definition absent :: "json option \<Rightarrow> bool" where
  "absent raw \<longleftrightarrow> raw = None \<or> raw = Some JNull"

definition decodeOptionalString :: "json option \<Rightarrow> nat \<Rightarrow> string option option" where
  "decodeOptionalString raw maxBytes =
     (if absent raw then Some None else map_option Some (decodeRequiredString raw maxBytes))"

definition decodeOptionalStringValue :: "json option \<Rightarrow> nat \<Rightarrow> string option" where
  "decodeOptionalStringValue raw maxBytes =
     (case decodeOptionalString raw maxBytes of
        None \<Rightarrow> None
      | Some None \<Rightarrow> Some []
      | Some (Some v) \<Rightarrow> Some v)"

definition decodeTimestamp :: "rollout_env \<Rightarrow> json option \<Rightarrow> int64 option" where
  "decodeTimestamp env raw =
     (case decodeRequiredString raw 128 of
        None \<Rightarrow> None
      | Some value \<Rightarrow>
          (case re_time env value of
             None \<Rightarrow> None
           | Some ms \<Rightarrow> if ms < 0 then None else Some ms))"

definition scalarSources :: "string list" where
  "scalarSources = [''cli'', ''vscode'', ''exec'', ''mcp'', ''unknown'']"

definition taggedSources :: "string list" where
  "taggedSources = [''custom'', ''internal'', ''subagent'']"

definition decodeSessionSource :: "json option \<Rightarrow> string option" where
  "decodeSessionSource raw =
     (if absent raw then Some ''vscode''
      else case raw of
        Some (JStr scalar) \<Rightarrow>
          if scalar \<in> set scalarSources then Some scalar else Some ''unknown''
      | Some (JObj kvs) \<Rightarrow>
          (let keys = remdups (map fst kvs)
           in if length keys \<noteq> 1 then None
              else case find (\<lambda>k. k \<in> set keys) taggedSources of
                     Some k \<Rightarrow> Some k
                   | None \<Rightarrow> Some ''unknown'')
      | _ \<Rightarrow> None)"

definition knownEfforts :: "string list" where
  "knownEfforts = [''none'', ''minimal'', ''low'', ''medium'', ''high'', ''xhigh'', ''max'', ''ultra'']"

definition decodeEffort :: "json option \<Rightarrow> string option option" where
  "decodeEffort raw =
     (case decodeOptionalString raw maxIdentifierBytes of
        Some (Some value) \<Rightarrow>
          if value \<in> set knownEfforts then Some (Some value) else Some (Some ''custom'')
      | r \<Rightarrow> r)"

definition secondsToMilliseconds :: "int64 \<Rightarrow> int64 option" where
  "secondsToMilliseconds value =
     (if value < 0 \<or> value > max_int64 div 1000 then None else Some (value * 1000))"

definition optionalSecondsOrObserved :: "int64 option \<Rightarrow> int64 \<Rightarrow> int64 option" where
  "optionalSecondsOrObserved value observedAtMS =
     (case value of None \<Rightarrow> Some observedAtMS | Some v \<Rightarrow> secondsToMilliseconds v)"

definition validNonNegative :: "int64 option \<Rightarrow> bool" where
  "validNonNegative value = (case value of None \<Rightarrow> True | Some v \<Rightarrow> v \<ge> 0)"

definition validTokenPayload :: "tokenUsagePayload option \<Rightarrow> bool" where
  "validTokenPayload value =
     (case value of
        None \<Rightarrow> True
      | Some p \<Rightarrow> list_all validNonNegative [tp_InputTokens p, tp_CachedInputTokens p, tp_OutputTokens p,
                    tp_ReasoningOutputTokens p, tp_TotalTokens p])"

definition tokenCounters :: "tokenUsagePayload option \<Rightarrow> TokenCounters" where
  "tokenCounters value =
     (case value of
        None \<Rightarrow> \<lparr>tc_InputTokens = None, tc_CachedInputTokens = None, tc_OutputTokens = None, tc_ReasoningTokens = None\<rparr>
      | Some p \<Rightarrow> \<lparr>tc_InputTokens = tp_InputTokens p, tc_CachedInputTokens = tp_CachedInputTokens p,
                   tc_OutputTokens = tp_OutputTokens p, tc_ReasoningTokens = tp_ReasoningOutputTokens p\<rparr>)"

definition abortOutcome :: "string \<Rightarrow> TurnOutcome option" where
  "abortOutcome reason =
     (if reason = ''interrupted'' then Some TurnOutcomeInterrupted
      else if reason = ''replaced'' then Some TurnOutcomeReplaced
      else if reason = ''review_ended'' then Some TurnOutcomeReviewEnded
      else if reason = ''budget_limited'' then Some TurnOutcomeBudgetLimited
      else None)"

definition decodeDiagnostic :: "lineFrame \<Rightarrow> DiagnosticClass \<Rightarrow> DiagnosticCode \<Rightarrow> decodeResult" where
  "decodeDiagnostic frame cls code =
     DecodeDiagnostic \<lparr>dg_Class = cls, dg_Code = code, dg_StartOffset = lf_StartOffset frame,
       dg_EndOffset = lf_EndOffset frame, dg_Retryable = False\<rparr>"

abbreviation invalidField :: "lineFrame \<Rightarrow> decodeResult" where
  "invalidField frame \<equiv> decodeDiagnostic frame DiagnosticClassSyntax DiagnosticInvalidField"

section \<open>Quota windows\<close>

definition maxQuotaWindowMinutes :: int64 where "maxQuotaWindowMinutes = 525600"

record rateLimitWindowPayload =
  rw_UsedPercent :: float64
  rw_WindowMinutes :: int64
  rw_ResetsAt :: int64

text \<open>The window with its required fields, and whether the key was present.\<close>

definition decodeRateLimitWindow ::
  "rollout_env \<Rightarrow> json option \<Rightarrow> rateLimitWindowPayload option \<times> bool" where
  "decodeRateLimitWindow env raw =
     (if absent raw then (None, False)
      else case structMembers raw of
        None \<Rightarrow> (None, True)
      | Some kvs \<Rightarrow>
          (let names = [''used_percent'', ''window_minutes'', ''resets_at''];
               vals = fieldValues env names kvs
           in case (ptrField (floatPtr env) None (vals ''used_percent''),
                    ptrField intPtr None (vals ''window_minutes''),
                    ptrField intPtr None (vals ''resets_at'')) of
                (Some (Some (Fin used)), Some (Some minutes), Some (Some resets)) \<Rightarrow>
                  if used < 0 \<or> used > 100 \<or> minutes \<le> 0 \<or> minutes > maxQuotaWindowMinutes \<or>
                     secondsToMilliseconds resets = None
                  then (None, True)
                  else (Some \<lparr>rw_UsedPercent = Fin used, rw_WindowMinutes = minutes, rw_ResetsAt = resets\<rparr>, True)
              | _ \<Rightarrow> (None, True)))"

definition knownPlans :: "string list" where
  "knownPlans = [''free'', ''go'', ''plus'', ''pro'', ''prolite'', ''team'',
     ''self_serve_business_usage_based'', ''business'', ''enterprise_cbp_usage_based'',
     ''enterprise'', ''edu'', ''unknown'']"

definition decodeQuotaPlanType :: "json option \<Rightarrow> (string option \<times> bool) option" where
  "decodeQuotaPlanType raw =
     (case decodeOptionalString raw maxIdentifierBytes of
        None \<Rightarrow> None
      | Some None \<Rightarrow> Some (None, False)
      | Some (Some value) \<Rightarrow>
          if value \<in> set knownPlans then Some (Some value, value = ''unknown'')
          else Some (Some ''unknown'', True))"

definition quotaObservationFromWindow ::
  "QuotaWindowKind \<Rightarrow> rateLimitWindowPayload \<Rightarrow> string option \<Rightarrow> string option \<Rightarrow> string option \<Rightarrow>
   bool \<Rightarrow> bool \<Rightarrow> int64 \<Rightarrow> QuotaObservationFact" where
  "quotaObservationFromWindow kind window limitID limitName planType unknownPlan primaryValid observedAtMS =
     (let resetsAtMS = (case secondsToMilliseconds (rw_ResetsAt window) of None \<Rightarrow> 0 | Some v \<Rightarrow> v);
          reason = (if limitID = None then Some QuotaReasonMissingLimitID
                    else if kind = QuotaWindowSecondary \<and> \<not> primaryValid
                    then Some QuotaReasonMissingPrimaryWindow
                    else if unknownPlan then Some QuotaReasonUnknownPlanType
                    else if resetsAtMS \<le> observedAtMS then Some QuotaReasonResetNotFuture
                    else None)
      in \<lparr>qo_SessionID = [], qo_AccountScope = ''default'', qo_Source = QuotaSourceLocalJSONL,
          qo_LimitID = limitID, qo_LimitName = limitName, qo_WindowKind = kind,
          qo_UsedPercent = rw_UsedPercent window, qo_WindowMinutes = rw_WindowMinutes window,
          qo_ResetsAtMS = resetsAtMS, qo_PlanType = planType, qo_ObservedAtMS = observedAtMS,
          qo_Validity = (if reason = None then QuotaValidityAccepted else QuotaValiditySuspicious),
          qo_RejectionReason = reason\<rparr>)"

definition decodeRateLimitSnapshot ::
  "rollout_env \<Rightarrow> json option \<Rightarrow> int64 \<Rightarrow> QuotaObservationFact list \<times> DiagnosticCode list" where
  "decodeRateLimitSnapshot env raw observedAtMS =
     (if absent raw then ([], [])
      else case structMembers raw of
        None \<Rightarrow> ([], [DiagnosticInvalidQuotaSnapshot])
      | Some kvs \<Rightarrow>
          (let names = [''limit_id'', ''limit_name'', ''primary'', ''secondary'', ''plan_type''];
               get = (\<lambda>f. rawField (fieldValues env names kvs f))
           in case (decodeOptionalString (get ''limit_id'') maxIdentifierBytes,
                    decodeOptionalString (get ''limit_name'') maxIdentifierBytes,
                    decodeQuotaPlanType (get ''plan_type'')) of
                (Some limitID, Some limitName, Some (planType, unknownPlan)) \<Rightarrow>
                  (let (primary, primaryPresent) = decodeRateLimitWindow env (get ''primary'');
                       (secondary, secondaryPresent) = decodeRateLimitWindow env (get ''secondary'');
                       diagnostics =
                         (if primaryPresent \<and> primary = None then [DiagnosticInvalidQuotaWindow] else []) @
                         (if secondaryPresent \<and> secondary = None then [DiagnosticInvalidQuotaWindow] else [])
                   in if primary = None \<and> secondary = None
                      then ([], if diagnostics = [] then [DiagnosticInvalidQuotaSnapshot] else diagnostics)
                      else
                        ((case primary of
                            None \<Rightarrow> []
                          | Some w \<Rightarrow> [quotaObservationFromWindow QuotaWindowPrimary w limitID limitName
                                         planType unknownPlan True observedAtMS]) @
                         (case secondary of
                            None \<Rightarrow> []
                          | Some w \<Rightarrow> [quotaObservationFromWindow QuotaWindowSecondary w limitID limitName
                                         planType unknownPlan (primary \<noteq> None) observedAtMS]),
                         diagnostics))
              | _ \<Rightarrow> ([], [DiagnosticInvalidQuotaSnapshot])))"

section \<open>Records\<close>

definition decodeSessionMeta :: "rollout_env \<Rightarrow> lineFrame \<Rightarrow> int64 \<Rightarrow> json option \<Rightarrow> decodeResult" where
  "decodeSessionMeta env frame observedAtMS payload =
     (case structMembers payload of
        None \<Rightarrow> invalidField frame
      | Some kvs \<Rightarrow>
          (let names = [''session_id'', ''id'', ''timestamp'', ''cwd'', ''originator'', ''cli_version'',
                        ''source'', ''model_provider''];
               get = (\<lambda>f. rawField (fieldValues env names kvs f))
           in case (decodeRequiredString (get ''id'') maxIdentifierBytes, decodeTimestamp env (get ''timestamp''),
                    decodeRequiredString (get ''cwd'') maxMetadataBytes,
                    decodeRequiredString (get ''originator'') maxIdentifierBytes,
                    decodeRequiredString (get ''cli_version'') maxIdentifierBytes,
                    decodeSessionSource (get ''source''),
                    decodeOptionalStringValue (get ''model_provider'') maxIdentifierBytes) of
                (Some sessionID, Some createdAtMS, Some cwd, Some originator, Some cliVersion, Some src,
                 Some modelProvider) \<Rightarrow>
                  (case (if absent (get ''session_id'') then Some sessionID
                         else decodeRequiredString (get ''session_id'') maxIdentifierBytes) of
                     None \<Rightarrow> invalidField frame
                   | Some rootSessionID \<Rightarrow>
                       DecodeRecord \<lparr>dl_ObservedAtMS = observedAtMS, dl_Kind = DecodedSessionMeta
                         \<lparr>ds_SessionID = sessionID, ds_RootSessionID = rootSessionID,
                          ds_CreatedAtMS = createdAtMS, ds_InitialCWD = cwd, ds_Originator = originator,
                          ds_CLIVersion = cliVersion, ds_Source = src, ds_ModelProvider = modelProvider\<rparr>\<rparr>)
              | _ \<Rightarrow> invalidField frame))"

definition decodeTurnContext :: "rollout_env \<Rightarrow> lineFrame \<Rightarrow> int64 \<Rightarrow> json option \<Rightarrow> decodeResult" where
  "decodeTurnContext env frame observedAtMS payload =
     (case structMembers payload of
        None \<Rightarrow> invalidField frame
      | Some kvs \<Rightarrow>
          (let get = (\<lambda>f. rawField (fieldValues env [''turn_id'', ''cwd'', ''model'', ''effort''] kvs f))
           in case (decodeRequiredString (get ''cwd'') maxMetadataBytes,
                    decodeRequiredString (get ''model'') maxIdentifierBytes,
                    decodeOptionalString (get ''turn_id'') maxIdentifierBytes,
                    decodeEffort (get ''effort'')) of
                (Some cwd, Some model, Some turnID, Some effort) \<Rightarrow>
                  DecodeRecord \<lparr>dl_ObservedAtMS = observedAtMS, dl_Kind = DecodedTurnContext
                    \<lparr>dc_TurnID = turnID, dc_CWD = cwd, dc_Model = model, dc_Effort = effort\<rparr>\<rparr>
              | _ \<Rightarrow> invalidField frame))"

definition decodeTurnStarted :: "rollout_env \<Rightarrow> lineFrame \<Rightarrow> int64 \<Rightarrow> json option \<Rightarrow> decodeResult" where
  "decodeTurnStarted env frame observedAtMS payload =
     (case structMembers payload of
        None \<Rightarrow> invalidField frame
      | Some kvs \<Rightarrow>
          (let vals = fieldValues env [''turn_id'', ''started_at'', ''model_context_window''] kvs
           in case (ptrField intPtr None (vals ''started_at''),
                    ptrField intPtr None (vals ''model_context_window''),
                    decodeRequiredString (rawField (vals ''turn_id'')) maxIdentifierBytes) of
                (Some startedAt, Some contextWindow, Some turnID) \<Rightarrow>
                  if \<not> validNonNegative contextWindow then invalidField frame
                  else (case optionalSecondsOrObserved startedAt observedAtMS of
                          None \<Rightarrow> decodeDiagnostic frame DiagnosticClassSyntax DiagnosticInvalidTimestamp
                        | Some startedAtMS \<Rightarrow>
                            DecodeRecord \<lparr>dl_ObservedAtMS = observedAtMS, dl_Kind = DecodedTurnStart
                              \<lparr>dt_TurnID = turnID, dt_StartedAtMS = startedAtMS, dt_ContextWindow = contextWindow\<rparr>\<rparr>)
              | _ \<Rightarrow> invalidField frame))"

definition decodeTurnComplete :: "rollout_env \<Rightarrow> lineFrame \<Rightarrow> int64 \<Rightarrow> json option \<Rightarrow> decodeResult" where
  "decodeTurnComplete env frame observedAtMS payload =
     (case structMembers payload of
        None \<Rightarrow> invalidField frame
      | Some kvs \<Rightarrow>
          (let vals = fieldValues env [''turn_id'', ''completed_at''] kvs
           in case (ptrField intPtr None (vals ''completed_at''),
                    decodeRequiredString (rawField (vals ''turn_id'')) maxIdentifierBytes) of
                (Some completedAt, Some turnID) \<Rightarrow>
                  (case optionalSecondsOrObserved completedAt observedAtMS of
                     None \<Rightarrow> decodeDiagnostic frame DiagnosticClassSyntax DiagnosticInvalidTimestamp
                   | Some completedAtMS \<Rightarrow>
                       DecodeRecord \<lparr>dl_ObservedAtMS = observedAtMS, dl_Kind = DecodedTurnTerminal
                         \<lparr>de_TurnID = Some turnID, de_CompletedAtMS = completedAtMS,
                          de_Outcome = TurnOutcomeCompleted\<rparr>\<rparr>)
              | _ \<Rightarrow> invalidField frame))"

definition decodeTurnAborted :: "rollout_env \<Rightarrow> lineFrame \<Rightarrow> int64 \<Rightarrow> json option \<Rightarrow> decodeResult" where
  "decodeTurnAborted env frame observedAtMS payload =
     (case structMembers payload of
        None \<Rightarrow> invalidField frame
      | Some kvs \<Rightarrow>
          (let vals = fieldValues env [''turn_id'', ''reason'', ''completed_at''] kvs
           in case (ptrField intPtr None (vals ''completed_at''),
                    decodeOptionalString (rawField (vals ''turn_id'')) maxIdentifierBytes,
                    decodeRequiredString (rawField (vals ''reason'')) maxIdentifierBytes) of
                (Some completedAt, Some turnID, Some reason) \<Rightarrow>
                  (case (abortOutcome reason, optionalSecondsOrObserved completedAt observedAtMS) of
                     (Some outcome, Some completedAtMS) \<Rightarrow>
                       DecodeRecord \<lparr>dl_ObservedAtMS = observedAtMS, dl_Kind = DecodedTurnTerminal
                         \<lparr>de_TurnID = turnID, de_CompletedAtMS = completedAtMS, de_Outcome = outcome\<rparr>\<rparr>
                   | _ \<Rightarrow> invalidField frame)
              | _ \<Rightarrow> invalidField frame))"

text \<open>The token info of a token count: absent, invalid, or a usage record.\<close>

definition decodeUsageInfo ::
  "rollout_env \<Rightarrow> int64 \<Rightarrow> json option \<Rightarrow> decodedTokenUsageRecord option \<times> bool" where
  "decodeUsageInfo env observedAtMS info =
     (if absent info then (None, False)
      else case structMembers info of
        None \<Rightarrow> (None, True)
      | Some kvs \<Rightarrow>
          (let vals = fieldValues env [''total_token_usage'', ''last_token_usage'', ''model_context_window''] kvs
           in case (usageField env (vals ''total_token_usage''), usageField env (vals ''last_token_usage''),
                    ptrField intPtr None (vals ''model_context_window'')) of
                (Some totalUsage, Some latest, Some contextWindow) \<Rightarrow>
                  if \<not> validNonNegative contextWindow \<or> \<not> validTokenPayload totalUsage \<or> \<not> validTokenPayload latest
                  then (None, True)
                  else (Some \<lparr>du_ObservedAtMS = observedAtMS, du_Total = tokenCounters totalUsage,
                              du_Last = tokenCounters latest, du_ContextWindow = contextWindow\<rparr>, False)
              | _ \<Rightarrow> (None, True)))"

definition decodeTokenCount :: "rollout_env \<Rightarrow> lineFrame \<Rightarrow> int64 \<Rightarrow> json option \<Rightarrow> decodeResult" where
  "decodeTokenCount env frame observedAtMS payload =
     (case structMembers payload of
        None \<Rightarrow> invalidField frame
      | Some kvs \<Rightarrow>
          (let get = (\<lambda>f. rawField (fieldValues env [''info'', ''rate_limits''] kvs f));
               (usage, infoInvalid) = decodeUsageInfo env observedAtMS (get ''info'');
               (observations, quotaDiagnostics) = decodeRateLimitSnapshot env (get ''rate_limits'') observedAtMS
           in if infoInvalid \<and> observations = [] \<and> quotaDiagnostics = [] then invalidField frame
              else
                (let diagnostics = (if infoInvalid then DiagnosticInvalidField # quotaDiagnostics else quotaDiagnostics)
                 in if usage = None \<and> observations = [] \<and> diagnostics = [] then DecodeKnownIgnored
                    else DecodeRecord \<lparr>dl_ObservedAtMS = observedAtMS,
                           dl_Kind = DecodedTokenUsage usage observations diagnostics\<rparr>)))"

definition knownIgnoredEventTypes :: "string list" where
  "knownIgnoredEventTypes =
     [''user_message'', ''agent_message'', ''agent_reasoning'', ''agent_reasoning_raw_content'',
      ''patch_apply_end'', ''thread_goal_updated'', ''context_compacted'', ''entered_review_mode'',
      ''exited_review_mode'', ''mcp_tool_call_end'', ''thread_rolled_back'', ''web_search_end'',
      ''image_generation_end'', ''sub_agent_activity'', ''item_completed'']"

definition decodeEvent :: "rollout_env \<Rightarrow> lineFrame \<Rightarrow> int64 \<Rightarrow> json option \<Rightarrow> decodeResult" where
  "decodeEvent env frame observedAtMS payload =
     (case structMembers payload of
        None \<Rightarrow> invalidField frame
      | Some kvs \<Rightarrow>
          (case decodeRequiredString (rawField (fieldValues env [''type''] kvs ''type'')) maxIdentifierBytes of
             None \<Rightarrow> invalidField frame
           | Some eventType \<Rightarrow>
               if eventType = ''task_started'' \<or> eventType = ''turn_started''
               then decodeTurnStarted env frame observedAtMS payload
               else if eventType = ''task_complete'' \<or> eventType = ''turn_complete''
               then decodeTurnComplete env frame observedAtMS payload
               else if eventType = ''turn_aborted'' then decodeTurnAborted env frame observedAtMS payload
               else if eventType = ''token_count'' then decodeTokenCount env frame observedAtMS payload
               else if eventType \<in> set knownIgnoredEventTypes then DecodeKnownIgnored
               else decodeDiagnostic frame DiagnosticClassCompatibility DiagnosticUnknownEventType))"

definition decodeRolloutLine :: "rollout_env \<Rightarrow> lineFrame \<Rightarrow> decodeResult" where
  "decodeRolloutLine env frame =
     (if trim_space (lf_Content frame) = []
      then decodeDiagnostic frame DiagnosticClassFraming DiagnosticEmptyLine
      else if \<not> utf8Valid (lf_Content frame)
      then decodeDiagnostic frame DiagnosticClassFraming DiagnosticInvalidUTF8
      else case ValidateDocument env (lf_Content frame) of
        Some ErrDuplicateKey \<Rightarrow> decodeDiagnostic frame DiagnosticClassSyntax DiagnosticDuplicateJSONKey
      | Some _ \<Rightarrow> decodeDiagnostic frame DiagnosticClassSyntax DiagnosticBadJSON
      | None \<Rightarrow>
          (case structMembers (re_parse env (lf_Content frame)) of
             None \<Rightarrow> invalidField frame
           | Some kvs \<Rightarrow>
               (let get = (\<lambda>f. rawField (fieldValues env [''timestamp'', ''type'', ''payload''] kvs f))
                in case decodeTimestamp env (get ''timestamp'') of
                     None \<Rightarrow> decodeDiagnostic frame DiagnosticClassSyntax DiagnosticInvalidTimestamp
                   | Some observedAtMS \<Rightarrow>
                       (case decodeRequiredString (get ''type'') maxIdentifierBytes of
                          None \<Rightarrow> invalidField frame
                        | Some rolloutType \<Rightarrow>
                            if rolloutType = ''session_meta'' then decodeSessionMeta env frame observedAtMS (get ''payload'')
                            else if rolloutType = ''turn_context'' then decodeTurnContext env frame observedAtMS (get ''payload'')
                            else if rolloutType = ''event_msg'' then decodeEvent env frame observedAtMS (get ''payload'')
                            else if rolloutType \<in> {''response_item'', ''inter_agent_communication'', ''compacted''}
                            then DecodeKnownIgnored
                            else decodeDiagnostic frame DiagnosticClassCompatibility DiagnosticUnknownRolloutType))))"

section \<open>Lemmas: the shape check\<close>

text \<open>Reference: the values a token sequence can spell, and that no object repeats a key.\<close>

datatype shape = SScalar | SString string | SArr "shape list" | SObj "(string \<times> shape) list"

fun shapeTokens :: "shape \<Rightarrow> jtoken list" where
  "shapeTokens SScalar = [TScalar]"
| "shapeTokens (SString v) = [TString v]"
| "shapeTokens (SArr vs) = TDelim (CHR ''['') # concat (map shapeTokens vs) @ [TDelim (CHR '']'')]"
| "shapeTokens (SObj kvs) =
     TDelim (CHR ''{'') # concat (map (\<lambda>(k, v). TString k # shapeTokens v) kvs) @ [TDelim (CHR ''}'')]"

fun uniqueKeys :: "shape \<Rightarrow> bool" where
  "uniqueKeys (SArr vs) = list_all uniqueKeys vs"
| "uniqueKeys (SObj kvs) = (distinct (map fst kvs) \<and> list_all (\<lambda>(k, v). uniqueKeys v) kvs)"
| "uniqueKeys _ = True"

lemma validate_shorter:
  "validateValue n ts = Inr r \<Longrightarrow> length r < length ts"
  "validateMembers n seen ts = Inr r \<Longrightarrow> length r < length ts"
  "validateElements n ts = Inr r \<Longrightarrow> length r < length ts"
proof (induction n ts and n seen ts and n ts arbitrary: r and r and r
    rule: validateValue_validateMembers_validateElements.induct)
  case (2 n ts)
  show ?case
  proof (cases ts)
    case (Cons t q)
    with 2 show ?thesis by (cases t) (auto split: if_splits intro: less_SucI)
  qed (use 2 in simp)
next
  case (4 n seen ts)
  show ?case
  proof (cases ts)
    case (Cons t q)
    show ?thesis
    proof (cases t)
      case (TString k)
      with 4(3) Cons obtain q' where k: "k \<notin> set seen" "validateValue n q = Inr q'"
        "validateMembers n (k # seen) q' = Inr r" by (auto split: if_splits sum.splits)
      from 4(1)[OF Cons TString k(1,2)] 4(2)[OF Cons TString k] Cons show ?thesis by simp
    qed (use 4(3) Cons in \<open>auto split: if_splits\<close>)
  qed (use 4(3) in simp)
next
  case (6 n ts)
  show ?case
  proof (cases ts)
    case (Cons t q)
    show ?thesis
    proof (cases "t = TDelim (CHR '']'')")
      case False
      with 6(3) Cons obtain q' where k: "t \<noteq> TDelim (CHR ''}'')" "validateValue n ts = Inr q'"
        "validateElements n q' = Inr r" by (auto split: if_splits sum.splits)
      from 6(1)[OF Cons False k(1,2)] 6(2)[OF Cons False k] show ?thesis by simp
    qed (use 6(3) Cons in simp)
  qed (use 6(3) in simp)
qed simp_all

lemma validate_fuel:
  "2 * length ts < n \<Longrightarrow> validateValue n ts \<noteq> Inl ErrFuel"
  "2 * length ts < n \<Longrightarrow> validateMembers n seen ts \<noteq> Inl ErrFuel"
  "2 * length ts + 1 < n \<Longrightarrow> validateElements n ts \<noteq> Inl ErrFuel"
proof (induction n ts and n seen ts and n ts rule: validateValue_validateMembers_validateElements.induct)
  case (2 n ts)
  show ?case
  proof (cases ts)
    case (Cons t q)
    with 2 show ?thesis by (cases t) auto
  qed simp
next
  case (4 n seen ts)
  show ?case
  proof (cases ts)
    case (Cons t q)
    show ?thesis
    proof (cases t)
      case (TString k)
      show ?thesis
      proof (cases "k \<in> set seen")
        case False
        show ?thesis
        proof (cases "validateValue n q")
          case (Inl e)
          with 4(1)[OF Cons TString False] 4(3) Cons TString False show ?thesis by auto
        next
          case (Inr q')
          with validate_shorter(1)[OF Inr] 4(2)[OF Cons TString False Inr] 4(3) Cons TString False
          show ?thesis by auto
        qed
      qed (use Cons TString in simp)
    qed (use Cons in simp_all)
  qed simp
next
  case (6 n ts)
  show ?case
  proof (cases ts)
    case (Cons t q)
    show ?thesis
    proof (cases "t = TDelim (CHR '']'') \<or> t = TDelim (CHR ''}'')")
      case False
      then have t: "t \<noteq> TDelim (CHR '']'')" "t \<noteq> TDelim (CHR ''}'')" by auto
      show ?thesis
      proof (cases "validateValue n ts")
        case (Inl e)
        with 6(1)[OF Cons t] 6(3) Cons t show ?thesis by auto
      next
        case (Inr q')
        with validate_shorter(1)[OF Inr] 6(2)[OF Cons t Inr] 6(3) Cons t show ?thesis by auto
      qed
    qed (use Cons in auto)
  qed simp
qed simp_all

lemma validate_sound:
  "validateValue n ts = Inr r \<Longrightarrow> \<exists>v. ts = shapeTokens v @ r \<and> uniqueKeys v"
  "validateMembers n seen ts = Inr r \<Longrightarrow>
     \<exists>kvs. ts = concat (map (\<lambda>(k, v). TString k # shapeTokens v) kvs) @ TDelim (CHR ''}'') # r \<and>
       distinct (map fst kvs) \<and> set (map fst kvs) \<inter> set seen = {} \<and> list_all (\<lambda>(k, v). uniqueKeys v) kvs"
  "validateElements n ts = Inr r \<Longrightarrow>
     \<exists>vs. ts = concat (map shapeTokens vs) @ TDelim (CHR '']'') # r \<and> list_all uniqueKeys vs"
proof (induction n ts and n seen ts and n ts arbitrary: r and r and r
    rule: validateValue_validateMembers_validateElements.induct)
  case (2 n ts)
  show ?case
  proof (cases ts)
    case (Cons t q)
    show ?thesis
    proof (cases t)
      case (TDelim d)
      consider "d = CHR ''{''" "validateMembers n [] q = Inr r" | "d = CHR ''[''" "validateElements n q = Inr r"
        using 2(3) Cons TDelim by (auto split: if_splits)
      then show ?thesis
      proof cases
        case 1
        with 2(1)[OF Cons TDelim 1] obtain kvs where
          "q = concat (map (\<lambda>(k, v). TString k # shapeTokens v) kvs) @ TDelim (CHR ''}'') # r"
          "distinct (map fst kvs)" "list_all (\<lambda>(k, v). uniqueKeys v) kvs" by blast
        with Cons TDelim 1 show ?thesis by (intro exI[of _ "SObj kvs"]) simp
      next
        case e: 2
        with 2(2)[OF Cons TDelim _ e] obtain vs where
          "q = concat (map shapeTokens vs) @ TDelim (CHR '']'') # r" "list_all uniqueKeys vs" by auto
        with Cons TDelim e show ?thesis by (intro exI[of _ "SArr vs"]) simp
      qed
    next
      case (TString k)
      with 2(3) Cons show ?thesis by (intro exI[of _ "SString k"]) simp
    next
      case TScalar
      with 2(3) Cons show ?thesis by (intro exI[of _ SScalar]) simp
    qed
  qed (use 2(3) in simp)
next
  case (4 n seen ts)
  show ?case
  proof (cases ts)
    case (Cons t q)
    show ?thesis
    proof (cases t)
      case (TDelim d)
      with 4(3) Cons show ?thesis by (intro exI[of _ "[]"]) (auto split: if_splits)
    next
      case (TString k)
      with 4(3) Cons obtain q' where k: "k \<notin> set seen" "validateValue n q = Inr q'"
        "validateMembers n (k # seen) q' = Inr r" by (auto split: if_splits sum.splits)
      from 4(1)[OF Cons TString k(1,2)] obtain v where v: "q = shapeTokens v @ q'" "uniqueKeys v" by blast
      from 4(2)[OF Cons TString k] obtain kvs where
        m: "q' = concat (map (\<lambda>(k, v). TString k # shapeTokens v) kvs) @ TDelim (CHR ''}'') # r"
        "distinct (map fst kvs)" "set (map fst kvs) \<inter> set (k # seen) = {}" "list_all (\<lambda>(k, v). uniqueKeys v) kvs"
        by blast
      have "k \<notin> fst ` set kvs" using m(3) by auto
      with Cons TString v m k(1) show ?thesis by (intro exI[of _ "(k, v) # kvs"]) auto
    qed (use 4(3) Cons in simp)
  qed (use 4(3) in simp)
next
  case (6 n ts)
  show ?case
  proof (cases ts)
    case (Cons t q)
    show ?thesis
    proof (cases "t = TDelim (CHR '']'')")
      case True
      with 6(3) Cons show ?thesis by (intro exI[of _ "[]"]) simp
    next
      case False
      with 6(3) Cons obtain q' where k: "t \<noteq> TDelim (CHR ''}'')" "validateValue n ts = Inr q'"
        "validateElements n q' = Inr r" by (auto split: if_splits sum.splits)
      from 6(1)[OF Cons False k(1,2)] obtain v where v: "ts = shapeTokens v @ q'" "uniqueKeys v" by blast
      from 6(2)[OF Cons False k] obtain vs where
        "q' = concat (map shapeTokens vs) @ TDelim (CHR '']'') # r" "list_all uniqueKeys vs" by blast
      with v show ?thesis by (intro exI[of _ "v # vs"]) simp
    qed
  qed (use 6(3) in simp)
qed simp_all

lemma shapeTokens_hd:
  obtains t ts where "shapeTokens v = t # ts" "t \<noteq> TDelim (CHR '']'')" "t \<noteq> TDelim (CHR ''}'')"
  by (cases v) auto

lemma validateMembers_complete:
  assumes "\<And>k v n r. (k, v) \<in> set kvs \<Longrightarrow> 2 * length (shapeTokens v) < n \<Longrightarrow>
      validateValue n (shapeTokens v @ r) = Inr r"
    and "distinct (map fst kvs)" and "set (map fst kvs) \<inter> set seen = {}"
    and "2 * length (concat (map (\<lambda>(k, v). TString k # shapeTokens v) kvs)) + 2 < n"
  shows "validateMembers n seen (concat (map (\<lambda>(k, v). TString k # shapeTokens v) kvs) @ TDelim (CHR ''}'') # r) = Inr r"
  using assms
proof (induction kvs arbitrary: n seen)
  case Nil
  then show ?case by (cases n) auto
next
  case (Cons kv kvs)
  obtain k v where kv: "kv = (k, v)" by fastforce
  obtain n' where n: "n = Suc n'" using Cons.prems(4) by (cases n) auto
  let ?rest = "concat (map (\<lambda>(k, v). TString k # shapeTokens v) kvs) @ TDelim (CHR ''}'') # r"
  have v: "validateValue n' (shapeTokens v @ ?rest) = Inr ?rest"
    using Cons.prems(4) kv n by (intro Cons.prems(1)[of k]) auto
  have "validateMembers n' (k # seen) ?rest = Inr r"
    by (rule Cons.IH) (use Cons.prems kv n in auto)
  with v kv n Cons.prems(3) show ?case by simp
qed

lemma validateElements_complete:
  assumes "\<And>v n r. v \<in> set vs \<Longrightarrow> 2 * length (shapeTokens v) < n \<Longrightarrow>
      validateValue n (shapeTokens v @ r) = Inr r"
    and "2 * length (concat (map shapeTokens vs)) + 2 < n"
  shows "validateElements n (concat (map shapeTokens vs) @ TDelim (CHR '']'') # r) = Inr r"
  using assms
proof (induction vs arbitrary: n)
  case Nil
  then show ?case by (cases n) auto
next
  case (Cons v vs)
  obtain n' where n: "n = Suc n'" using Cons.prems(2) by (cases n) auto
  let ?rest = "concat (map shapeTokens vs) @ TDelim (CHR '']'') # r"
  obtain t ts where t: "shapeTokens v = t # ts" "t \<noteq> TDelim (CHR '']'')" "t \<noteq> TDelim (CHR ''}'')"
    by (rule shapeTokens_hd)
  have v: "validateValue n' (shapeTokens v @ ?rest) = Inr ?rest"
    using Cons.prems(2) n by (intro Cons.prems(1)) auto
  have "validateElements n' ?rest = Inr r"
    by (rule Cons.IH) (use Cons.prems n t(1) in auto)
  with v n t show ?case by simp
qed

lemma validate_complete:
  "uniqueKeys v \<Longrightarrow> 2 * length (shapeTokens v) < n \<Longrightarrow> validateValue n (shapeTokens v @ r) = Inr r"
proof (induction v arbitrary: n r)
  case SScalar
  then show ?case by (cases n) auto
next
  case (SString x)
  then show ?case by (cases n) auto
next
  case (SArr vs)
  obtain n' where n: "n = Suc n'" using SArr.prems(2) by (cases n) auto
  have "validateElements n' (concat (map shapeTokens vs) @ TDelim (CHR '']'') # r) = Inr r"
    by (rule validateElements_complete) (use SArr n in \<open>auto simp: list_all_iff\<close>)
  with n show ?case by simp
next
  case (SObj kvs)
  obtain n' where n: "n = Suc n'" using SObj.prems(2) by (cases n) auto
  have "validateMembers n' [] (concat (map (\<lambda>(k, v). TString k # shapeTokens v) kvs) @ TDelim (CHR ''}'') # r) = Inr r"
    by (rule validateMembers_complete) (use SObj n in \<open>auto simp: list_all_iff\<close>)
  with n show ?case by simp
qed

section \<open>Lemmas: what the decoder returns\<close>

text \<open>The strings of a parsed document are valid UTF-8, as \<open>encoding/json\<close> promises.\<close>

fun json_utf8 :: "json \<Rightarrow> bool" where
  "json_utf8 (JStr v) = utf8Valid v"
| "json_utf8 (JArr vs) = list_all json_utf8 vs"
| "json_utf8 (JObj kvs) = list_all (\<lambda>(k, v). json_utf8 v) kvs"
| "json_utf8 _ = True"

definition parses_utf8 :: "rollout_env \<Rightarrow> bool" where
  "parses_utf8 env \<longleftrightarrow> (\<forall>c v. re_parse env c = Some v \<longrightarrow> json_utf8 v)"

abbreviation raw_utf8 :: "json option \<Rightarrow> bool" where
  "raw_utf8 raw \<equiv> pred_option json_utf8 raw"

definition idOK :: "string \<Rightarrow> bool" where
  "idOK v \<longleftrightarrow> v \<noteq> [] \<and> length v \<le> maxIdentifierBytes \<and> utf8Valid v"

definition textOK :: "string \<Rightarrow> bool" where
  "textOK v \<longleftrightarrow> v \<noteq> [] \<and> length v \<le> maxMetadataBytes \<and> utf8Valid v"

definition countersOK :: "TokenCounters \<Rightarrow> bool" where
  "countersOK c \<longleftrightarrow> validNonNegative (tc_InputTokens c) \<and> validNonNegative (tc_CachedInputTokens c) \<and>
     validNonNegative (tc_OutputTokens c) \<and> validNonNegative (tc_ReasoningTokens c)"

definition outcomeOK :: "TurnOutcome \<Rightarrow> bool" where
  "outcomeOK r \<longleftrightarrow> r \<in> {TurnOutcomeCompleted, TurnOutcomeInterrupted, TurnOutcomeReplaced,
     TurnOutcomeReviewEnded, TurnOutcomeBudgetLimited}"

definition effortOK :: "string option \<Rightarrow> bool" where
  "effortOK e = pred_option (\<lambda>v. v \<in> set knownEfforts \<or> v = ''custom'') e"

definition quotaOK :: "QuotaObservationFact \<Rightarrow> bool" where
  "quotaOK q \<longleftrightarrow>
     (\<exists>u. qo_UsedPercent q = Fin u \<and> 0 \<le> u \<and> u \<le> 100) \<and>
     0 < qo_WindowMinutes q \<and> qo_WindowMinutes q \<le> maxQuotaWindowMinutes \<and>
     0 \<le> qo_ResetsAtMS q \<and> in64 (qo_ResetsAtMS q) \<and>
     (qo_Validity q = QuotaValidityAccepted \<longleftrightarrow> qo_RejectionReason q = None) \<and>
     (qo_Validity q = QuotaValidityAccepted \<longrightarrow> qo_LimitID q \<noteq> None \<and> qo_ObservedAtMS q < qo_ResetsAtMS q)"

fun kindOK :: "decodedKind \<Rightarrow> bool" where
  "kindOK (DecodedSessionMeta m) \<longleftrightarrow>
     idOK (ds_SessionID m) \<and> idOK (ds_RootSessionID m) \<and> 0 \<le> ds_CreatedAtMS m \<and>
     textOK (ds_InitialCWD m) \<and> idOK (ds_Originator m) \<and> idOK (ds_CLIVersion m) \<and>
     idOK (ds_Source m) \<and> (ds_ModelProvider m = [] \<or> idOK (ds_ModelProvider m))"
| "kindOK (DecodedTurnContext c) \<longleftrightarrow>
     pred_option idOK (dc_TurnID c) \<and> textOK (dc_CWD c) \<and> idOK (dc_Model c) \<and> effortOK (dc_Effort c)"
| "kindOK (DecodedTurnStart t) \<longleftrightarrow>
     idOK (dt_TurnID t) \<and> 0 \<le> dt_StartedAtMS t \<and> validNonNegative (dt_ContextWindow t)"
| "kindOK (DecodedTokenUsage u obs ds) \<longleftrightarrow>
     pred_option (\<lambda>r. 0 \<le> du_ObservedAtMS r \<and> countersOK (du_Total r) \<and> countersOK (du_Last r) \<and>
       validNonNegative (du_ContextWindow r)) u \<and>
     list_all quotaOK obs \<and> (u \<noteq> None \<or> obs \<noteq> [] \<or> ds \<noteq> [])"
| "kindOK (DecodedTurnTerminal e) \<longleftrightarrow>
     pred_option idOK (de_TurnID e) \<and> 0 \<le> de_CompletedAtMS e \<and> outcomeOK (de_Outcome e)"

definition lineOK :: "decodedLine \<Rightarrow> bool" where
  "lineOK l \<longleftrightarrow> 0 \<le> dl_ObservedAtMS l \<and> kindOK (dl_Kind l)"

definition resultOK :: "lineFrame \<Rightarrow> decodeResult \<Rightarrow> bool" where
  "resultOK frame r =
     (case r of
        DecodeRecord l \<Rightarrow> lineOK l
      | DecodeDiagnostic d \<Rightarrow> dg_StartOffset d = lf_StartOffset frame \<and> dg_EndOffset d = lf_EndOffset frame
      | DecodeKnownIgnored \<Rightarrow> True)"

lemma resultOK_diagnostic [simp]: "resultOK frame (decodeDiagnostic frame cls code)"
  by (simp add: resultOK_def decodeDiagnostic_def)

lemma resultOK_ignored [simp]: "resultOK frame DecodeKnownIgnored"
  by (simp add: resultOK_def)

lemma members_utf8: "raw_utf8 raw \<Longrightarrow> structMembers raw = Some kvs \<Longrightarrow> (k, v) \<in> set kvs \<Longrightarrow> json_utf8 v"
  by (auto simp: structMembers_def list_all_iff split: option.splits json.splits)

lemma field_utf8:
  assumes "raw_utf8 raw" and "structMembers raw = Some kvs"
  shows "raw_utf8 (rawField (fieldValues env names kvs f))"
proof -
  have "json_utf8 v" if "v \<in> set (fieldValues env names kvs f)" for v
    using that members_utf8[OF assms] by (auto simp: fieldValues_def)
  then show ?thesis by (simp add: rawField_def)
qed

lemma required_ok:
  "raw_utf8 raw \<Longrightarrow> decodeRequiredString raw m = Some v \<Longrightarrow> v \<noteq> [] \<and> length v \<le> m \<and> utf8Valid v"
  by (auto simp: decodeRequiredString_def split: option.splits json.splits if_splits)

lemma required_id: "raw_utf8 raw \<Longrightarrow> decodeRequiredString raw maxIdentifierBytes = Some v \<Longrightarrow> idOK v"
  by (simp add: idOK_def required_ok)

lemma required_text: "raw_utf8 raw \<Longrightarrow> decodeRequiredString raw maxMetadataBytes = Some v \<Longrightarrow> textOK v"
  by (simp add: textOK_def required_ok)

lemma optional_id:
  "raw_utf8 raw \<Longrightarrow> decodeOptionalString raw maxIdentifierBytes = Some v \<Longrightarrow> pred_option idOK v"
  by (auto simp: decodeOptionalString_def required_id split: if_splits)

lemma optional_value_id:
  "raw_utf8 raw \<Longrightarrow> decodeOptionalStringValue raw maxIdentifierBytes = Some v \<Longrightarrow> v = [] \<or> idOK v"
  by (auto simp: decodeOptionalStringValue_def dest: optional_id split: option.splits)

lemma timestamp_nonneg: "decodeTimestamp env raw = Some t \<Longrightarrow> 0 \<le> t"
  by (auto simp: decodeTimestamp_def split: option.splits if_splits)

lemma source_id: 
  assumes "decodeSessionSource raw = Some v"
  shows "idOK v"
proof -
  have "list_all idOK scalarSources" "list_all idOK taggedSources" by code_simp+
  moreover have ids: "idOK ''vscode''" "idOK ''unknown''" by code_simp+
  ultimately have s: "x \<in> set scalarSources \<Longrightarrow> idOK x" "x \<in> set taggedSources \<Longrightarrow> idOK x" for x
    by (auto simp: list_all_iff)
  show ?thesis
  proof (cases "absent raw")
    case True
    with assms ids show ?thesis by (simp add: decodeSessionSource_def)
  next
    case False
    then obtain j where j: "raw = Some j" by (cases raw) (auto simp: absent_def)
    show ?thesis
    proof (cases j)
      case (JStr scalar)
      with assms False j have "v = (if scalar \<in> set scalarSources then scalar else ''unknown'')"
        by (simp add: decodeSessionSource_def split: if_splits)
      with s(1) ids(2) show ?thesis by (metis (full_types))
    next
      case (JObj kvs)
      show ?thesis
      proof (cases "find (\<lambda>k. k \<in> set (remdups (map fst kvs))) taggedSources")
        case None
        with assms False j JObj have "v = ''unknown''" by (simp add: decodeSessionSource_def Let_def split: if_splits)
        with ids(2) show ?thesis by simp
      next
        case (Some k)
        with assms False j JObj have "v = k" by (simp add: decodeSessionSource_def Let_def split: if_splits)
        moreover have "k \<in> set taggedSources" using Some by (metis find_Some_iff nth_mem)
        ultimately show ?thesis using s(2) by simp
      qed
    qed (use assms False j in \<open>simp_all add: decodeSessionSource_def\<close>)
  qed
qed

lemma effort_ok: "decodeEffort raw = Some e \<Longrightarrow> effortOK e"
  by (auto simp: decodeEffort_def effortOK_def split: option.splits if_splits)

lemma seconds_ok: "secondsToMilliseconds v = Some t \<Longrightarrow> 0 \<le> t \<and> in64 t"
  by (auto simp: secondsToMilliseconds_def in64_def max_int64_def split: if_splits)

lemma optional_seconds_ok: "optionalSecondsOrObserved v n = Some t \<Longrightarrow> 0 \<le> n \<Longrightarrow> 0 \<le> t"
  by (auto simp: optionalSecondsOrObserved_def dest: seconds_ok split: option.splits)

lemma abort_ok: "abortOutcome r = Some x \<Longrightarrow> outcomeOK x"
proof -
  have "abortOutcome r = None \<or> pred_option outcomeOK (abortOutcome r)"
    unfolding abortOutcome_def outcomeOK_def by (simp only: option.pred_inject split: if_split) simp
  then show "abortOutcome r = Some x \<Longrightarrow> outcomeOK x" by auto
qed

lemma counters_ok: "validTokenPayload p \<Longrightarrow> countersOK (tokenCounters p)"
proof (cases p)
  case None
  then show ?thesis by (simp add: countersOK_def tokenCounters_def validNonNegative_def)
next
  case (Some q)
  assume "validTokenPayload p"
  with Some show ?thesis by (simp add: validTokenPayload_def countersOK_def tokenCounters_def)
qed

lemma resultOK_record: "0 \<le> t \<Longrightarrow> kindOK k \<Longrightarrow> resultOK frame (DecodeRecord \<lparr>dl_ObservedAtMS = t, dl_Kind = k\<rparr>)"
  by (simp add: resultOK_def lineOK_def)

lemmas scalar_ok = required_id required_text optional_id optional_value_id timestamp_nonneg source_id
  effort_ok optional_seconds_ok abort_ok counters_ok

lemma decodeSessionMeta_ok:
  assumes "raw_utf8 payload" and "0 \<le> t"
  shows "resultOK frame (decodeSessionMeta env frame t payload)"
proof (cases "structMembers payload")
  case (Some kvs)
  note u = field_utf8[OF assms(1) Some]
  show ?thesis
    unfolding decodeSessionMeta_def Some option.case Let_def
    by (auto split: option.split if_splits intro!: resultOK_record assms(2)
        dest: required_id[OF u] required_text[OF u] optional_value_id[OF u] timestamp_nonneg source_id)
qed (simp add: decodeSessionMeta_def)

lemma decodeTurnContext_ok:
  assumes "raw_utf8 payload" and "0 \<le> t"
  shows "resultOK frame (decodeTurnContext env frame t payload)"
proof (cases "structMembers payload")
  case (Some kvs)
  note u = field_utf8[OF assms(1) Some]
  show ?thesis
    unfolding decodeTurnContext_def Some option.case Let_def
    by (auto split: option.split intro!: resultOK_record assms(2)
        dest: required_id[OF u] required_text[OF u] optional_id[OF u] effort_ok)
qed (simp add: decodeTurnContext_def)

lemma decodeTurnStarted_ok:
  assumes "raw_utf8 payload" and "0 \<le> t"
  shows "resultOK frame (decodeTurnStarted env frame t payload)"
proof (cases "structMembers payload")
  case (Some kvs)
  note u = field_utf8[OF assms(1) Some]
  show ?thesis
    unfolding decodeTurnStarted_def Some option.case Let_def
    by (auto split: option.split intro!: resultOK_record assms(2)
        dest: required_id[OF u] optional_seconds_ok[OF _ assms(2)])
qed (simp add: decodeTurnStarted_def)

lemma decodeTurnComplete_ok:
  assumes "raw_utf8 payload" and "0 \<le> t"
  shows "resultOK frame (decodeTurnComplete env frame t payload)"
proof (cases "structMembers payload")
  case (Some kvs)
  note u = field_utf8[OF assms(1) Some]
  show ?thesis
    unfolding decodeTurnComplete_def Some option.case Let_def
    by (auto split: option.split intro!: resultOK_record assms(2) simp: outcomeOK_def
        dest: required_id[OF u] optional_seconds_ok[OF _ assms(2)])
qed (simp add: decodeTurnComplete_def)

lemma decodeTurnAborted_ok:
  assumes "raw_utf8 payload" and "0 \<le> t"
  shows "resultOK frame (decodeTurnAborted env frame t payload)"
proof (cases "structMembers payload")
  case (Some kvs)
  note u = field_utf8[OF assms(1) Some]
  show ?thesis
    unfolding decodeTurnAborted_def Some option.case Let_def
    by (auto split: option.split intro!: resultOK_record assms(2)
        dest: optional_id[OF u] abort_ok optional_seconds_ok[OF _ assms(2)])
qed (simp add: decodeTurnAborted_def)

lemma window_ok:
  assumes "decodeRateLimitWindow env raw = (Some w, b)"
  shows "\<exists>u. rw_UsedPercent w = Fin u \<and> 0 \<le> u \<and> u \<le> 100" "0 < rw_WindowMinutes w"
    "rw_WindowMinutes w \<le> maxQuotaWindowMinutes" "secondsToMilliseconds (rw_ResetsAt w) \<noteq> None"
  using assms unfolding decodeRateLimitWindow_def Let_def
  by (auto split: if_splits option.splits float64.splits)

lemma quotaObservation_ok:
  assumes "decodeRateLimitWindow env raw = (Some w, b)"
  shows "quotaOK (quotaObservationFromWindow kind w limitID limitName plan unknown primary t)"
proof -
  note w = window_ok[OF assms]
  from w(4) obtain r where r: "secondsToMilliseconds (rw_ResetsAt w) = Some r" by auto
  from seconds_ok[OF r] w r show ?thesis
    by (simp add: quotaOK_def quotaObservationFromWindow_def Let_def)
qed

lemma snapshot_ok: "list_all quotaOK (fst (decodeRateLimitSnapshot env raw t))"
  unfolding decodeRateLimitSnapshot_def Let_def
  by (auto split: option.split prod.split intro: quotaObservation_ok)

lemma usageInfo_ok:
  assumes "decodeUsageInfo env t info = (Some r, b)"
  shows "du_ObservedAtMS r = t" "countersOK (du_Total r)" "countersOK (du_Last r)"
    "validNonNegative (du_ContextWindow r)"
  using assms unfolding decodeUsageInfo_def Let_def
  by (auto split: if_splits option.splits intro: counters_ok)

lemma decodeTokenCount_ok:
  assumes "0 \<le> t"
  shows "resultOK frame (decodeTokenCount env frame t payload)"
proof (cases "structMembers payload")
  case (Some kvs)
  let ?g = "\<lambda>f. rawField (fieldValues env [''info'', ''rate_limits''] kvs f)"
  obtain usage inv where u: "decodeUsageInfo env t (?g ''info'') = (usage, inv)" by fastforce
  obtain obs ds where q: "decodeRateLimitSnapshot env (?g ''rate_limits'') t = (obs, ds)" by fastforce
  have "list_all quotaOK obs" using snapshot_ok[of env "?g ''rate_limits''" t] q by simp
  moreover have "pred_option (\<lambda>r. 0 \<le> du_ObservedAtMS r \<and> countersOK (du_Total r) \<and> countersOK (du_Last r) \<and>
       validNonNegative (du_ContextWindow r)) usage"
    using usageInfo_ok[of env t "?g ''info''"] u assms by (cases usage) simp_all
  ultimately show ?thesis
    unfolding decodeTokenCount_def Some option.case Let_def u q prod.case
    using assms by (simp add: resultOK_record)
qed (simp add: decodeTokenCount_def)

lemma decodeEvent_ok:
  assumes "raw_utf8 payload" and "0 \<le> t"
  shows "resultOK frame (decodeEvent env frame t payload)"
  unfolding decodeEvent_def
  by (simp add: decodeTurnStarted_ok[OF assms] decodeTurnComplete_ok[OF assms] decodeTurnAborted_ok[OF assms]
      decodeTokenCount_ok[OF assms(2)] split: option.split)

lemma decodeRolloutLine_ok:
  assumes "parses_utf8 env"
  shows "resultOK frame (decodeRolloutLine env frame)"
proof (cases "structMembers (re_parse env (lf_Content frame))")
  case (Some kvs)
  have p: "raw_utf8 (re_parse env (lf_Content frame))" using assms by (auto simp: parses_utf8_def pred_option_def)
  let ?g = "\<lambda>f. rawField (fieldValues env [''timestamp'', ''type'', ''payload''] kvs f)"
  have u: "raw_utf8 (?g ''payload'')" by (rule field_utf8[OF p Some])
  show ?thesis
  proof (cases "decodeTimestamp env (?g ''timestamp'')")
    case (Some t)
    note t = timestamp_nonneg[OF Some]
    show ?thesis
      unfolding decodeRolloutLine_def \<open>structMembers _ = Some kvs\<close> option.case Let_def Some
      by (simp add: decodeSessionMeta_ok[OF u t] decodeTurnContext_ok[OF u t] decodeEvent_ok[OF u t]
          split: option.split shape_error.split)
  next
    case None
    show ?thesis
      unfolding decodeRolloutLine_def \<open>structMembers _ = Some kvs\<close> option.case Let_def None
      by (simp split: option.split shape_error.split)
  qed
next
  case None
  show ?thesis
    unfolding decodeRolloutLine_def None option.case
    by (simp split: option.split shape_error.split)
qed

section \<open>Properties\<close>

text \<open>C13: The shape check accepts exactly the documents that are one JSON value in which no object,
  at any depth, repeats a key: the recursion over the token stream agrees with the reference grammar
  on every token sequence and never runs out of its bound.\<close>

theorem validate_document_iff:
  "(ValidateDocument env content = None \<longleftrightarrow>
      re_clean env content \<and> (\<exists>v. re_tokens env content = shapeTokens v \<and> uniqueKeys v)) \<and>
   ValidateDocument env content \<noteq> Some ErrFuel"
proof -
  let ?ts = "re_tokens env content"
  have f: "validateValue (2 * length ?ts + 1) ?ts \<noteq> Inl ErrFuel" by (rule validate_fuel(1)) simp
  have "validateValue (2 * length ?ts + 1) ?ts = Inr [] \<longleftrightarrow> (\<exists>v. ?ts = shapeTokens v \<and> uniqueKeys v)"
    using validate_sound(1)[of "2 * length ?ts + 1" ?ts "[]"]
      validate_complete[of _ "2 * length ?ts + 1" "[]"] by auto
  with f show ?thesis by (auto simp: ValidateDocument_def Let_def split: sum.splits)
qed

text \<open>C18: The decoder is total and its records are well formed. For every line and every behaviour of
  the JSON scanner that returns valid UTF-8 strings, the result is a record, an ignored line, or one
  diagnostic that points at exactly this line. A record carries identifiers that are non-empty, valid
  UTF-8 and within their limits, non-negative times, token counters and context windows, a known
  outcome or effort, and quota observations whose percentage lies between 0 and 100, whose window and
  reset are in range without overflow, and which are accepted only with a limit id and a reset in the
  future.\<close>

theorem decoder_well_formed:
  assumes "parses_utf8 env"
  shows "case decodeRolloutLine env frame of
      DecodeRecord l \<Rightarrow> 0 \<le> dl_ObservedAtMS l \<and> kindOK (dl_Kind l)
    | DecodeDiagnostic d \<Rightarrow> dg_StartOffset d = lf_StartOffset frame \<and> dg_EndOffset d = lf_EndOffset frame
    | DecodeKnownIgnored \<Rightarrow> True"
  using decodeRolloutLine_ok[OF assms, of frame] by (simp add: resultOK_def lineOK_def split: decodeResult.splits)

definition ex_json :: json where
  "ex_json = JObj [(''timestamp'', JStr ''T1''), (''type'', JStr ''event_msg''),
     (''payload'', JObj [(''type'', JStr ''task_started''), (''turn_id'', JStr ''t1''), (''Started_At'', JNum ''5'')])]"

definition ex_rollout :: rollout_env where
  "ex_rollout = \<lparr>re_tokens = (\<lambda>_. [TScalar]), re_clean = (\<lambda>_. True),
     re_parse = (\<lambda>c. if c = ''start'' then Some ex_json else None),
     re_fold = (\<lambda>s. map lower_byte s), re_time = (\<lambda>_. Some 1000), re_float = (\<lambda>_. None)\<rparr>"

definition ex_frame :: lineFrame where
  "ex_frame = \<lparr>lf_StartOffset = 0, lf_EndOffset = 6, lf_Content = ''start''\<rparr>"

lemma ex_rollout_utf8: "parses_utf8 ex_rollout"
proof -
  have "json_utf8 ex_json" by code_simp
  then show ?thesis by (simp add: parses_utf8_def ex_rollout_def)
qed

theorem decoder_well_formed_witness:
  "\<exists>l. decodeRolloutLine ex_rollout ex_frame = DecodeRecord l \<and> 0 \<le> dl_ObservedAtMS l \<and> kindOK (dl_Kind l) \<and>
     dl_Kind l = DecodedTurnStart \<lparr>dt_TurnID = ''t1'', dt_StartedAtMS = 5000, dt_ContextWindow = None\<rparr>"
proof -
  let ?l = "\<lparr>dl_ObservedAtMS = 1000,
     dl_Kind = DecodedTurnStart \<lparr>dt_TurnID = ''t1'', dt_StartedAtMS = 5000, dt_ContextWindow = None\<rparr>\<rparr>"
  have e: "decodeRolloutLine ex_rollout ex_frame = DecodeRecord ?l" by code_simp
  from decoder_well_formed[OF ex_rollout_utf8, of ex_frame] show ?thesis unfolding e by simp
qed

end
