(* ===== verification/Turn_Lifecycle.thy ===== *)
theory Turn_Lifecycle
  imports Rollout_Decoder "HOL-Library.Finite_Map"
begin

text \<open>
  The turn lifecycle of a rollout log (\<open>src/internal/codex/logs/parser/lifecycle.go\<close>): decoded
  records are associated with the session and its turns, records that arrive before their turn
  start are kept pending, and a bounded number of open, pending and closed turns is retained. Go's
  maps are finite maps; where the code ranges over one, the order it does not specify is the sorted
  one here, and no result depends on it.
\<close>

record positionedTurnContext =
  px_position :: SourcePosition
  px_observedAtMS :: int64
  px_record :: decodedTurnContextRecord

record positionedTurnTerminal =
  pe_position :: SourcePosition
  pe_record :: decodedTurnTerminalRecord

record pendingTurnState =
  pn_context :: "positionedTurnContext option"
  pn_terminal :: "positionedTurnTerminal option"

record turnLifecycleState =
  tl_start :: TurnStartFact
  tl_context :: "TurnContextFact option"
  tl_latestUsage :: "TurnUsageFact option"
  tl_terminal :: "TurnEndFact option"

record lifecycleNormalizer =
  ln_sourceKind :: SourceKind
  ln_session :: "SessionMetaFact option"
  ln_turns :: "(string, turnLifecycleState) fmap"
  ln_pending :: "(string, pendingTurnState) fmap"
  ln_closedOrder :: "string list"

record lifecycleResult =
  ly_Events :: "ParsedEvent list"
  ly_Diagnostics :: "ParserDiagnostic list"

definition newLifecycleNormalizer :: "SourceKind \<Rightarrow> lifecycleNormalizer" where
  "newLifecycleNormalizer k =
     \<lparr>ln_sourceKind = k, ln_session = None, ln_turns = fmempty, ln_pending = fmempty, ln_closedOrder = []\<rparr>"

definition emptyResult :: lifecycleResult where
  "emptyResult = \<lparr>ly_Events = [], ly_Diagnostics = []\<rparr>"

definition eventResult :: "SourcePosition \<Rightarrow> EventPayload \<Rightarrow> lifecycleResult" where
  "eventResult position p = \<lparr>ly_Events = [\<lparr>ev_Position = position, ev_Payload = p\<rparr>], ly_Diagnostics = []\<rparr>"

definition newLifecycleDiagnostic :: "SourcePosition \<Rightarrow> DiagnosticCode \<Rightarrow> ParserDiagnostic" where
  "newLifecycleDiagnostic position code =
     \<lparr>dg_Class = DiagnosticClassLifecycle, dg_Code = code, dg_StartOffset = sp_StartOffset position,
      dg_EndOffset = sp_EndOffset position, dg_Retryable = False\<rparr>"

definition lifecycleDiagnostic :: "SourcePosition \<Rightarrow> DiagnosticCode \<Rightarrow> lifecycleResult" where
  "lifecycleDiagnostic position code =
     \<lparr>ly_Events = [], ly_Diagnostics = [newLifecycleDiagnostic position code]\<rparr>"

definition appendResult :: "lifecycleResult \<Rightarrow> lifecycleResult \<Rightarrow> lifecycleResult" where
  "appendResult a b =
     \<lparr>ly_Events = ly_Events a @ ly_Events b, ly_Diagnostics = ly_Diagnostics a @ ly_Diagnostics b\<rparr>"

section \<open>Turns\<close>

definition isOpen :: "lifecycleNormalizer \<Rightarrow> string \<Rightarrow> bool" where
  "isOpen n turnID =
     (case fmlookup (ln_turns n) turnID of None \<Rightarrow> False | Some s \<Rightarrow> tl_terminal s = None)"

definition openTurnIDs :: "lifecycleNormalizer \<Rightarrow> string list" where
  "openTurnIDs n = filter (isOpen n) (sorted_list_of_fset (fmdom (ln_turns n)))"

definition resolveTurnID :: "lifecycleNormalizer \<Rightarrow> string option \<Rightarrow> DiagnosticCode + string" where
  "resolveTurnID n explicit =
     (case explicit of
        Some i \<Rightarrow> Inr i
      | None \<Rightarrow>
          (case openTurnIDs n of
             [] \<Rightarrow> Inl DiagnosticMissingTurnStart
           | [i] \<Rightarrow> Inr i
           | _ \<Rightarrow> Inl DiagnosticAmbiguousTurn))"

definition pendingState ::
  "lifecycleNormalizer \<Rightarrow> string \<Rightarrow> (pendingTurnState \<times> lifecycleNormalizer) option" where
  "pendingState n turnID =
     (case fmlookup (ln_pending n) turnID of
        Some s \<Rightarrow> Some (s, n)
      | None \<Rightarrow>
          if fcard (fmdom (ln_pending n)) \<ge> maxPendingTurnStates then None
          else (let s = \<lparr>pn_context = None, pn_terminal = None\<rparr>
                in Some (s, n\<lparr>ln_pending := fmupd turnID s (ln_pending n)\<rparr>)))"

definition retainClosedTurn :: "string \<Rightarrow> lifecycleNormalizer \<Rightarrow> lifecycleNormalizer" where
  "retainClosedTurn turnID n =
     (let order = ln_closedOrder n @ [turnID]
      in if length order \<le> maxRetainedClosedTurnStates then n\<lparr>ln_closedOrder := order\<rparr>
         else (let oldest = hd order; n1 = n\<lparr>ln_closedOrder := tl order\<rparr>
               in case fmlookup (ln_turns n1) oldest of
                    Some s \<Rightarrow> if tl_terminal s \<noteq> None then n1\<lparr>ln_turns := fmdrop oldest (ln_turns n1)\<rparr> else n1
                  | None \<Rightarrow> n1))"

definition sessionID :: "lifecycleNormalizer \<Rightarrow> string" where
  "sessionID n = (case ln_session n of None \<Rightarrow> [] | Some m \<Rightarrow> sm_SessionID m)"

section \<open>Records\<close>

definition sessionFact :: "int64 \<Rightarrow> decodedSessionMetaRecord \<Rightarrow> SourceKind \<Rightarrow> SessionMetaFact" where
  "sessionFact observedAtMS meta k =
     \<lparr>sm_SessionID = ds_SessionID meta, sm_RootSessionID = ds_RootSessionID meta, sm_SourceKind = k,
      sm_CreatedAtMS = ds_CreatedAtMS meta, sm_ObservedAtMS = observedAtMS,
      sm_InitialCWD = ds_InitialCWD meta, sm_Originator = ds_Originator meta,
      sm_CLIVersion = ds_CLIVersion meta, sm_Source = ds_Source meta,
      sm_ModelProvider = ds_ModelProvider meta\<rparr>"

definition applySession ::
  "SourcePosition \<Rightarrow> int64 \<Rightarrow> decodedSessionMetaRecord \<Rightarrow> lifecycleNormalizer \<Rightarrow>
   lifecycleResult \<times> lifecycleNormalizer" where
  "applySession position observedAtMS record n =
     (let meta = sessionFact observedAtMS record (ln_sourceKind n)
      in case ln_session n of
           Some current \<Rightarrow>
             if current = meta then (emptyResult, n)
             else (lifecycleDiagnostic position DiagnosticInvalidTransition, n)
         | None \<Rightarrow> (eventResult position (EventSessionMeta meta), n\<lparr>ln_session := Some meta\<rparr>))"

definition applyKnownTurnContext ::
  "SourcePosition \<Rightarrow> int64 \<Rightarrow> decodedTurnContextRecord \<Rightarrow> string \<Rightarrow> turnLifecycleState \<Rightarrow> lifecycleNormalizer \<Rightarrow>
   lifecycleResult \<times> lifecycleNormalizer" where
  "applyKnownTurnContext position observedAtMS record turnID state n =
     (if tl_terminal state \<noteq> None then (lifecycleDiagnostic position DiagnosticInvalidTransition, n)
      else if observedAtMS < ts_StartedAtMS (tl_start state)
      then (lifecycleDiagnostic position DiagnosticInvalidTransition, n)
      else
        (let fact = \<lparr>cx_SessionID = sessionID n, cx_TurnID = turnID, cx_ObservedAtMS = observedAtMS,
                     cx_CWD = dc_CWD record, cx_Model = dc_Model record, cx_Effort = dc_Effort record\<rparr>
         in if tl_context state = Some fact then (emptyResult, n)
            else (eventResult position (EventTurnContext fact),
                  n\<lparr>ln_turns := fmupd turnID (state\<lparr>tl_context := Some fact\<rparr>) (ln_turns n)\<rparr>)))"

definition applyTurnTerminal ::
  "SourcePosition \<Rightarrow> decodedTurnTerminalRecord \<Rightarrow> bool \<Rightarrow> lifecycleNormalizer \<Rightarrow>
   lifecycleResult \<times> lifecycleNormalizer" where
  "applyTurnTerminal position record allowPending n =
     (case resolveTurnID n (de_TurnID record) of
        Inl code \<Rightarrow> (lifecycleDiagnostic position code, n)
      | Inr turnID \<Rightarrow>
          if turnID = [] then (lifecycleDiagnostic position DiagnosticMissingTurnStart, n)
          else case fmlookup (ln_turns n) turnID of
            None \<Rightarrow>
              if \<not> allowPending \<or> de_TurnID record = None
              then (lifecycleDiagnostic position DiagnosticMissingTurnStart, n)
              else (case pendingState n turnID of
                      None \<Rightarrow> (lifecycleDiagnostic position DiagnosticStateLimitExceeded, n)
                    | Some (pending, n1) \<Rightarrow>
                        (let candidate = \<lparr>pe_position = position,
                               pe_record = \<lparr>de_TurnID = Some turnID, de_CompletedAtMS = de_CompletedAtMS record,
                                            de_Outcome = de_Outcome record\<rparr>\<rparr>
                         in case pn_terminal pending of
                              Some t \<Rightarrow>
                                if pe_record t = pe_record candidate then (emptyResult, n1)
                                else (lifecycleDiagnostic position DiagnosticInvalidTransition, n1)
                            | None \<Rightarrow>
                                (lifecycleDiagnostic position DiagnosticMissingTurnStart,
                                 n1\<lparr>ln_pending := fmupd turnID (pending\<lparr>pn_terminal := Some candidate\<rparr>)
                                                    (ln_pending n1)\<rparr>)))
          | Some state \<Rightarrow>
              (case tl_terminal state of
                 Some t \<Rightarrow>
                   if te_CompletedAtMS t = de_CompletedAtMS record \<and> te_Outcome t = de_Outcome record
                   then (emptyResult, n)
                   else (lifecycleDiagnostic position DiagnosticInvalidTransition, n)
               | None \<Rightarrow>
                   if de_CompletedAtMS record < ts_StartedAtMS (tl_start state)
                   then (lifecycleDiagnostic position DiagnosticInvalidTransition, n)
                   else
                     (let endFact = \<lparr>te_SessionID = sessionID n, te_TurnID = turnID,
                            te_CompletedAtMS = de_CompletedAtMS record, te_Outcome = de_Outcome record,
                            te_FinalUsage = map_option (\<lambda>u. u\<lparr>tu_IsFinal := True\<rparr>) (tl_latestUsage state)\<rparr>;
                          n1 = n\<lparr>ln_turns := fmupd turnID (state\<lparr>tl_terminal := Some endFact\<rparr>) (ln_turns n)\<rparr>
                      in (eventResult position (EventTurnEnded endFact), retainClosedTurn turnID n1))))"

text \<open>The pending context and the pending terminal of a turn that has just started.\<close>

definition resolvePendingContext ::
  "pendingTurnState \<Rightarrow> string \<Rightarrow> turnLifecycleState \<Rightarrow> lifecycleResult \<times> lifecycleNormalizer \<Rightarrow>
   lifecycleResult \<times> lifecycleNormalizer" where
  "resolvePendingContext pending turnID state x =
     (case pn_context pending of
        None \<Rightarrow> x
      | Some c \<Rightarrow>
          (let (r, n') = applyKnownTurnContext (px_position c) (px_observedAtMS c) (px_record c) turnID state (snd x)
           in (appendResult (fst x) r, n')))"

definition resolvePendingTerminal ::
  "pendingTurnState \<Rightarrow> lifecycleResult \<times> lifecycleNormalizer \<Rightarrow> lifecycleResult \<times> lifecycleNormalizer" where
  "resolvePendingTerminal pending x =
     (case pn_terminal pending of
        None \<Rightarrow> x
      | Some t \<Rightarrow>
          (let (r, n') = applyTurnTerminal (pe_position t) (pe_record t) False (snd x)
           in (appendResult (fst x) r, n')))"

definition applyTurnStart ::
  "SourcePosition \<Rightarrow> decodedTurnStartRecord \<Rightarrow> lifecycleNormalizer \<Rightarrow> lifecycleResult \<times> lifecycleNormalizer" where
  "applyTurnStart position record n =
     (let turnID = dt_TurnID record;
          fact = \<lparr>ts_SessionID = sessionID n, ts_TurnID = turnID, ts_StartedAtMS = dt_StartedAtMS record,
                  ts_ContextWindow = dt_ContextWindow record\<rparr>
      in case fmlookup (ln_turns n) turnID of
           Some current \<Rightarrow>
             if tl_start current = fact then (emptyResult, n)
             else (lifecycleDiagnostic position DiagnosticInvalidTransition, n)
         | None \<Rightarrow>
             if length (openTurnIDs n) \<ge> maxOpenTurnStates
             then (lifecycleDiagnostic position DiagnosticStateLimitExceeded,
                   n\<lparr>ln_pending := fmdrop turnID (ln_pending n)\<rparr>)
             else
               (let state = \<lparr>tl_start = fact, tl_context = None, tl_latestUsage = None, tl_terminal = None\<rparr>;
                    n1 = n\<lparr>ln_turns := fmupd turnID state (ln_turns n)\<rparr>;
                    started = eventResult position (EventTurnStarted fact)
                in case fmlookup (ln_pending n1) turnID of
                     None \<Rightarrow> (started, n1)
                   | Some pending \<Rightarrow>
                       resolvePendingTerminal pending
                         (resolvePendingContext pending turnID state
                           (started, n1\<lparr>ln_pending := fmdrop turnID (ln_pending n1)\<rparr>))))"

definition applyTurnContext ::
  "SourcePosition \<Rightarrow> int64 \<Rightarrow> decodedTurnContextRecord \<Rightarrow> lifecycleNormalizer \<Rightarrow>
   lifecycleResult \<times> lifecycleNormalizer" where
  "applyTurnContext position observedAtMS record n =
     (case resolveTurnID n (dc_TurnID record) of
        Inl code \<Rightarrow> (lifecycleDiagnostic position code, n)
      | Inr turnID \<Rightarrow>
          if turnID = [] then (lifecycleDiagnostic position DiagnosticMissingTurnStart, n)
          else case fmlookup (ln_turns n) turnID of
            Some state \<Rightarrow> applyKnownTurnContext position observedAtMS record turnID state n
          | None \<Rightarrow>
              (case pendingState n turnID of
                 None \<Rightarrow> (lifecycleDiagnostic position DiagnosticStateLimitExceeded, n)
               | Some (pending, n1) \<Rightarrow>
                   if pn_terminal pending \<noteq> None
                   then (lifecycleDiagnostic position DiagnosticInvalidTransition, n1)
                   else
                     (let candidate = \<lparr>px_position = position, px_observedAtMS = observedAtMS,
                            px_record = \<lparr>dc_TurnID = Some turnID, dc_CWD = dc_CWD record,
                                         dc_Model = dc_Model record, dc_Effort = dc_Effort record\<rparr>\<rparr>
                      in case pn_context pending of
                           Some c \<Rightarrow>
                             if px_record c = px_record candidate then (emptyResult, n1)
                             else (lifecycleDiagnostic position DiagnosticInvalidTransition, n1)
                         | None \<Rightarrow>
                             (lifecycleDiagnostic position DiagnosticMissingTurnStart,
                              n1\<lparr>ln_pending := fmupd turnID (pending\<lparr>pn_context := Some candidate\<rparr>)
                                                 (ln_pending n1)\<rparr>))))"

definition applyTokenUsage ::
  "SourcePosition \<Rightarrow> decodedTokenUsageRecord \<Rightarrow> lifecycleNormalizer \<Rightarrow> lifecycleResult \<times> lifecycleNormalizer" where
  "applyTokenUsage position record n =
     (let r = eventResult position (EventSessionUsage
                \<lparr>su_SessionID = sessionID n, su_ObservedAtMS = du_ObservedAtMS record,
                 su_Usage = du_Total record, su_ContextWindow = du_ContextWindow record\<rparr>)
      in case openTurnIDs n of
           [] \<Rightarrow> (appendResult r (lifecycleDiagnostic position DiagnosticOrphanTurnUsage), n)
         | [turnID] \<Rightarrow>
             (case fmlookup (ln_turns n) turnID of
                None \<Rightarrow> (r, n)
              | Some state \<Rightarrow>
                  if du_ObservedAtMS record < ts_StartedAtMS (tl_start state)
                  then (appendResult r (lifecycleDiagnostic position DiagnosticInvalidTransition), n)
                  else
                    (let fact = \<lparr>tu_SessionID = sessionID n, tu_TurnID = turnID,
                                 tu_ObservedAtMS = du_ObservedAtMS record, tu_Usage = du_Last record,
                                 tu_ContextWindow = du_ContextWindow record, tu_IsFinal = False\<rparr>
                     in (appendResult r (eventResult position (EventTurnUsage fact)),
                         n\<lparr>ln_turns := fmupd turnID (state\<lparr>tl_latestUsage := Some fact\<rparr>) (ln_turns n)\<rparr>)))
         | _ \<Rightarrow> (appendResult r (lifecycleDiagnostic position DiagnosticAmbiguousTurn), n))"

definition applyTokenCount ::
  "SourcePosition \<Rightarrow> decodedTokenUsageRecord option \<Rightarrow> QuotaObservationFact list \<Rightarrow> DiagnosticCode list \<Rightarrow>
   lifecycleNormalizer \<Rightarrow> lifecycleResult \<times> lifecycleNormalizer" where
  "applyTokenCount position usage observations codes n =
     (if usage = None \<and> observations = [] \<and> codes = []
      then (lifecycleDiagnostic position DiagnosticInvalidTransition, n)
      else
        (let (r, n1) = (case usage of None \<Rightarrow> (emptyResult, n) | Some u \<Rightarrow> applyTokenUsage position u n)
         in (\<lparr>ly_Events = ly_Events r @
                map (\<lambda>q. \<lparr>ev_Position = position,
                          ev_Payload = EventQuotaObservation (q\<lparr>qo_SessionID := sessionID n1\<rparr>)\<rparr>) observations,
              ly_Diagnostics = ly_Diagnostics r @ map (newLifecycleDiagnostic position) codes\<rparr>, n1)))"

definition Apply ::
  "SourcePosition \<Rightarrow> decodedLine \<Rightarrow> lifecycleNormalizer \<Rightarrow> lifecycleResult \<times> lifecycleNormalizer" where
  "Apply position record n =
     (if sp_StartOffset position < 0 \<or> sp_EndOffset position \<le> sp_StartOffset position
      then (lifecycleDiagnostic position DiagnosticInvalidTransition, n)
      else case dl_Kind record of
        DecodedSessionMeta m \<Rightarrow> applySession position (dl_ObservedAtMS record) m n
      | k \<Rightarrow>
          if ln_session n = None then (lifecycleDiagnostic position DiagnosticMissingSessionMeta, n)
          else (case k of
                  DecodedTurnStart t \<Rightarrow> applyTurnStart position t n
                | DecodedTurnContext c \<Rightarrow> applyTurnContext position (dl_ObservedAtMS record) c n
                | DecodedTokenUsage u obs codes \<Rightarrow> applyTokenCount position u obs codes n
                | DecodedTurnTerminal e \<Rightarrow> applyTurnTerminal position e True n
                | DecodedSessionMeta m \<Rightarrow> (emptyResult, n)))"

section \<open>Checkpoint\<close>

definition checkpoint :: "lifecycleNormalizer \<Rightarrow> ParserSeed" where
  "checkpoint n =
     \<lparr>sd_Session = ln_session n,
      sd_OpenTurns =
        List.map_filter (\<lambda>i. map_option
            (\<lambda>s. \<lparr>os_TurnID = i, os_StartedAtMS = ts_StartedAtMS (tl_start s),
                  os_ContextWindow = ts_ContextWindow (tl_start s), os_Context = tl_context s,
                  os_LatestUsage = tl_latestUsage s\<rparr>) (fmlookup (ln_turns n) i))
          (sort (openTurnIDs n)),
      sd_PendingTurns =
        List.map_filter (\<lambda>i. map_option
            (\<lambda>s. \<lparr>ps_TurnID = i,
                  ps_Context = map_option (\<lambda>c. \<lparr>pc_Position = px_position c,
                      pc_ObservedAtMS = px_observedAtMS c, pc_CWD = dc_CWD (px_record c),
                      pc_Model = dc_Model (px_record c), pc_Effort = dc_Effort (px_record c)\<rparr>) (pn_context s),
                  ps_Terminal = map_option (\<lambda>t. \<lparr>pt_Position = pe_position t,
                      pt_CompletedAtMS = de_CompletedAtMS (pe_record t),
                      pt_Outcome = de_Outcome (pe_record t)\<rparr>) (pn_terminal s)\<rparr>)
            (fmlookup (ln_pending n) i))
          (sorted_list_of_fset (fmdom (ln_pending n))),
      sd_ClosedTurns =
        List.map_filter (\<lambda>i. case fmlookup (ln_turns n) i of
            None \<Rightarrow> None
          | Some s \<Rightarrow> map_option
              (\<lambda>t. \<lparr>cs_TurnID = i, cs_StartedAtMS = ts_StartedAtMS (tl_start s),
                    cs_ContextWindow = ts_ContextWindow (tl_start s), cs_Terminal = t\<rparr>) (tl_terminal s))
          (ln_closedOrder n)\<rparr>"

definition seedSessionID :: "ParserSeed \<Rightarrow> string" where
  "seedSessionID seed = (case sd_Session seed of None \<Rightarrow> [] | Some m \<Rightarrow> sm_SessionID m)"

definition hydrateOpen :: "string \<Rightarrow> OpenTurnSeed \<Rightarrow> turnLifecycleState" where
  "hydrateOpen sid s =
     \<lparr>tl_start = \<lparr>ts_SessionID = sid, ts_TurnID = os_TurnID s, ts_StartedAtMS = os_StartedAtMS s,
                  ts_ContextWindow = os_ContextWindow s\<rparr>,
      tl_context = os_Context s, tl_latestUsage = os_LatestUsage s, tl_terminal = None\<rparr>"

definition hydratePending :: "PendingTurnSeed \<Rightarrow> pendingTurnState" where
  "hydratePending s =
     \<lparr>pn_context = map_option (\<lambda>c. \<lparr>px_position = pc_Position c, px_observedAtMS = pc_ObservedAtMS c,
          px_record = \<lparr>dc_TurnID = Some (ps_TurnID s), dc_CWD = pc_CWD c, dc_Model = pc_Model c,
                       dc_Effort = pc_Effort c\<rparr>\<rparr>) (ps_Context s),
      pn_terminal = map_option (\<lambda>t. \<lparr>pe_position = pt_Position t,
          pe_record = \<lparr>de_TurnID = Some (ps_TurnID s), de_CompletedAtMS = pt_CompletedAtMS t,
                       de_Outcome = pt_Outcome t\<rparr>\<rparr>) (ps_Terminal s)\<rparr>"

definition hydrateClosed :: "string \<Rightarrow> ClosedTurnSeed \<Rightarrow> turnLifecycleState" where
  "hydrateClosed sid s =
     \<lparr>tl_start = \<lparr>ts_SessionID = sid, ts_TurnID = cs_TurnID s, ts_StartedAtMS = cs_StartedAtMS s,
                  ts_ContextWindow = cs_ContextWindow s\<rparr>,
      tl_context = None, tl_latestUsage = None, tl_terminal = Some (cs_Terminal s)\<rparr>"

definition hydrate :: "ParserSeed option \<Rightarrow> lifecycleNormalizer \<Rightarrow> lifecycleNormalizer" where
  "hydrate seed n =
     (case seed of
        None \<Rightarrow> n
      | Some seed \<Rightarrow>
          (let sid = seedSessionID seed;
               turns1 = foldl (\<lambda>m s. fmupd (os_TurnID s) (hydrateOpen sid s) m) (ln_turns n) (sd_OpenTurns seed);
               pending1 = foldl (\<lambda>m s. fmupd (ps_TurnID s) (hydratePending s) m) (ln_pending n) (sd_PendingTurns seed);
               turns2 = foldl (\<lambda>m s. fmupd (cs_TurnID s) (hydrateClosed sid s) m) turns1 (sd_ClosedTurns seed)
           in n\<lparr>ln_session := sd_Session seed, ln_turns := turns2, ln_pending := pending1,
                ln_closedOrder := ln_closedOrder n @ map cs_TurnID (sd_ClosedTurns seed)\<rparr>))"

section \<open>Lemmas: what a closed turn still determines\<close>

text \<open>
  A checkpoint keeps of a closed turn its start and its end only. \<open>sim\<close> relates two normalizers
  that differ in nothing else; no operation tells them apart.
\<close>

definition closeState :: "turnLifecycleState \<Rightarrow> turnLifecycleState" where
  "closeState s = (if tl_terminal s = None then s else s\<lparr>tl_context := None, tl_latestUsage := None\<rparr>)"

definition norm :: "lifecycleNormalizer \<Rightarrow> lifecycleNormalizer" where
  "norm n = n\<lparr>ln_turns := fmmap closeState (ln_turns n)\<rparr>"

definition sim :: "lifecycleNormalizer \<Rightarrow> lifecycleNormalizer \<Rightarrow> bool" where
  "sim n m \<longleftrightarrow> norm n = norm m"

definition rsim :: "lifecycleResult \<times> lifecycleNormalizer \<Rightarrow> lifecycleResult \<times> lifecycleNormalizer \<Rightarrow> bool" where
  "rsim x y \<longleftrightarrow> fst x = fst y \<and> sim (snd x) (snd y)"

lemma rsim_Pair [simp]: "rsim (r, n) (r', m) \<longleftrightarrow> r = r' \<and> sim n m"
  by (simp add: rsim_def)

lemma sim_refl [simp]: "sim n n"
  by (simp add: sim_def)

lemma closeState_simps [simp]:
  "tl_terminal (closeState s) = tl_terminal s" "tl_start (closeState s) = tl_start s"
  "closeState (closeState s) = closeState s"
  by (simp_all add: closeState_def)

lemma closeState_eqD:
  assumes "closeState s = closeState s'"
  shows "tl_start s = tl_start s'" "tl_terminal s = tl_terminal s'" "tl_terminal s = None \<Longrightarrow> s = s'"
proof -
  show "tl_start s = tl_start s'" "tl_terminal s = tl_terminal s'"
    using arg_cong[OF assms, of tl_start] arg_cong[OF assms, of tl_terminal] by simp_all
  then show "tl_terminal s = None \<Longrightarrow> s = s'" using assms by (simp add: closeState_def)
qed

lemma sim_fields:
  assumes "sim n m"
  shows "ln_sourceKind n = ln_sourceKind m" "ln_session n = ln_session m" "ln_pending n = ln_pending m"
    "ln_closedOrder n = ln_closedOrder m" "sessionID n = sessionID m"
    "fmmap closeState (ln_turns n) = fmmap closeState (ln_turns m)"
proof -
  have e: "norm n = norm m" using assms by (simp add: sim_def)
  from arg_cong[OF e, of ln_sourceKind] arg_cong[OF e, of ln_session] arg_cong[OF e, of ln_pending]
    arg_cong[OF e, of ln_closedOrder] arg_cong[OF e, of ln_turns]
  show "ln_sourceKind n = ln_sourceKind m" "ln_session n = ln_session m" "ln_pending n = ln_pending m"
    "ln_closedOrder n = ln_closedOrder m" "fmmap closeState (ln_turns n) = fmmap closeState (ln_turns m)"
    by (simp_all add: norm_def)
  then show "sessionID n = sessionID m" by (simp add: sessionID_def)
qed

lemma sim_iff:
  "sim n m \<longleftrightarrow> ln_sourceKind n = ln_sourceKind m \<and> ln_session n = ln_session m \<and> ln_pending n = ln_pending m \<and>
     ln_closedOrder n = ln_closedOrder m \<and> fmmap closeState (ln_turns n) = fmmap closeState (ln_turns m)"
proof
  assume "sim n m"
  from sim_fields[OF this] show "ln_sourceKind n = ln_sourceKind m \<and> ln_session n = ln_session m \<and>
      ln_pending n = ln_pending m \<and> ln_closedOrder n = ln_closedOrder m \<and>
      fmmap closeState (ln_turns n) = fmmap closeState (ln_turns m)" by simp
qed (auto simp: sim_def norm_def intro!: lifecycleNormalizer.equality)

lemma sim_lookup:
  assumes "sim n m"
  shows "map_option closeState (fmlookup (ln_turns n) i) = map_option closeState (fmlookup (ln_turns m) i)"
  using arg_cong[OF sim_fields(6)[OF assms], of "\<lambda>t. fmlookup t i"] by simp

lemma sim_cases:
  assumes "sim n m"
  obtains (absent) "fmlookup (ln_turns n) i = None" "fmlookup (ln_turns m) i = None"
  | (present) s s' where "fmlookup (ln_turns n) i = Some s" "fmlookup (ln_turns m) i = Some s'"
      "closeState s = closeState s'"
  using sim_lookup[OF assms, of i] that
  by (cases "fmlookup (ln_turns n) i"; cases "fmlookup (ln_turns m) i") simp_all

lemma sim_dom: "sim n m \<Longrightarrow> fmdom (ln_turns n) = fmdom (ln_turns m)"
  using sim_fields(6) by (metis fmdom_map)

lemma sim_open: "sim n m \<Longrightarrow> openTurnIDs n = openTurnIDs m"
proof -
  assume s: "sim n m"
  have "isOpen n = isOpen m"
  proof
    fix i
    from s show "isOpen n i = isOpen m i"
      by (rule sim_cases[of _ _ i]) (auto simp: isOpen_def dest: closeState_eqD)
  qed
  with sim_dom[OF s] show ?thesis by (simp add: openTurnIDs_def)
qed

lemma sim_resolve: "sim n m \<Longrightarrow> resolveTurnID n e = resolveTurnID m e"
  using sim_open[of n m] by (cases e) (simp_all add: resolveTurnID_def)

declare fmmap_fmupd [simp]

lemma sim_upd:
  "sim n m \<Longrightarrow> closeState s = closeState s' \<Longrightarrow>
   sim (n\<lparr>ln_turns := fmupd i s (ln_turns n)\<rparr>) (m\<lparr>ln_turns := fmupd i s' (ln_turns m)\<rparr>)"
  by (simp add: sim_iff)

lemma sim_drop:
  assumes "sim n m"
  shows "sim (n\<lparr>ln_turns := fmdrop i (ln_turns n)\<rparr>) (m\<lparr>ln_turns := fmdrop i (ln_turns m)\<rparr>)"
proof -
  have "fmmap closeState (fmdrop i (ln_turns n)) = fmmap closeState (fmdrop i (ln_turns m))"
    by (rule fmap_ext) (simp add: sim_lookup[OF assms])
  with assms show ?thesis by (simp add: sim_iff)
qed

lemma sim_pending: "sim n m \<Longrightarrow> sim (n\<lparr>ln_pending := p\<rparr>) (m\<lparr>ln_pending := p\<rparr>)"
  by (simp add: sim_iff)

lemma sim_order: "sim n m \<Longrightarrow> sim (n\<lparr>ln_closedOrder := q\<rparr>) (m\<lparr>ln_closedOrder := q\<rparr>)"
  by (simp add: sim_iff)

lemma sim_session: "sim n m \<Longrightarrow> sim (n\<lparr>ln_session := q\<rparr>) (m\<lparr>ln_session := q\<rparr>)"
  by (simp add: sim_iff)

lemma sim_pendingState:
  assumes "sim n m"
  obtains (full) "pendingState n i = None" "pendingState m i = None"
  | (found) p n' m' where "pendingState n i = Some (p, n')" "pendingState m i = Some (p, m')"
      "sim n' m'" "ln_pending n' = ln_pending m'"
proof (cases "pendingState m i")
  case None
  with sim_fields(3)[OF assms] show thesis
    by (intro full) (auto simp: pendingState_def Let_def split: option.splits if_splits)
next
  case (Some x)
  with sim_fields(3)[OF assms] assms sim_pending[OF assms] show thesis
    by (auto simp: pendingState_def Let_def split: option.splits if_splits intro!: found)
qed

lemma sim_retain:
  assumes s: "sim n m"
  shows "sim (retainClosedTurn i n) (retainClosedTurn i m)"
proof -
  let ?q = "ln_closedOrder m @ [i]"
  have o: "ln_closedOrder n = ln_closedOrder m" by (rule sim_fields(4)[OF s])
  have t: "sim (n\<lparr>ln_closedOrder := tl ?q\<rparr>) (m\<lparr>ln_closedOrder := tl ?q\<rparr>)" by (rule sim_order[OF s])
  have d: "sim (n\<lparr>ln_closedOrder := tl ?q, ln_turns := fmdrop (hd ?q) (ln_turns n)\<rparr>)
      (m\<lparr>ln_closedOrder := tl ?q, ln_turns := fmdrop (hd ?q) (ln_turns m)\<rparr>)"
    using sim_drop[OF t, of "hd ?q"] by simp
  show ?thesis
  proof (cases "length ?q \<le> maxRetainedClosedTurnStates")
    case True
    with o sim_order[OF s, of ?q] show ?thesis by (simp add: retainClosedTurn_def Let_def)
  next
    case False
    show ?thesis
    proof (cases rule: sim_cases[OF s, of "hd ?q", case_names absent present])
      case absent
      with False o t show ?thesis by (simp add: retainClosedTurn_def Let_def)
    next
      case (present x x')
      with False o t d closeState_eqD(2)[OF present(3)] show ?thesis by (simp add: retainClosedTurn_def Let_def)
    qed
  qed
qed

lemma sim_applySession: "sim n m \<Longrightarrow> rsim (applySession p t r n) (applySession p t r m)"
proof -
  assume s: "sim n m"
  show ?thesis
    by (cases "ln_session m") (use s sim_fields(1,2)[OF s] sim_session[OF s] in \<open>simp_all add: applySession_def Let_def\<close>)
qed

lemma sim_applyKnownTurnContext:
  assumes "sim n m" and "closeState s = closeState s'"
  shows "rsim (applyKnownTurnContext p t r i s n) (applyKnownTurnContext p t r i s' m)"
proof (cases "tl_terminal s = None")
  case True
  with closeState_eqD[OF assms(2)] have "s' = s" by simp
  with assms(1) sim_fields(5)[OF assms(1)] show ?thesis
    by (simp add: applyKnownTurnContext_def Let_def sim_upd)
next
  case False
  with closeState_eqD[OF assms(2)] assms(1) show ?thesis by (simp add: applyKnownTurnContext_def)
qed

lemma sim_applyTurnContext:
  assumes "sim n m"
  shows "rsim (applyTurnContext p t r n) (applyTurnContext p t r m)"
proof (cases "resolveTurnID m (dc_TurnID r)")
  case (Inl c)
  with sim_resolve[OF assms] assms show ?thesis by (simp add: applyTurnContext_def)
next
  case (Inr i)
  note R = sim_resolve[OF assms, of "dc_TurnID r", unfolded Inr] Inr
  show ?thesis
  proof (cases rule: sim_cases[OF assms, of i, case_names absent present])
    case absent
    show ?thesis
      by (rule sim_pendingState[OF assms, of i])
        (use R absent assms sim_pending in \<open>auto simp: applyTurnContext_def Let_def split: option.split\<close>)
  next
    case (present s s')
    with R sim_applyKnownTurnContext[OF assms present(3)] assms show ?thesis by (simp add: applyTurnContext_def)
  qed
qed

lemma sim_applyTurnTerminal:
  assumes "sim n m"
  shows "rsim (applyTurnTerminal p r a n) (applyTurnTerminal p r a m)"
proof (cases "resolveTurnID m (de_TurnID r)")
  case (Inl c)
  with sim_resolve[OF assms] assms show ?thesis by (simp add: applyTurnTerminal_def)
next
  case (Inr i)
  note R = sim_resolve[OF assms, of "de_TurnID r", unfolded Inr] Inr
  show ?thesis
  proof (cases rule: sim_cases[OF assms, of i, case_names absent present])
    case absent
    show ?thesis
      by (rule sim_pendingState[OF assms, of i])
        (use R absent assms sim_pending in \<open>auto simp: applyTurnTerminal_def Let_def split: option.split\<close>)
  next
    case (present s s')
    show ?thesis
    proof (cases "tl_terminal s")
      case None
      with closeState_eqD[OF present(3)] have "s' = s" by simp
      with R present None assms sim_fields(5)[OF assms] show ?thesis
        by (simp add: applyTurnTerminal_def Let_def sim_upd sim_retain)
    next
      case (Some x)
      with closeState_eqD(2)[OF present(3)] have "tl_terminal s' = Some x" by simp
      with Some R present assms show ?thesis by (simp add: applyTurnTerminal_def)
    qed
  qed
qed

lemma rsim_cases:
  assumes "rsim x y"
  obtains r n m where "x = (r, n)" "y = (r, m)" "sim n m"
  using assms by (cases x; cases y) (auto simp: rsim_def)

lemma sim_resolvePending:
  "rsim x y \<Longrightarrow> rsim (resolvePendingContext pend i st x) (resolvePendingContext pend i st y)"
  "rsim x y \<Longrightarrow> rsim (resolvePendingTerminal pend x) (resolvePendingTerminal pend y)"
proof -
  assume "rsim x y"
  then obtain r n m where xy: "x = (r, n)" "y = (r, m)" "sim n m" by (rule rsim_cases)
  show "rsim (resolvePendingContext pend i st x) (resolvePendingContext pend i st y)"
  proof (cases "pn_context pend")
    case (Some c)
    from sim_applyKnownTurnContext[OF xy(3) refl, of "px_position c" "px_observedAtMS c" "px_record c" i st]
    show ?thesis by (rule rsim_cases) (simp add: resolvePendingContext_def xy Some)
  qed (simp add: resolvePendingContext_def xy)
  show "rsim (resolvePendingTerminal pend x) (resolvePendingTerminal pend y)"
  proof (cases "pn_terminal pend")
    case (Some t)
    from sim_applyTurnTerminal[OF xy(3), of "pe_position t" "pe_record t" False]
    show ?thesis by (rule rsim_cases) (simp add: resolvePendingTerminal_def xy Some)
  qed (simp add: resolvePendingTerminal_def xy)
qed

lemma sim_applyTurnStart:
  assumes "sim n m"
  shows "rsim (applyTurnStart p r n) (applyTurnStart p r m)"
proof (cases rule: sim_cases[OF assms, of "dt_TurnID r", case_names absent present])
  case (present s s')
  with closeState_eqD[OF present(3)] assms sim_fields(5)[OF assms] show ?thesis
    by (simp add: applyTurnStart_def Let_def)
next
  case absent
  let ?i = "dt_TurnID r"
  let ?st = "\<lparr>tl_start = \<lparr>ts_SessionID = sessionID m, ts_TurnID = ?i, ts_StartedAtMS = dt_StartedAtMS r,
      ts_ContextWindow = dt_ContextWindow r\<rparr>, tl_context = None, tl_latestUsage = None, tl_terminal = None\<rparr>"
  have s1: "sim (n\<lparr>ln_turns := fmupd ?i ?st (ln_turns n)\<rparr>) (m\<lparr>ln_turns := fmupd ?i ?st (ln_turns m)\<rparr>)"
    by (rule sim_upd[OF assms refl])
  have s2: "sim (n\<lparr>ln_turns := fmupd ?i ?st (ln_turns n), ln_pending := q\<rparr>)
      (m\<lparr>ln_turns := fmupd ?i ?st (ln_turns m), ln_pending := q\<rparr>)" for q
    using sim_pending[OF s1] by simp
  note F = absent sim_open[OF assms] sim_fields(3,5)[OF assms]
  show ?thesis
  proof (cases "length (openTurnIDs m) \<ge> maxOpenTurnStates")
    case True
    with F sim_pending[OF assms] show ?thesis by (simp add: applyTurnStart_def Let_def)
  next
    case False
    show ?thesis
    proof (cases "fmlookup (ln_pending m) ?i")
      case None
      with F False s1 show ?thesis by (simp add: applyTurnStart_def Let_def)
    next
      case (Some pend)
      with F False s2 show ?thesis
        by (simp add: applyTurnStart_def Let_def sim_resolvePending)
    qed
  qed
qed

lemma sim_applyTokenUsage:
  assumes "sim n m"
  shows "rsim (applyTokenUsage p r n) (applyTokenUsage p r m)"
proof -
  consider (none) "openTurnIDs m = []" | (one) i where "openTurnIDs m = [i]"
    | (many) i j ys where "openTurnIDs m = i # j # ys"
    by (metis list.exhaust)
  then show ?thesis
  proof cases
    case none
    with sim_open[OF assms] sim_fields(5)[OF assms] assms show ?thesis by (simp add: applyTokenUsage_def Let_def)
  next
    case (one i)
    then have "i \<in> set (openTurnIDs m)" by simp
    then have "isOpen m i" by (simp add: openTurnIDs_def)
    show ?thesis
    proof (cases rule: sim_cases[OF assms, of i, case_names absent present])
      case absent
      with sim_open[OF assms] sim_fields(5)[OF assms] assms one show ?thesis by (simp add: applyTokenUsage_def Let_def)
    next
      case (present s s')
      from \<open>isOpen m i\<close> present(2) have "tl_terminal s' = None" by (simp add: isOpen_def)
      with closeState_eqD(2,3)[OF present(3)] have e: "s = s'" by metis
      from present(1,2) e sim_open[OF assms] sim_fields(5)[OF assms] assms one show ?thesis
        by (simp add: applyTokenUsage_def Let_def sim_upd)
    qed
  next
    case (many i j ys)
    with sim_open[OF assms] sim_fields(5)[OF assms] assms show ?thesis by (simp add: applyTokenUsage_def Let_def)
  qed
qed

lemma sim_applyTokenCount:
  assumes "sim n m"
  shows "rsim (applyTokenCount p u qs cs n) (applyTokenCount p u qs cs m)"
proof (cases u)
  case None
  with assms sim_fields(5)[OF assms] show ?thesis by (simp add: applyTokenCount_def)
next
  case (Some r)
  from sim_applyTokenUsage[OF assms, of p r] show ?thesis
  proof (rule rsim_cases)
    fix x n' m' assume u: "applyTokenUsage p r n = (x, n')" "applyTokenUsage p r m = (x, m')" "sim n' m'"
    with Some sim_fields(5)[OF u(3)] show ?thesis by (simp add: applyTokenCount_def)
  qed
qed

lemma sim_Apply:
  assumes "sim n m"
  shows "rsim (Apply p l n) (Apply p l m)"
  using assms sim_fields(2)[OF assms]
  by (cases "dl_Kind l") (simp_all add: Apply_def sim_applySession sim_applyTurnContext sim_applyTurnStart
      sim_applyTokenCount sim_applyTurnTerminal)

end
