(* ===== verification/Turn_Invariants.thy ===== *)
theory Turn_Invariants
  imports Turn_Lifecycle
begin

text \<open>
  The invariant of the retained turn state and its preservation by every operation of the
  lifecycle normalizer: the bounds on open, pending and closed turns, the well-formedness of what is
  retained, and the round trip through a checkpoint.
\<close>

section \<open>Lemmas: the invariant of the retained state\<close>

definition posOK :: "int64 \<Rightarrow> SourcePosition \<Rightarrow> bool" where
  "posOK b p \<longleftrightarrow> 0 \<le> sp_StartOffset p \<and> sp_StartOffset p < sp_EndOffset p \<and> sp_EndOffset p \<le> b"

definition usageOK :: "string \<Rightarrow> string \<Rightarrow> int64 \<Rightarrow> bool \<Rightarrow> TurnUsageFact \<Rightarrow> bool" where
  "usageOK sid i started final u \<longleftrightarrow>
     tu_SessionID u = sid \<and> tu_TurnID u = i \<and> started \<le> tu_ObservedAtMS u \<and> tu_IsFinal u = final \<and>
     validNonNegative (tu_ContextWindow u) \<and> countersOK (tu_Usage u)"

definition contextOK :: "string \<Rightarrow> string \<Rightarrow> int64 \<Rightarrow> TurnContextFact \<Rightarrow> bool" where
  "contextOK sid i started c \<longleftrightarrow>
     cx_SessionID c = sid \<and> cx_TurnID c = i \<and> started \<le> cx_ObservedAtMS c \<and>
     textOK (cx_CWD c) \<and> idOK (cx_Model c) \<and> effortOK (cx_Effort c)"

definition endOK :: "string \<Rightarrow> string \<Rightarrow> int64 \<Rightarrow> TurnEndFact \<Rightarrow> bool" where
  "endOK sid i started t \<longleftrightarrow>
     te_SessionID t = sid \<and> te_TurnID t = i \<and> started \<le> te_CompletedAtMS t \<and> outcomeOK (te_Outcome t) \<and>
     pred_option (usageOK sid i started True) (te_FinalUsage t)"

definition turnOK :: "string \<Rightarrow> string \<Rightarrow> turnLifecycleState \<Rightarrow> bool" where
  "turnOK sid i s \<longleftrightarrow>
     (let started = ts_StartedAtMS (tl_start s)
      in ts_TurnID (tl_start s) = i \<and> ts_SessionID (tl_start s) = sid \<and> idOK i \<and> 0 \<le> started \<and>
         validNonNegative (ts_ContextWindow (tl_start s)) \<and>
         pred_option (contextOK sid i started) (tl_context s) \<and>
         pred_option (usageOK sid i started False) (tl_latestUsage s) \<and>
         pred_option (endOK sid i started) (tl_terminal s))"

definition pendingContextOK :: "int64 \<Rightarrow> string \<Rightarrow> positionedTurnContext \<Rightarrow> bool" where
  "pendingContextOK b i c \<longleftrightarrow>
     posOK b (px_position c) \<and> 0 \<le> px_observedAtMS c \<and> dc_TurnID (px_record c) = Some i \<and>
     textOK (dc_CWD (px_record c)) \<and> idOK (dc_Model (px_record c)) \<and> effortOK (dc_Effort (px_record c))"

definition pendingTerminalOK :: "int64 \<Rightarrow> string \<Rightarrow> positionedTurnTerminal \<Rightarrow> bool" where
  "pendingTerminalOK b i t \<longleftrightarrow>
     posOK b (pe_position t) \<and> de_TurnID (pe_record t) = Some i \<and> 0 \<le> de_CompletedAtMS (pe_record t) \<and>
     outcomeOK (de_Outcome (pe_record t))"

definition pendingOK :: "int64 \<Rightarrow> string \<Rightarrow> pendingTurnState \<Rightarrow> bool" where
  "pendingOK b i p \<longleftrightarrow>
     idOK i \<and> (pn_context p \<noteq> None \<or> pn_terminal p \<noteq> None) \<and>
     pred_option (pendingContextOK b i) (pn_context p) \<and> pred_option (pendingTerminalOK b i) (pn_terminal p) \<and>
     (\<forall>c t. pn_context p = Some c \<longrightarrow> pn_terminal p = Some t \<longrightarrow>
        sp_EndOffset (px_position c) \<le> sp_StartOffset (pe_position t))"

definition sessionOK :: "SourceKind \<Rightarrow> SessionMetaFact \<Rightarrow> bool" where
  "sessionOK k m \<longleftrightarrow>
     sm_SourceKind m = k \<and> idOK (sm_SessionID m) \<and> idOK (sm_RootSessionID m) \<and> 0 \<le> sm_CreatedAtMS m \<and>
     0 \<le> sm_ObservedAtMS m \<and> textOK (sm_InitialCWD m) \<and> idOK (sm_Originator m) \<and> idOK (sm_CLIVersion m) \<and>
     idOK (sm_Source m) \<and> (sm_ModelProvider m = [] \<or> idOK (sm_ModelProvider m))"

definition isClosed :: "lifecycleNormalizer \<Rightarrow> string \<Rightarrow> bool" where
  "isClosed n i = (case fmlookup (ln_turns n) i of None \<Rightarrow> False | Some s \<Rightarrow> tl_terminal s \<noteq> None)"

definition ln_inv :: "int64 \<Rightarrow> lifecycleNormalizer \<Rightarrow> bool" where
  "ln_inv b n \<longleftrightarrow>
     (ln_session n = None \<longrightarrow> ln_turns n = fmempty \<and> ln_pending n = fmempty) \<and>
     pred_option (sessionOK (ln_sourceKind n)) (ln_session n) \<and>
     (\<forall>i s. fmlookup (ln_turns n) i = Some s \<longrightarrow> turnOK (sessionID n) i s) \<and>
     (\<forall>i p. fmlookup (ln_pending n) i = Some p \<longrightarrow> pendingOK b i p \<and> fmlookup (ln_turns n) i = None) \<and>
     distinct (ln_closedOrder n) \<and> set (ln_closedOrder n) = {i. isClosed n i} \<and>
     length (ln_closedOrder n) \<le> maxRetainedClosedTurnStates \<and>
     card {i. isOpen n i} \<le> maxOpenTurnStates \<and> fcard (fmdom (ln_pending n)) \<le> maxPendingTurnStates"

lemma openTurnIDs_set [simp]: "set (openTurnIDs n) = {i. isOpen n i}"
  by (auto simp: openTurnIDs_def isOpen_def fmdomI split: option.splits)

lemma openTurnIDs_distinct [simp]: "distinct (openTurnIDs n)"
  by (simp add: openTurnIDs_def sorted_list_of_fset.rep_eq)

lemma finite_open [simp]: "finite {i. isOpen n i}"
  using openTurnIDs_set[of n] by (metis List.finite_set)

lemma length_openTurnIDs: "length (openTurnIDs n) = card {i. isOpen n i}"
  by (metis distinct_card openTurnIDs_distinct openTurnIDs_set)

lemma isOpen_upd: "isOpen (n\<lparr>ln_turns := fmupd i s t\<rparr>) j = (if j = i then tl_terminal s = None else isOpen (n\<lparr>ln_turns := t\<rparr>) j)"
  by (simp add: isOpen_def)

lemma isClosed_upd: "isClosed (n\<lparr>ln_turns := fmupd i s t\<rparr>) j = (if j = i then tl_terminal s \<noteq> None else isClosed (n\<lparr>ln_turns := t\<rparr>) j)"
  by (simp add: isClosed_def)

lemma turn_preds_irrelevant [simp]:
  "isOpen (n\<lparr>ln_pending := p\<rparr>) = isOpen n" "isOpen (n\<lparr>ln_closedOrder := q\<rparr>) = isOpen n"
  "isOpen (n\<lparr>ln_session := m\<rparr>) = isOpen n" "isOpen (n\<lparr>ln_turns := ln_turns n\<rparr>) = isOpen n"
  "isClosed (n\<lparr>ln_pending := p\<rparr>) = isClosed n" "isClosed (n\<lparr>ln_closedOrder := q\<rparr>) = isClosed n"
  "isClosed (n\<lparr>ln_session := m\<rparr>) = isClosed n" "isClosed (n\<lparr>ln_turns := ln_turns n\<rparr>) = isClosed n"
  "sessionID (n\<lparr>ln_pending := p\<rparr>) = sessionID n" "sessionID (n\<lparr>ln_closedOrder := q\<rparr>) = sessionID n"
  "sessionID (n\<lparr>ln_turns := t\<rparr>) = sessionID n"
  by (simp_all add: isOpen_def isClosed_def sessionID_def fun_eq_iff)

lemma isOpen_turns_only: "isOpen (n\<lparr>ln_turns := t, ln_pending := p\<rparr>) = isOpen (n\<lparr>ln_turns := t\<rparr>)"
  by (simp add: isOpen_def fun_eq_iff)

lemma posOK_mono: "posOK b p \<Longrightarrow> b \<le> b' \<Longrightarrow> posOK b' p"
  by (simp add: posOK_def)

lemma pendingOK_mono: "pendingOK b i p \<Longrightarrow> b \<le> b' \<Longrightarrow> pendingOK b' i p"
  by (cases "pn_context p"; cases "pn_terminal p")
    (auto simp: pendingOK_def pendingContextOK_def pendingTerminalOK_def posOK_def)

lemma ln_inv_mono: "ln_inv b n \<Longrightarrow> b \<le> b' \<Longrightarrow> ln_inv b' n"
  unfolding ln_inv_def using pendingOK_mono by blast

lemma ln_invD:
  assumes "ln_inv b n"
  shows "ln_session n = None \<Longrightarrow> ln_turns n = fmempty \<and> ln_pending n = fmempty"
    "pred_option (sessionOK (ln_sourceKind n)) (ln_session n)"
    "fmlookup (ln_turns n) i = Some s \<Longrightarrow> turnOK (sessionID n) i s"
    "fmlookup (ln_pending n) i = Some p \<Longrightarrow> pendingOK b i p"
    "fmlookup (ln_pending n) i = Some p \<Longrightarrow> fmlookup (ln_turns n) i = None"
    "distinct (ln_closedOrder n)" "set (ln_closedOrder n) = {i. isClosed n i}"
    "length (ln_closedOrder n) \<le> maxRetainedClosedTurnStates"
    "card {i. isOpen n i} \<le> maxOpenTurnStates" "fcard (fmdom (ln_pending n)) \<le> maxPendingTurnStates"
  using assms unfolding ln_inv_def by blast+

lemma ln_invI:
  assumes "ln_session n = None \<Longrightarrow> ln_turns n = fmempty \<and> ln_pending n = fmempty"
    "pred_option (sessionOK (ln_sourceKind n)) (ln_session n)"
    "\<And>i s. fmlookup (ln_turns n) i = Some s \<Longrightarrow> turnOK (sessionID n) i s"
    "\<And>i p. fmlookup (ln_pending n) i = Some p \<Longrightarrow> pendingOK b i p"
    "\<And>i p. fmlookup (ln_pending n) i = Some p \<Longrightarrow> fmlookup (ln_turns n) i = None"
    "distinct (ln_closedOrder n)" "set (ln_closedOrder n) = {i. isClosed n i}"
    "length (ln_closedOrder n) \<le> maxRetainedClosedTurnStates"
    "card {i. isOpen n i} \<le> maxOpenTurnStates" "fcard (fmdom (ln_pending n)) \<le> maxPendingTurnStates"
  shows "ln_inv b n"
  unfolding ln_inv_def using assms by blast

lemma inv_upd_open:
  assumes inv: "ln_inv b n" and "fmlookup (ln_turns n) i = Some s" and "tl_terminal s = None"
    and "turnOK (sessionID n) i s'" and "tl_terminal s' = None"
  shows "ln_inv b (n\<lparr>ln_turns := fmupd i s' (ln_turns n)\<rparr>)"
proof -
  have e: "isOpen (n\<lparr>ln_turns := fmupd i s' (ln_turns n)\<rparr>) = isOpen n"
    "isClosed (n\<lparr>ln_turns := fmupd i s' (ln_turns n)\<rparr>) = isClosed n"
    using assms(2,3,5) by (auto simp: isOpen_def isClosed_def fun_eq_iff)
  have ne: "ln_session n \<noteq> None" 
  proof
    assume "ln_session n = None"
    from ln_invD(1)[OF inv this] assms(2) show False by simp
  qed
  show ?thesis
    by (rule ln_invI) (use ne ln_invD(2-)[OF inv] assms(2,4) e in \<open>auto split: if_splits\<close>)
qed

lemma inv_new_turn:
  assumes inv: "ln_inv b n" and "ln_session n \<noteq> None" and "fmlookup (ln_turns n) i = None"
    and "card {i. isOpen n i} < maxOpenTurnStates" and "turnOK (sessionID n) i s" and "tl_terminal s = None"
  shows "ln_inv b (n\<lparr>ln_turns := fmupd i s (ln_turns n), ln_pending := fmdrop i (ln_pending n)\<rparr>)"
proof -
  let ?n = "n\<lparr>ln_turns := fmupd i s (ln_turns n), ln_pending := fmdrop i (ln_pending n)\<rparr>"
  have e: "{j. isOpen ?n j} = insert i {j. isOpen n j}" "isClosed ?n = isClosed n"
    using assms(3,6) by (auto simp: isOpen_def isClosed_def fun_eq_iff)
  then have c: "card {j. isOpen ?n j} \<le> maxOpenTurnStates" using assms(4) by (simp add: card_insert_if)
  have p: "fcard (fmdom (fmdrop i (ln_pending n))) \<le> maxPendingTurnStates"
    using ln_invD(10)[OF inv] fcard_fminus1_le[of "fmdom (ln_pending n)" i] by simp
  show ?thesis
    by (rule ln_invI) (use ln_invD(2-)[OF inv] assms(2,5) e c p in \<open>auto split: if_splits\<close>)
qed

lemma inv_retain:
  assumes inv: "ln_inv b n" and l: "fmlookup (ln_turns n) i = Some s" and "tl_terminal s = None"
    and "turnOK (sessionID n) i s'" and t: "tl_terminal s' \<noteq> None"
  shows "ln_inv b (retainClosedTurn i (n\<lparr>ln_turns := fmupd i s' (ln_turns n)\<rparr>))"
proof -
  let ?n = "n\<lparr>ln_turns := fmupd i s' (ln_turns n)\<rparr>"
  have o: "{j. isOpen ?n j} = {j. isOpen n j} - {i}" "isClosed ?n = (\<lambda>j. j = i \<or> isClosed n j)"
    using t by (auto simp: isOpen_def isClosed_def fun_eq_iff)
  have i: "\<not> isClosed n i" using l assms(3) by (simp add: isClosed_def)
  have c: "card {j. isOpen ?n j} \<le> maxOpenTurnStates"
    unfolding o(1) using ln_invD(9)[OF inv] by (meson Diff_subset card_mono finite_open order_trans)
  have ne: "ln_session n \<noteq> None"
  proof
    assume "ln_session n = None"
    from ln_invD(1)[OF inv this] l show False by simp
  qed
  have T: "turnOK (sessionID n) j x" if "fmlookup (ln_turns ?n) j = Some x" for j x
    using that assms(4) ln_invD(3)[OF inv, of j x] by (simp split: if_splits)
  have P: "pendingOK b j p" "fmlookup (ln_turns n) j = None" if "fmlookup (ln_pending n) j = Some p" for j p
    using ln_invD(4,5)[OF inv that] l by auto
  have Pi: "fmlookup (ln_pending n) i = None"
    using P(2)[of i] l by (cases "fmlookup (ln_pending n) i") auto
  show ?thesis
  proof (cases "length (ln_closedOrder n) < maxRetainedClosedTurnStates")
    case True
    then have r: "retainClosedTurn i ?n = ?n\<lparr>ln_closedOrder := ln_closedOrder n @ [i]\<rparr>"
      by (simp add: retainClosedTurn_def Let_def)
    show ?thesis
      unfolding r
    proof (rule ln_invI)
      show "set (ln_closedOrder (?n\<lparr>ln_closedOrder := ln_closedOrder n @ [i]\<rparr>)) =
          {j. isClosed (?n\<lparr>ln_closedOrder := ln_closedOrder n @ [i]\<rparr>) j}"
        using o(2) ln_invD(7)[OF inv] by auto
    qed (use ne True c T P Pi i ln_invD(2,6,7,10)[OF inv] in auto)
  next
    case False
    with ln_invD(8)[OF inv] have len: "length (ln_closedOrder n) = maxRetainedClosedTurnStates" by simp
    then obtain old rest where cl: "ln_closedOrder n = old # rest"
      by (cases "ln_closedOrder n") (auto simp: maxRetainedClosedTurnStates_def)
    have "isClosed n old" using ln_invD(7)[OF inv] cl by auto
    then obtain x where x: "fmlookup (ln_turns n) old = Some x" "tl_terminal x \<noteq> None"
      by (auto simp: isClosed_def split: option.splits)
    have oi: "old \<noteq> i" using \<open>isClosed n old\<close> i by auto
    have r: "retainClosedTurn i ?n =
        ?n\<lparr>ln_closedOrder := rest @ [i], ln_turns := fmdrop old (ln_turns ?n)\<rparr>"
      using False len cl x oi by (simp add: retainClosedTurn_def Let_def)
    have o': "isOpen (?n\<lparr>ln_closedOrder := rest @ [i], ln_turns := fmdrop old (ln_turns ?n)\<rparr>) = isOpen ?n"
      "isClosed (?n\<lparr>ln_closedOrder := rest @ [i], ln_turns := fmdrop old (ln_turns ?n)\<rparr>) = (\<lambda>j. j \<noteq> old \<and> (j = i \<or> isClosed n j))"
      using x oi o(2) by (auto simp: isOpen_def isClosed_def fun_eq_iff)
    show ?thesis
      unfolding r
    proof (rule ln_invI)
      show "set (ln_closedOrder (?n\<lparr>ln_closedOrder := rest @ [i], ln_turns := fmdrop old (ln_turns ?n)\<rparr>)) =
          {j. isClosed (?n\<lparr>ln_closedOrder := rest @ [i], ln_turns := fmdrop old (ln_turns ?n)\<rparr>) j}"
        unfolding o'(2) using ln_invD(6,7)[OF inv] cl oi by auto
    qed (use ne len c T P Pi i oi cl o'(1) ln_invD(2,6,7,10)[OF inv] in \<open>auto split: if_splits\<close>)
  qed
qed

lemma inv_pending_upd:
  assumes inv: "ln_inv b n" and "ln_session n \<noteq> None" and "fmlookup (ln_turns n) i = None"
    and "pendingOK b i p" and "fmlookup (ln_pending n) i \<noteq> None \<or> fcard (fmdom (ln_pending n)) < maxPendingTurnStates"
  shows "ln_inv b (n\<lparr>ln_pending := fmupd i p (ln_pending n)\<rparr>)"
proof -
  have "fcard (fmdom (fmupd i p (ln_pending n))) \<le> maxPendingTurnStates"
    using assms(5) ln_invD(10)[OF inv] by (auto simp: fcard_finsert_if fmlookup_dom_iff)
  then show ?thesis
    by (intro ln_invI) (use ln_invD(2-9)[OF inv] assms(2-4) in \<open>auto split: if_splits\<close>)
qed

lemma inv_pending_drop:
  assumes inv: "ln_inv b n"
  shows "ln_inv b (n\<lparr>ln_pending := fmdrop i (ln_pending n)\<rparr>)"
proof -
  have "fcard (fmdom (fmdrop i (ln_pending n))) \<le> maxPendingTurnStates"
    using ln_invD(10)[OF inv] fcard_fminus1_le[of "fmdom (ln_pending n)" i] by simp
  then show ?thesis
    by (intro ln_invI) (use ln_invD[OF inv] in \<open>auto split: if_splits\<close>)
qed

section \<open>Lemmas: every operation keeps the invariant\<close>

lemma pendingState_cases:
  assumes "pendingState n i = Some (p, n')"
  obtains (old) "n' = n" "fmlookup (ln_pending n) i = Some p"
  | (fresh) "fmlookup (ln_pending n) i = None" "p = \<lparr>pn_context = None, pn_terminal = None\<rparr>"
      "n' = n\<lparr>ln_pending := fmupd i p (ln_pending n)\<rparr>" "fcard (fmdom (ln_pending n)) < maxPendingTurnStates"
  using assms that by (auto simp: pendingState_def Let_def split: option.splits if_splits)

lemma resolve_idOK:
  assumes "ln_inv b n" and "pred_option idOK e" and "resolveTurnID n e = Inr i"
  shows "idOK i"
proof (cases e)
  case (Some x)
  with assms(2,3) show ?thesis by (simp add: resolveTurnID_def)
next
  case None
  with assms(3) have "openTurnIDs n = [i]" by (simp add: resolveTurnID_def split: list.splits)
  then have "isOpen n i" by (metis list.set_intros(1) mem_Collect_eq openTurnIDs_set)
  then obtain s where "fmlookup (ln_turns n) i = Some s" by (auto simp: isOpen_def split: option.splits)
  from ln_invD(3)[OF assms(1) this] show ?thesis by (simp add: turnOK_def Let_def)
qed

lemma applySession_inv:
  assumes inv: "ln_inv b n" and "kindOK (DecodedSessionMeta m)" and "0 \<le> t"
  shows "ln_inv b (snd (applySession p t m n))"
proof (cases "ln_session n")
  case None
  let ?m = "sessionFact t m (ln_sourceKind n)"
  note e = ln_invD(1)[OF inv None]
  have "ln_inv b (n\<lparr>ln_session := Some ?m\<rparr>)"
    by (rule ln_invI)
      (use e assms(2,3) ln_invD(6-10)[OF inv] in \<open>auto simp: sessionOK_def sessionFact_def\<close>)
  with None show ?thesis by (simp add: applySession_def Let_def)
qed (use inv in \<open>simp add: applySession_def Let_def\<close>)

lemma applyKnownTurnContext_inv:
  assumes inv: "ln_inv b n" and l: "fmlookup (ln_turns n) i = Some s"
    and "textOK (dc_CWD r)" "idOK (dc_Model r)" "effortOK (dc_Effort r)"
  shows "ln_inv b (snd (applyKnownTurnContext p t r i s n))"
proof (cases "tl_terminal s = None \<and> ts_StartedAtMS (tl_start s) \<le> t")
  case True
  have "turnOK (sessionID n) i (s\<lparr>tl_context := Some \<lparr>cx_SessionID = sessionID n, cx_TurnID = i,
      cx_ObservedAtMS = t, cx_CWD = dc_CWD r, cx_Model = dc_Model r, cx_Effort = dc_Effort r\<rparr>\<rparr>)"
    using ln_invD(3)[OF inv l] True assms(3-5) by (simp add: turnOK_def Let_def contextOK_def)
  from inv_upd_open[OF inv l _ this] True inv show ?thesis by (simp add: applyKnownTurnContext_def Let_def)
next
  case False
  with inv show ?thesis by (auto simp: applyKnownTurnContext_def)
qed

lemma applyTurnContext_inv:
  assumes inv: "ln_inv b n" and ne: "ln_session n \<noteq> None" and p: "posOK e p" "b \<le> sp_StartOffset p"
    and t: "0 \<le> t" and r: "kindOK (DecodedTurnContext r)"
  shows "ln_inv e (snd (applyTurnContext p t r n))"
proof -
  have be: "b \<le> e" using p by (simp add: posOK_def)
  have ie: "ln_inv e n" by (rule ln_inv_mono[OF inv be])
  show ?thesis
  proof (cases "resolveTurnID n (dc_TurnID r)")
    case (Inl c)
    with ie show ?thesis by (simp add: applyTurnContext_def)
  next
    case (Inr i)
    have id: "idOK i" by (rule resolve_idOK[OF inv _ Inr]) (use r in simp)
    show ?thesis
    proof (cases "fmlookup (ln_turns n) i")
      case (Some s)
      have "i \<noteq> []" using id by (simp add: idOK_def)
      with applyKnownTurnContext_inv[OF ie Some, of r p t] r Inr Some show ?thesis
        by (simp add: applyTurnContext_def)
    next
      case None
      show ?thesis
      proof (cases "pendingState n i")
        case full: None
        with Inr None ie show ?thesis by (simp add: applyTurnContext_def)
      next
        case (Some x)
        obtain pend n1 where x: "x = (pend, n1)" by fastforce
        let ?c = "\<lparr>px_position = p, px_observedAtMS = t, px_record = \<lparr>dc_TurnID = Some i, dc_CWD = dc_CWD r,
            dc_Model = dc_Model r, dc_Effort = dc_Effort r\<rparr>\<rparr>"
        have ok: "pendingOK e i (pend\<lparr>pn_context := Some ?c\<rparr>)" if "pn_terminal pend = None"
          using that id p(1) t r by (simp add: pendingOK_def pendingContextOK_def)
        from Some[unfolded x] show ?thesis
        proof (cases rule: pendingState_cases)
          case old
          have "ln_inv e (n\<lparr>ln_pending := fmupd i (pend\<lparr>pn_context := Some ?c\<rparr>) (ln_pending n)\<rparr>)"
            if "pn_terminal pend = None"
            by (rule inv_pending_upd[OF ie ne None ok[OF that]]) (simp add: old)
          with Inr None Some x old ie show ?thesis
            by (auto simp: applyTurnContext_def Let_def split: option.splits)
        next
          case fresh
          have "ln_inv e (n\<lparr>ln_pending := fmupd i (pend\<lparr>pn_context := Some ?c\<rparr>) (ln_pending n)\<rparr>)"
            by (rule inv_pending_upd[OF ie ne None ok]) (simp_all add: fresh)
          with Inr None Some x fresh id show ?thesis
            by (simp add: applyTurnContext_def Let_def idOK_def fmupd_idem)
        qed
      qed
    qed
  qed
qed

text \<open>A terminal of a known turn; its position plays no part.\<close>

lemma applyTurnTerminal_known_inv:
  assumes inv: "ln_inv b n" and R: "resolveTurnID n (de_TurnID r) = Inr i" "i \<noteq> []"
    and l: "fmlookup (ln_turns n) i = Some s" and r: "outcomeOK (de_Outcome r)"
  shows "ln_inv b (snd (applyTurnTerminal p r a n))"
proof (cases "tl_terminal s")
  case (Some t)
  with R l inv show ?thesis by (simp add: applyTurnTerminal_def)
next
  case None
  show ?thesis
  proof (cases "de_CompletedAtMS r < ts_StartedAtMS (tl_start s)")
    case True
    with R l None inv show ?thesis by (simp add: applyTurnTerminal_def)
  next
    case False
    let ?e = "\<lparr>te_SessionID = sessionID n, te_TurnID = i, te_CompletedAtMS = de_CompletedAtMS r,
        te_Outcome = de_Outcome r, te_FinalUsage = map_option (\<lambda>u. u\<lparr>tu_IsFinal := True\<rparr>) (tl_latestUsage s)\<rparr>"
    have "turnOK (sessionID n) i (s\<lparr>tl_terminal := Some ?e\<rparr>)"
      using ln_invD(3)[OF inv l] False r
      by (cases "tl_latestUsage s") (simp_all add: turnOK_def Let_def endOK_def usageOK_def)
    from inv_retain[OF inv l None this] R l None False show ?thesis
      by (simp add: applyTurnTerminal_def Let_def)
  qed
qed

lemma applyTurnTerminal_inv:
  assumes inv: "ln_inv b n" and ne: "ln_session n \<noteq> None" and p: "posOK e p" "b \<le> sp_StartOffset p"
    and r: "kindOK (DecodedTurnTerminal r)"
  shows "ln_inv e (snd (applyTurnTerminal p r a n))"
proof -
  have be: "b \<le> e" using p by (simp add: posOK_def)
  have ie: "ln_inv e n" by (rule ln_inv_mono[OF inv be])
  show ?thesis
  proof (cases "resolveTurnID n (de_TurnID r)")
    case (Inl c)
    with ie show ?thesis by (simp add: applyTurnTerminal_def)
  next
    case (Inr i)
    have id: "idOK i" by (rule resolve_idOK[OF inv _ Inr]) (use r in simp)
    then have i0: "i \<noteq> []" by (simp add: idOK_def)
    show ?thesis
    proof (cases "fmlookup (ln_turns n) i")
      case (Some s)
      from applyTurnTerminal_known_inv[OF ie Inr i0 Some] r show ?thesis by simp
    next
      case None
      show ?thesis
      proof (cases "a \<and> de_TurnID r \<noteq> None")
        case False
        with Inr None i0 ie show ?thesis by (auto simp: applyTurnTerminal_def)
      next
        case a: True
        show ?thesis
        proof (cases "pendingState n i")
          case full: None
          with a Inr None i0 ie show ?thesis by (simp add: applyTurnTerminal_def)
        next
          case (Some x)
          obtain pend n1 where x: "x = (pend, n1)" by fastforce
          let ?t = "\<lparr>pe_position = p, pe_record = \<lparr>de_TurnID = Some i, de_CompletedAtMS = de_CompletedAtMS r,
              de_Outcome = de_Outcome r\<rparr>\<rparr>"
          have new: "pendingTerminalOK e i ?t" using p(1) r by (simp add: pendingTerminalOK_def)
          from Some[unfolded x] show ?thesis
          proof (cases rule: pendingState_cases)
            case old
            have q: "pendingOK b i pend" by (rule ln_invD(4)[OF inv old(2)])
            then have ctx: "pendingContextOK b i c \<and> sp_EndOffset (px_position c) \<le> sp_StartOffset p"
              if "pn_context pend = Some c" for c
              using that p(2) by (simp add: pendingOK_def pendingContextOK_def posOK_def)
            have "pendingOK e i (pend\<lparr>pn_terminal := Some ?t\<rparr>)"
              using pendingOK_mono[OF q be] new ctx by (simp add: pendingOK_def)
            from inv_pending_upd[OF ie ne None this] old have
              "ln_inv e (n\<lparr>ln_pending := fmupd i (pend\<lparr>pn_terminal := Some ?t\<rparr>) (ln_pending n)\<rparr>)" by simp
            with a Inr i0 None Some x old ie show ?thesis
              by (auto simp: applyTurnTerminal_def Let_def split: option.splits)
          next
            case fresh
            have "pendingOK e i (pend\<lparr>pn_terminal := Some ?t\<rparr>)" using new id by (simp add: pendingOK_def fresh)
            from inv_pending_upd[OF ie ne None this] fresh have
              "ln_inv e (n\<lparr>ln_pending := fmupd i (pend\<lparr>pn_terminal := Some ?t\<rparr>) (ln_pending n)\<rparr>)" by simp
            with a Inr i0 None Some x fresh show ?thesis
              by (auto simp: applyTurnTerminal_def Let_def)
          qed
        qed
      qed
    qed
  qed
qed

lemma resolvePending_inv:
  assumes inv: "ln_inv b (snd x)" and l: "fmlookup (ln_turns (snd x)) i = Some st" and p: "pendingOK c i pend"
    and st: "tl_terminal st = None"
  shows "ln_inv b (snd (resolvePendingTerminal pend (resolvePendingContext pend i st x)))"
proof -
  let ?y = "resolvePendingContext pend i st x"
  have y: "ln_inv b (snd ?y) \<and> (\<exists>s. fmlookup (ln_turns (snd ?y)) i = Some s)"
  proof (cases "pn_context pend")
    case None
    with inv l show ?thesis by (simp add: resolvePendingContext_def)
  next
    case (Some q)
    obtain r n' where k: "applyKnownTurnContext (px_position q) (px_observedAtMS q) (px_record q) i st (snd x) = (r, n')"
      by fastforce
    have "ln_inv b n'"
      using applyKnownTurnContext_inv[OF inv l, of "px_record q" "px_position q" "px_observedAtMS q"] k p Some
      by (simp add: pendingOK_def pendingContextOK_def)
    moreover have "\<exists>s. fmlookup (ln_turns n') i = Some s"
      using k l by (auto simp: applyKnownTurnContext_def Let_def split: if_splits)
    ultimately show ?thesis by (simp add: resolvePendingContext_def Some k)
  qed
  show ?thesis
  proof (cases "pn_terminal pend")
    case None
    with y show ?thesis by (simp add: resolvePendingTerminal_def)
  next
    case (Some t)
    from y obtain s where s: "fmlookup (ln_turns (snd ?y)) i = Some s" by blast
    have t: "de_TurnID (pe_record t) = Some i" "outcomeOK (de_Outcome (pe_record t))" "i \<noteq> []"
      using p Some by (simp_all add: pendingOK_def pendingTerminalOK_def idOK_def)
    have "ln_inv b (snd (applyTurnTerminal (pe_position t) (pe_record t) False (snd ?y)))"
      by (rule applyTurnTerminal_known_inv[OF _ _ t(3) s t(2)]) (use y t in \<open>simp_all add: resolveTurnID_def\<close>)
    then show ?thesis by (auto simp: resolvePendingTerminal_def Some split: prod.splits)
  qed
qed

lemma applyTurnStart_inv:
  assumes inv: "ln_inv b n" and ne: "ln_session n \<noteq> None" and r: "kindOK (DecodedTurnStart r)"
  shows "ln_inv b (snd (applyTurnStart p r n))"
proof (cases "fmlookup (ln_turns n) (dt_TurnID r)")
  case (Some s)
  with inv show ?thesis by (simp add: applyTurnStart_def Let_def)
next
  case None
  let ?i = "dt_TurnID r"
  let ?st = "\<lparr>tl_start = \<lparr>ts_SessionID = sessionID n, ts_TurnID = ?i, ts_StartedAtMS = dt_StartedAtMS r,
      ts_ContextWindow = dt_ContextWindow r\<rparr>, tl_context = None, tl_latestUsage = None, tl_terminal = None\<rparr>"
  show ?thesis
  proof (cases "length (openTurnIDs n) \<ge> maxOpenTurnStates")
    case True
    with None inv_pending_drop[OF inv] show ?thesis by (simp add: applyTurnStart_def Let_def)
  next
    case False
    have ok: "turnOK (sessionID n) ?i ?st" using r by (simp add: turnOK_def Let_def)
    have "card {i. isOpen n i} < maxOpenTurnStates" using False by (simp add: length_openTurnIDs)
    from inv_new_turn[OF inv ne None this ok] have
      n2: "ln_inv b (n\<lparr>ln_turns := fmupd ?i ?st (ln_turns n), ln_pending := fmdrop ?i (ln_pending n)\<rparr>)" by simp
    show ?thesis
    proof (cases "fmlookup (ln_pending n) ?i")
      case none: None
      then have "fmdrop ?i (ln_pending n) = ln_pending n" by (simp add: fmdrop_idle' fmdom'_notI)
      with n2 None False none show ?thesis by (simp add: applyTurnStart_def Let_def)
    next
      case (Some pend)
      from resolvePending_inv[of b "(eventResult p (EventTurnStarted (tl_start ?st)),
          n\<lparr>ln_turns := fmupd ?i ?st (ln_turns n), ln_pending := fmdrop ?i (ln_pending n)\<rparr>)" ?i ?st b pend]
        n2 ln_invD(4)[OF inv Some] None False Some
      show ?thesis by (simp add: applyTurnStart_def Let_def)
    qed
  qed
qed

lemma applyTokenUsage_inv:
  assumes inv: "ln_inv b n" and "countersOK (du_Last r)" and "validNonNegative (du_ContextWindow r)"
  shows "ln_inv b (snd (applyTokenUsage p r n))"
proof -
  consider (none) "openTurnIDs n = []" | (one) i where "openTurnIDs n = [i]"
    | (many) i j ys where "openTurnIDs n = i # j # ys"
    by (metis list.exhaust)
  then show ?thesis
  proof cases
    case (one i)
    then have "isOpen n i" by (metis list.set_intros(1) mem_Collect_eq openTurnIDs_set)
    then obtain s where s: "fmlookup (ln_turns n) i = Some s" "tl_terminal s = None"
      by (auto simp: isOpen_def split: option.splits)
    show ?thesis
    proof (cases "du_ObservedAtMS r < ts_StartedAtMS (tl_start s)")
      case True
      with one s inv show ?thesis by (simp add: applyTokenUsage_def Let_def)
    next
      case False
      let ?u = "\<lparr>tu_SessionID = sessionID n, tu_TurnID = i, tu_ObservedAtMS = du_ObservedAtMS r,
          tu_Usage = du_Last r, tu_ContextWindow = du_ContextWindow r, tu_IsFinal = False\<rparr>"
      have "turnOK (sessionID n) i (s\<lparr>tl_latestUsage := Some ?u\<rparr>)"
        using ln_invD(3)[OF inv s(1)] False assms(2,3) by (simp add: turnOK_def Let_def usageOK_def)
      from inv_upd_open[OF inv s this] s one False show ?thesis by (simp add: applyTokenUsage_def Let_def)
    qed
  qed (use inv in \<open>simp_all add: applyTokenUsage_def Let_def\<close>)
qed

lemma applyTokenCount_inv:
  assumes inv: "ln_inv b n" and "kindOK (DecodedTokenUsage u qs cs)"
  shows "ln_inv b (snd (applyTokenCount p u qs cs n))"
  using applyTokenUsage_inv[OF inv, of "the u" p] assms
  by (cases u) (auto simp: applyTokenCount_def split: prod.split)

lemma Apply_inv:
  assumes inv: "ln_inv b n" and "b \<le> sp_StartOffset p" and "lineOK l"
    and e: "b \<le> e" "sp_EndOffset p \<le> e"
  shows "ln_inv e (snd (Apply p l n))"
proof (cases "sp_StartOffset p < 0 \<or> sp_EndOffset p \<le> sp_StartOffset p")
  case True
  with ln_inv_mono[OF inv e(1)] show ?thesis by (simp add: Apply_def)
next
  case False
  then have p: "posOK e p" using e(2) by (simp add: posOK_def)
  note ie = ln_inv_mono[OF inv e(1)]
  have k: "kindOK (dl_Kind l)" "0 \<le> dl_ObservedAtMS l" using assms(3) by (simp_all add: lineOK_def)
  show ?thesis
  proof (cases "dl_Kind l")
    case (DecodedSessionMeta m)
    with False applySession_inv[OF ie, of m "dl_ObservedAtMS l" p] k show ?thesis by (simp add: Apply_def)
  next
    case (DecodedTurnContext c)
    with False ie applyTurnContext_inv[OF inv _ p assms(2), of "dl_ObservedAtMS l" c] k show ?thesis by (simp add: Apply_def)
  next
    case (DecodedTurnStart t)
    with False ie applyTurnStart_inv[OF ie, of t p] k show ?thesis by (simp add: Apply_def)
  next
    case (DecodedTokenUsage u qs cs)
    with False ie applyTokenCount_inv[OF ie, of u qs cs p] k show ?thesis by (simp add: Apply_def)
  next
    case (DecodedTurnTerminal t)
    with False ie applyTurnTerminal_inv[OF inv _ p assms(2), of t True] k show ?thesis by (simp add: Apply_def)
  qed
qed

lemma newLifecycleNormalizer_inv: "ln_inv b (newLifecycleNormalizer k)"
  by (rule ln_invI) (simp_all add: newLifecycleNormalizer_def isClosed_def isOpen_def fcard_fempty)

section \<open>Lemmas: the round trip through a checkpoint\<close>

lemma foldl_fmupd_other:
  "i \<notin> key ` set xs \<Longrightarrow> fmlookup (foldl (\<lambda>m s. fmupd (key s) (val s) m) m0 xs) i = fmlookup m0 i"
  by (induction xs arbitrary: m0) auto

lemma foldl_fmupd_key:
  "distinct (map key xs) \<Longrightarrow> s \<in> set xs \<Longrightarrow>
   fmlookup (foldl (\<lambda>m s. fmupd (key s) (val s) m) m0 xs) (key s) = Some (val s)"
proof (induction xs arbitrary: m0)
  case (Cons x xs)
  then show ?case by (cases "s = x") (auto simp: foldl_fmupd_other)
qed simp

lemma map_filter_keys:
  assumes "\<And>i y. f i = Some y \<Longrightarrow> key y = i"
  shows "map key (List.map_filter f xs) = filter (\<lambda>i. f i \<noteq> None) xs"
proof (induction xs)
  case (Cons x xs)
  then show ?case by (cases "f x") (auto simp: List.map_filter_def assms)
qed (simp add: List.map_filter_def)

text \<open>The three lists of a checkpoint, by turn.\<close>

lemma checkpoint_open:
  "map os_TurnID (sd_OpenTurns (checkpoint n)) = sort (openTurnIDs n)"
  "q \<in> set (sd_OpenTurns (checkpoint n)) \<longleftrightarrow>
     (\<exists>i s. isOpen n i \<and> fmlookup (ln_turns n) i = Some s \<and>
        q = \<lparr>os_TurnID = i, os_StartedAtMS = ts_StartedAtMS (tl_start s),
             os_ContextWindow = ts_ContextWindow (tl_start s), os_Context = tl_context s,
             os_LatestUsage = tl_latestUsage s\<rparr>)"
proof -
  have "filter (\<lambda>i. fmlookup (ln_turns n) i \<noteq> None) (sort (openTurnIDs n)) = sort (openTurnIDs n)"
    by (rule filter_True) (auto simp: isOpen_def split: option.splits)
  then show "map os_TurnID (sd_OpenTurns (checkpoint n)) = sort (openTurnIDs n)"
    unfolding checkpoint_def ParserSeed.simps by (subst map_filter_keys) auto
  show "q \<in> set (sd_OpenTurns (checkpoint n)) \<longleftrightarrow>
     (\<exists>i s. isOpen n i \<and> fmlookup (ln_turns n) i = Some s \<and>
        q = \<lparr>os_TurnID = i, os_StartedAtMS = ts_StartedAtMS (tl_start s),
             os_ContextWindow = ts_ContextWindow (tl_start s), os_Context = tl_context s,
             os_LatestUsage = tl_latestUsage s\<rparr>)"
    unfolding checkpoint_def ParserSeed.simps set_map_filter_iff by auto
qed

abbreviation pendingSeed :: "string \<Rightarrow> pendingTurnState \<Rightarrow> PendingTurnSeed" where
  "pendingSeed i s \<equiv> \<lparr>ps_TurnID = i,
     ps_Context = map_option (\<lambda>c. \<lparr>pc_Position = px_position c, pc_ObservedAtMS = px_observedAtMS c,
       pc_CWD = dc_CWD (px_record c), pc_Model = dc_Model (px_record c), pc_Effort = dc_Effort (px_record c)\<rparr>) (pn_context s),
     ps_Terminal = map_option (\<lambda>t. \<lparr>pt_Position = pe_position t, pt_CompletedAtMS = de_CompletedAtMS (pe_record t),
       pt_Outcome = de_Outcome (pe_record t)\<rparr>) (pn_terminal s)\<rparr>"

lemma checkpoint_pending:
  "map ps_TurnID (sd_PendingTurns (checkpoint n)) = sorted_list_of_fset (fmdom (ln_pending n))"
  "q \<in> set (sd_PendingTurns (checkpoint n)) \<longleftrightarrow> (\<exists>i s. fmlookup (ln_pending n) i = Some s \<and> q = pendingSeed i s)"
proof -
  have "filter (\<lambda>i. fmlookup (ln_pending n) i \<noteq> None) (sorted_list_of_fset (fmdom (ln_pending n))) =
      sorted_list_of_fset (fmdom (ln_pending n))"
    by (rule filter_True) (auto simp: fmlookup_dom_iff)
  then show "map ps_TurnID (sd_PendingTurns (checkpoint n)) = sorted_list_of_fset (fmdom (ln_pending n))"
    unfolding checkpoint_def ParserSeed.simps by (subst map_filter_keys) auto
  show "q \<in> set (sd_PendingTurns (checkpoint n)) \<longleftrightarrow> (\<exists>i s. fmlookup (ln_pending n) i = Some s \<and> q = pendingSeed i s)"
    unfolding checkpoint_def ParserSeed.simps set_map_filter_iff by (auto simp: fmdomI)
qed

lemma checkpoint_closed:
  assumes "ln_inv b n"
  shows "map cs_TurnID (sd_ClosedTurns (checkpoint n)) = ln_closedOrder n"
  "q \<in> set (sd_ClosedTurns (checkpoint n)) \<longleftrightarrow>
     (\<exists>i s t. fmlookup (ln_turns n) i = Some s \<and> tl_terminal s = Some t \<and>
        q = \<lparr>cs_TurnID = i, cs_StartedAtMS = ts_StartedAtMS (tl_start s),
             cs_ContextWindow = ts_ContextWindow (tl_start s), cs_Terminal = t\<rparr>)"
proof -
  let ?f = "\<lambda>i. case fmlookup (ln_turns n) i of None \<Rightarrow> None
          | Some s \<Rightarrow> map_option (\<lambda>t. \<lparr>cs_TurnID = i, cs_StartedAtMS = ts_StartedAtMS (tl_start s),
                    cs_ContextWindow = ts_ContextWindow (tl_start s), cs_Terminal = t\<rparr>) (tl_terminal s)"
  have "filter (\<lambda>i. ?f i \<noteq> None) (ln_closedOrder n) = ln_closedOrder n"
    using ln_invD(7)[OF assms] by (intro filter_True) (auto simp: isClosed_def split: option.splits)
  moreover have "map cs_TurnID (sd_ClosedTurns (checkpoint n)) = filter (\<lambda>i. ?f i \<noteq> None) (ln_closedOrder n)"
    unfolding checkpoint_def ParserSeed.simps
    by (rule map_filter_keys) (auto split: option.splits)
  ultimately show "map cs_TurnID (sd_ClosedTurns (checkpoint n)) = ln_closedOrder n" by simp
  have "i \<in> set (ln_closedOrder n)" if "fmlookup (ln_turns n) i = Some s" "tl_terminal s = Some t" for i s t
    using ln_invD(7)[OF assms] that by (simp add: isClosed_def)
  then show "q \<in> set (sd_ClosedTurns (checkpoint n)) \<longleftrightarrow>
     (\<exists>i s t. fmlookup (ln_turns n) i = Some s \<and> tl_terminal s = Some t \<and>
        q = \<lparr>cs_TurnID = i, cs_StartedAtMS = ts_StartedAtMS (tl_start s),
             cs_ContextWindow = ts_ContextWindow (tl_start s), cs_Terminal = t\<rparr>)"
    unfolding checkpoint_def ParserSeed.simps set_map_filter_iff by (auto split: option.splits)
qed

lemma hydrate_turns:
  assumes inv: "ln_inv b n"
  shows "foldl (\<lambda>m s. fmupd (cs_TurnID s) (hydrateClosed (sessionID n) s) m)
      (foldl (\<lambda>m s. fmupd (os_TurnID s) (hydrateOpen (sessionID n) s) m) fmempty (sd_OpenTurns (checkpoint n)))
      (sd_ClosedTurns (checkpoint n)) = fmmap closeState (ln_turns n)"
    (is "foldl ?c (foldl ?o fmempty ?os) ?cs = _")
proof (rule fmap_ext)
  fix i
  have dc: "distinct (map cs_TurnID ?cs)" and do: "distinct (map os_TurnID ?os)"
    using ln_invD(6)[OF inv] checkpoint_closed(1)[OF inv] checkpoint_open(1)[of n] by simp_all
  have cids: "cs_TurnID ` set ?cs = {i. isClosed n i}"
    using arg_cong[OF checkpoint_closed(1)[OF inv], of set] ln_invD(7)[OF inv] by simp
  have oids: "os_TurnID ` set ?os = {i. isOpen n i}"
    using arg_cong[OF checkpoint_open(1)[of n], of set] by simp
  show "fmlookup (foldl ?c (foldl ?o fmempty ?os) ?cs) i = fmlookup (fmmap closeState (ln_turns n)) i"
  proof (cases "fmlookup (ln_turns n) i")
    case None
    then have "i \<notin> cs_TurnID ` set ?cs" "i \<notin> os_TurnID ` set ?os"
      unfolding cids oids by (simp_all add: isClosed_def isOpen_def)
    with None show ?thesis by (simp add: foldl_fmupd_other)
  next
    case (Some s)
    have ok: "ts_TurnID (tl_start s) = i" "ts_SessionID (tl_start s) = sessionID n"
      using ln_invD(3)[OF inv Some] by (simp_all add: turnOK_def Let_def)
    show ?thesis
    proof (cases "tl_terminal s")
      case None
      let ?q = "\<lparr>os_TurnID = i, os_StartedAtMS = ts_StartedAtMS (tl_start s),
             os_ContextWindow = ts_ContextWindow (tl_start s), os_Context = tl_context s,
             os_LatestUsage = tl_latestUsage s\<rparr>"
      have "?q \<in> set ?os" unfolding checkpoint_open(2)
        by (rule exI[of _ i], rule exI[of _ s]) (use Some None in \<open>simp add: isOpen_def\<close>)
      from foldl_fmupd_key[OF do this, of "hydrateOpen (sessionID n)" fmempty]
      have "fmlookup (foldl ?o fmempty ?os) i = Some (hydrateOpen (sessionID n) ?q)" by simp
      moreover have "i \<notin> cs_TurnID ` set ?cs" unfolding cids using Some None by (simp add: isClosed_def)
      moreover have "hydrateOpen (sessionID n) ?q = closeState s"
        using ok None by (simp add: hydrateOpen_def closeState_def)
      ultimately show ?thesis using Some by (simp add: foldl_fmupd_other)
    next
      case t: (Some t)
      let ?q = "\<lparr>cs_TurnID = i, cs_StartedAtMS = ts_StartedAtMS (tl_start s),
             cs_ContextWindow = ts_ContextWindow (tl_start s), cs_Terminal = t\<rparr>"
      have "?q \<in> set ?cs" unfolding checkpoint_closed(2)[OF inv] using Some t by auto
      from foldl_fmupd_key[OF dc this, of "hydrateClosed (sessionID n)" "foldl ?o fmempty ?os"]
      have "fmlookup (foldl ?c (foldl ?o fmempty ?os) ?cs) i = Some (hydrateClosed (sessionID n) ?q)" by simp
      moreover have "hydrateClosed (sessionID n) ?q = closeState s"
        using ok t by (simp add: hydrateClosed_def closeState_def)
      ultimately show ?thesis using Some by simp
    qed
  qed
qed

lemma hydrate_pendingSeed: "pendingOK b i s \<Longrightarrow> hydratePending (pendingSeed i s) = s"
  by (cases "pn_context s"; cases "pn_terminal s")
    (auto simp: hydratePending_def pendingOK_def pendingContextOK_def pendingTerminalOK_def)

lemma hydrate_pending:
  assumes inv: "ln_inv b n"
  shows "foldl (\<lambda>m s. fmupd (ps_TurnID s) (hydratePending s) m) fmempty (sd_PendingTurns (checkpoint n)) = ln_pending n"
    (is "foldl ?f fmempty ?ps = _")
proof (rule fmap_ext)
  fix i
  have d: "distinct (map ps_TurnID ?ps)" unfolding checkpoint_pending(1) by (simp add: sorted_list_of_fset.rep_eq)
  have ids: "ps_TurnID ` set ?ps = fset (fmdom (ln_pending n))"
    using arg_cong[OF checkpoint_pending(1)[of n], of set] by simp
  show "fmlookup (foldl ?f fmempty ?ps) i = fmlookup (ln_pending n) i"
  proof (cases "fmlookup (ln_pending n) i")
    case None
    then have "i \<notin> ps_TurnID ` set ?ps" unfolding ids by (simp add: fmdom_notI)
    with None show ?thesis by (simp add: foldl_fmupd_other)
  next
    case (Some s)
    then have "pendingSeed i s \<in> set ?ps" unfolding checkpoint_pending(2) by auto
    from foldl_fmupd_key[OF d this, of hydratePending fmempty] hydrate_pendingSeed[OF ln_invD(4)[OF inv Some]] Some
    show ?thesis by simp
  qed
qed

lemma hydrate_checkpoint:
  assumes inv: "ln_inv b n"
  shows "hydrate (Some (checkpoint n)) (newLifecycleNormalizer (ln_sourceKind n)) = norm n"
proof -
  have "sd_Session (checkpoint n) = ln_session n" by (simp add: checkpoint_def)
  then have s: "seedSessionID (checkpoint n) = sessionID n" by (simp add: seedSessionID_def sessionID_def)
  show ?thesis
    using hydrate_turns[OF inv] hydrate_pending[OF inv] checkpoint_closed(1)[OF inv] s \<open>sd_Session _ = _\<close>
    by (auto simp: hydrate_def Let_def newLifecycleNormalizer_def norm_def intro!: lifecycleNormalizer.equality)
qed

lemma norm_sim: "sim (norm n) n"
proof -
  have c: "closeState \<circ> closeState = closeState" by (simp add: fun_eq_iff)
  have "fmmap closeState (fmmap closeState (ln_turns n)) = fmmap closeState (ln_turns n)"
    by (rule fmap_ext) (simp add: option.map_comp c)
  then show ?thesis by (simp add: sim_iff norm_def)
qed

end
