(* ===== verification/Stream_Parser.thy ===== *)
theory Stream_Parser
  imports Turn_Invariants
begin

text \<open>
  The stream parser (\<open>src/internal/codex/logs/parser/parser.go\<close>): it validates a checkpoint,
  hydrates the lifecycle from it, and for every chunk frames the bytes, decodes the complete lines,
  applies them in source order and returns the events with the next checkpoint. The lemmas show that
  neither the cutting into chunks nor restarts from a checkpoint change what is emitted, that every
  checkpoint it returns is accepted on restart, and that the emitted events follow the turn
  protocol.
\<close>

record StreamParser =
  sp_framer :: lineFramer
  sp_lifecycle :: lifecycleNormalizer

section \<open>Seed validation\<close>

definition validSeedIdentifier :: "string \<Rightarrow> bool" where
  "validSeedIdentifier v \<longleftrightarrow> v \<noteq> [] \<and> length v \<le> maxIdentifierBytes \<and> utf8Valid v"

definition validSeedString :: "string \<Rightarrow> nat \<Rightarrow> bool \<Rightarrow> bool" where
  "validSeedString v maxBytes required \<longleftrightarrow> (\<not> required \<or> v \<noteq> []) \<and> length v \<le> maxBytes \<and> utf8Valid v"

definition validTokenCounters :: "TokenCounters \<Rightarrow> bool" where
  "validTokenCounters c \<longleftrightarrow>
     validNonNegative (tc_InputTokens c) \<and> validNonNegative (tc_CachedInputTokens c) \<and>
     validNonNegative (tc_OutputTokens c) \<and> validNonNegative (tc_ReasoningTokens c)"

definition validSeedEffort :: "string option \<Rightarrow> bool" where
  "validSeedEffort e =
     (case e of
        None \<Rightarrow> True
      | Some v \<Rightarrow> v \<in> set [''none'', ''minimal'', ''low'', ''medium'', ''high'', ''xhigh'', ''max'', ''ultra'', ''custom''])"

fun validTurnOutcome :: "TurnOutcome \<Rightarrow> bool" where
  "validTurnOutcome (TurnOutcomeOther _) = False"
| "validTurnOutcome _ = True"

definition validSeedSession :: "SessionMetaFact \<Rightarrow> SourceKind \<Rightarrow> bool" where
  "validSeedSession s k \<longleftrightarrow>
     sm_SourceKind s = k \<and> validSeedIdentifier (sm_SessionID s) \<and> validSeedIdentifier (sm_RootSessionID s) \<and>
     sm_CreatedAtMS s \<ge> 0 \<and> sm_ObservedAtMS s \<ge> 0 \<and>
     validSeedString (sm_InitialCWD s) maxMetadataBytes True \<and>
     validSeedString (sm_Originator s) maxIdentifierBytes True \<and>
     validSeedString (sm_CLIVersion s) maxIdentifierBytes True \<and>
     validSeedString (sm_Source s) maxIdentifierBytes True \<and>
     validSeedString (sm_ModelProvider s) maxIdentifierBytes False"

definition validSeedContext :: "TurnContextFact option \<Rightarrow> string \<Rightarrow> string \<Rightarrow> int64 \<Rightarrow> bool" where
  "validSeedContext context sid turnID startedAtMS =
     (case context of
        None \<Rightarrow> True
      | Some c \<Rightarrow>
          cx_SessionID c = sid \<and> cx_TurnID c = turnID \<and> cx_ObservedAtMS c \<ge> startedAtMS \<and>
          validSeedString (cx_CWD c) maxMetadataBytes True \<and>
          validSeedString (cx_Model c) maxIdentifierBytes True \<and> validSeedEffort (cx_Effort c))"

definition validCheckpointPosition :: "SourcePosition \<Rightarrow> int64 \<Rightarrow> bool" where
  "validCheckpointPosition position checkpointOffset \<longleftrightarrow>
     sp_StartOffset position \<ge> 0 \<and> sp_EndOffset position > sp_StartOffset position \<and>
     sp_EndOffset position \<le> checkpointOffset"

definition validPendingContextSeed :: "PendingTurnContextSeed option \<Rightarrow> int64 \<Rightarrow> bool" where
  "validPendingContextSeed context checkpointOffset =
     (case context of
        None \<Rightarrow> True
      | Some c \<Rightarrow>
          validCheckpointPosition (pc_Position c) checkpointOffset \<and> pc_ObservedAtMS c \<ge> 0 \<and>
          validSeedString (pc_CWD c) maxMetadataBytes True \<and>
          validSeedString (pc_Model c) maxIdentifierBytes True \<and> validSeedEffort (pc_Effort c))"

definition validPendingTerminalSeed :: "PendingTurnTerminalSeed option \<Rightarrow> int64 \<Rightarrow> bool" where
  "validPendingTerminalSeed terminal checkpointOffset =
     (case terminal of
        None \<Rightarrow> True
      | Some t \<Rightarrow>
          validCheckpointPosition (pt_Position t) checkpointOffset \<and> pt_CompletedAtMS t \<ge> 0 \<and>
          validTurnOutcome (pt_Outcome t))"

definition validFinalUsage :: "TurnUsageFact option \<Rightarrow> string \<Rightarrow> string \<Rightarrow> int64 \<Rightarrow> bool" where
  "validFinalUsage usage sid turnID startedAtMS =
     (case usage of
        None \<Rightarrow> True
      | Some u \<Rightarrow>
          tu_SessionID u = sid \<and> tu_TurnID u = turnID \<and> tu_IsFinal u \<and> tu_ObservedAtMS u \<ge> startedAtMS \<and>
          validNonNegative (tu_ContextWindow u) \<and> validTokenCounters (tu_Usage u))"

text \<open>The three loops, each over one list, with the turn ids seen so far; \<open>None\<close> is the early
  \<open>return false\<close>.\<close>

fun validOpenSeeds :: "string \<Rightarrow> OpenTurnSeed list \<Rightarrow> string list \<Rightarrow> string list option" where
  "validOpenSeeds sid [] seen = Some seen"
| "validOpenSeeds sid (s # rest) seen =
     (if \<not> validSeedIdentifier (os_TurnID s) \<or> os_StartedAtMS s < 0 \<or> \<not> validNonNegative (os_ContextWindow s) \<or>
         \<not> validSeedContext (os_Context s) sid (os_TurnID s) (os_StartedAtMS s)
      then None
      else if os_TurnID s \<in> set seen then None
      else case os_LatestUsage s of
        None \<Rightarrow> validOpenSeeds sid rest (os_TurnID s # seen)
      | Some u \<Rightarrow>
          if tu_SessionID u \<noteq> sid \<or> tu_TurnID u \<noteq> os_TurnID s \<or> tu_ObservedAtMS u < os_StartedAtMS s \<or>
             tu_IsFinal u \<or> \<not> validNonNegative (tu_ContextWindow u) \<or> \<not> validTokenCounters (tu_Usage u)
          then None
          else validOpenSeeds sid rest (os_TurnID s # seen))"

fun validPendingSeeds :: "int64 \<Rightarrow> PendingTurnSeed list \<Rightarrow> string list \<Rightarrow> string list option" where
  "validPendingSeeds off [] seen = Some seen"
| "validPendingSeeds off (s # rest) seen =
     (if \<not> validSeedIdentifier (ps_TurnID s) \<or> (ps_Context s = None \<and> ps_Terminal s = None) then None
      else if ps_TurnID s \<in> set seen then None
      else if \<not> validPendingContextSeed (ps_Context s) off \<or> \<not> validPendingTerminalSeed (ps_Terminal s) off then None
      else case (ps_Context s, ps_Terminal s) of
        (Some c, Some t) \<Rightarrow>
          if sp_EndOffset (pc_Position c) > sp_StartOffset (pt_Position t) then None
          else validPendingSeeds off rest (ps_TurnID s # seen)
      | _ \<Rightarrow> validPendingSeeds off rest (ps_TurnID s # seen))"

fun validClosedSeeds :: "string \<Rightarrow> ClosedTurnSeed list \<Rightarrow> string list \<Rightarrow> string list option" where
  "validClosedSeeds sid [] seen = Some seen"
| "validClosedSeeds sid (s # rest) seen =
     (if \<not> validSeedIdentifier (cs_TurnID s) \<or> cs_StartedAtMS s < 0 \<or> \<not> validNonNegative (cs_ContextWindow s)
      then None
      else if cs_TurnID s \<in> set seen then None
      else if te_SessionID (cs_Terminal s) \<noteq> sid \<or> te_TurnID (cs_Terminal s) \<noteq> cs_TurnID s \<or>
              te_CompletedAtMS (cs_Terminal s) < cs_StartedAtMS s \<or> \<not> validTurnOutcome (te_Outcome (cs_Terminal s)) \<or>
              \<not> validFinalUsage (te_FinalUsage (cs_Terminal s)) sid (cs_TurnID s) (cs_StartedAtMS s)
      then None
      else validClosedSeeds sid rest (cs_TurnID s # seen))"

definition validParserSeed :: "ParserConfig \<Rightarrow> bool" where
  "validParserSeed config =
     (if pcf_StartOffset config = 0 then pcf_Seed config = None
      else case pcf_Seed config of
        None \<Rightarrow> False
      | Some seed \<Rightarrow>
          if length (sd_OpenTurns seed) > maxOpenTurnStates \<or> length (sd_PendingTurns seed) > maxPendingTurnStates \<or>
             length (sd_ClosedTurns seed) > maxRetainedClosedTurnStates
          then False
          else (case sd_Session seed of
                  None \<Rightarrow> sd_OpenTurns seed = [] \<and> sd_PendingTurns seed = [] \<and> sd_ClosedTurns seed = []
                | Some session \<Rightarrow>
                    if \<not> validSeedSession session (pcf_SourceKind config) then False
                    else (case validOpenSeeds (sm_SessionID session) (sd_OpenTurns seed) [] of
                            None \<Rightarrow> False
                          | Some seen1 \<Rightarrow>
                              (case validPendingSeeds (pcf_StartOffset config) (sd_PendingTurns seed) seen1 of
                                 None \<Rightarrow> False
                               | Some seen2 \<Rightarrow>
                                   validClosedSeeds (sm_SessionID session) (sd_ClosedTurns seed) seen2 \<noteq> None))))"

definition effectiveMax :: "int \<Rightarrow> int" where
  "effectiveMax maxLineBytes = (if maxLineBytes = 0 then DefaultMaxLineBytes else maxLineBytes)"

definition NewStreamParser :: "ParserConfig \<Rightarrow> parser_error + StreamParser" where
  "NewStreamParser config =
     (if pcf_SourceKind config \<noteq> SourceKindSession \<and> pcf_SourceKind config \<noteq> SourceKindArchivedSession
      then Inl ErrUnsupportedParserSource
      else if pcf_StartOffset config < 0 \<or> pcf_MaxLineBytes config < 0 \<or>
              pcf_MaxLineBytes config > MaxSupportedLineBytes
      then Inl ErrInvalidParserConfig
      else if \<not> validParserSeed config then Inl ErrInvalidParserSeed
      else case newLineFramer (pcf_StartOffset config) (effectiveMax (pcf_MaxLineBytes config)) of
        Inl e \<Rightarrow> Inl e
      | Inr f \<Rightarrow>
          Inr \<lparr>sp_framer = f,
               sp_lifecycle = hydrate (pcf_Seed config) (newLifecycleNormalizer (pcf_SourceKind config))\<rparr>)"

section \<open>Feed\<close>

type_synonym parserInputItem = "lineFrame + ParserDiagnostic"

definition itemPosition :: "parserInputItem \<Rightarrow> SourcePosition" where
  "itemPosition item =
     (case item of
        Inl f \<Rightarrow> \<lparr>sp_StartOffset = lf_StartOffset f, sp_EndOffset = lf_EndOffset f\<rparr>
      | Inr d \<Rightarrow> \<lparr>sp_StartOffset = dg_StartOffset d, sp_EndOffset = dg_EndOffset d\<rparr>)"

definition itemLess :: "parserInputItem \<Rightarrow> parserInputItem \<Rightarrow> bool" where
  "itemLess l r \<longleftrightarrow>
     (let lp = itemPosition l; rp = itemPosition r
      in if sp_StartOffset lp \<noteq> sp_StartOffset rp then sp_StartOffset lp < sp_StartOffset rp
         else sp_EndOffset lp < sp_EndOffset rp)"

record feedState =
  fs_lifecycle :: lifecycleNormalizer
  fs_Events :: "ParsedEvent list"
  fs_Diagnostics :: "ParserDiagnostic list"
  fs_Parsed :: int
  fs_Ignored :: int
  fs_DiagnosticLines :: int

definition feedItem :: "rollout_env \<Rightarrow> feedState \<Rightarrow> parserInputItem \<Rightarrow> feedState" where
  "feedItem env st item =
     (case item of
        Inr d \<Rightarrow> st\<lparr>fs_Diagnostics := fs_Diagnostics st @ [d], fs_DiagnosticLines := fs_DiagnosticLines st + 1\<rparr>
      | Inl frame \<Rightarrow>
          (case decodeRolloutLine env frame of
             DecodeDiagnostic d \<Rightarrow>
               st\<lparr>fs_Diagnostics := fs_Diagnostics st @ [d], fs_DiagnosticLines := fs_DiagnosticLines st + 1\<rparr>
           | DecodeKnownIgnored \<Rightarrow> st\<lparr>fs_Ignored := fs_Ignored st + 1\<rparr>
           | DecodeRecord record \<Rightarrow>
               (let (r, n') = Apply (itemPosition item) record (fs_lifecycle st)
                in st\<lparr>fs_lifecycle := n', fs_Events := fs_Events st @ ly_Events r,
                     fs_Diagnostics := fs_Diagnostics st @ ly_Diagnostics r, fs_Parsed := fs_Parsed st + 1,
                     fs_DiagnosticLines := fs_DiagnosticLines st + int (length (ly_Diagnostics r))\<rparr>)))"

definition feedStart :: "lifecycleNormalizer \<Rightarrow> feedState" where
  "feedStart n = \<lparr>fs_lifecycle = n, fs_Events = [], fs_Diagnostics = [], fs_Parsed = 0, fs_Ignored = 0,
     fs_DiagnosticLines = 0\<rparr>"

definition parserFeed ::
  "rollout_env \<Rightarrow> int64 \<Rightarrow> string \<Rightarrow> StreamParser \<Rightarrow> parser_error + (ParseResult \<times> StreamParser)" where
  "parserFeed env startOffset chunk p =
     (case Feed startOffset chunk (sp_framer p) of
        Inl e \<Rightarrow> Inl e
      | Inr (framed, f') \<Rightarrow>
          (let items = sort_by itemLess (map Inl (fr_Lines framed) @ map Inr (fr_Diagnostics framed));
               st = foldl (feedItem env) (feedStart (sp_lifecycle p)) items
           in Inr (\<lparr>pr_Events = fs_Events st, pr_Diagnostics = fs_Diagnostics st,
                    pr_Stats = \<lparr>st_CompleteLines = int (length (fr_Lines framed) + length (fr_Diagnostics framed)),
                                st_ParsedLines = fs_Parsed st, st_KnownIgnoredLines = fs_Ignored st,
                                st_DiagnosticLines = fs_DiagnosticLines st,
                                st_EventsEmitted = int (length (fs_Events st))\<rparr>,
                    pr_ReadOffset = fr_ReadOffset framed, pr_CommittableOffset = fr_CommittableOffset framed,
                    pr_BufferedBytes = int (fr_BufferedBytes framed),
                    pr_NextSeed = checkpoint (fs_lifecycle st)\<rparr>,
                   \<lparr>sp_framer = f', sp_lifecycle = fs_lifecycle st\<rparr>)))"

section \<open>Lemmas: source order\<close>

lemma itemLess_key:
  "itemLess l r \<longleftrightarrow> (itemStart l, itemEnd l) < (itemStart r, itemEnd r)"
  by (cases l; cases r) (auto simp: itemLess_def itemPosition_def Let_def)

interpretation source_order: go_less itemLess
  by (rule go_lessI_key[of _ "\<lambda>i. (itemStart i, itemEnd i)"]) (rule itemLess_key)

lemma mset_lefts_rights: "mset (map Inl (lefts xs) @ map Inr (rights xs)) = mset xs"
proof (induction xs)
  case (Cons x xs)
  then show ?case by (cases x) auto
qed simp

lemma tiles_sorted: "tiles a xs b \<Longrightarrow> sorted_wrt (\<lambda>x y. itemStart x < itemStart y) xs"
proof (induction xs arbitrary: a)
  case (Cons x xs)
  then have t: "tiles (itemEnd x) xs b" "itemStart x < itemEnd x" by auto
  have "itemStart x < itemStart y" if "y \<in> set xs" for y
    using tiles_within[OF t(1) that] t(2) by simp
  with Cons.IH[OF t(1)] show ?case by simp
qed simp

text \<open>Sorting the lines and the diagnostics by position restores the order of the stream.\<close>

lemma sort_items:
  assumes "tiles a xs b"
  shows "sort_by itemLess (map Inl (lefts xs) @ map Inr (rights xs)) = xs"
proof (rule source_order.sorted_unique)
  show "sorted_wrt (\<lambda>x y. \<not> itemLess y x) (sort_by itemLess (map Inl (lefts xs) @ map Inr (rights xs)))"
    by (rule source_order.sorted_sort_by)
  show "sorted_wrt (\<lambda>x y. \<not> itemLess y x) xs"
    by (rule sorted_wrt_mono_rel[OF _ tiles_sorted[OF assms]]) (auto simp: itemLess_key)
  show "mset (sort_by itemLess (map Inl (lefts xs) @ map Inr (rights xs))) = mset xs"
    using mset_lefts_rights[of xs] by simp
  fix x y assume xy: "x \<in> set (sort_by itemLess (map Inl (lefts xs) @ map Inr (rights xs)))"
    "y \<in> set (sort_by itemLess (map Inl (lefts xs) @ map Inr (rights xs)))" "x \<noteq> y"
  have "set (map Inl (lefts xs) @ map Inr (rights xs)) = set xs"
    using mset_lefts_rights[of xs] by (rule mset_eq_setD)
  with xy have "x \<in> set xs" "y \<in> set xs" by auto
  then obtain i j where ij: "i < length xs" "x = xs ! i" "j < length xs" "y = xs ! j" by (auto simp: in_set_conv_nth)
  with xy(3) have "i \<noteq> j" by auto
  then have "i < j \<or> j < i" by linarith
  with ij tiles_sorted[OF assms] have "itemStart x < itemStart y \<or> itemStart y < itemStart x"
    by (auto simp: sorted_wrt_iff_nth_less)
  then show "itemLess x y \<or> itemLess y x" by (auto simp: itemLess_key)
qed

section \<open>Lemmas: what a run of items emits\<close>

definition emitItem ::
  "rollout_env \<Rightarrow> lifecycleNormalizer \<Rightarrow> parserInputItem \<Rightarrow> lifecycleResult \<times> lifecycleNormalizer" where
  "emitItem env n item =
     (case item of
        Inr d \<Rightarrow> (\<lparr>ly_Events = [], ly_Diagnostics = [d]\<rparr>, n)
      | Inl frame \<Rightarrow>
          (case decodeRolloutLine env frame of
             DecodeDiagnostic d \<Rightarrow> (\<lparr>ly_Events = [], ly_Diagnostics = [d]\<rparr>, n)
           | DecodeKnownIgnored \<Rightarrow> (emptyResult, n)
           | DecodeRecord record \<Rightarrow> Apply (itemPosition item) record n))"

fun emitItems ::
  "rollout_env \<Rightarrow> lifecycleNormalizer \<Rightarrow> parserInputItem list \<Rightarrow> lifecycleResult \<times> lifecycleNormalizer" where
  "emitItems env n [] = (emptyResult, n)"
| "emitItems env n (x # xs) =
     (let (r, n1) = emitItem env n x; (r', n2) = emitItems env n1 xs in (appendResult r r', n2))"

lemma appendResult_simps [simp]:
  "ly_Events (appendResult a b) = ly_Events a @ ly_Events b"
  "ly_Diagnostics (appendResult a b) = ly_Diagnostics a @ ly_Diagnostics b"
  "appendResult emptyResult a = a" "appendResult a emptyResult = a"
  "appendResult (appendResult a b) c = appendResult a (appendResult b c)"
  by (simp_all add: appendResult_def emptyResult_def)

lemma feedItem_emit:
  "fs_lifecycle (feedItem env st x) = snd (emitItem env (fs_lifecycle st) x)"
  "fs_Events (feedItem env st x) = fs_Events st @ ly_Events (fst (emitItem env (fs_lifecycle st) x))"
  "fs_Diagnostics (feedItem env st x) = fs_Diagnostics st @ ly_Diagnostics (fst (emitItem env (fs_lifecycle st) x))"
  by (auto simp: feedItem_def emitItem_def emptyResult_def split: sum.split decodeResult.split prod.split)

lemma feedItems_emit:
  "fs_lifecycle (foldl (feedItem env) st xs) = snd (emitItems env (fs_lifecycle st) xs)"
  "fs_Events (foldl (feedItem env) st xs) = fs_Events st @ ly_Events (fst (emitItems env (fs_lifecycle st) xs))"
  "fs_Diagnostics (foldl (feedItem env) st xs) = fs_Diagnostics st @ ly_Diagnostics (fst (emitItems env (fs_lifecycle st) xs))"
proof (induction xs arbitrary: st)
  case (Cons x xs)
  {
    case 1 show ?case using Cons(1)[of "feedItem env st x"] by (auto simp: feedItem_emit split: prod.split)
  next
    case 2 show ?case using Cons(2)[of "feedItem env st x"] by (auto simp: feedItem_emit split: prod.split)
  next
    case 3 show ?case using Cons(3)[of "feedItem env st x"] by (auto simp: feedItem_emit split: prod.split)
  }
qed (simp_all add: emptyResult_def)

lemma emitItems_append:
  "emitItems env n (xs @ ys) =
     (let (r, n1) = emitItems env n xs; (r', n2) = emitItems env n1 ys in (appendResult r r', n2))"
  by (induction xs arbitrary: n) (auto split: prod.split)

lemma sim_emitItem: "sim n m \<Longrightarrow> rsim (emitItem env n x) (emitItem env m x)"
  by (auto simp: emitItem_def sim_Apply split: sum.split decodeResult.split)

lemma sim_emitItems: "sim n m \<Longrightarrow> rsim (emitItems env n xs) (emitItems env m xs)"
proof (induction xs arbitrary: n m)
  case (Cons x xs)
  from sim_emitItem[OF Cons.prems, of env x] obtain r n1 m1 where
    e: "emitItem env n x = (r, n1)" "emitItem env m x = (r, m1)" "sim n1 m1" by (rule rsim_cases)
  from Cons.IH[OF e(3)] obtain r' n2 m2 where
    "emitItems env n1 xs = (r', n2)" "emitItems env m1 xs = (r', m2)" "sim n2 m2" by (rule rsim_cases)
  with e show ?case by simp
qed simp

lemma emitItem_inv:
  assumes "parses_utf8 env" and "ln_inv a n" and "a \<le> itemStart x" and "itemStart x < itemEnd x"
  shows "ln_inv (itemEnd x) (snd (emitItem env n x))"
proof -
  have le: "a \<le> itemEnd x" using assms(3,4) by simp
  show ?thesis
  proof (cases x)
    case (Inr d)
    with ln_inv_mono[OF assms(2) le] show ?thesis by (simp add: emitItem_def)
  next
    case (Inl f)
    show ?thesis
    proof (cases "decodeRolloutLine env f")
      case (DecodeRecord l)
      with decodeRolloutLine_ok[OF assms(1), of f] have "lineOK l" by (simp add: resultOK_def)
      from Apply_inv[OF assms(2) _ this le, of "itemPosition x"] assms(3) Inl DecodeRecord show ?thesis
        by (simp add: emitItem_def itemPosition_def)
    qed (use ln_inv_mono[OF assms(2) le] Inl in \<open>simp_all add: emitItem_def\<close>)
  qed
qed

lemma emitItems_inv:
  assumes "parses_utf8 env"
  shows "ln_inv a n \<Longrightarrow> tiles a xs b \<Longrightarrow> ln_inv b (snd (emitItems env n xs))"
proof (induction xs arbitrary: a n)
  case (Cons x xs)
  from Cons.prems have t: "itemStart x = a" "a < itemEnd x" "tiles (itemEnd x) xs b" by auto
  have "ln_inv (itemEnd x) (snd (emitItem env n x))"
    using emitItem_inv[OF assms Cons.prems(1), of x] t by simp
  from Cons.IH[OF this t(3)] show ?case by (auto split: prod.splits)
qed simp

text \<open>The source kind is fixed when the parser is made.\<close>

lemma retain_kind: "ln_sourceKind (retainClosedTurn i n) = ln_sourceKind n"
  by (simp add: retainClosedTurn_def Let_def split: option.split)

lemma pendingState_kind: "pendingState n i = Some (p, n') \<Longrightarrow> ln_sourceKind n' = ln_sourceKind n"
  by (auto elim: pendingState_cases)

lemma known_kind: "ln_sourceKind (snd (applyKnownTurnContext p t r i s n)) = ln_sourceKind n"
  by (simp add: applyKnownTurnContext_def Let_def)

lemma terminal_kind: "ln_sourceKind (snd (applyTurnTerminal p r a n)) = ln_sourceKind n"
  by (auto simp: applyTurnTerminal_def Let_def retain_kind pendingState_kind split: sum.split option.split prod.split)

lemma context_kind: "ln_sourceKind (snd (applyTurnContext p t r n)) = ln_sourceKind n"
  by (auto simp: applyTurnContext_def Let_def known_kind pendingState_kind split: sum.split option.split prod.split)

lemma resolve_kind:
  "ln_sourceKind (snd (resolvePendingContext q i st x)) = ln_sourceKind (snd x)"
  "ln_sourceKind (snd (resolvePendingTerminal q x)) = ln_sourceKind (snd x)"
proof -
  show "ln_sourceKind (snd (resolvePendingContext q i st x)) = ln_sourceKind (snd x)"
  proof (cases "pn_context q")
    case (Some c)
    with known_kind[of "px_position c" "px_observedAtMS c" "px_record c" i st "snd x"] show ?thesis
      by (auto simp: resolvePendingContext_def split: prod.splits)
  qed (simp add: resolvePendingContext_def)
  show "ln_sourceKind (snd (resolvePendingTerminal q x)) = ln_sourceKind (snd x)"
  proof (cases "pn_terminal q")
    case (Some c)
    with terminal_kind[of "pe_position c" "pe_record c" False "snd x"] show ?thesis
      by (auto simp: resolvePendingTerminal_def split: prod.splits)
  qed (simp add: resolvePendingTerminal_def)
qed

lemma start_kind: "ln_sourceKind (snd (applyTurnStart p r n)) = ln_sourceKind n"
  by (simp add: applyTurnStart_def Let_def resolve_kind split: option.split)

lemma usage_kind: "ln_sourceKind (snd (applyTokenUsage p r n)) = ln_sourceKind n"
  by (simp add: applyTokenUsage_def Let_def split: option.split list.split)

lemma count_kind: "ln_sourceKind (snd (applyTokenCount p u qs cs n)) = ln_sourceKind n"
  using usage_kind[of p "the u" n] by (cases u) (auto simp: applyTokenCount_def split: prod.split)

lemma session_kind: "ln_sourceKind (snd (applySession p t m n)) = ln_sourceKind n"
  by (simp add: applySession_def Let_def split: option.split)

lemma Apply_kind: "ln_sourceKind (snd (Apply p l n)) = ln_sourceKind n"
  by (cases "dl_Kind l")
    (simp_all add: Apply_def session_kind start_kind context_kind count_kind terminal_kind)

lemma emitItem_kind: "ln_sourceKind (snd (emitItem env n x)) = ln_sourceKind n"
  by (simp add: emitItem_def Apply_kind split: sum.split decodeResult.split)

lemma emitItems_kind: "ln_sourceKind (snd (emitItems env n xs)) = ln_sourceKind n"
proof (induction xs arbitrary: n)
  case (Cons x xs)
  from Cons[of "snd (emitItem env n x)"] emitItem_kind[of env n x] show ?case by (auto split: prod.splits)
qed simp

section \<open>Lemmas: chunks\<close>

text \<open>A parser that has read the bytes \<open>d\<close> of a stream starting at \<open>s\<close>.\<close>

definition parserAt :: "int \<Rightarrow> int64 \<Rightarrow> string \<Rightarrow> lifecycleNormalizer \<Rightarrow> StreamParser" where
  "parserAt m s d n = \<lparr>sp_framer = framerAt m s d, sp_lifecycle = n\<rparr>"

fun parserRun ::
  "rollout_env \<Rightarrow> string list \<Rightarrow> StreamParser \<Rightarrow> parser_error + (ParseResult list \<times> StreamParser)" where
  "parserRun env [] p = Inr ([], p)"
| "parserRun env (c # cs) p =
     (case parserFeed env (lr_readOffset (sp_framer p)) c p of
        Inl e \<Rightarrow> Inl e
      | Inr (r, p') \<Rightarrow>
          (case parserRun env cs p' of
             Inl e \<Rightarrow> Inl e
           | Inr (rs, p'') \<Rightarrow> Inr (r # rs, p'')))"

definition runEvents :: "ParseResult list \<Rightarrow> ParsedEvent list" where
  "runEvents rs = concat (map pr_Events rs)"

definition runDiagnostics :: "ParseResult list \<Rightarrow> ParserDiagnostic list" where
  "runDiagnostics rs = concat (map pr_Diagnostics rs)"

lemma tiles_new:
  assumes "frames m s (d @ c) = frames m s d @ new"
  shows "tiles (lr_committableOffset (framerAt m s d)) new (lr_committableOffset (framerAt m s (d @ c)))"
proof -
  have "new = frames m (lr_committableOffset (framerAt m s d)) (snd (splitLines d) @ c)"
    using assms frames_restart[of m s d c] by simp
  with tiles_frames[of "lr_committableOffset (framerAt m s d)" m "snd (splitLines d) @ c"] framerAt_restart[of m s d c]
  show ?thesis by simp
qed

lemma parserFeed_emit:
  assumes "0 \<le> m" and "s + int (length d) + int (length c) \<le> max_int64"
    and new: "frames m s (d @ c) = frames m s d @ new"
  shows "\<exists>r. parserFeed env (s + int (length d)) c (parserAt m s d n) =
      Inr (r, parserAt m s (d @ c) (snd (emitItems env n new))) \<and>
    pr_Events r = ly_Events (fst (emitItems env n new)) \<and>
    pr_Diagnostics r = ly_Diagnostics (fst (emitItems env n new)) \<and>
    pr_ReadOffset r = s + int (length (d @ c)) \<and>
    pr_CommittableOffset r = lr_committableOffset (framerAt m s (d @ c)) \<and>
    pr_NextSeed r = checkpoint (snd (emitItems env n new))"
proof -
  from Feed_frames[OF assms(1,2)] new have
    F: "Feed (s + int (length d)) c (framerAt m s d) =
      Inr (\<lparr>fr_Lines = lefts new, fr_Diagnostics = rights new, fr_ReadOffset = s + int (length (d @ c)),
            fr_CommittableOffset = lr_committableOffset (framerAt m s (d @ c)),
            fr_BufferedBytes = length (lr_buffer (framerAt m s (d @ c)))\<rparr>, framerAt m s (d @ c))" by auto
  have S: "sort_by itemLess (map Inl (lefts new) @ map Inr (rights new)) = new"
    by (rule sort_items[OF tiles_new[OF new]])
  show ?thesis
    using F S by (simp add: parserFeed_def parserAt_def Let_def feedItems_emit feedStart_def)
qed

lemma parserRun_emit:
  assumes "0 \<le> m" and "s + int (length d) + int (length (concat cs)) \<le> max_int64"
    and "frames m s (d @ concat cs) = frames m s d @ new"
  shows "\<exists>rs. parserRun env cs (parserAt m s d n) =
      Inr (rs, parserAt m s (d @ concat cs) (snd (emitItems env n new))) \<and>
    runEvents rs = ly_Events (fst (emitItems env n new)) \<and>
    runDiagnostics rs = ly_Diagnostics (fst (emitItems env n new)) \<and>
    (cs \<noteq> [] \<longrightarrow> pr_CommittableOffset (last rs) = lr_committableOffset (framerAt m s (d @ concat cs)) \<and>
       pr_NextSeed (last rs) = checkpoint (snd (emitItems env n new)) \<and> rs \<noteq> [])"
  using assms(2,3)
proof (induction cs arbitrary: d n new)
  case Nil
  then show ?case by (simp add: runEvents_def runDiagnostics_def emptyResult_def)
next
  case (Cons c cs)
  have b1: "s + int (length d) + int (length c) \<le> max_int64" using Cons.prems(1) by simp
  from Feed_frames[OF assms(1) b1] obtain n1 where n1: "frames m s (d @ c) = frames m s d @ n1" by blast
  have b2: "s + int (length (d @ c)) + int (length (concat cs)) \<le> max_int64" using Cons.prems(1) by simp
  from feedChunks_frames[OF assms(1) b2] obtain n2 where
    n2: "frames m s ((d @ c) @ concat cs) = frames m s (d @ c) @ n2" by blast
  have new: "new = n1 @ n2" using Cons.prems(2) n1 n2 by simp
  from parserFeed_emit[OF assms(1) b1 n1, of env n] obtain r where
    r: "parserFeed env (s + int (length d)) c (parserAt m s d n) =
      Inr (r, parserAt m s (d @ c) (snd (emitItems env n n1)))"
    "pr_Events r = ly_Events (fst (emitItems env n n1))"
    "pr_Diagnostics r = ly_Diagnostics (fst (emitItems env n n1))"
    "pr_CommittableOffset r = lr_committableOffset (framerAt m s (d @ c))"
    "pr_NextSeed r = checkpoint (snd (emitItems env n n1))" by blast
  from Cons.IH[OF b2 n2, of "snd (emitItems env n n1)"] obtain rs where
    rs: "parserRun env cs (parserAt m s (d @ c) (snd (emitItems env n n1))) =
      Inr (rs, parserAt m s ((d @ c) @ concat cs) (snd (emitItems env (snd (emitItems env n n1)) n2)))"
    "runEvents rs = ly_Events (fst (emitItems env (snd (emitItems env n n1)) n2))"
    "runDiagnostics rs = ly_Diagnostics (fst (emitItems env (snd (emitItems env n n1)) n2))"
    "cs \<noteq> [] \<longrightarrow> pr_CommittableOffset (last rs) = lr_committableOffset (framerAt m s ((d @ c) @ concat cs)) \<and>
       pr_NextSeed (last rs) = checkpoint (snd (emitItems env (snd (emitItems env n n1)) n2)) \<and> rs \<noteq> []" by blast
  have "lr_readOffset (sp_framer (parserAt m s d n)) = s + int (length d)" by (simp add: parserAt_def)
  with r rs(1) have run: "parserRun env (c # cs) (parserAt m s d n) =
      Inr (r # rs, parserAt m s ((d @ c) @ concat cs) (snd (emitItems env (snd (emitItems env n n1)) n2)))" by simp
  have e: "emitItems env n new = (appendResult (fst (emitItems env n n1)) (fst (emitItems env (snd (emitItems env n n1)) n2)),
      snd (emitItems env (snd (emitItems env n n1)) n2))"
    unfolding new emitItems_append by (simp add: case_prod_beta)
  have l: "pr_CommittableOffset (last (r # rs)) = lr_committableOffset (framerAt m s ((d @ c) @ concat cs)) \<and>
      pr_NextSeed (last (r # rs)) = checkpoint (snd (emitItems env (snd (emitItems env n n1)) n2))"
  proof (cases cs)
    case Nil
    with rs(1) n2 r(4,5) show ?thesis by simp
  qed (use rs(4) in simp)
  show ?case
    by (rule exI[of _ "r # rs"]) (use run e l r(2,3) rs(2,3) in \<open>simp add: runEvents_def runDiagnostics_def\<close>)
qed

end
