(* ===== verification/Parser_Restart.thy ===== *)
theory Parser_Restart
  imports Stream_Parser
begin

text \<open>
  Restarts of the stream parser: every checkpoint it returns is a seed that
  \<open>NewStreamParser\<close> accepts at the committable offset, and a file read in any number of sessions,
  each restarted from the last checkpoint, yields the events and diagnostics of a single pass. The
  emitted events follow the protocol of turns.
\<close>

section \<open>Lemmas: a checkpoint is a valid seed\<close>

lemma id_seed: "idOK v \<Longrightarrow> validSeedIdentifier v" "idOK v \<Longrightarrow> validSeedString v maxIdentifierBytes b"
  by (simp_all add: idOK_def validSeedIdentifier_def validSeedString_def)

lemma text_seed: "textOK v \<Longrightarrow> validSeedString v maxMetadataBytes b"
  by (simp add: textOK_def validSeedString_def)

lemma effort_seed: "effortOK e \<Longrightarrow> validSeedEffort e"
  by (auto simp: effortOK_def validSeedEffort_def knownEfforts_def split: option.splits)

lemma outcome_seed: "outcomeOK r \<Longrightarrow> validTurnOutcome r"
  by (cases r) (simp_all add: outcomeOK_def)

lemma counters_seed: "countersOK c = validTokenCounters c"
  by (simp add: countersOK_def validTokenCounters_def)

definition openSeedOK :: "string \<Rightarrow> OpenTurnSeed \<Rightarrow> bool" where
  "openSeedOK sid s \<longleftrightarrow>
     validSeedIdentifier (os_TurnID s) \<and> 0 \<le> os_StartedAtMS s \<and> validNonNegative (os_ContextWindow s) \<and>
     validSeedContext (os_Context s) sid (os_TurnID s) (os_StartedAtMS s) \<and>
     pred_option (usageOK sid (os_TurnID s) (os_StartedAtMS s) False) (os_LatestUsage s)"

definition pendingSeedOK :: "int64 \<Rightarrow> PendingTurnSeed \<Rightarrow> bool" where
  "pendingSeedOK off s \<longleftrightarrow>
     validSeedIdentifier (ps_TurnID s) \<and> (ps_Context s \<noteq> None \<or> ps_Terminal s \<noteq> None) \<and>
     validPendingContextSeed (ps_Context s) off \<and> validPendingTerminalSeed (ps_Terminal s) off \<and>
     (\<forall>c t. ps_Context s = Some c \<longrightarrow> ps_Terminal s = Some t \<longrightarrow>
        sp_EndOffset (pc_Position c) \<le> sp_StartOffset (pt_Position t))"

definition closedSeedOK :: "string \<Rightarrow> ClosedTurnSeed \<Rightarrow> bool" where
  "closedSeedOK sid s \<longleftrightarrow>
     validSeedIdentifier (cs_TurnID s) \<and> 0 \<le> cs_StartedAtMS s \<and> validNonNegative (cs_ContextWindow s) \<and>
     te_SessionID (cs_Terminal s) = sid \<and> te_TurnID (cs_Terminal s) = cs_TurnID s \<and>
     cs_StartedAtMS s \<le> te_CompletedAtMS (cs_Terminal s) \<and> validTurnOutcome (te_Outcome (cs_Terminal s)) \<and>
     validFinalUsage (te_FinalUsage (cs_Terminal s)) sid (cs_TurnID s) (cs_StartedAtMS s)"

lemma validOpenSeeds_ok:
  "list_all (openSeedOK sid) xs \<Longrightarrow> distinct (map os_TurnID xs) \<Longrightarrow> set (map os_TurnID xs) \<inter> set seen = {} \<Longrightarrow>
   validOpenSeeds sid xs seen = Some (rev (map os_TurnID xs) @ seen)"
proof (induction xs arbitrary: seen)
  case (Cons s xs)
  from Cons.prems have s: "openSeedOK sid s" and n: "os_TurnID s \<notin> set seen" by auto
  have IH: "validOpenSeeds sid xs (os_TurnID s # seen) = Some (rev (map os_TurnID xs) @ os_TurnID s # seen)"
    by (rule Cons.IH) (use Cons.prems in auto)
  from s n IH show ?case
    by (cases "os_LatestUsage s") (simp_all add: openSeedOK_def usageOK_def counters_seed)
qed simp

lemma validPendingSeeds_ok:
  "list_all (pendingSeedOK off) xs \<Longrightarrow> distinct (map ps_TurnID xs) \<Longrightarrow> set (map ps_TurnID xs) \<inter> set seen = {} \<Longrightarrow>
   validPendingSeeds off xs seen = Some (rev (map ps_TurnID xs) @ seen)"
proof (induction xs arbitrary: seen)
  case (Cons s xs)
  from Cons.prems have s: "pendingSeedOK off s" and n: "ps_TurnID s \<notin> set seen" by auto
  have IH: "validPendingSeeds off xs (ps_TurnID s # seen) = Some (rev (map ps_TurnID xs) @ ps_TurnID s # seen)"
    by (rule Cons.IH) (use Cons.prems in auto)
  from s n IH show ?case
    by (cases "ps_Context s"; cases "ps_Terminal s") (simp_all add: pendingSeedOK_def)
qed simp

lemma validClosedSeeds_ok:
  "list_all (closedSeedOK sid) xs \<Longrightarrow> distinct (map cs_TurnID xs) \<Longrightarrow> set (map cs_TurnID xs) \<inter> set seen = {} \<Longrightarrow>
   validClosedSeeds sid xs seen = Some (rev (map cs_TurnID xs) @ seen)"
proof (induction xs arbitrary: seen)
  case (Cons s xs)
  from Cons.prems have s: "closedSeedOK sid s" and n: "cs_TurnID s \<notin> set seen" by auto
  have IH: "validClosedSeeds sid xs (cs_TurnID s # seen) = Some (rev (map cs_TurnID xs) @ cs_TurnID s # seen)"
    by (rule Cons.IH) (use Cons.prems in auto)
  from s n IH show ?case by (simp add: closedSeedOK_def)
qed simp

lemma open_seeds_ok:
  assumes inv: "ln_inv b n"
  shows "list_all (openSeedOK (sessionID n)) (sd_OpenTurns (checkpoint n))"
proof -
  have "openSeedOK (sessionID n) q" if q: "q \<in> set (sd_OpenTurns (checkpoint n))" for q
  proof -
    from q obtain i s where s: "fmlookup (ln_turns n) i = Some s" "q = \<lparr>os_TurnID = i,
        os_StartedAtMS = ts_StartedAtMS (tl_start s), os_ContextWindow = ts_ContextWindow (tl_start s),
        os_Context = tl_context s, os_LatestUsage = tl_latestUsage s\<rparr>"
      unfolding checkpoint_open(2) by auto
    from ln_invD(3)[OF inv s(1)] show ?thesis
      by (cases "tl_context s")
        (auto simp: s(2) openSeedOK_def turnOK_def Let_def validSeedContext_def contextOK_def
          intro: id_seed text_seed effort_seed)
  qed
  then show ?thesis by (simp add: list_all_iff)
qed

lemma pending_seeds_ok:
  assumes inv: "ln_inv b n"
  shows "list_all (pendingSeedOK b) (sd_PendingTurns (checkpoint n))"
proof -
  have "pendingSeedOK b q" if q: "q \<in> set (sd_PendingTurns (checkpoint n))" for q
  proof -
    from q obtain i s where s: "fmlookup (ln_pending n) i = Some s" "q = pendingSeed i s"
      unfolding checkpoint_pending(2) by auto
    have p: "idOK i" "pn_context s \<noteq> None \<or> pn_terminal s \<noteq> None"
      "pred_option (pendingContextOK b i) (pn_context s)" "pred_option (pendingTerminalOK b i) (pn_terminal s)"
      "\<And>c t. pn_context s = Some c \<Longrightarrow> pn_terminal s = Some t \<Longrightarrow>
         sp_EndOffset (px_position c) \<le> sp_StartOffset (pe_position t)"
      using ln_invD(4)[OF inv s(1)] by (simp_all add: pendingOK_def)
    have "validPendingContextSeed (ps_Context q) b"
      using p(3) by (cases "pn_context s") (simp_all add: s(2) validPendingContextSeed_def pendingContextOK_def
          posOK_def validCheckpointPosition_def id_seed text_seed effort_seed)
    moreover have "validPendingTerminalSeed (ps_Terminal q) b"
      using p(4) by (cases "pn_terminal s") (simp_all add: s(2) validPendingTerminalSeed_def pendingTerminalOK_def
          posOK_def validCheckpointPosition_def outcome_seed)
    ultimately show ?thesis using p(1,2,5) id_seed(1) by (auto simp: s(2) pendingSeedOK_def)
  qed
  then show ?thesis by (simp add: list_all_iff)
qed

lemma closed_seeds_ok:
  assumes inv: "ln_inv b n"
  shows "list_all (closedSeedOK (sessionID n)) (sd_ClosedTurns (checkpoint n))"
proof -
  have "closedSeedOK (sessionID n) q" if q: "q \<in> set (sd_ClosedTurns (checkpoint n))" for q
  proof -
    from q obtain i s t where s: "fmlookup (ln_turns n) i = Some s" "tl_terminal s = Some t"
      "q = \<lparr>cs_TurnID = i, cs_StartedAtMS = ts_StartedAtMS (tl_start s),
            cs_ContextWindow = ts_ContextWindow (tl_start s), cs_Terminal = t\<rparr>"
      unfolding checkpoint_closed(2)[OF inv] by auto
    from ln_invD(3)[OF inv s(1)] s(2) show ?thesis
      by (cases "te_FinalUsage t")
        (simp_all add: s(3) closedSeedOK_def turnOK_def Let_def endOK_def validFinalUsage_def usageOK_def
          id_seed outcome_seed counters_seed)
  qed
  then show ?thesis by (simp add: list_all_iff)
qed

lemma session_seed: "sessionOK k m \<Longrightarrow> validSeedSession m k"
  by (auto simp: sessionOK_def validSeedSession_def id_seed text_seed) (simp_all add: validSeedString_def)

lemma checkpoint_valid:
  assumes inv: "ln_inv b n" and "b \<noteq> 0"
  shows "validParserSeed \<lparr>pcf_SourceKind = ln_sourceKind n, pcf_StartOffset = b, pcf_MaxLineBytes = m,
           pcf_Seed = Some (checkpoint n)\<rparr>"
proof -
  let ?c = "checkpoint n"
  have so: "map os_TurnID (sd_OpenTurns ?c) = sort (openTurnIDs n)" by (rule checkpoint_open(1))
  have sp: "map ps_TurnID (sd_PendingTurns ?c) = sorted_list_of_fset (fmdom (ln_pending n))" by (rule checkpoint_pending(1))
  have sc: "map cs_TurnID (sd_ClosedTurns ?c) = ln_closedOrder n" by (rule checkpoint_closed(1)[OF inv])
  have len: "length (sd_OpenTurns ?c) \<le> maxOpenTurnStates" "length (sd_PendingTurns ?c) \<le> maxPendingTurnStates"
    "length (sd_ClosedTurns ?c) \<le> maxRetainedClosedTurnStates"
    using arg_cong[OF so, of length] arg_cong[OF sp, of length] arg_cong[OF sc, of length] ln_invD(8,9,10)[OF inv]
    by (simp_all add: length_openTurnIDs sorted_list_of_fset.rep_eq fcard.rep_eq)
  have d: "distinct (map os_TurnID (sd_OpenTurns ?c))" "distinct (map ps_TurnID (sd_PendingTurns ?c))"
    "distinct (map cs_TurnID (sd_ClosedTurns ?c))"
    unfolding so sp sc using ln_invD(6)[OF inv] by (simp_all add: sorted_list_of_fset.rep_eq)
  have pt: "\<not> isOpen n i" "\<not> isClosed n i" if "i |\<in>| fmdom (ln_pending n)" for i
    using that ln_invD(5)[OF inv, of i] by (auto simp: isOpen_def isClosed_def fmlookup_dom_iff)
  have oc: "\<not> (isOpen n i \<and> isClosed n i)" for i by (simp add: isOpen_def isClosed_def split: option.split)
  have D2: "set (map ps_TurnID (sd_PendingTurns ?c)) \<inter> set (rev (map os_TurnID (sd_OpenTurns ?c)) @ []) = {}"
    unfolding so sp set_append set_rev using pt(1) by auto
  have D3: "set (map cs_TurnID (sd_ClosedTurns ?c)) \<inter>
      set (rev (map ps_TurnID (sd_PendingTurns ?c)) @ rev (map os_TurnID (sd_OpenTurns ?c)) @ []) = {}"
    unfolding so sp sc set_append set_rev using pt(2) oc ln_invD(7)[OF inv] by auto
  show ?thesis
  proof (cases "ln_session n")
    case None
    from ln_invD(1)[OF inv None] have "openTurnIDs n = []" "fmdom (ln_pending n) = {||}" "\<And>i. \<not> isClosed n i"
      by (simp_all add: openTurnIDs_def isClosed_def sorted_list_of_fset.rep_eq)
    then have "sd_OpenTurns ?c = []" "sd_PendingTurns ?c = []" "sd_ClosedTurns ?c = []"
      using so sp sc ln_invD(7)[OF inv] by (auto simp: sorted_list_of_fset.rep_eq)
    with None assms(2) show ?thesis by (simp add: validParserSeed_def checkpoint_def)
  next
    case (Some ses)
    then have sid: "sessionID n = sm_SessionID ses" "sd_Session ?c = Some ses" "validSeedSession ses (ln_sourceKind n)"
      using ln_invD(2)[OF inv] by (simp_all add: sessionID_def checkpoint_def session_seed)
    have V1: "validOpenSeeds (sm_SessionID ses) (sd_OpenTurns ?c) [] = Some (rev (map os_TurnID (sd_OpenTurns ?c)) @ [])"
      by (rule validOpenSeeds_ok) (use open_seeds_ok[OF inv] d sid in simp_all)
    note V2 = validPendingSeeds_ok[OF pending_seeds_ok[OF inv] d(2) D2]
    note V3 = validClosedSeeds_ok[OF closed_seeds_ok[OF inv] d(3) D3]
    show ?thesis
      using assms(2) len sid V1 V2 V3 by (simp add: validParserSeed_def)
  qed
qed

section \<open>Lemmas: sessions\<close>

lemma norm_inv:
  assumes inv: "ln_inv b n"
  shows "ln_inv b (norm n)"
proof -
  have e: "isOpen (norm n) = isOpen n" "isClosed (norm n) = isClosed n" "sessionID (norm n) = sessionID n"
    by (auto simp: isOpen_def isClosed_def sessionID_def norm_def fun_eq_iff split: option.split)
  have t: "turnOK (sessionID n) i (closeState x)" if "fmlookup (ln_turns n) i = Some x" for i x
    using ln_invD(3)[OF inv that] by (simp add: turnOK_def Let_def closeState_def)
  have f: "ln_session (norm n) = ln_session n" "ln_sourceKind (norm n) = ln_sourceKind n"
    "ln_pending (norm n) = ln_pending n" "ln_closedOrder (norm n) = ln_closedOrder n"
    "ln_turns (norm n) = fmmap closeState (ln_turns n)" by (simp_all add: norm_def)
  show ?thesis
  proof (rule ln_invI)
    show "ln_session (norm n) = None \<Longrightarrow> ln_turns (norm n) = fmempty \<and> ln_pending (norm n) = fmempty"
      using ln_invD(1)[OF inv] by (simp add: f)
    show "\<And>i s. fmlookup (ln_turns (norm n)) i = Some s \<Longrightarrow> turnOK (sessionID (norm n)) i s"
      using t by (auto simp: f e(3))
  qed (use ln_invD(2,4-)[OF inv] in \<open>simp_all add: f e\<close>)
qed

abbreviation config :: "SourceKind \<Rightarrow> int \<Rightarrow> int64 \<Rightarrow> ParserSeed option \<Rightarrow> ParserConfig" where
  "config k mb off seed \<equiv> \<lparr>pcf_SourceKind = k, pcf_StartOffset = off, pcf_MaxLineBytes = mb, pcf_Seed = seed\<rparr>"

definition validSetup :: "SourceKind \<Rightarrow> int \<Rightarrow> bool" where
  "validSetup k mb \<longleftrightarrow> (k = SourceKindSession \<or> k = SourceKindArchivedSession) \<and> 0 \<le> mb \<and> mb \<le> MaxSupportedLineBytes"

lemma effectiveMax_pos: "validSetup k mb \<Longrightarrow> 0 < effectiveMax mb"
  by (auto simp: validSetup_def effectiveMax_def DefaultMaxLineBytes_def)

lemma newParser_fresh:
  assumes "validSetup k mb"
  shows "NewStreamParser (config k mb 0 None) = Inr (parserAt (effectiveMax mb) 0 [] (newLifecycleNormalizer k))"
proof -
  have "newLineFramer 0 (effectiveMax mb) = Inr (framerAt (effectiveMax mb) 0 [])"
    using effectiveMax_pos[OF assms] by (simp add: newLineFramer_def framerAt_def Let_def)
  with assms show ?thesis
    by (auto simp: NewStreamParser_def validSetup_def validParserSeed_def parserAt_def hydrate_def)
qed

lemma newParser_restart:
  assumes "validSetup (ln_sourceKind n) mb" and "ln_inv c n" and "0 < c"
  shows "NewStreamParser (config (ln_sourceKind n) mb c (Some (checkpoint n))) =
    Inr (parserAt (effectiveMax mb) c [] (norm n))"
proof -
  have "newLineFramer c (effectiveMax mb) = Inr (framerAt (effectiveMax mb) c [])"
    using effectiveMax_pos[OF assms(1)] assms(3) by (simp add: newLineFramer_def framerAt_def Let_def)
  with assms(1,3) checkpoint_valid[OF assms(2), of mb] hydrate_checkpoint[OF assms(2)] show ?thesis
    by (auto simp: NewStreamParser_def validSetup_def parserAt_def)
qed

text \<open>
  A file read in several sessions: each is started from the checkpoint and committable offset the
  previous one returned last, reads the bytes from there again, then the chunks that are new.
\<close>

fun sessions ::
  "rollout_env \<Rightarrow> SourceKind \<Rightarrow> int \<Rightarrow> int64 \<Rightarrow> ParserSeed option \<Rightarrow> string \<Rightarrow> string list list \<Rightarrow>
   parser_error + (ParsedEvent list \<times> ParserDiagnostic list)" where
  "sessions env k mb off seed unread [] = Inr ([], [])"
| "sessions env k mb off seed unread (cs # css) =
     (case NewStreamParser (config k mb off seed) of
        Inl e \<Rightarrow> Inl e
      | Inr p \<Rightarrow>
          (case parserRun env (unread # cs) p of
             Inl e \<Rightarrow> Inl e
           | Inr (rs, _) \<Rightarrow>
               (let c = pr_CommittableOffset (last rs)
                in case sessions env k mb c (if c = 0 then None else Some (pr_NextSeed (last rs)))
                          (drop (nat (c - off)) (unread @ concat cs)) css of
                     Inl e \<Rightarrow> Inl e
                   | Inr (E, D) \<Rightarrow> Inr (runEvents rs @ E, runDiagnostics rs @ D))))"

text \<open>The state between two sessions, after the bytes \<open>d\<close> of the file.\<close>

definition betweenSessions ::
  "rollout_env \<Rightarrow> SourceKind \<Rightarrow> int \<Rightarrow> string \<Rightarrow> int64 \<Rightarrow> ParserSeed option \<Rightarrow> bool" where
  "betweenSessions env k m d off seed \<longleftrightarrow>
     off = lr_committableOffset (framerAt m 0 d) \<and>
     (\<exists>n. sim n (snd (emitItems env (newLifecycleNormalizer k) (frames m 0 d))) \<and> ln_inv off n \<and>
          ln_sourceKind n = k \<and> seed = (if off = 0 then None else Some (checkpoint n)))"

lemma frames_none:
  assumes "lr_committableOffset (framerAt m 0 d) = 0"
  shows "frames m 0 d = []"
proof (cases "frames m 0 d")
  case (Cons i xs)
  with tiles_frames[of 0 m d] assms have "tiles (itemEnd i) xs 0" "0 < itemEnd i" by auto
  with tiles_le[of "itemEnd i" xs 0] show ?thesis by simp
qed simp

lemma betweenSessions_start:
  assumes "validSetup k mb" and "betweenSessions env k (effectiveMax mb) d off seed"
  obtains n where "NewStreamParser (config k mb off seed) = Inr (parserAt (effectiveMax mb) off [] n)"
    "sim n (snd (emitItems env (newLifecycleNormalizer k) (frames (effectiveMax mb) 0 d)))" "ln_inv off n"
    "ln_sourceKind n = k"
proof -
  let ?m = "effectiveMax mb"
  from assms(2) obtain n where n: "off = lr_committableOffset (framerAt ?m 0 d)"
    "sim n (snd (emitItems env (newLifecycleNormalizer k) (frames ?m 0 d)))" "ln_inv off n"
    "ln_sourceKind n = k" "seed = (if off = 0 then None else Some (checkpoint n))"
    by (auto simp: betweenSessions_def)
  have "0 \<le> off" using tiles_le[OF tiles_frames[of 0 ?m d]] n(1) by simp
  show thesis
  proof (cases "off = 0")
    case True
    then have "frames ?m 0 d = []" using frames_none n(1) by simp
    with newParser_fresh[OF assms(1)] True n(5) show thesis
      by (intro that[of "newLifecycleNormalizer k"])
        (simp_all add: newLifecycleNormalizer_inv, simp add: newLifecycleNormalizer_def)
  next
    case False
    with \<open>0 \<le> off\<close> have "0 < off" by simp
    with newParser_restart[of n mb off] assms(1) n False have
      "NewStreamParser (config k mb off seed) = Inr (parserAt ?m off [] (norm n))" by simp
    moreover have "sim (norm n) (snd (emitItems env (newLifecycleNormalizer k) (frames ?m 0 d)))"
      using norm_sim[of n] n(2) by (simp add: sim_def)
    ultimately show thesis using norm_inv[OF n(3)] n(4) by (intro that[of "norm n"]) (simp_all add: norm_def)
  qed
qed

lemma sessions_emit:
  assumes valid: "validSetup k mb" and utf8: "parses_utf8 env"
  shows "betweenSessions env k (effectiveMax mb) d off seed \<Longrightarrow>
    int (length d) + int (length (concat (concat css))) \<le> max_int64 \<Longrightarrow>
    frames (effectiveMax mb) 0 (d @ concat (concat css)) = frames (effectiveMax mb) 0 d @ new \<Longrightarrow>
    n = snd (emitItems env (newLifecycleNormalizer k) (frames (effectiveMax mb) 0 d)) \<Longrightarrow>
    sessions env k mb off seed (snd (splitLines d)) css =
      Inr (ly_Events (fst (emitItems env n new)), ly_Diagnostics (fst (emitItems env n new)))"
proof (induction css arbitrary: d off seed new n)
  case Nil
  then show ?case by (simp add: emptyResult_def)
next
  case (Cons cs css)
  let ?m = "effectiveMax mb" and ?t = "snd (splitLines d)"
  have m0: "0 \<le> ?m" using effectiveMax_pos[OF valid] by simp
  from Cons.prems(1) have off: "off = lr_committableOffset (framerAt ?m 0 d)" by (simp add: betweenSessions_def)
  from betweenSessions_start[OF valid Cons.prems(1)] obtain n1 where
    p: "NewStreamParser (config k mb off seed) = Inr (parserAt ?m off [] n1)"
    and n1: "sim n1 n" "ln_inv off n1" "ln_sourceKind n1 = k"
    unfolding Cons.prems(4) by blast
  define x where "x = ?t @ concat cs"
  define new1 where "new1 = frames ?m off x"
  have b: "off + int (length ([] :: string)) + int (length (concat (?t # cs))) \<le> max_int64"
    using Cons.prems(2) off by simp
  have z: "frames ?m off ([] @ concat (?t # cs)) = frames ?m off [] @ new1"
    by (simp add: new1_def x_def frames_def)
  from parserRun_emit[OF m0 b z, of env n1] obtain rs where
    run: "parserRun env (?t # cs) (parserAt ?m off [] n1) = Inr (rs, parserAt ?m off x (snd (emitItems env n1 new1)))"
    and ev: "runEvents rs = ly_Events (fst (emitItems env n1 new1))"
      "runDiagnostics rs = ly_Diagnostics (fst (emitItems env n1 new1))"
    and lst: "pr_CommittableOffset (last rs) = lr_committableOffset (framerAt ?m off x)"
      "pr_NextSeed (last rs) = checkpoint (snd (emitItems env n1 new1))"
    by (auto simp: x_def)
  let ?d' = "d @ concat cs"
  have F: "framerAt ?m 0 ?d' = framerAt ?m off x"
    using framerAt_restart[of ?m 0 d "concat cs"] by (simp add: off x_def)
  have fr: "frames ?m 0 ?d' = frames ?m 0 d @ new1"
    using frames_restart[of ?m 0 d "concat cs"] by (simp add: off x_def new1_def)
  define c where "c = lr_committableOffset (framerAt ?m off x)"
  from sim_emitItems[OF n1(1), of env new1] obtain r n2 n2' where
    e: "emitItems env n1 new1 = (r, n2)" "emitItems env n new1 = (r, n2')" "sim n2 n2'" by (rule rsim_cases)
  have n2': "n2' = snd (emitItems env (newLifecycleNormalizer k) (frames ?m 0 ?d'))"
    using e(2) Cons.prems(4) unfolding fr emitItems_append by (simp add: case_prod_beta)
  have "tiles off new1 c" unfolding new1_def c_def by (rule tiles_frames)
  from emitItems_inv[OF utf8 n1(2) this] e(1) have inv2: "ln_inv c n2" by simp
  have k2: "ln_sourceKind n2 = k" using emitItems_kind[of env n1 new1] e(1) n1(3) by simp
  have bs: "betweenSessions env k ?m ?d' c (if c = 0 then None else Some (checkpoint n2))"
    unfolding betweenSessions_def F using e(3) n2' inv2 k2 by (auto simp: c_def)
  have tl: "drop (nat (c - off)) (?t @ concat cs) = snd (splitLines ?d')"
    using tail_drop[of x ?m off] splitLines_append[of d "concat cs"] by (simp add: c_def x_def)
  obtain new2 where new2: "frames ?m 0 (?d' @ concat (concat css)) = frames ?m 0 ?d' @ new2"
    using frames_restart[of ?m 0 ?d' "concat (concat css)"] by blast
  have new: "new = new1 @ new2" using Cons.prems(3) new2 fr by simp
  have rest: "sessions env k mb c (if c = 0 then None else Some (checkpoint n2)) (snd (splitLines ?d')) css =
      Inr (ly_Events (fst (emitItems env n2' new2)), ly_Diagnostics (fst (emitItems env n2' new2)))"
    by (rule Cons.IH[OF bs _ new2 n2']) (use Cons.prems(2) in simp)
  have lst': "pr_CommittableOffset (last rs) = c" "pr_NextSeed (last rs) = checkpoint n2"
    using lst e(1) by (simp_all only: c_def snd_conv)
  show ?case
    unfolding sessions.simps p run sum.case prod.case Let_def lst' tl rest new emitItems_append e ev fst_conv
    by (simp add: case_prod_beta)
qed

end
