(* ===== verification/Turn_Protocol.thy ===== *)
theory Turn_Protocol
  imports Parser_Restart
begin

text \<open>
  The order of the events the parser emits: a turn starts before its context, its usage and its end
  are reported, and nothing is reported of a turn that is not open. The protocol is an abstract
  machine over the set of open turns, which the normalizer refines event by event.
\<close>

section \<open>The protocol\<close>

text \<open>The abstract turn machine: which turns are open, and which event may come next.\<close>

fun turnStep :: "string set \<Rightarrow> EventPayload \<Rightarrow> string set option" where
  "turnStep A (EventTurnStarted t) = (if ts_TurnID t \<in> A then None else Some (insert (ts_TurnID t) A))"
| "turnStep A (EventTurnContext c) = (if cx_TurnID c \<in> A then Some A else None)"
| "turnStep A (EventTurnUsage u) = (if tu_TurnID u \<in> A then Some A else None)"
| "turnStep A (EventTurnEnded e) = (if te_TurnID e \<in> A then Some (A - {te_TurnID e}) else None)"
| "turnStep A _ = Some A"

fun turnRun :: "string set \<Rightarrow> ParsedEvent list \<Rightarrow> string set option" where
  "turnRun A [] = Some A"
| "turnRun A (e # es) = (case turnStep A (ev_Payload e) of None \<Rightarrow> None | Some B \<Rightarrow> turnRun B es)"

lemma turnRun_append: "turnRun A (xs @ ys) = (case turnRun A xs of None \<Rightarrow> None | Some B \<Rightarrow> turnRun B ys)"
  by (induction xs arbitrary: A) (auto split: option.split)

definition follows :: "lifecycleNormalizer \<Rightarrow> lifecycleResult \<times> lifecycleNormalizer \<Rightarrow> bool" where
  "follows n x \<longleftrightarrow> turnRun {i. isOpen n i} (ly_Events (fst x)) = Some {i. isOpen (snd x) i}"

lemma follows_silent: "ly_Events r = [] \<Longrightarrow> isOpen m = isOpen n \<Longrightarrow> follows n (r, m)"
  by (simp add: follows_def)

lemma results_silent [simp]: "ly_Events (lifecycleDiagnostic p c) = []" "ly_Events emptyResult = []"
  by (simp_all add: lifecycleDiagnostic_def emptyResult_def)

lemma event_events [simp]: "ly_Events (eventResult p e) = [\<lparr>ev_Position = p, ev_Payload = e\<rparr>]"
  by (simp add: eventResult_def)

lemma follows_append:
  assumes "follows n (r, n1)" and "follows n1 (r', n2)"
  shows "follows n (appendResult r r', n2)"
  using assms by (simp add: follows_def turnRun_append)

lemma retain_open: "isOpen (retainClosedTurn i n) = isOpen n"
  by (auto simp: retainClosedTurn_def Let_def isOpen_def fun_eq_iff split: option.split)

lemma pendingState_open: "pendingState n i = Some (p, n') \<Longrightarrow> isOpen n' = isOpen n"
  by (auto elim: pendingState_cases)

lemma known_follows:
  assumes "fmlookup (ln_turns n) i = Some s"
  shows "follows n (applyKnownTurnContext p t r i s n)"
  using assms unfolding applyKnownTurnContext_def Let_def
  by (auto intro!: follows_silent simp: follows_def isOpen_upd isOpen_def)

lemma terminal_follows: "follows n (applyTurnTerminal p r a n)"
proof (cases "resolveTurnID n (de_TurnID r)")
  case (Inl c)
  then show ?thesis by (simp add: applyTurnTerminal_def follows_silent)
next
  case R: (Inr i)
  show ?thesis
  proof (cases "fmlookup (ln_turns n) i")
    case None
    with R show ?thesis
      by (auto simp: applyTurnTerminal_def Let_def pendingState_open intro!: follows_silent
          split: option.split prod.split)
  next
    case (Some s)
    show ?thesis
    proof (cases "tl_terminal s")
      case None
      then have "{j. isOpen (n\<lparr>ln_turns := fmupd i (s\<lparr>tl_terminal := Some e\<rparr>) (ln_turns n)\<rparr>) j} = {j. isOpen n j} - {i}" for e
        by (auto simp: isOpen_upd)
      moreover have "isOpen n i" using Some None by (simp add: isOpen_def)
      ultimately show ?thesis using R Some None
        by (auto simp: applyTurnTerminal_def Let_def follows_def retain_open intro!: follows_silent)
    qed (use R Some in \<open>auto simp: applyTurnTerminal_def Let_def intro!: follows_silent\<close>)
  qed
qed

lemma context_follows: "follows n (applyTurnContext p t r n)"
  by (auto simp: applyTurnContext_def Let_def pendingState_open intro!: follows_silent known_follows
      split: sum.split option.split prod.split)

lemma isOpen_keep:
  assumes "fmlookup (ln_turns n) i = Some s" and "tl_terminal s' = tl_terminal s"
  shows "isOpen (n\<lparr>ln_turns := fmupd i s' (ln_turns n)\<rparr>) = isOpen n"
  using assms by (auto simp: isOpen_def fun_eq_iff)

lemma usage_follows: "follows n (applyTokenUsage p u n)"
proof -
  have o: "isOpen n i" if "openTurnIDs n = [i]" for i
    using that openTurnIDs_set[of n] by auto
  show ?thesis
    by (auto simp: applyTokenUsage_def Let_def follows_def isOpen_keep dest: o split: list.split option.split)
qed

lemma count_follows: "follows n (applyTokenCount p u qs cs n)"
proof -
  have q: "turnRun A (map (\<lambda>q. \<lparr>ev_Position = p, ev_Payload = EventQuotaObservation (f q)\<rparr>) qs) = Some A" for A f
    by (induction qs) simp_all
  show ?thesis
  proof (cases u)
    case None
    then show ?thesis by (simp add: applyTokenCount_def follows_def q)
  next
    case (Some v)
    with usage_follows[of n p v] show ?thesis
      by (simp add: applyTokenCount_def follows_def turnRun_append q case_prod_beta)
  qed
qed

lemma resolve_follows:
  assumes "follows n (started, n1)" and "fmlookup (ln_turns n1) i = Some s"
  shows "follows n (resolvePendingTerminal q (resolvePendingContext q i s (started, n1)))"
proof -
  obtain r n2 where x: "resolvePendingContext q i s (started, n1) = (r, n2)" by (cases "resolvePendingContext q i s (started, n1)")
  have "follows n (r, n2)"
  proof (cases "pn_context q")
    case (Some c)
    with x follows_append[OF assms(1)] known_follows[OF assms(2), of "px_position c" "px_observedAtMS c" "px_record c"]
    show ?thesis by (auto simp: resolvePendingContext_def split: prod.splits)
  qed (use assms(1) x in \<open>simp add: resolvePendingContext_def\<close>)
  then show ?thesis
  proof (cases "pn_terminal q")
    case (Some t)
    obtain r' n3 where y: "applyTurnTerminal (pe_position t) (pe_record t) False n2 = (r', n3)" by (rule prod.exhaust)
    with terminal_follows[of n2 "pe_position t" "pe_record t" False] have "follows n2 (r', n3)" by simp
    from follows_append[OF \<open>follows n (r, n2)\<close> this] Some x y show ?thesis by (simp add: resolvePendingTerminal_def)
  qed (simp add: x resolvePendingTerminal_def)
qed

lemma start_follows: "follows n (applyTurnStart p r n)"
proof (cases "fmlookup (ln_turns n) (dt_TurnID r)")
  case None
  define i where "i = dt_TurnID r"
  define s where "s = \<lparr>tl_start = \<lparr>ts_SessionID = sessionID n, ts_TurnID = i, ts_StartedAtMS = dt_StartedAtMS r,
    ts_ContextWindow = dt_ContextWindow r\<rparr>, tl_context = None, tl_latestUsage = None, tl_terminal = None\<rparr>"
  let ?n = "n\<lparr>ln_turns := fmupd i s (ln_turns n)\<rparr>"
  have "\<not> isOpen n i" using None by (simp add: i_def isOpen_def)
  moreover have "{j. isOpen ?n j} = insert i {j. isOpen n j}" by (auto simp: isOpen_upd s_def)
  ultimately have st: "follows n (eventResult p (EventTurnStarted (tl_start s)), ?n)"
    by (simp add: follows_def s_def)
  then have "follows n (eventResult p (EventTurnStarted (tl_start s)), ?n\<lparr>ln_pending := q\<rparr>)" for q
    by (simp add: follows_def)
  from resolve_follows[OF this, where i = i and s = s] st show ?thesis
    using None unfolding applyTurnStart_def Let_def i_def[symmetric]
    by (auto simp: s_def intro!: follows_silent split: option.split)
qed (auto simp: applyTurnStart_def Let_def intro!: follows_silent)

lemma Apply_follows: "follows n (Apply p l n)"
proof -
  have "follows n (applySession p t m n)" for t m
    by (auto simp: applySession_def Let_def follows_def emptyResult_def split: option.split)
  then show ?thesis
    by (auto simp: Apply_def start_follows context_follows count_follows terminal_follows
        intro!: follows_silent split: decodedKind.split)
qed

lemma emitItem_follows: "follows n (emitItem env n x)"
  by (auto simp: emitItem_def Apply_follows intro!: follows_silent split: sum.split decodeResult.split)

lemma emitItems_follows: "follows n (emitItems env n xs)"
proof (induction xs arbitrary: n)
  case (Cons x xs)
  from emitItem_follows[of n env x] Cons.IH[of "snd (emitItem env n x)"] show ?case
    using follows_append by (simp add: case_prod_beta) (metis prod.collapse)
qed (simp add: follows_silent)

lemma sessions_fresh:
  assumes "validSetup k mb" and "parses_utf8 env" and "int (length (concat (concat css))) \<le> max_int64"
  shows "sessions env k mb 0 None [] css =
    (let r = fst (emitItems env (newLifecycleNormalizer k) (frames (effectiveMax mb) 0 (concat (concat css))))
     in Inr (ly_Events r, ly_Diagnostics r))"
proof -
  have "frames (effectiveMax mb) 0 [] = []" by (simp add: frames_def)
  moreover have "betweenSessions env k (effectiveMax mb) [] 0 None"
    unfolding betweenSessions_def
    by (auto simp: frames_def framerAt_def newLifecycleNormalizer_inv intro!: exI[of _ "newLifecycleNormalizer k"])
      (simp add: newLifecycleNormalizer_def)
  ultimately show ?thesis
    using sessions_emit[OF assms(1,2), of "[]" 0 None css "frames (effectiveMax mb) 0 (concat (concat css))"
        "newLifecycleNormalizer k"] assms(3) by (simp add: Let_def)
qed

lemma checkpoint_lengths:
  assumes "ln_inv b n"
  shows "length (sd_OpenTurns (checkpoint n)) \<le> 64" "length (sd_PendingTurns (checkpoint n)) \<le> 1024"
    "length (sd_ClosedTurns (checkpoint n)) \<le> 1024"
proof -
  note b = ln_invD(8,9,10)[OF assms, unfolded maxOpenTurnStates_def maxPendingTurnStates_def maxRetainedClosedTurnStates_def]
  show "length (sd_OpenTurns (checkpoint n)) \<le> 64" "length (sd_ClosedTurns (checkpoint n)) \<le> 1024"
    using b(1,2) by (auto simp: checkpoint_def length_openTurnIDs intro: order_trans[OF length_map_filter_le])
  have "length (sorted_list_of_fset (fmdom (ln_pending n))) = fcard (fmdom (ln_pending n))"
    by (simp add: sorted_list_of_fset.rep_eq fcard.rep_eq)
  then show "length (sd_PendingTurns (checkpoint n)) \<le> 1024"
    using b(3) by (auto simp: checkpoint_def intro: order_trans[OF length_map_filter_le])
qed

section \<open>An example log\<close>

text \<open>Three lines: the session, the start of a turn and its end, cut across chunks and sessions.\<close>

definition ex_doc :: "string \<Rightarrow> (string \<times> json) list \<Rightarrow> json" where
  "ex_doc t kvs = JObj [(''timestamp'', JStr ''T''), (''type'', JStr t), (''payload'', JObj kvs)]"

definition ex_docs :: "string \<Rightarrow> json option" where
  "ex_docs = map_of
    [(''m'', ex_doc ''session_meta'' [(''id'', JStr ''s''), (''timestamp'', JStr ''T''), (''cwd'', JStr ''/w''),
        (''originator'', JStr ''cli''), (''cli_version'', JStr ''1''), (''source'', JStr ''cli''),
        (''model_provider'', JStr ''p'')]),
     (''a'', ex_doc ''event_msg'' [(''type'', JStr ''task_started''), (''turn_id'', JStr ''t1''), (''started_at'', JNum ''5'')]),
     (''b'', ex_doc ''event_msg'' [(''type'', JStr ''task_complete''), (''turn_id'', JStr ''t1''), (''completed_at'', JNum ''7'')])]"

definition ex_log :: rollout_env where
  "ex_log = \<lparr>re_tokens = (\<lambda>_. [TScalar]), re_clean = (\<lambda>_. True), re_parse = ex_docs,
     re_fold = (\<lambda>s. map lower_byte s), re_time = (\<lambda>_. Some 1000), re_float = (\<lambda>_. None)\<rparr>"

definition ex_chunks :: "string list list" where
  "ex_chunks = [[''m'', [NL, CHR ''a'']], [[NL], ''b''], [[NL]]]"

lemma ex_log_utf8: "parses_utf8 ex_log"
proof -
  have "\<forall>kv \<in> set [(''m'', the (ex_docs ''m'')), (''a'', the (ex_docs ''a'')), (''b'', the (ex_docs ''b''))]. json_utf8 (snd kv)"
    by code_simp
  then show ?thesis by (simp add: parses_utf8_def ex_log_def ex_docs_def)
qed

lemma ex_setup: "validSetup SourceKindSession 0" "int (length (concat (concat ex_chunks))) \<le> max_int64"
  by code_simp+

lemma ex_sessions:
  "case sessions ex_log SourceKindSession 0 0 None [] ex_chunks of
     Inr (E, D) \<Rightarrow> length E = 3 \<and> D = [] \<and> turnRun {} E = Some {} | Inl _ \<Rightarrow> False"
  by code_simp

lemma ex_run:
  "case NewStreamParser (config SourceKindSession 0 0 None) of
     Inr p \<Rightarrow> (case parserRun ex_log [''m'', [NL, CHR ''a'', NL]] p of
        Inr (rs, _) \<Rightarrow> pr_CommittableOffset (last rs) = 4 \<and> length (sd_OpenTurns (pr_NextSeed (last rs))) = 1 | Inl _ \<Rightarrow> False)
   | Inl _ \<Rightarrow> False"
  by code_simp

section \<open>Properties\<close>

text \<open>C2: Restarting is invisible. A rollout file read in any number of parser sessions, each started
  from the checkpoint and the committable offset the previous one returned last and fed the rest of
  the file in chunks cut anywhere, succeeds, and gives exactly the events and the diagnostics of one
  session that reads the file in one chunk: nothing is lost, reported twice or reordered.\<close>

theorem sessions_equal_single_pass:
  assumes "validSetup k mb" and "parses_utf8 env" and "int (length (concat (concat css))) \<le> max_int64"
  shows "\<exists>E D. sessions env k mb 0 None [] css = Inr (E, D) \<and>
    sessions env k mb 0 None [] [[concat (concat css)]] = Inr (E, D)"
  using sessions_fresh[OF assms] sessions_fresh[OF assms(1,2), of "[[concat (concat css)]]"] assms(3)
  by (simp add: Let_def)

theorem sessions_equal_single_pass_witness:
  "\<exists>E D. sessions ex_log SourceKindSession 0 0 None [] ex_chunks = Inr (E, D) \<and>
    sessions ex_log SourceKindSession 0 0 None [] [[concat (concat ex_chunks)]] = Inr (E, D) \<and>
    length E = 3 \<and> D = []"
  using sessions_equal_single_pass[OF ex_setup(1) ex_log_utf8 ex_setup(2)] ex_sessions by auto

text \<open>C6: The events follow the turn protocol. Whatever the bytes of the file and however they are
  read, no event speaks of a turn that is not open: a turn is started only when it is not open, its
  context, its usage and its end are reported only while it is open, its end closes it, and at most
  64 turns are open at the end.\<close>

theorem events_follow_turn_protocol:
  assumes "validSetup k mb" and "parses_utf8 env" and "int (length (concat (concat css))) \<le> max_int64"
    and "sessions env k mb 0 None [] css = Inr (E, D)"
  shows "\<exists>A. turnRun {} E = Some A \<and> finite A \<and> card A \<le> maxOpenTurnStates"
proof -
  define n where "n = newLifecycleNormalizer k"
  define fs where "fs = frames (effectiveMax mb) 0 (concat (concat css))"
  have E: "E = ly_Events (fst (emitItems env n fs))"
    using sessions_fresh[OF assms(1-3)] assms(4) by (simp add: Let_def n_def fs_def)
  have "{i. isOpen n i} = {}" by (simp add: n_def newLifecycleNormalizer_def isOpen_def)
  with emitItems_follows[of n env fs] have "turnRun {} E = Some {i. isOpen (snd (emitItems env n fs)) i}"
    by (simp add: follows_def E)
  moreover have "ln_inv (lr_committableOffset (framerAt (effectiveMax mb) 0 (concat (concat css)))) (snd (emitItems env n fs))"
    unfolding fs_def by (rule emitItems_inv[OF assms(2) _ tiles_frames]) (simp add: n_def newLifecycleNormalizer_inv)
  ultimately show ?thesis by (auto dest: ln_invD(9))
qed

theorem events_follow_turn_protocol_witness:
  "\<exists>E D A. sessions ex_log SourceKindSession 0 0 None [] ex_chunks = Inr (E, D) \<and> length E = 3 \<and>
    turnRun {} E = Some A \<and> card A \<le> maxOpenTurnStates"
proof -
  obtain E D where e: "sessions ex_log SourceKindSession 0 0 None [] ex_chunks = Inr (E, D)" "length E = 3"
    using ex_sessions by (auto split: sum.splits)
  from events_follow_turn_protocol[OF ex_setup(1) ex_log_utf8 ex_setup(2) e(1)] e show ?thesis by blast
qed

text \<open>C12: A checkpoint can always be resumed from, and is bounded. After any sequence of chunks the
  checkpoint the parser returned last is accepted, with the committable offset returned beside it,
  by the validation of a new parser as soon as one line is committed, and holds at most 64 open,
  1024 pending and 1024 closed turns.\<close>

theorem checkpoint_accepted_and_bounded:
  assumes "validSetup k mb" and "parses_utf8 env" and "int (length (concat (c # cs))) \<le> max_int64"
    and "NewStreamParser (config k mb 0 None) = Inr p" and "parserRun env (c # cs) p = Inr (rs, p')"
  shows "\<exists>q. (0 < pr_CommittableOffset (last rs) \<longrightarrow>
      NewStreamParser (config k mb (pr_CommittableOffset (last rs)) (Some (pr_NextSeed (last rs)))) = Inr q) \<and>
    length (sd_OpenTurns (pr_NextSeed (last rs))) \<le> 64 \<and>
    length (sd_PendingTurns (pr_NextSeed (last rs))) \<le> 1024 \<and>
    length (sd_ClosedTurns (pr_NextSeed (last rs))) \<le> 1024"
proof -
  let ?m = "effectiveMax mb"
  define fs where "fs = frames ?m 0 (concat (c # cs))"
  define n where "n = snd (emitItems env (newLifecycleNormalizer k) fs)"
  have p: "p = parserAt ?m 0 [] (newLifecycleNormalizer k)" using newParser_fresh[OF assms(1)] assms(4) by simp
  have "frames ?m 0 ([] @ concat (c # cs)) = frames ?m 0 [] @ fs" by (simp add: fs_def frames_def)
  from parserRun_emit[OF _ _ this, of env "newLifecycleNormalizer k"] effectiveMax_pos[OF assms(1)] assms(3,5)
  have last: "pr_CommittableOffset (last rs) = lr_committableOffset (framerAt ?m 0 (concat (c # cs)))"
    "pr_NextSeed (last rs) = checkpoint n" by (auto simp: p n_def)
  have inv: "ln_inv (pr_CommittableOffset (last rs)) n"
    unfolding n_def fs_def last(1) by (rule emitItems_inv[OF assms(2) newLifecycleNormalizer_inv tiles_frames])
  have k: "ln_sourceKind n = k"
    unfolding n_def using emitItems_kind[of env "newLifecycleNormalizer k" fs] by (simp add: newLifecycleNormalizer_def)
  have "length (sd_OpenTurns (checkpoint n)) \<le> 64" "length (sd_PendingTurns (checkpoint n)) \<le> 1024"
    "length (sd_ClosedTurns (checkpoint n)) \<le> 1024"
    using checkpoint_lengths[OF inv] by simp_all
  moreover have "0 < pr_CommittableOffset (last rs) \<Longrightarrow>
      NewStreamParser (config k mb (pr_CommittableOffset (last rs)) (Some (checkpoint n))) =
        Inr (parserAt ?m (pr_CommittableOffset (last rs)) [] (norm n))"
    using newParser_restart[OF _ inv, of mb] assms(1) k by simp
  ultimately show ?thesis unfolding last(2) by blast
qed

theorem checkpoint_accepted_and_bounded_witness:
  "\<exists>p rs p' q. NewStreamParser (config SourceKindSession 0 0 None) = Inr p \<and>
    parserRun ex_log [''m'', [NL, CHR ''a'', NL]] p = Inr (rs, p') \<and>
    NewStreamParser (config SourceKindSession 0 4 (Some (pr_NextSeed (last rs)))) = Inr q \<and>
    length (sd_OpenTurns (pr_NextSeed (last rs))) = 1 \<and> length (sd_PendingTurns (pr_NextSeed (last rs))) \<le> 1024"
proof -
  obtain p rs p' where p: "NewStreamParser (config SourceKindSession 0 0 None) = Inr p"
    "parserRun ex_log [''m'', [NL, CHR ''a'', NL]] p = Inr (rs, p')" "pr_CommittableOffset (last rs) = 4"
    "length (sd_OpenTurns (pr_NextSeed (last rs))) = 1"
    using ex_run by (auto split: sum.splits)
  have "int (length (concat [''m'', [NL, CHR ''a'', NL]])) \<le> max_int64" by code_simp
  from checkpoint_accepted_and_bounded[OF ex_setup(1) ex_log_utf8 this p(1,2)] p(3) obtain q where
    "NewStreamParser (config SourceKindSession 0 4 (Some (pr_NextSeed (last rs)))) = Inr q"
    "length (sd_PendingTurns (pr_NextSeed (last rs))) \<le> 1024" by auto
  with p show ?thesis by blast
qed

end
