(* ===== verification/Throughput.thy ===== *)
theory Throughput
  imports Pulse_Prelude "HOL-Library.Finite_Map"
begin

text \<open>
  The output-efficiency accumulator of \<open>src/internal/throughput/throughput.go\<close>: it replays the
  lifecycle and counter facts of a session turn by turn and derives the average output rate over
  the union of the measured intervals. The maps \<open>turns\<close> and \<open>open\<close> of the source share their turn
  states by pointer; here \<open>turns\<close> holds the states and \<open>open\<close> the identifiers. Go iterates over a map
  in an order it does not specify: that order is the parameter \<open>order\<close> of \<open>Result\<close>. Counters of
  events are unbounded; times are \<open>int64\<close> with the wrap-around written out.
\<close>

definition MaxInteger :: int64 where
  "MaxInteger = 9007199254740991"

datatype EventKind = KindInherited | KindStart | KindComplete | KindAbort | KindUsage | KindGap | KindOther string

record Event =
  e_Offset :: int64
  e_Kind :: EventKind
  e_TurnID :: "string option"
  e_AtMS :: "int64 option"
  e_TimeSource :: string
  e_StartedAtMS :: "int64 option"
  e_DurationMS :: "int64 option"
  e_OutputDelta :: "int64 option"
  e_OutputObserved :: bool

record Stats =
  s_AverageMilliTPS :: "int64 option"
  s_OutputTokens :: "int64 option"
  s_ActiveMS :: "int64 option"
  s_IncludedTurns :: int64
  s_ExcludedTurns :: int64
  s_OpenTurns :: int64
  s_UnattributedEvents :: int64
  s_Status :: string
  s_Reason :: string
  s_DurationSource :: string

definition unavailable :: "string \<Rightarrow> Stats" where
  "unavailable reason =
     \<lparr>s_AverageMilliTPS = None, s_OutputTokens = None, s_ActiveMS = None, s_IncludedTurns = 0,
      s_ExcludedTurns = 0, s_OpenTurns = 0, s_UnattributedEvents = 0, s_Status = ''unavailable'',
      s_Reason = reason, s_DurationSource = []\<rparr>"

record Turn =
  t_ID :: string
  t_StartedAtMS :: "int64 option"
  t_EndedAtMS :: "int64 option"
  t_Stats :: Stats

text \<open>The embedded \<open>Turn\<close> of a turn state, less its statistics, which only \<open>Result\<close> fills in.\<close>

record turnState =
  u_ID :: string
  u_StartedAtMS :: "int64 option"
  u_EndedAtMS :: "int64 option"
  u_startSource :: string
  u_terminal :: "Event option"
  u_output :: int64
  u_seenOutput :: bool
  u_sawCounter :: bool
  u_firstUsage :: "int64 option"
  u_lastUsage :: "int64 option"
  u_started :: bool
  u_invalid :: bool

record Accumulator =
  a_turns :: "(string, turnState) fmap"
  a_open :: "string fset"
  a_unattributed :: int64
  a_counterGap :: bool
  a_limited :: bool
  a_inherited :: bool

definition newTurnState :: "string \<Rightarrow> turnState" where
  "newTurnState turnID =
     \<lparr>u_ID = turnID, u_StartedAtMS = None, u_EndedAtMS = None, u_startSource = [], u_terminal = None,
      u_output = 0, u_seenOutput = False, u_sawCounter = False, u_firstUsage = None, u_lastUsage = None,
      u_started = False, u_invalid = False\<rparr>"

definition NewAccumulator :: Accumulator where
  "NewAccumulator =
     \<lparr>a_turns = fmempty, a_open = {||}, a_unattributed = 0, a_counterGap = False, a_limited = False,
      a_inherited = False\<rparr>"

definition maxTurns :: int where
  "maxTurns = 50000"

text \<open>The turn an event belongs to: its own, made when it is new, or the only open one.\<close>

definition eventTurn :: "Event \<Rightarrow> Accumulator \<Rightarrow> turnState option \<times> Accumulator" where
  "eventTurn event a =
     (case e_TurnID event of
        Some i \<Rightarrow>
          (case fmlookup (a_turns a) i of
             Some turn \<Rightarrow> (Some turn, a)
           | None \<Rightarrow>
               if int (fcard (fmdom (a_turns a))) \<ge> maxTurns then (None, a\<lparr>a_limited := True\<rparr>)
               else (Some (newTurnState i), a\<lparr>a_turns := fmupd i (newTurnState i) (a_turns a)\<rparr>))
      | None \<Rightarrow>
          (case sorted_list_of_fset (a_open a) of
             [i] \<Rightarrow> (fmlookup (a_turns a) i, a)
           | _ \<Rightarrow> (None, a)))"

definition putTurn :: "turnState \<Rightarrow> Accumulator \<Rightarrow> Accumulator" where
  "putTurn turn a = a\<lparr>a_turns := fmupd (u_ID turn) turn (a_turns a)\<rparr>"

definition unattribute :: "Accumulator \<Rightarrow> Accumulator" where
  "unattribute a = a\<lparr>a_unattributed := a_unattributed a + 1\<rparr>"

text \<open>Every open turn becomes invalid.\<close>

definition invalidateOpen :: "Accumulator \<Rightarrow> Accumulator" where
  "invalidateOpen a =
     a\<lparr>a_turns := fmmap_keys (\<lambda>i turn. if i |\<in>| a_open a then turn\<lparr>u_invalid := True\<rparr> else turn) (a_turns a)\<rparr>"

definition addStart :: "Event \<Rightarrow> turnState \<Rightarrow> Accumulator \<Rightarrow> Accumulator" where
  "addStart event turn a =
     (if u_started turn then
        (if u_StartedAtMS turn \<noteq> e_AtMS event then putTurn (turn\<lparr>u_invalid := True\<rparr>) a else a)
      else
        (let turn1 = turn\<lparr>u_started := True\<rparr>;
             turn2 = (if e_AtMS event \<noteq> None
                      then turn1\<lparr>u_StartedAtMS := e_AtMS event, u_startSource := e_TimeSource event\<rparr> else turn1);
             a1 = putTurn turn2 a
         in if u_terminal turn2 = None then a1\<lparr>a_open := finsert (u_ID turn2) (a_open a1)\<rparr> else a1))"

definition addTerminal :: "Event \<Rightarrow> turnState \<Rightarrow> Accumulator \<Rightarrow> Accumulator" where
  "addTerminal event turn a =
     (case u_terminal turn of
        Some t \<Rightarrow>
          if e_AtMS t \<noteq> e_AtMS event \<or> e_DurationMS t \<noteq> e_DurationMS event
          then putTurn (turn\<lparr>u_invalid := True\<rparr>) a else a
      | None \<Rightarrow>
          (let turn1 = turn\<lparr>u_terminal := Some event, u_EndedAtMS := e_AtMS event\<rparr>;
               a1 = (if \<not> u_sawCounter turn1 then a\<lparr>a_counterGap := True\<rparr> else a);
               turn2 = (if u_StartedAtMS turn1 = None \<and> e_StartedAtMS event \<noteq> None
                        then turn1\<lparr>u_StartedAtMS := e_StartedAtMS event, u_startSource := ''source_seconds''\<rparr>
                        else turn1);
               a2 = putTurn turn2 a1
           in a2\<lparr>a_open := a_open a2 |-| {|u_ID turn2|}\<rparr>))"

definition usageTimes :: "Event \<Rightarrow> turnState \<Rightarrow> turnState" where
  "usageTimes event turn =
     (case e_AtMS event of
        None \<Rightarrow> turn
      | Some atMS \<Rightarrow>
          (let turn1 = (case u_firstUsage turn of
                 None \<Rightarrow> turn\<lparr>u_firstUsage := Some atMS\<rparr>
               | Some f \<Rightarrow> if atMS < f then turn\<lparr>u_firstUsage := Some atMS\<rparr> else turn)
           in case u_lastUsage turn1 of
                None \<Rightarrow> turn1\<lparr>u_lastUsage := Some atMS\<rparr>
              | Some l \<Rightarrow> if atMS > l then turn1\<lparr>u_lastUsage := Some atMS\<rparr> else turn1))"

definition usageTurn :: "Event \<Rightarrow> bool \<Rightarrow> turnState \<Rightarrow> turnState" where
  "usageTurn event gap turn =
     (let turn1 = turn\<lparr>u_sawCounter := u_sawCounter turn \<or> e_OutputObserved event \<or> e_OutputDelta event \<noteq> None\<rparr>;
          turn2 = usageTimes event turn1
      in case e_OutputDelta event of
           None \<Rightarrow> turn2\<lparr>u_invalid := True\<rparr>
         | Some delta \<Rightarrow>
             if gap then turn2\<lparr>u_invalid := True\<rparr>
             else if u_terminal turn2 \<noteq> None \<or> delta < 0 \<or> delta > MaxInteger - u_output turn2
             then turn2\<lparr>u_invalid := True\<rparr>
             else
               (let turn3 = (case (e_AtMS event, u_StartedAtMS turn2) of
                      (Some atMS, Some startedAtMS) \<Rightarrow>
                        if atMS < startedAtMS then turn2\<lparr>u_invalid := True\<rparr> else turn2
                    | _ \<Rightarrow> turn2)
                in turn3\<lparr>u_seenOutput := True, u_output := u_output turn3 + delta\<rparr>))"

definition addUsage :: "Event \<Rightarrow> turnState option \<Rightarrow> Accumulator \<Rightarrow> Accumulator" where
  "addUsage event turn a =
     (let gap = a_counterGap a;
          a1 = a\<lparr>a_counterGap := e_OutputDelta event = None \<and> \<not> e_OutputObserved event\<rparr>
      in case turn of
           None \<Rightarrow>
             (case e_OutputDelta event of
                Some delta \<Rightarrow> if delta > 0 then invalidateOpen (unattribute a1) else a1
              | None \<Rightarrow> invalidateOpen (unattribute a1))
         | Some turn \<Rightarrow> putTurn (usageTurn event gap turn) a1)"

definition AddEvent :: "Accumulator \<Rightarrow> Event \<Rightarrow> Accumulator" where
  "AddEvent a event =
     (if a_limited a then a
      else
        (let (turn, a1) = eventTurn event a
         in if a_limited a1 then a1
            else case e_Kind event of
              KindInherited \<Rightarrow> a1\<lparr>a_inherited := True\<rparr>
            | KindStart \<Rightarrow> (case turn of None \<Rightarrow> unattribute a1 | Some turn \<Rightarrow> addStart event turn a1)
            | KindComplete \<Rightarrow> (case turn of None \<Rightarrow> unattribute a1 | Some turn \<Rightarrow> addTerminal event turn a1)
            | KindAbort \<Rightarrow> (case turn of None \<Rightarrow> unattribute a1 | Some turn \<Rightarrow> addTerminal event turn a1)
            | KindUsage \<Rightarrow> addUsage event turn a1
            | KindGap \<Rightarrow> invalidateOpen (unattribute (a1\<lparr>a_counterGap := True\<rparr>))
            | KindOther _ \<Rightarrow> a1))"

section \<open>Result\<close>

definition usageWithinInterval :: "turnState \<Rightarrow> int64 \<Rightarrow> int64 \<Rightarrow> bool" where
  "usageWithinInterval state start finish \<longleftrightarrow>
     (case u_firstUsage state of None \<Rightarrow> True | Some f \<Rightarrow> f \<ge> sub64 start 1000) \<and>
     (case u_lastUsage state of None \<Rightarrow> True | Some l \<Rightarrow> l \<le> add64 finish 1000)"

definition interval :: "turnState \<Rightarrow> (int64 \<times> int64 \<times> string) option" where
  "interval state =
     (case (u_terminal state, u_EndedAtMS state, u_StartedAtMS state) of
        (Some terminal, Some finish, Some start) \<Rightarrow>
          if finish < start then None
          else (case e_DurationMS terminal of
                  Some duration \<Rightarrow>
                    if duration \<le> 0 \<or> duration > finish then None
                    else
                      (let difference = sub64 (sub64 finish start) duration
                       in if difference < -1000 \<or> difference > 1000 then None
                          else Some (sub64 finish duration, finish, ''duration_ms''))
                | None \<Rightarrow>
                    if finish = start then None
                    else Some (start, finish,
                      if u_startSource state \<noteq> ''log_timestamp'' \<or> e_TimeSource terminal \<noteq> ''log_timestamp''
                      then ''source_seconds'' else ''log_timestamp''))
      | _ \<Rightarrow> None)"

definition measured :: "int64 \<Rightarrow> int64 \<Rightarrow> Stats" where
  "measured output duration =
     (if duration \<le> 0 \<or> output < 0 then unavailable ''missing_facts''
      else
        (let stats = (unavailable [])\<lparr>s_Status := ''complete'', s_IncludedTurns := 1,
               s_OutputTokens := Some output, s_ActiveMS := Some duration\<rparr>;
             value = (output * 1000000 + duration div 2) div duration
         in if \<not> in64 value \<or> value > MaxInteger
            then stats\<lparr>s_Status := ''unavailable'', s_Reason := ''numeric_overflow''\<rparr>
            else stats\<lparr>s_AverageMilliTPS := Some value\<rparr>))"

definition Measure :: "int64 \<Rightarrow> int64 \<Rightarrow> Stats" where
  "Measure output activeMS =
     (if output < 0 \<or> output > MaxInteger \<or> activeMS \<le> 0 \<or> activeMS > MaxInteger
      then unavailable ''numeric_overflow'' else measured output activeMS)"

text \<open>The loop over the turns: statistics, turns, intervals, output and overflow so far.\<close>

record resultState =
  r_stats :: Stats
  r_turns :: "Turn list"
  r_intervals :: "(int64 \<times> int64) list"
  r_output :: int64
  r_overflow :: bool

text \<open>The interval of a turn that counts.\<close>

definition eligible :: "turnState \<Rightarrow> (int64 \<times> int64 \<times> string) option" where
  "eligible state =
     (if u_terminal state = None \<and> u_started state then None
      else case interval state of
        Some (start, finish, source) \<Rightarrow>
          if u_started state \<and> u_seenOutput state \<and> \<not> u_invalid state \<and> usageWithinInterval state start finish
          then Some (start, finish, source) else None
      | None \<Rightarrow> None)"

definition turnItem :: "turnState \<Rightarrow> Turn" where
  "turnItem state =
     (let item = \<lparr>t_ID = u_ID state, t_StartedAtMS = u_StartedAtMS state, t_EndedAtMS = u_EndedAtMS state,
            t_Stats = unavailable ''missing_facts''\<rparr>
      in if u_terminal state = None \<and> u_started state
         then item\<lparr>t_Stats := (t_Stats item)\<lparr>s_Reason := ''open_turn'', s_OpenTurns := 1\<rparr>\<rparr>
         else case eligible state of
           Some (start, finish, source) \<Rightarrow>
             item\<lparr>t_Stats := (measured (u_output state) (sub64 finish start))\<lparr>s_DurationSource := source\<rparr>,
                  t_StartedAtMS := Some start, t_EndedAtMS := Some finish\<rparr>
         | None \<Rightarrow> item\<lparr>t_Stats := (t_Stats item)\<lparr>s_ExcludedTurns := 1\<rparr>\<rparr>)"

definition resultStep :: "resultState \<Rightarrow> turnState \<Rightarrow> resultState" where
  "resultStep r state =
     (let r1 = r\<lparr>r_turns := r_turns r @ [turnItem state]\<rparr>; stats = r_stats r
      in if u_terminal state = None \<and> u_started state
         then r1\<lparr>r_stats := stats\<lparr>s_OpenTurns := s_OpenTurns stats + 1\<rparr>\<rparr>
         else case eligible state of
           Some (start, finish, source) \<Rightarrow>
             r1\<lparr>r_overflow := r_overflow r \<or> s_AverageMilliTPS (t_Stats (turnItem state)) = None \<or>
                   u_output state > MaxInteger - r_output r,
                r_output := (if u_output state \<le> MaxInteger - r_output r
                             then r_output r + u_output state else r_output r),
                r_intervals := r_intervals r @ [(start, finish)],
                r_stats := stats\<lparr>s_IncludedTurns := s_IncludedTurns stats + 1,
                  s_DurationSource := (if s_DurationSource stats = [] then source
                    else if s_DurationSource stats \<noteq> source then ''mixed'' else s_DurationSource stats)\<rparr>\<rparr>
         | None \<Rightarrow> r1\<lparr>r_stats := stats\<lparr>s_ExcludedTurns := s_ExcludedTurns stats + 1\<rparr>\<rparr>)"

definition turnKey :: "Turn \<Rightarrow> int64" where
  "turnKey t = (case t_StartedAtMS t of None \<Rightarrow> -1 | Some s \<Rightarrow> s)"

definition turnLess :: "Turn \<Rightarrow> Turn \<Rightarrow> bool" where
  "turnLess i j =
     (if turnKey i \<noteq> turnKey j then turnKey i > turnKey j else t_ID i > t_ID j)"

definition spanLess :: "int64 \<times> int64 \<Rightarrow> int64 \<times> int64 \<Rightarrow> bool" where
  "spanLess i j = (fst i < fst j)"

definition addSpan :: "int64 \<Rightarrow> int64 \<Rightarrow> int64 \<times> bool \<Rightarrow> int64 \<times> bool" where
  "addSpan start finish x =
     (let (sum, overflow) = x
      in if sub64 finish start > MaxInteger - sum then (sum, True) else (sum + sub64 finish start, overflow))"

fun mergeSpans :: "int64 \<Rightarrow> int64 \<Rightarrow> int64 \<times> bool \<Rightarrow> (int64 \<times> int64) list \<Rightarrow> int64 \<times> bool" where
  "mergeSpans start finish x [] = addSpan start finish x"
| "mergeSpans start finish x ((a, b) # spans) =
     (if a \<le> finish then mergeSpans start (if b > finish then b else finish) x spans
      else mergeSpans a b (addSpan start finish x) spans)"

definition resultStart :: "Accumulator \<Rightarrow> resultState" where
  "resultStart a =
     \<lparr>r_stats = (unavailable ''no_closed_turns'')\<lparr>s_UnattributedEvents := a_unattributed a\<rparr>, r_turns = [],
      r_intervals = [], r_output = 0, r_overflow = False\<rparr>"

definition Result :: "Accumulator \<Rightarrow> string list \<Rightarrow> Stats \<times> Turn list" where
  "Result a order =
     (if a_inherited a then (unavailable ''inherited_history'', [])
      else if a_limited a then (unavailable ''state_limit'', [])
      else
        (let r = foldl resultStep (resultStart a) (List.map_filter (fmlookup (a_turns a)) order);
             turns = sort_by turnLess (r_turns r); stats = r_stats r
         in if s_IncludedTurns stats = 0
            then (if s_ExcludedTurns stats > 0 then stats\<lparr>s_Reason := ''missing_facts''\<rparr> else stats, turns)
            else
              (let intervals = sort_by spanLess (r_intervals r);
                   (active, overflow) =
                     mergeSpans (fst (hd intervals)) (snd (hd intervals)) (0, r_overflow r) (tl intervals);
                   value = measured (r_output r) active;
                   stats1 = stats\<lparr>s_AverageMilliTPS := s_AverageMilliTPS value,
                     s_OutputTokens := s_OutputTokens value, s_ActiveMS := s_ActiveMS value,
                     s_Status := ''complete'', s_Reason := []\<rparr>;
                   stats2 = (if s_OpenTurns stats1 + s_ExcludedTurns stats1 + s_UnattributedEvents stats1 > 0
                             then stats1\<lparr>s_Status := ''partial'', s_Reason := ''incomplete_coverage''\<rparr> else stats1)
               in (if overflow \<or> s_AverageMilliTPS stats2 = None
                   then stats2\<lparr>s_Status := ''unavailable'', s_Reason := ''numeric_overflow'',
                          s_AverageMilliTPS := None, s_OutputTokens := None, s_ActiveMS := None\<rparr>
                   else stats2, turns))))"

section \<open>Lemmas: the union of the intervals\<close>

definition spanSet :: "(int64 \<times> int64) list \<Rightarrow> int64 set" where
  "spanSet spans = (\<Union>(a, b) \<in> set spans. {a..<b})"

definition spanOK :: "int64 \<times> int64 \<Rightarrow> bool" where
  "spanOK x \<longleftrightarrow> 0 \<le> fst x \<and> fst x < snd x \<and> in64 (snd x)"

lemma spanSet_simps [simp]: "spanSet [] = {}" "spanSet ((a, b) # xs) = {a..<b} \<union> spanSet xs"
  by (auto simp: spanSet_def)

lemma finite_spanSet [simp]: "finite (spanSet xs)"
  by (auto simp: spanSet_def)

lemma addSpan_eq:
  assumes "spanOK (start, finish)"
  shows "addSpan start finish (s, ov) =
    (if s + (finish - start) > MaxInteger then (s, True) else (s + (finish - start), ov))"
proof -
  have "sub64 finish start = finish - start"
    using assms by (intro sub64_nonneg) (auto simp: spanOK_def)
  then show ?thesis by (auto simp: addSpan_def)
qed

lemma mergeSpans_union:
  assumes "spanOK (start, finish)" and "list_all spanOK spans" and "s \<le> MaxInteger"
    and "sorted_wrt (\<lambda>x y. fst x \<le> fst y) ((start, finish) # spans)"
  shows "\<exists>s'. mergeSpans start finish (s, ov) spans =
      (s', ov \<or> s + int (card ({start..<finish} \<union> spanSet spans)) > MaxInteger) \<and>
    (\<not> (ov \<or> s + int (card ({start..<finish} \<union> spanSet spans)) > MaxInteger) \<longrightarrow>
       s' = s + int (card ({start..<finish} \<union> spanSet spans)))"
  using assms
proof (induction spans arbitrary: start finish s ov)
  case Nil
  then show ?case by (auto simp: addSpan_eq) (auto simp: spanOK_def)
next
  case (Cons x spans)
  obtain a b where x: "x = (a, b)" by (cases x)
  show ?case
  proof (cases "a \<le> finish")
    case True
    let ?f = "if b > finish then b else finish"
    have u: "{start..<finish} \<union> spanSet (x # spans) = {start..<?f} \<union> spanSet spans"
      using True Cons.prems(4) x by auto
    have "spanOK (start, ?f)" using Cons.prems(1,2) x by (auto simp: spanOK_def)
    from Cons.IH[OF this _ Cons.prems(3), of ov] Cons.prems(2,4) show ?thesis
      unfolding u using True x by simp
  next
    case False
    have dis: "{start..<finish} \<inter> ({a..<b} \<union> spanSet spans) = {}"
      using False Cons.prems(4) x by (fastforce simp: spanSet_def)
    have fs: "int (card {start..<finish}) = finish - start" using Cons.prems(1) by (simp add: spanOK_def)
    have c: "int (card ({start..<finish} \<union> spanSet (x # spans))) =
        finish - start + int (card ({a..<b} \<union> spanSet spans))"
      using card_Un_disjoint[OF _ _ dis] fs x by simp
    have ok: "spanOK (a, b)" "list_all spanOK spans" "sorted_wrt (\<lambda>x y. fst x \<le> fst y) ((a, b) # spans)"
      using Cons.prems(2,4) x by auto
    show ?thesis
    proof (cases "s + (finish - start) > MaxInteger")
      case True
      from Cons.IH[OF ok(1,2) Cons.prems(3) ok(3), of True] True False x show ?thesis
        unfolding c by (auto simp: addSpan_eq[OF Cons.prems(1)])
    next
      case small: False
      then have "s + (finish - start) \<le> MaxInteger" by simp
      from Cons.IH[OF ok(1,2) this ok(3), of ov] small False x show ?thesis
        unfolding c by (simp add: addSpan_eq[OF Cons.prems(1)] add.assoc)
    qed
  qed
qed

interpretation span_order: go_less spanLess
  by (rule go_lessI_key[where key = fst]) (simp add: spanLess_def)


interpretation turn_order: go_less turnLess
  by unfold_locales (auto simp: turnLess_def split: if_splits)

lemma mergeSpans_sorted:
  assumes "spans \<noteq> []" and "list_all spanOK spans"
  defines "ys \<equiv> sort_by spanLess spans"
  shows "\<exists>s'. mergeSpans (fst (hd ys)) (snd (hd ys)) (0, ov) (tl ys) =
      (s', ov \<or> int (card (spanSet spans)) > MaxInteger) \<and>
    (\<not> (ov \<or> int (card (spanSet spans)) > MaxInteger) \<longrightarrow> s' = int (card (spanSet spans)))"
proof -
  have "ys \<noteq> []" using assms(1) by (simp add: ys_def)
  then obtain a b zs where ys: "ys = (a, b) # zs" by (metis list.exhaust surj_pair)
  have set: "set ((a, b) # zs) = set spans" unfolding ys[symmetric] ys_def by simp
  then have ok: "spanOK (a, b)" "list_all spanOK zs" using assms(2) by (auto simp: list_all_iff)
  have U: "{a..<b} \<union> spanSet zs = spanSet spans" unfolding spanSet_def set[symmetric] by auto
  have "sorted_wrt (\<lambda>x y. fst x \<le> fst y) ys"
    using span_order.sorted_sort_by[of spans] unfolding ys_def spanLess_def by (simp add: not_less)
  with mergeSpans_union[OF ok, of 0 ov] show ?thesis
    unfolding U ys by (simp add: MaxInteger_def)
qed

section \<open>Lemmas: the accumulator's invariant\<close>

definition timeOK :: "int64 option \<Rightarrow> bool" where
  "timeOK t \<longleftrightarrow> pred_option (\<lambda>x. 0 \<le> x \<and> in64 x) t"

definition eventOK :: "Event \<Rightarrow> bool" where
  "eventOK e \<longleftrightarrow> timeOK (e_AtMS e) \<and> timeOK (e_StartedAtMS e)"

definition stateOK :: "turnState \<Rightarrow> bool" where
  "stateOK s \<longleftrightarrow> 0 \<le> u_output s \<and> u_output s \<le> MaxInteger \<and> timeOK (u_StartedAtMS s) \<and> timeOK (u_EndedAtMS s)"

definition accOK :: "Accumulator \<Rightarrow> bool" where
  "accOK a \<longleftrightarrow> (\<forall>i s. fmlookup (a_turns a) i = Some s \<longrightarrow> u_ID s = i \<and> stateOK s)"

lemma accOK_put: "accOK a \<Longrightarrow> stateOK s \<Longrightarrow> accOK (putTurn s a)"
  by (auto simp: accOK_def putTurn_def)

lemma accOK_simps [simp]:
  "accOK (a\<lparr>a_open := x\<rparr>) = accOK a" "accOK (a\<lparr>a_counterGap := g\<rparr>) = accOK a"
  "accOK (a\<lparr>a_limited := g\<rparr>) = accOK a" "accOK (a\<lparr>a_inherited := g\<rparr>) = accOK a"
  "accOK (unattribute a) = accOK a"
  by (simp_all add: accOK_def unattribute_def)

lemma accOK_invalidate: "accOK a \<Longrightarrow> accOK (invalidateOpen a)"
  by (auto simp: accOK_def invalidateOpen_def stateOK_def)

lemma stateOK_simps [simp]:
  "stateOK (s\<lparr>u_invalid := b\<rparr>) = stateOK s" "stateOK (s\<lparr>u_started := b\<rparr>) = stateOK s"
  "stateOK (s\<lparr>u_sawCounter := b\<rparr>) = stateOK s" "stateOK (s\<lparr>u_terminal := t\<rparr>) = stateOK s"
  "stateOK (s\<lparr>u_firstUsage := x\<rparr>) = stateOK s" "stateOK (s\<lparr>u_lastUsage := x\<rparr>) = stateOK s"
  "stateOK (s\<lparr>u_startSource := w\<rparr>) = stateOK s"
  by (simp_all add: stateOK_def)

lemma eventTurn_ok:
  assumes "accOK a" and "eventTurn e a = (t, a')"
  shows "accOK a'" "t = Some s \<Longrightarrow> stateOK s"
proof -
  have n: "stateOK (newTurnState i)" for i by (simp add: stateOK_def newTurnState_def timeOK_def MaxInteger_def)
  have "accOK (a\<lparr>a_turns := fmupd i (newTurnState i) (a_turns a)\<rparr>)" for i
    using accOK_put[OF assms(1) n[of i]] by (simp add: putTurn_def newTurnState_def)
  moreover have "stateOK s" if "fmlookup (a_turns a) i = Some s" for i s
    using assms(1) that unfolding accOK_def by blast
  ultimately show "accOK a'" "t = Some s \<Longrightarrow> stateOK s"
    using assms n unfolding eventTurn_def by (auto split: option.splits if_splits list.splits)
qed

lemma usageTurn_ok: "stateOK s \<Longrightarrow> stateOK (usageTurn e gap s)"
proof -
  have "u_output (usageTimes e s) = u_output s" "u_StartedAtMS (usageTimes e s) = u_StartedAtMS s"
    "u_EndedAtMS (usageTimes e s) = u_EndedAtMS s" for s
    by (auto simp: usageTimes_def Let_def split: option.split)
  then show "stateOK s \<Longrightarrow> stateOK (usageTurn e gap s)"
    by (auto simp: usageTurn_def Let_def stateOK_def split: option.split)
qed

lemma addStart_ok: "accOK a \<Longrightarrow> eventOK e \<Longrightarrow> stateOK s \<Longrightarrow> accOK (addStart e s a)"
  by (auto simp: addStart_def Let_def eventOK_def stateOK_def intro!: accOK_put)

lemma addTerminal_ok: "accOK a \<Longrightarrow> eventOK e \<Longrightarrow> stateOK s \<Longrightarrow> accOK (addTerminal e s a)"
  by (auto simp: addTerminal_def Let_def eventOK_def stateOK_def intro!: accOK_put split: option.split)

interpretation throughput_run: event_machine AddEvent eventOK accOK
proof
  fix a e assume ok: "accOK a" "eventOK e"
  obtain t a1 where t: "eventTurn e a = (t, a1)" by (rule prod.exhaust)
  note a1 = eventTurn_ok[OF ok(1) t]
  have "accOK (addUsage e t a1)"
    using a1 by (auto simp: addUsage_def Let_def intro!: accOK_put usageTurn_ok accOK_invalidate split: option.split)
  with t a1 ok show "accOK (AddEvent a e)"
    by (auto simp: AddEvent_def intro!: addStart_ok addTerminal_ok accOK_invalidate split: EventKind.split option.split)
qed

lemma accOK_new: "accOK NewAccumulator"
  by (simp add: accOK_def NewAccumulator_def)

lemma eligible_ok:
  assumes "stateOK s" and "eligible s = Some (a, b, src)"
  shows "spanOK (a, b)" "src \<in> {''duration_ms'', ''source_seconds'', ''log_timestamp''}"
    "\<not> (u_terminal s = None \<and> u_started s)"
proof -
  from assms(2) have i: "interval s = Some (a, b, src)" and "\<not> (u_terminal s = None \<and> u_started s)"
    by (auto simp: eligible_def split: if_splits option.splits)
  then show "\<not> (u_terminal s = None \<and> u_started s)" by blast
  show "src \<in> {''duration_ms'', ''source_seconds'', ''log_timestamp''}"
    using i by (auto simp: interval_def Let_def split: option.splits if_splits)
  from i assms(1) show "spanOK (a, b)"
    by (auto simp: interval_def Let_def stateOK_def timeOK_def spanOK_def sub64_nonneg split: option.splits if_splits)
qed

section \<open>Lemmas: the summary over all turns\<close>

text \<open>
  The specification: what the statistics are in terms of the set of turn states alone. Time is
  counted once where intervals overlap.
\<close>

definition isOpenTurn :: "turnState \<Rightarrow> bool" where
  "isOpenTurn s \<longleftrightarrow> u_terminal s = None \<and> u_started s"

definition included :: "turnState multiset \<Rightarrow> turnState multiset" where
  "included M = {# s \<in># M. eligible s \<noteq> None #}"

definition spanOf :: "turnState \<Rightarrow> (int64 \<times> int64) option" where
  "spanOf s = map_option (\<lambda>(a, b, _). (a, b)) (eligible s)"

definition sourceOf :: "turnState \<Rightarrow> string option" where
  "sourceOf s = map_option (\<lambda>(_, _, c). c) (eligible s)"

definition activeSet :: "turnState multiset \<Rightarrow> int64 set" where
  "activeSet M = {t. \<exists>s \<in># M. \<exists>a b. spanOf s = Some (a, b) \<and> a \<le> t \<and> t < b}"

definition totalOutput :: "turnState multiset \<Rightarrow> int64" where
  "totalOutput M = (\<Sum>s \<in># included M. u_output s)"

definition sourceName :: "turnState multiset \<Rightarrow> string" where
  "sourceName M =
     (if included M = {#} then []
      else if \<exists>c. \<forall>s \<in># included M. sourceOf s = Some c
      then the (sourceOf (SOME s. s \<in># included M)) else ''mixed'')"

definition rate :: "int64 \<Rightarrow> int64 \<Rightarrow> int64" where
  "rate output active = (output * 1000000 + active div 2) div active"

definition tooLarge1 :: "turnState \<Rightarrow> bool" where
  "tooLarge1 s \<longleftrightarrow> (case spanOf s of None \<Rightarrow> False | Some (a, b) \<Rightarrow> rate (u_output s) (b - a) > MaxInteger)"

definition tooLarge :: "turnState multiset \<Rightarrow> bool" where
  "tooLarge M \<longleftrightarrow>
     (\<exists>s \<in># M. tooLarge1 s) \<or>
     totalOutput M > MaxInteger \<or> int (card (activeSet M)) > MaxInteger \<or>
     rate (totalOutput M) (int (card (activeSet M))) > MaxInteger"

definition summary :: "int64 \<Rightarrow> turnState multiset \<Rightarrow> Stats" where
  "summary u M =
     (let inc = int (size (included M)); opn = int (size {# s \<in># M. isOpenTurn s #});
          exc = int (size {# s \<in># M. eligible s = None \<and> \<not> isOpenTurn s #});
          counts = (unavailable ''no_closed_turns'')\<lparr>s_IncludedTurns := inc, s_OpenTurns := opn,
            s_ExcludedTurns := exc, s_UnattributedEvents := u, s_DurationSource := sourceName M\<rparr>
      in if inc = 0 then (if exc > 0 then counts\<lparr>s_Reason := ''missing_facts''\<rparr> else counts)
         else if tooLarge M then counts\<lparr>s_Reason := ''numeric_overflow''\<rparr>
         else
           (let active = int (card (activeSet M))
            in counts\<lparr>s_AverageMilliTPS := Some (rate (totalOutput M) active),
                 s_OutputTokens := Some (totalOutput M), s_ActiveMS := Some active,
                 s_Status := (if opn + exc + u > 0 then ''partial'' else ''complete''),
                 s_Reason := (if opn + exc + u > 0 then ''incomplete_coverage'' else [])\<rparr>))"

definition mergeSource :: "string \<Rightarrow> string \<Rightarrow> string" where
  "mergeSource d c = (if d = [] then c else if d \<noteq> c then ''mixed'' else d)"

lemma resultStep_counts:
  assumes "stateOK s"
  shows "r_turns (resultStep r s) = r_turns r @ [turnItem s]"
    "r_intervals (resultStep r s) = r_intervals r @ (case spanOf s of None \<Rightarrow> [] | Some x \<Rightarrow> [x])"
    "r_stats (resultStep r s) = (r_stats r)\<lparr>
       s_IncludedTurns := s_IncludedTurns (r_stats r) + (if eligible s \<noteq> None then 1 else 0),
       s_OpenTurns := s_OpenTurns (r_stats r) + (if isOpenTurn s then 1 else 0),
       s_ExcludedTurns := s_ExcludedTurns (r_stats r) + (if eligible s = None \<and> \<not> isOpenTurn s then 1 else 0),
       s_DurationSource := (case sourceOf s of None \<Rightarrow> s_DurationSource (r_stats r)
                            | Some c \<Rightarrow> mergeSource (s_DurationSource (r_stats r)) c)\<rparr>"
proof -
  have e: "eligible s \<noteq> None \<Longrightarrow> \<not> isOpenTurn s" by (auto simp: eligible_def isOpenTurn_def)
  show "r_turns (resultStep r s) = r_turns r @ [turnItem s]"
    by (auto simp: resultStep_def Let_def split: option.split)
  show "r_intervals (resultStep r s) = r_intervals r @ (case spanOf s of None \<Rightarrow> [] | Some x \<Rightarrow> [x])"
    using e by (auto simp: resultStep_def Let_def spanOf_def isOpenTurn_def split: option.split)
  show "r_stats (resultStep r s) = (r_stats r)\<lparr>
       s_IncludedTurns := s_IncludedTurns (r_stats r) + (if eligible s \<noteq> None then 1 else 0),
       s_OpenTurns := s_OpenTurns (r_stats r) + (if isOpenTurn s then 1 else 0),
       s_ExcludedTurns := s_ExcludedTurns (r_stats r) + (if eligible s = None \<and> \<not> isOpenTurn s then 1 else 0),
       s_DurationSource := (case sourceOf s of None \<Rightarrow> s_DurationSource (r_stats r)
                            | Some c \<Rightarrow> mergeSource (s_DurationSource (r_stats r)) c)\<rparr>"
    using e by (auto simp: resultStep_def Let_def sourceOf_def isOpenTurn_def mergeSource_def
        intro!: Stats.equality split: option.split)
qed

lemma resultFold_lists:
  assumes "list_all stateOK ss"
  shows "r_turns (foldl resultStep r ss) = r_turns r @ map turnItem ss"
    "r_intervals (foldl resultStep r ss) = r_intervals r @ List.map_filter spanOf ss"
    "r_stats (foldl resultStep r ss) = (r_stats r)\<lparr>
       s_IncludedTurns := s_IncludedTurns (r_stats r) + int (size (included (mset ss))),
       s_OpenTurns := s_OpenTurns (r_stats r) + int (size {# s \<in># mset ss. isOpenTurn s #}),
       s_ExcludedTurns := s_ExcludedTurns (r_stats r) + int (size {# s \<in># mset ss. eligible s = None \<and> \<not> isOpenTurn s #}),
       s_DurationSource := foldl mergeSource (s_DurationSource (r_stats r)) (List.map_filter sourceOf ss)\<rparr>"
  using assms
proof (induction ss arbitrary: r)
  case Nil
  {
    case 1 show ?case by simp
  next
    case 2 show ?case by (simp add: map_filter_simps)
  next
    case 3 show ?case by (simp add: map_filter_simps included_def)
  }
next
  case (Cons s ss)
  {
    case 1 then show ?case using Cons.IH(1)[of "resultStep r s"] by (simp add: resultStep_counts)
  next
    case 2 then show ?case using Cons.IH(2)[of "resultStep r s"]
      by (simp add: resultStep_counts map_filter_simps split: option.split)
  next
    case 3 then show ?case using Cons.IH(3)[of "resultStep r s"]
      by (simp add: resultStep_counts map_filter_simps included_def split: option.split)
  }
qed

lemma eligible_measured:
  assumes "stateOK s" and "eligible s = Some (a, b, c)"
  shows "s_AverageMilliTPS (t_Stats (turnItem s)) =
      (if rate (u_output s) (b - a) > MaxInteger then None else Some (rate (u_output s) (b - a)))"
    "u_output s \<ge> 0" "a < b"
proof -
  note e = eligible_ok[OF assms]
  have d: "sub64 b a = b - a" using e(1) by (intro sub64_nonneg) (auto simp: spanOK_def)
  show "a < b" "u_output s \<ge> 0" using e(1) assms(1) by (auto simp: spanOK_def stateOK_def)
  then have "0 \<le> rate (u_output s) (b - a)" by (simp add: rate_def pos_imp_zdiv_nonneg_iff)
  with \<open>a < b\<close> \<open>u_output s \<ge> 0\<close> assms(2) e(3) d show "s_AverageMilliTPS (t_Stats (turnItem s)) =
      (if rate (u_output s) (b - a) > MaxInteger then None else Some (rate (u_output s) (b - a)))"
    by (auto simp: turnItem_def Let_def measured_def rate_def unavailable_def in64_def MaxInteger_def)
qed

lemma resultStep_output:
  assumes "stateOK s" and "0 \<le> r_output r" and "r_output r \<le> MaxInteger"
  shows "r_output (resultStep r s) \<le> MaxInteger" "0 \<le> r_output (resultStep r s)"
    "r_overflow (resultStep r s) \<longleftrightarrow> r_overflow r \<or> tooLarge1 s \<or>
       (eligible s \<noteq> None \<and> r_output r + u_output s > MaxInteger)"
    "\<not> r_overflow (resultStep r s) \<Longrightarrow>
       r_output (resultStep r s) = r_output r + (if eligible s \<noteq> None then u_output s else 0)"
proof -
  have e: "eligible s \<noteq> None \<Longrightarrow> \<not> (u_terminal s = None \<and> u_started s)" by (auto simp: eligible_def)
  have p: "0 \<le> u_output s" using assms(1) by (simp add: stateOK_def)
  show "r_output (resultStep r s) \<le> MaxInteger" "0 \<le> r_output (resultStep r s)"
    using assms(2,3) p by (auto simp: resultStep_def Let_def split: option.split)
  show "r_overflow (resultStep r s) \<longleftrightarrow> r_overflow r \<or> tooLarge1 s \<or>
       (eligible s \<noteq> None \<and> r_output r + u_output s > MaxInteger)"
    using e eligible_measured(1)[OF assms(1)]
    by (cases "eligible s") (auto simp: resultStep_def Let_def tooLarge1_def spanOf_def)
  show "\<not> r_overflow (resultStep r s) \<Longrightarrow>
       r_output (resultStep r s) = r_output r + (if eligible s \<noteq> None then u_output s else 0)"
    using e by (cases "eligible s") (auto simp: resultStep_def Let_def split: if_splits)
qed

lemma resultFold_output:
  assumes "list_all stateOK ss" and "0 \<le> r_output r" and "r_output r \<le> MaxInteger"
  shows "r_overflow (foldl resultStep r ss) \<longleftrightarrow>
      r_overflow r \<or> (\<exists>s \<in># mset ss. tooLarge1 s) \<or> r_output r + totalOutput (mset ss) > MaxInteger"
    (is "?A r ss")
    and "\<not> r_overflow (foldl resultStep r ss) \<Longrightarrow>
      r_output (foldl resultStep r ss) = r_output r + totalOutput (mset ss)" (is "_ \<Longrightarrow> ?B r ss")
    and "0 \<le> totalOutput (mset ss)"
proof -
  have *: "?A r ss \<and> (\<not> r_overflow (foldl resultStep r ss) \<longrightarrow> ?B r ss) \<and> 0 \<le> totalOutput (mset ss)"
    using assms
  proof (induction ss arbitrary: r)
    case Nil
    then show ?case by (auto simp: totalOutput_def included_def)
  next
    case (Cons s ss)
    then have s: "stateOK s" and ss: "list_all stateOK ss" by auto
    note st = resultStep_output[OF s Cons.prems(2,3)]
    have t: "totalOutput (mset (s # ss)) = (if eligible s \<noteq> None then u_output s else 0) + totalOutput (mset ss)"
      by (simp add: totalOutput_def included_def)
    have p: "0 \<le> u_output s" using s by (simp add: stateOK_def)
    from Cons.IH[OF ss st(2,1)] show ?case
      unfolding t using st(3,4) p by (cases "r_overflow (resultStep r s)") (auto split: if_splits)
  qed
  then show "?A r ss" "\<not> r_overflow (foldl resultStep r ss) \<Longrightarrow> ?B r ss" "0 \<le> totalOutput (mset ss)" by auto
qed

lemma foldl_mergeSource:
  assumes "d \<noteq> []" and "''mixed'' \<notin> set xs" and "[] \<notin> set xs"
  shows "foldl mergeSource d xs = (if \<forall>x \<in> set xs. x = d then d else ''mixed'')"
  using assms
proof (induction xs arbitrary: d)
  case (Cons x xs)
  show ?case
  proof (cases "d = x")
    case False
    then have m: "mergeSource d x = ''mixed''" using Cons.prems by (simp add: mergeSource_def)
    have "foldl mergeSource ''mixed'' xs = ''mixed''" using Cons.IH[of "''mixed''"] Cons.prems by auto
    with m False show ?thesis by auto
  qed (use Cons in \<open>simp add: mergeSource_def\<close>)
qed simp

lemma sourceName_fold:
  assumes "list_all stateOK ss"
  shows "foldl mergeSource [] (List.map_filter sourceOf ss) = sourceName (mset ss)"
proof -
  let ?xs = "List.map_filter sourceOf ss"
  have src: "c \<noteq> [] \<and> c \<noteq> ''mixed''" if "s \<in> set ss" "sourceOf s = Some c" for s c
    using that assms eligible_ok(2)[of s] by (auto simp: list_all_iff sourceOf_def)
  have inc: "s \<in># included (mset ss) \<longleftrightarrow> s \<in> set ss \<and> sourceOf s \<noteq> None" for s
    by (auto simp: included_def sourceOf_def)
  then have incS: "set_mset (included (mset ss)) = {s \<in> set ss. sourceOf s \<noteq> None}" by blast
  have set: "set ?xs = {c. \<exists>s \<in> set ss. sourceOf s = Some c}"
    by (auto simp: set_map_filter_iff)
  show ?thesis
  proof (cases ?xs)
    case Nil
    then have "included (mset ss) = {#}" using set inc by (metis (mono_tags, lifting) all_not_in_conv empty_iff mem_Collect_eq multiset_nonemptyE not_None_eq set_empty)
    with Nil show ?thesis by (simp add: sourceName_def)
  next
    case (Cons c cs)
    then have c: "c \<in> set ?xs" by simp
    then obtain s0 where s0: "s0 \<in> set ss" "sourceOf s0 = Some c" using set by auto
    then have ne: "included (mset ss) \<noteq> {#}" using inc by force
    have some: "(SOME s. s \<in># included (mset ss)) \<in># included (mset ss)"
      by (rule someI_ex) (use ne in \<open>auto simp: multiset_nonemptyE\<close>)
    have no: "''mixed'' \<notin> set ?xs" "[] \<notin> set ?xs" using src set by auto
    have "foldl mergeSource [] ?xs = foldl mergeSource c cs" unfolding Cons by (simp add: mergeSource_def)
    also have "\<dots> = (if \<forall>x \<in> set cs. x = c then c else ''mixed'')"
      using foldl_mergeSource[of c cs] no unfolding Cons by auto
    finally have f: "foldl mergeSource [] ?xs = (if \<forall>x \<in> set ?xs. x = c then c else ''mixed'')" unfolding Cons by auto
    have eq: "(\<forall>x \<in> set ?xs. x = c) \<longleftrightarrow> (\<exists>c. \<forall>s \<in># included (mset ss). sourceOf s = Some c)"
    proof
      assume "\<forall>x \<in> set ?xs. x = c"
      then have "\<forall>s \<in># included (mset ss). sourceOf s = Some c" unfolding set incS by auto
      then show "\<exists>c. \<forall>s \<in># included (mset ss). sourceOf s = Some c" by blast
    next
      assume "\<exists>c. \<forall>s \<in># included (mset ss). sourceOf s = Some c"
      then obtain c' where c': "s \<in> set ss \<Longrightarrow> sourceOf s \<noteq> None \<Longrightarrow> sourceOf s = Some c'" for s
        unfolding incS by blast
      from c'[OF s0(1)] s0(2) have "c' = c" by simp
      then show "\<forall>x \<in> set ?xs. x = c" unfolding set using c' by fastforce
    qed
    show ?thesis
    proof (cases "\<forall>x \<in> set ?xs. x = c")
      case True
      with some have "sourceOf (SOME s. s \<in># included (mset ss)) = Some c" unfolding set incS by auto
      with True f eq ne show ?thesis by (simp add: sourceName_def)
    next
      case False
      with f eq ne show ?thesis unfolding sourceName_def by argo
    qed
  qed
qed

lemma spanSet_active: "spanSet (List.map_filter spanOf ss) = activeSet (mset ss)"
proof -
  have "x \<in> spanSet xs \<longleftrightarrow> (\<exists>a b. (a, b) \<in> set xs \<and> a \<le> x \<and> x < b)" for x xs
    by (force simp: spanSet_def)
  then have "x \<in> spanSet (List.map_filter spanOf ss) \<longleftrightarrow>
      (\<exists>a b. (\<exists>s \<in> set ss. spanOf s = Some (a, b)) \<and> a \<le> x \<and> x < b)" for x
    by (simp add: set_map_filter_iff)
  then show ?thesis unfolding activeSet_def set_eq_iff mem_Collect_eq set_mset_mset by blast
qed

lemma spans_ok: "list_all stateOK ss \<Longrightarrow> list_all spanOK (List.map_filter spanOf ss)"
  using eligible_ok(1) by (fastforce simp: list_all_iff set_map_filter_iff spanOf_def)

lemma measured_rate:
  assumes "0 \<le> out" and "0 < act"
  shows "measured out act =
    (if rate out act > MaxInteger
     then (unavailable ''numeric_overflow'')\<lparr>s_IncludedTurns := 1, s_OutputTokens := Some out, s_ActiveMS := Some act\<rparr>
     else (unavailable [])\<lparr>s_Status := ''complete'', s_IncludedTurns := 1, s_OutputTokens := Some out,
            s_ActiveMS := Some act, s_AverageMilliTPS := Some (rate out act)\<rparr>)"
proof -
  have "0 \<le> rate out act" using assms by (simp add: rate_def pos_imp_zdiv_nonneg_iff)
  with assms show ?thesis
    by (auto simp: measured_def Let_def rate_def[symmetric] in64_def MaxInteger_def unavailable_def)
qed

lemma Result_summary:
  assumes "list_all stateOK ss" and "ss = List.map_filter (fmlookup (a_turns a)) order"
    and "\<not> a_inherited a" and "\<not> a_limited a"
  shows "Result a order = (summary (a_unattributed a) (mset ss), sort_by turnLess (map turnItem ss))"
proof -
  let ?M = "mset ss" and ?r = "foldl resultStep (resultStart a) ss"
  let ?n = "int (size (included ?M))"
  note L = resultFold_lists[OF assms(1), of "resultStart a"]
  note O = resultFold_output[OF assms(1), of "resultStart a"]
  have r0: "r_output (resultStart a) = 0" "r_intervals (resultStart a) = []" "r_turns (resultStart a) = []"
    "\<not> r_overflow (resultStart a)" by (simp_all add: resultStart_def)
  have M0: "(0 :: int) \<le> MaxInteger" by (simp add: MaxInteger_def)
  define opn exc where "opn = int (size {# s \<in># ?M. isOpenTurn s #})"
    and "exc = int (size {# s \<in># ?M. eligible s = None \<and> \<not> isOpenTurn s #})"
  note S = summary_def[of "a_unattributed a" ?M, folded opn_def exc_def]
  define counts where "counts = r_stats ?r"
  have counts: "counts = (unavailable ''no_closed_turns'')\<lparr>s_IncludedTurns := ?n,
      s_OpenTurns := opn, s_ExcludedTurns := exc, s_UnattributedEvents := a_unattributed a, s_DurationSource := sourceName ?M\<rparr>"
    using L(3) sourceName_fold[OF assms(1)] by (simp add: counts_def resultStart_def unavailable_def opn_def exc_def)
  have R: "Result a order =
    (if s_IncludedTurns counts = 0
     then (if s_ExcludedTurns counts > 0 then counts\<lparr>s_Reason := ''missing_facts''\<rparr> else counts, sort_by turnLess (map turnItem ss))
     else
       (let intervals = sort_by spanLess (List.map_filter spanOf ss);
            (active, overflow) = mergeSpans (fst (hd intervals)) (snd (hd intervals)) (0, r_overflow ?r) (tl intervals);
            value = measured (r_output ?r) active;
            stats1 = counts\<lparr>s_AverageMilliTPS := s_AverageMilliTPS value, s_OutputTokens := s_OutputTokens value,
              s_ActiveMS := s_ActiveMS value, s_Status := ''complete'', s_Reason := []\<rparr>;
            stats2 = (if s_OpenTurns stats1 + s_ExcludedTurns stats1 + s_UnattributedEvents stats1 > 0
                      then stats1\<lparr>s_Status := ''partial'', s_Reason := ''incomplete_coverage''\<rparr> else stats1)
        in (if overflow \<or> s_AverageMilliTPS stats2 = None
            then stats2\<lparr>s_Status := ''unavailable'', s_Reason := ''numeric_overflow'',
                   s_AverageMilliTPS := None, s_OutputTokens := None, s_ActiveMS := None\<rparr>
            else stats2, sort_by turnLess (map turnItem ss))))"
    using assms(3,4) L(1,2) r0 unfolding Result_def assms(2)[symmetric] counts_def by (simp add: Let_def)
  show ?thesis
  proof (cases "included ?M = {#}")
    case True
    then show ?thesis unfolding R S by (simp add: Let_def counts)
  next
    case False
    then obtain s where s: "s \<in> set ss" "eligible s \<noteq> None" by (metis (mono_tags, lifting) filter_mset_eq_conv included_def mem_Collect_eq multiset_nonemptyE set_mset_filter set_mset_mset)
    then have ne: "List.map_filter spanOf ss \<noteq> []"
      by (metis (mono_tags, lifting) empty_iff empty_set not_None_eq option.map_disc_iff set_map_filter_iff spanOf_def)
    note sp = mergeSpans_sorted[OF ne spans_ok[OF assms(1)], of "r_overflow ?r", unfolded spanSet_active]
    let ?act = "int (card (activeSet ?M))" and ?ys = "sort_by spanLess (List.map_filter spanOf ss)"
    from s obtain x y c where e: "eligible s = Some (x, y, c)" by auto
    then have "spanOK (x, y)" using eligible_ok(1) assms(1) s(1) by (auto simp: list_all_iff)
    then have "x \<in> activeSet ?M" using s(1) e by (auto simp: activeSet_def spanOf_def spanOK_def)
    then have act: "0 < ?act" using finite_spanSet[of "List.map_filter spanOf ss"] unfolding spanSet_active
      by (simp add: card_gt_0_iff) blast
    obtain m where m: "mergeSpans (fst (hd ?ys)) (snd (hd ?ys)) (0, r_overflow ?r) (tl ?ys) =
        (m, r_overflow ?r \<or> ?act > MaxInteger)" "\<not> (r_overflow ?r \<or> ?act > MaxInteger) \<Longrightarrow> m = ?act"
      using sp by blast
    have ov: "r_overflow ?r \<longleftrightarrow> (\<exists>s \<in># ?M. tooLarge1 s) \<or> totalOutput ?M > MaxInteger"
      and out: "\<not> r_overflow ?r \<Longrightarrow> r_output ?r = totalOutput ?M" "0 \<le> totalOutput ?M"
      using O r0 M0 by auto
    have n: "?n \<noteq> 0" using False by simp
    show ?thesis
    proof (cases "r_overflow ?r \<or> ?act > MaxInteger")
      case True
      then have "tooLarge ?M" using ov by (auto simp: tooLarge_def)
      with True n show ?thesis unfolding R S Let_def m(1) by (simp add: counts unavailable_def)
    next
      case small: False
      then have t: "tooLarge ?M \<longleftrightarrow> rate (totalOutput ?M) ?act > MaxInteger" using ov by (auto simp: tooLarge_def)
      from small m out(1) have "m = ?act" "r_output ?r = totalOutput ?M" by auto
      with small n t measured_rate[OF out(2) act] show ?thesis
        unfolding R S Let_def m(1) by (simp add: counts unavailable_def)
    qed
  qed
qed

section \<open>Properties\<close>

definition turnStates :: "Accumulator \<Rightarrow> turnState multiset" where
  "turnStates a = {# the (fmlookup (a_turns a) i). i \<in># mset_set (fset (fmdom (a_turns a))) #}"

text \<open>The orders in which Go may iterate over the turns.\<close>

definition iterationOrder :: "Accumulator \<Rightarrow> string list \<Rightarrow> bool" where
  "iterationOrder a order \<longleftrightarrow> distinct order \<and> set order = fset (fmdom (a_turns a))"

lemma iterated_states:
  assumes "accOK a" and "iterationOrder a order"
  defines "ss \<equiv> List.map_filter (fmlookup (a_turns a)) order"
  shows "mset ss = turnStates a" "list_all stateOK ss"
proof -
  have dom: "fmlookup (a_turns a) i \<noteq> None" if "i \<in> set order" for i
    using that assms(2) by (auto simp: iterationOrder_def fmlookup_dom_iff)
  have "ss = map (\<lambda>i. the (fmlookup (a_turns a) i)) order"
    unfolding ss_def List.map_filter_def using dom by (induction order) auto
  moreover have "mset order = mset_set (fset (fmdom (a_turns a)))"
    using assms(2) by (metis iterationOrder_def mset_set_set)
  ultimately show "mset ss = turnStates a" by (simp add: turnStates_def)
  show "list_all stateOK ss"
    using assms(1) by (auto simp: list_all_iff ss_def set_map_filter_iff accOK_def)
qed


definition ex_event :: "EventKind \<Rightarrow> string \<Rightarrow> int64 \<Rightarrow> int64 option \<Rightarrow> Event" where
  "ex_event k i t d = \<lparr>e_Offset = t, e_Kind = k, e_TurnID = Some i, e_AtMS = Some t, e_TimeSource = ''log_timestamp'',
     e_StartedAtMS = None, e_DurationMS = None, e_OutputDelta = d, e_OutputObserved = d \<noteq> None\<rparr>"

definition ex_events :: "Event list" where
  "ex_events = [ex_event KindStart ''a'' 1000 None, ex_event KindStart ''b'' 2000 None,
     ex_event KindUsage ''a'' 2500 (Some 10), ex_event KindUsage ''b'' 2600 (Some 20),
     ex_event KindComplete ''a'' 4000 None, ex_event KindComplete ''b'' 5000 None]"

lemma ex_events_ok: "list_all eventOK ex_events"
  by (simp add: ex_events_def ex_event_def eventOK_def timeOK_def in64_def)

lemma ex_events_run:
  "iterationOrder (foldl AddEvent NewAccumulator ex_events) [''a'', ''b'']"
  "iterationOrder (foldl AddEvent NewAccumulator ex_events) [''b'', ''a'']"
  "\<not> a_inherited (foldl AddEvent NewAccumulator ex_events)" "\<not> a_limited (foldl AddEvent NewAccumulator ex_events)"
  "s_ActiveMS (fst (Result (foldl AddEvent NewAccumulator ex_events) [''a'', ''b''])) = Some 4000"
  "s_AverageMilliTPS (fst (Result (foldl AddEvent NewAccumulator ex_events) [''a'', ''b''])) = Some 7500"
  by code_simp+


text \<open>C26: Go's map iteration order is invisible. Statistics and the list of turns, sorted by start
  and identifier, are the same in every order in which the turns may be iterated over.\<close>

theorem throughput_order_irrelevant:
  assumes "list_all eventOK events" and "a = foldl AddEvent NewAccumulator events"
    and "iterationOrder a order" and "iterationOrder a order'"
  shows "Result a order = Result a order'"
proof (cases "a_inherited a \<or> a_limited a")
  case False
  have ok: "accOK a" unfolding assms(2)
    by (rule throughput_run.inv_run[OF accOK_new]) (use assms(1) in \<open>auto simp: list_all_iff\<close>)
  let ?ss = "\<lambda>order. List.map_filter (fmlookup (a_turns a)) order"
  note s = iterated_states[OF ok assms(3)] and s' = iterated_states[OF ok assms(4)]
  have item: "t_ID (turnItem x) = u_ID x" for x
    by (auto simp: turnItem_def Let_def split: option.split)
  have id: "fmlookup (a_turns a) (u_ID x) = Some x" if "x \<in> set (?ss order)" for x
    using that ok unfolding set_map_filter_iff accOK_def by auto
  have "sort_by turnLess (map turnItem (?ss order)) = sort_by turnLess (map turnItem (?ss order'))"
  proof (rule turn_order.sort_by_order_free)
    show "mset (map turnItem (?ss order)) = mset (map turnItem (?ss order'))" using s(1) s'(1) by simp
    fix x y assume "x \<in> set (map turnItem (?ss order))" "y \<in> set (map turnItem (?ss order))" "x \<noteq> y"
    then have "t_ID x \<noteq> t_ID y" using id item by (auto, metis option.inject)
    then show "turnLess x y \<or> turnLess y x" by (auto simp: turnLess_def)
  qed
  with Result_summary[OF s(2) refl] Result_summary[OF s'(2) refl] s(1) s'(1) False show ?thesis by simp
qed (auto simp: Result_def)

theorem throughput_order_irrelevant_witness:
  "Result (foldl AddEvent NewAccumulator ex_events) [''a'', ''b''] =
   Result (foldl AddEvent NewAccumulator ex_events) [''b'', ''a'']"
  by (rule throughput_order_irrelevant[OF ex_events_ok refl ex_events_run(1,2)])

end
