(* ===== verification/Pricing.thy ===== *)
theory Pricing
  imports Complex_Main Pulse_Prelude
begin

text \<open>
  Token pricing (\<open>src/internal/pricing/calculator.go\<close>, \<open>types.go\<close>, \<open>catalog.go\<close>) and the cache hit
  rate (\<open>src/internal/cachehitrate/calculate.go\<close>). Rates are integer micro-dollars per million
  tokens; sums are exact (\<open>math/big\<close>, here \<open>int\<close>) and rounded once, half up. A missing rate or token
  count is \<open>None\<close> and is not the same as zero.
\<close>

definition TokensPerMillion :: int64 where
  "TokensPerMillion = 1000000"

datatype pricing_error = ErrInvalidCalculation | ErrCostOverflow

datatype ModelMatchKind = ModelMatchExact | ModelMatchPrefix | ModelMatchDefault

record ModelPrice =
  mp_MatchKind :: ModelMatchKind
  mp_ModelPattern :: string
  mp_Priority :: int64
  mp_InputMicrosPerMillion :: "int64 option"
  mp_CachedInputMicrosPerMillion :: "int64 option"
  mp_OutputMicrosPerMillion :: "int64 option"

record CatalogVersion =
  cv_PricingVersion :: string
  cv_Source :: string
  cv_Currency :: string
  cv_EffectiveFromMS :: int64
  cv_CreatedAtMS :: int64
  cv_SourceURL :: string
  cv_VerifiedAtMS :: int64
  cv_Models :: "ModelPrice list"

record Rates =
  rt_Input :: "int64 option"
  rt_CachedInput :: "int64 option"
  rt_Output :: "int64 option"

record Usage =
  us_InputTokens :: "int64 option"
  us_CachedInputTokens :: "int64 option"
  us_OutputTokens :: "int64 option"
  us_ReasoningTokens :: "int64 option"

record ExactUsage =
  xu_InputTokens :: "int option"
  xu_CachedInputTokens :: "int option"
  xu_OutputTokens :: "int option"
  xu_ReasoningTokens :: "int option"

datatype CostStatus = CostStatusPriced | CostStatusUnpriced

datatype CostReason =
    CostReasonPriced | CostReasonMissingAttribution | CostReasonMissingModel | CostReasonConflictModel
  | CostReasonInvalidModel | CostReasonCatalogNotEffective | CostReasonModelNotListed
  | CostReasonMissingToken | CostReasonMissingPriceComponent

record ExactCalculation =
  xc_Status :: CostStatus
  xc_Reason :: CostReason
  xc_EstimatedUSDMicros :: "int option"

record Calculation =
  ca_Status :: CostStatus
  ca_Reason :: CostReason
  ca_EstimatedUSDMicros :: "int64 option"

section \<open>The calculator\<close>

definition addExactNumerator :: "int \<Rightarrow> int \<Rightarrow> int64 option \<Rightarrow> int" where
  "addExactNumerator acc tokens rate =
     (case rate of None \<Rightarrow> acc | Some r \<Rightarrow> if tokens = 0 then acc else acc + tokens * r)"

definition RoundMicroUSD :: "int \<Rightarrow> int" where
  "RoundMicroUSD numerator =
     (let q = numerator div TokensPerMillion; r = numerator mod TokensPerMillion
      in if r \<ge> TokensPerMillion div 2 then q + 1 else q)"

definition negativeToken :: "int option \<Rightarrow> bool" where
  "negativeToken v = (case v of None \<Rightarrow> False | Some x \<Rightarrow> x < 0)"

definition CalculateExact :: "ExactUsage \<Rightarrow> Rates \<Rightarrow> pricing_error + ExactCalculation" where
  "CalculateExact usage rates =
     (if list_ex negativeToken [xu_InputTokens usage, xu_CachedInputTokens usage, xu_OutputTokens usage,
                                xu_ReasoningTokens usage] \<or>
         list_ex negativeToken [rt_Input rates, rt_CachedInput rates, rt_Output rates]
      then Inl ErrInvalidCalculation
      else case (xu_InputTokens usage, xu_CachedInputTokens usage, xu_OutputTokens usage, xu_ReasoningTokens usage) of
        (Some input, Some cached, Some output, Some reasoning) \<Rightarrow>
          if cached > input then Inl ErrInvalidCalculation
          else
            (let uncached = input - cached
             in if (uncached > 0 \<and> rt_Input rates = None) \<or> (cached > 0 \<and> rt_CachedInput rates = None) \<or>
                   ((output > 0 \<or> reasoning > 0) \<and> rt_Output rates = None)
                then Inr \<lparr>xc_Status = CostStatusUnpriced, xc_Reason = CostReasonMissingPriceComponent,
                          xc_EstimatedUSDMicros = None\<rparr>
                else
                  (let n1 = addExactNumerator 0 uncached (rt_Input rates);
                       n2 = addExactNumerator n1 cached (rt_CachedInput rates);
                       n3 = addExactNumerator n2 output (rt_Output rates);
                       n4 = addExactNumerator n3 reasoning (rt_Output rates)
                   in Inr \<lparr>xc_Status = CostStatusPriced, xc_Reason = CostReasonPriced,
                           xc_EstimatedUSDMicros = Some (RoundMicroUSD n4)\<rparr>))
      | _ \<Rightarrow> Inr \<lparr>xc_Status = CostStatusUnpriced, xc_Reason = CostReasonMissingToken, xc_EstimatedUSDMicros = None\<rparr>)"

definition exactUsage :: "Usage \<Rightarrow> ExactUsage" where
  "exactUsage usage =
     \<lparr>xu_InputTokens = us_InputTokens usage, xu_CachedInputTokens = us_CachedInputTokens usage,
      xu_OutputTokens = us_OutputTokens usage, xu_ReasoningTokens = us_ReasoningTokens usage\<rparr>"

definition Calculate :: "Usage \<Rightarrow> Rates \<Rightarrow> pricing_error + Calculation" where
  "Calculate usage rates =
     (case CalculateExact (exactUsage usage) rates of
        Inl e \<Rightarrow> Inl e
      | Inr result \<Rightarrow>
          (case xc_EstimatedUSDMicros result of
             None \<Rightarrow> Inr \<lparr>ca_Status = xc_Status result, ca_Reason = xc_Reason result, ca_EstimatedUSDMicros = None\<rparr>
           | Some m \<Rightarrow>
               if \<not> in64 m then Inl ErrCostOverflow
               else Inr \<lparr>ca_Status = xc_Status result, ca_Reason = xc_Reason result, ca_EstimatedUSDMicros = Some m\<rparr>))"

definition BasisPointsBig :: "int option \<Rightarrow> int option \<Rightarrow> int64 option" where
  "BasisPointsBig input cached =
     (case (input, cached) of
        (Some input, Some cached) \<Rightarrow>
          if input \<le> 0 \<or> cached < 0 \<or> cached > input then None
          else Some ((cached * 10000 + input div 2) div input)
      | _ \<Rightarrow> None)"

definition BasisPoints :: "int64 \<Rightarrow> int64 \<Rightarrow> int64 option" where
  "BasisPoints input cached = BasisPointsBig (Some input) (Some cached)"

section \<open>The built-in catalog\<close>

record builtinModelRate =
  bm_model :: string
  bm_input :: int64
  bm_cached :: int64
  bm_output :: int64

definition builtinRate :: "string \<Rightarrow> int64 \<Rightarrow> int64 \<Rightarrow> int64 \<Rightarrow> builtinModelRate" where
  "builtinRate m i c q = \<lparr>bm_model = m, bm_input = i, bm_cached = c, bm_output = q\<rparr>"

definition builtinOpenAIModelRates :: "builtinModelRate list" where
  "builtinOpenAIModelRates =
     [builtinRate ''gpt-5-codex'' 1250000 125000 10000000,
      builtinRate ''gpt-5.1-codex'' 1250000 125000 10000000,
      builtinRate ''gpt-5.1-codex-max'' 1250000 125000 10000000,
      builtinRate ''gpt-5.2-codex'' 1750000 175000 14000000,
      builtinRate ''gpt-5.3-codex'' 1750000 175000 14000000,
      builtinRate ''gpt-5.4'' 2500000 250000 15000000,
      builtinRate ''gpt-5.5'' 5000000 500000 30000000,
      builtinRate ''gpt-5.6'' 5000000 500000 30000000,
      builtinRate ''gpt-5.6-sol'' 5000000 500000 30000000,
      builtinRate ''gpt-5.6-terra'' 2500000 250000 15000000,
      builtinRate ''gpt-5.6-luna'' 1000000 100000 6000000]"

definition exactPrice :: "string \<Rightarrow> int64 \<Rightarrow> int64 \<Rightarrow> int64 \<Rightarrow> ModelPrice" where
  "exactPrice m i c q =
     \<lparr>mp_MatchKind = ModelMatchExact, mp_ModelPattern = m, mp_Priority = 100, mp_InputMicrosPerMillion = Some i,
      mp_CachedInputMicrosPerMillion = Some c, mp_OutputMicrosPerMillion = Some q\<rparr>"

definition builtinPricingURL :: string where
  "builtinPricingURL = ''https://developers.openai.com/api/docs/pricing''"

definition catalogFromRates ::
  "string \<Rightarrow> int64 \<Rightarrow> int64 \<Rightarrow> string \<Rightarrow> builtinModelRate list \<Rightarrow> CatalogVersion" where
  "catalogFromRates version effectiveFromMS verifiedAtMS sourceURL rates =
     \<lparr>cv_PricingVersion = version, cv_Source = ''openai-api'', cv_Currency = ''USD'',
      cv_EffectiveFromMS = effectiveFromMS, cv_CreatedAtMS = verifiedAtMS, cv_SourceURL = sourceURL,
      cv_VerifiedAtMS = verifiedAtMS,
      cv_Models = map (\<lambda>r. exactPrice (bm_model r) (bm_input r) (bm_cached r) (bm_output r)) rates\<rparr>"

definition BuiltinOpenAI20260714 :: CatalogVersion where
  "BuiltinOpenAI20260714 =
     catalogFromRates ''openai-api-2026-07-14'' 0 1783987200000 builtinPricingURL builtinOpenAIModelRates"

definition builtinOpenAI20260722Rates :: "builtinModelRate list" where
  "builtinOpenAI20260722Rates = builtinOpenAIModelRates @ [builtinRate ''gpt-5.4-mini'' 750000 75000 4500000]"

definition BuiltinOpenAI20260722 :: CatalogVersion where
  "BuiltinOpenAI20260722 =
     catalogFromRates ''openai-api-2026-07-22'' 1773705600000 1784678400000
       ''https://developers.openai.com/api/docs/models/gpt-5.4-mini'' builtinOpenAI20260722Rates"

definition BuiltinOpenAI20260729 :: CatalogVersion where
  "BuiltinOpenAI20260729 =
     catalogFromRates ''openai-api-2026-07-29'' 1785254400000 1785254400000 builtinPricingURL builtinOpenAI20260722Rates"

definition builtinOpenAI20260731Rates :: "builtinModelRate list" where
  "builtinOpenAI20260731Rates =
     map (\<lambda>r. if bm_model r = ''gpt-5.6-terra'' then builtinRate ''gpt-5.6-terra'' 2000000 200000 12000000
              else if bm_model r = ''gpt-5.6-luna'' then builtinRate ''gpt-5.6-luna'' 200000 20000 1200000
              else r) builtinOpenAI20260722Rates"

definition BuiltinOpenAI20260731 :: CatalogVersion where
  "BuiltinOpenAI20260731 =
     catalogFromRates ''openai-api-2026-07-31'' 1785464448000 1785464448000 builtinPricingURL builtinOpenAI20260731Rates"

definition BuiltinOpenAI20260903 :: CatalogVersion where
  "BuiltinOpenAI20260903 =
     catalogFromRates ''openai-api-2026-09-03'' 1788393600000 1788573994000 builtinPricingURL
       (builtinOpenAI20260731Rates @ [builtinRate ''gpt-6-astra'' 10000000 1000000 50000000])"

definition BuiltinOpenAI20260905 :: CatalogVersion where
  "BuiltinOpenAI20260905 =
     (let catalog = BuiltinOpenAI20260903
      in catalog\<lparr>cv_PricingVersion := ''openai-api-2026-09-05'', cv_EffectiveFromMS := 1788573994000,
           cv_Models := map (\<lambda>m. if mp_ModelPattern m = ''gpt-5.6-sol'' \<or> mp_ModelPattern m = ''gpt-5.6''
                                 then m\<lparr>mp_InputMicrosPerMillion := Some 4000000,
                                        mp_CachedInputMicrosPerMillion := Some 400000,
                                        mp_OutputMicrosPerMillion := Some 20000000\<rparr>
                                 else m) (cv_Models catalog)\<rparr>)"

definition BuiltinOpenAI20260922 :: CatalogVersion where
  "BuiltinOpenAI20260922 =
     (let catalog = BuiltinOpenAI20260905
      in catalog\<lparr>cv_PricingVersion := ''openai-api-2026-09-22'', cv_EffectiveFromMS := 1790035200000,
           cv_CreatedAtMS := 1790123508000, cv_VerifiedAtMS := 1790123508000,
           cv_Models := cv_Models catalog @
             [exactPrice ''gpt-6-sol'' 2000000 200000 10000000, exactPrice ''gpt-6-luna'' 100000 10000 500000]\<rparr>)"

definition BuiltinOpenAI20260929 :: CatalogVersion where
  "BuiltinOpenAI20260929 =
     (let catalog = BuiltinOpenAI20260922
      in catalog\<lparr>cv_PricingVersion := ''openai-api-2026-09-29'', cv_EffectiveFromMS := 1790640000000,
           cv_CreatedAtMS := 1790721621000, cv_VerifiedAtMS := 1790721621000,
           cv_Models := cv_Models catalog @ [exactPrice ''gpt-6.1-sol'' 2000000 100000 10000000]\<rparr>)"

definition BuiltinOpenAI20261026 :: CatalogVersion where
  "BuiltinOpenAI20261026 =
     (let catalog = BuiltinOpenAI20260929
      in catalog\<lparr>cv_PricingVersion := ''openai-api-2026-10-26'', cv_EffectiveFromMS := 1792972800000,
           cv_CreatedAtMS := 1793067098166, cv_VerifiedAtMS := 1793067098166,
           cv_Models := cv_Models catalog @ [exactPrice ''gpt-6.1-terra'' 1000000 50000 5000000]\<rparr>)"

definition BuiltinOpenAICatalog :: "CatalogVersion list" where
  "BuiltinOpenAICatalog =
     [BuiltinOpenAI20260714, BuiltinOpenAI20260722, BuiltinOpenAI20260729, BuiltinOpenAI20260731,
      BuiltinOpenAI20260903, BuiltinOpenAI20260905, BuiltinOpenAI20260922, BuiltinOpenAI20260929,
      BuiltinOpenAI20261026]"

section \<open>Lemmas\<close>

lemma RoundMicroUSD_floor: "RoundMicroUSD n = \<lfloor>rat_of_int n / 1000000 + 1 / 2\<rfloor>"
proof -
  have "\<lfloor>rat_of_int n / 1000000 + 1 / 2\<rfloor> = \<lfloor>rat_of_int (n + 500000) / rat_of_int 1000000\<rfloor>"
    by (simp add: field_simps)
  also have "\<dots> = (n + 500000) div 1000000" by (rule floor_divide_of_int_eq)
  also have "\<dots> = n div 1000000 + (n mod 1000000 + 500000) div 1000000"
  proof -
    have "n + 500000 = (n mod 1000000 + 500000) + n div 1000000 * 1000000" by simp
    then show ?thesis by (metis add.commute div_mult_self1 zero_neq_numeral)
  qed
  also have "(n mod 1000000 + 500000) div 1000000 = (if 500000 \<le> n mod 1000000 then 1 else 0)"
  proof (cases "500000 \<le> n mod 1000000")
    case True
    moreover have "n mod 1000000 < 1000000" by simp
    ultimately have "(n mod 1000000 - 500000) div 1000000 = 0" by (intro div_pos_pos_trivial) linarith+
    moreover have "n mod 1000000 + 500000 = (n mod 1000000 - 500000) + 1 * 1000000" by simp
    ultimately show ?thesis using True by (metis add.right_neutral add.commute div_mult_self1 zero_neq_numeral)
  next
    case False
    then show ?thesis by (simp add: div_pos_pos_trivial)
  qed
  also have "n div 1000000 + (if 500000 \<le> n mod 1000000 then 1 else 0) = RoundMicroUSD n"
    by (simp add: RoundMicroUSD_def TokensPerMillion_def Let_def)
  finally show ?thesis by simp
qed

lemma addExactNumerator_eq: "addExactNumerator acc t r = acc + t * (case r of None \<Rightarrow> 0 | Some x \<Rightarrow> x)"
  by (simp add: addExactNumerator_def split: option.split)

definition rateValue :: "int64 option \<Rightarrow> int" where
  "rateValue r = (case r of None \<Rightarrow> 0 | Some x \<Rightarrow> x)"

definition ratesOK :: "Rates \<Rightarrow> bool" where
  "ratesOK r \<longleftrightarrow> \<not> list_ex negativeToken [rt_Input r, rt_CachedInput r, rt_Output r]"

text \<open>The price in micro-dollars as an exact fraction.\<close>

definition exactMicros :: "int \<Rightarrow> int \<Rightarrow> int \<Rightarrow> int \<Rightarrow> Rates \<Rightarrow> rat" where
  "exactMicros input cached output reasoning r =
     of_int ((input - cached) * rateValue (rt_Input r) + cached * rateValue (rt_CachedInput r) +
             (output + reasoning) * rateValue (rt_Output r)) / 1000000"

definition coversUsage :: "int \<Rightarrow> int \<Rightarrow> int \<Rightarrow> int \<Rightarrow> Rates \<Rightarrow> bool" where
  "coversUsage input cached output reasoning r \<longleftrightarrow>
     (cached < input \<longrightarrow> rt_Input r \<noteq> None) \<and> (0 < cached \<longrightarrow> rt_CachedInput r \<noteq> None) \<and>
     (0 < output \<or> 0 < reasoning \<longrightarrow> rt_Output r \<noteq> None)"

section \<open>Properties\<close>

text \<open>C31: A turn's price is exact and rounded once. For a complete usage and non-negative rates the
  calculator reports the turn unpriced exactly when a rate is missing for a class of tokens that
  occurs; otherwise the amount is the exact price, cached input at its own rate and reasoning at the
  output rate, rounded half up to one micro-dollar, or an overflow error when that does not fit an
  int64.\<close>

theorem calculate_rounds_once:
  assumes "ratesOK r" and "0 \<le> cached" and "cached \<le> input" and "0 \<le> output" and "0 \<le> reasoning"
  shows "Calculate \<lparr>us_InputTokens = Some input, us_CachedInputTokens = Some cached,
      us_OutputTokens = Some output, us_ReasoningTokens = Some reasoning\<rparr> r =
    (let m = \<lfloor>exactMicros input cached output reasoning r + 1 / 2\<rfloor>
     in if \<not> coversUsage input cached output reasoning r
        then Inr \<lparr>ca_Status = CostStatusUnpriced, ca_Reason = CostReasonMissingPriceComponent, ca_EstimatedUSDMicros = None\<rparr>
        else if m > max_int64 then Inl ErrCostOverflow
        else Inr \<lparr>ca_Status = CostStatusPriced, ca_Reason = CostReasonPriced, ca_EstimatedUSDMicros = Some m\<rparr>)"
proof -
  have n: "\<not> negativeToken (rt_Input r)" "\<not> negativeToken (rt_CachedInput r)" "\<not> negativeToken (rt_Output r)"
    using assms(1) by (auto simp: ratesOK_def)
  then have p: "0 \<le> rateValue (rt_Input r)" "0 \<le> rateValue (rt_CachedInput r)" "0 \<le> rateValue (rt_Output r)"
    by (auto simp: negativeToken_def rateValue_def split: option.splits)
  define num where "num = (input - cached) * rateValue (rt_Input r) + cached * rateValue (rt_CachedInput r) +
    (output + reasoning) * rateValue (rt_Output r)"
  have num: "0 \<le> num" using assms p by (simp add: num_def)
  have m: "\<lfloor>exactMicros input cached output reasoning r + 1 / 2\<rfloor> = RoundMicroUSD num"
    by (simp add: exactMicros_def num_def RoundMicroUSD_floor)
  have "0 \<le> num div 1000000" using num by (simp add: pos_imp_zdiv_nonneg_iff)
  then have "0 \<le> RoundMicroUSD num" by (simp add: RoundMicroUSD_def TokensPerMillion_def Let_def)
  then have in64: "in64 (RoundMicroUSD num) \<longleftrightarrow> \<not> RoundMicroUSD num > max_int64"
    by (auto simp: in64_def max_int64_def)
  have e: "addExactNumerator (addExactNumerator (addExactNumerator (addExactNumerator 0 (input - cached) (rt_Input r))
      cached (rt_CachedInput r)) output (rt_Output r)) reasoning (rt_Output r) = num"
    by (simp add: addExactNumerator_eq num_def rateValue_def algebra_simps)
  have t: "\<not> negativeToken (Some input)" "\<not> negativeToken (Some cached)" "\<not> negativeToken (Some output)"
    "\<not> negativeToken (Some reasoning)" using assms by (simp_all add: negativeToken_def)
  show ?thesis unfolding m
    using assms(3) n t in64 by (auto simp: Calculate_def CalculateExact_def exactUsage_def coversUsage_def Let_def e)
qed

theorem calculate_rounds_once_witness:
  "Calculate \<lparr>us_InputTokens = Some 3, us_CachedInputTokens = Some 1, us_OutputTokens = Some 0,
     us_ReasoningTokens = Some 0\<rparr> \<lparr>rt_Input = Some 1250000, rt_CachedInput = Some 125000, rt_Output = None\<rparr> =
   Inr \<lparr>ca_Status = CostStatusPriced, ca_Reason = CostReasonPriced, ca_EstimatedUSDMicros = Some 3\<rparr>"
proof -
  let ?r = "\<lparr>rt_Input = Some 1250000, rt_CachedInput = Some 125000, rt_Output = None\<rparr>"
  have "ratesOK ?r" by code_simp
  moreover have "\<lfloor>25 / 8 :: rat\<rfloor> = 3" by (simp add: floor_eq_iff)
  ultimately show ?thesis using calculate_rounds_once[of ?r 1 3 0 0]
    by (simp add: Let_def coversUsage_def exactMicros_def rateValue_def max_int64_def)
qed

text \<open>The built-in price history is a timeline. Its versions take effect at strictly increasing
  times and have distinct names, a version lists each model once, always with all three rates, which
  are positive with cached input below input and input below output, and a model once listed stays
  listed in every later version.\<close>

lemma builtin_catalog_timeline:
  "sorted_wrt (\<lambda>v w. cv_EffectiveFromMS v < cv_EffectiveFromMS w \<and>
      set (map mp_ModelPattern (cv_Models v)) \<subseteq> set (map mp_ModelPattern (cv_Models w))) BuiltinOpenAICatalog \<and>
   distinct (map cv_PricingVersion BuiltinOpenAICatalog) \<and>
   list_all (\<lambda>v. distinct (map mp_ModelPattern (cv_Models v)) \<and>
     list_all (\<lambda>m. case (mp_InputMicrosPerMillion m, mp_CachedInputMicrosPerMillion m, mp_OutputMicrosPerMillion m) of
         (Some i, Some c, Some q) \<Rightarrow> 0 < c \<and> c < i \<and> i < q | _ \<Rightarrow> False) (cv_Models v)) BuiltinOpenAICatalog"
  by code_simp

text \<open>C32: The cache hit rate is the nearest number of basis points. It is defined exactly for a
  positive input and a cached part within it, lies between 0 and 10000, and is within half a basis
  point of the exact ratio.\<close>

theorem cache_hit_rate_nearest:
  "(case BasisPoints input cached of
      None \<Rightarrow> input \<le> 0 \<or> cached < 0 \<or> input < cached
    | Some bp \<Rightarrow> 0 < input \<and> 0 \<le> cached \<and> cached \<le> input \<and> 0 \<le> bp \<and> bp \<le> 10000 \<and>
        \<bar>bp * input - cached * 10000\<bar> * 2 \<le> input)"
proof (cases "input \<le> 0 \<or> cached < 0 \<or> cached > input")
  case False
  let ?n = "cached * 10000 + input div 2"
  have near: "\<bar>q * input - cached * 10000\<bar> * 2 \<le> input"
    if "cached * 10000 + h = q * input + r" "0 \<le> r" "r < input" "2 * h \<le> input" "input \<le> 2 * h + 1" for q r h
  proof -
    have "q * input - cached * 10000 = h - r" using that(1) by (simp add: algebra_simps)
    with that(2-) show ?thesis by (simp add: abs_if)
  qed
  have "\<bar>?n div input * input - cached * 10000\<bar> * 2 \<le> input"
    by (rule near[of "input div 2" _ "?n mod input"]) (use False in auto)
  moreover have "0 \<le> ?n div input" using False by (simp add: pos_imp_zdiv_nonneg_iff)
  moreover have "?n div input \<le> (input * 10000 + input div 2) div input"
    using False by (intro zdiv_mono1) auto
  moreover have "(input * 10000 + input div 2) div input = 10000"
  proof -
    have "input div 2 div input = 0" using False by (intro div_pos_pos_trivial) auto
    then show ?thesis using False by simp
  qed
  ultimately show ?thesis using False by (simp add: BasisPoints_def BasisPointsBig_def)
qed (auto simp: BasisPoints_def BasisPointsBig_def)

end
