(* ===== verification/Cost_Aggregate.thy ===== *)
theory Cost_Aggregate
  imports Pricing "HOL-Library.Finite_Map"
begin

text \<open>
  The aggregation of priced turns (\<open>src/internal/store/cost_repository.go\<close>): sums that stay unknown
  once one summand is unknown, the per-group accumulators, their totals and the reconciliation of a
  grouping with the overall totals. A group map is a finite map; the order in which Go iterates over
  it is a parameter.
\<close>

datatype cost_error = CostCalculation pricing_error | CostInvalidRecord | CostInvalidRepository | CostNotFound | CostConstraint

fun andThen :: "'e + 'a \<Rightarrow> ('a \<Rightarrow> 'e + 'b) \<Rightarrow> 'e + 'b" where
  "andThen (Inl e) f = Inl e"
| "andThen (Inr x) f = f x"

fun foldE :: "('a \<Rightarrow> 's \<Rightarrow> 'e + 's) \<Rightarrow> 'a list \<Rightarrow> 's \<Rightarrow> 'e + 's" where
  "foldE f [] s = Inr s"
| "foldE f (x # xs) s = andThen (f x s) (foldE f xs)"

definition maxCostInteger :: int64 where
  "maxCostInteger = 2 ^ 63 - 1"

record costFactModel =
  cf_TurnID :: string
  cf_SessionID :: string
  cf_ObservedAtMS :: int64
  cf_InputTokens :: "int64 option"
  cf_CachedInputTokens :: "int64 option"
  cf_OutputTokens :: "int64 option"
  cf_ReasoningTokens :: "int64 option"
  cf_AttributionTurnID :: "string option"
  cf_ProjectID :: "string option"
  cf_ProjectDisplay :: "string option"
  cf_ProjectConfidence :: "string option"
  cf_ProjectSource :: "string option"
  cf_ProjectReason :: "string option"
  cf_ModelKey :: "string option"
  cf_ModelDisplay :: "string option"
  cf_ModelConfidence :: "string option"
  cf_ModelSource :: "string option"
  cf_ModelReason :: "string option"

record TurnCost =
  tc_GenerationID :: string
  tc_TurnID :: string
  tc_PricingVersion :: "string option"
  tc_EstimatedUSDMicros :: "int64 option"
  tc_Status :: CostStatus
  tc_Reason :: CostReason
  tc_CalculatedAtMS :: int64

record RollupTotals =
  ro_TurnCount :: int64
  ro_InputTokens :: "int64 option"
  ro_CachedInputTokens :: "int64 option"
  ro_OutputTokens :: "int64 option"
  ro_ReasoningTokens :: "int64 option"
  ro_TotalTokens :: "int64 option"
  ro_EstimatedUSDMicros :: "int64 option"
  ro_PricedTurnCount :: int64
  ro_UnpricedTurnCount :: int64
  ro_FirstActivityAtMS :: int64
  ro_LastActivityAtMS :: int64
  ro_UpdatedAtMS :: int64

definition addCostInteger :: "int64 \<Rightarrow> int64 \<Rightarrow> cost_error + int64" where
  "addCostInteger left right =
     (if left < 0 \<or> right < 0 then Inl (CostCalculation ErrInvalidCalculation)
      else if right > maxCostInteger - left then Inl (CostCalculation ErrCostOverflow)
      else Inr (left + right))"

section \<open>Nullable sums\<close>

record nullableSum =
  ns_value :: int64
  ns_complete :: bool

definition newNullableSum :: nullableSum where
  "newNullableSum = \<lparr>ns_value = 0, ns_complete = True\<rparr>"

definition addNullable :: "int64 option \<Rightarrow> nullableSum \<Rightarrow> cost_error + nullableSum" where
  "addNullable v s =
     (if \<not> ns_complete s then Inr s
      else case v of
        None \<Rightarrow> Inr (s\<lparr>ns_complete := False\<rparr>)
      | Some x \<Rightarrow> andThen (addCostInteger (ns_value s) x) (\<lambda>y. Inr (s\<lparr>ns_value := y\<rparr>)))"

definition pointerOf :: "nullableSum \<Rightarrow> int64 option" where
  "pointerOf s = (if \<not> ns_complete s then None else Some (ns_value s))"

section \<open>Accumulators\<close>

record aggregateAccumulator =
  ag_turnCount :: int64
  ag_pricedTurnCount :: int64
  ag_unpricedTurnCount :: int64
  ag_input :: nullableSum
  ag_cached :: nullableSum
  ag_output :: nullableSum
  ag_reasoning :: nullableSum
  ag_estimatedUSDMicros :: int64
  ag_firstActivityAtMS :: int64
  ag_lastActivityAtMS :: int64

definition newAggregateAccumulator :: aggregateAccumulator where
  "newAggregateAccumulator =
     \<lparr>ag_turnCount = 0, ag_pricedTurnCount = 0, ag_unpricedTurnCount = 0, ag_input = newNullableSum,
      ag_cached = newNullableSum, ag_output = newNullableSum, ag_reasoning = newNullableSum,
      ag_estimatedUSDMicros = 0, ag_firstActivityAtMS = 0, ag_lastActivityAtMS = 0\<rparr>"

definition addActivity :: "int64 \<Rightarrow> aggregateAccumulator \<Rightarrow> aggregateAccumulator" where
  "addActivity atMS a =
     (if ag_turnCount a = 0 then a\<lparr>ag_firstActivityAtMS := atMS, ag_lastActivityAtMS := atMS\<rparr>
      else
        (let a1 = (if atMS < ag_firstActivityAtMS a then a\<lparr>ag_firstActivityAtMS := atMS\<rparr> else a)
         in if atMS > ag_lastActivityAtMS a1 then a1\<lparr>ag_lastActivityAtMS := atMS\<rparr> else a1))"

definition addAmount :: "TurnCost \<Rightarrow> aggregateAccumulator \<Rightarrow> cost_error + aggregateAccumulator" where
  "addAmount cost a =
     (if tc_Status cost = CostStatusPriced then
        (case tc_EstimatedUSDMicros cost of
           None \<Rightarrow> Inl CostInvalidRecord
         | Some m \<Rightarrow>
             andThen (addCostInteger (ag_estimatedUSDMicros a) m)
               (\<lambda>y. Inr (a\<lparr>ag_pricedTurnCount := ag_pricedTurnCount a + 1, ag_estimatedUSDMicros := y\<rparr>)))
      else Inr (a\<lparr>ag_unpricedTurnCount := ag_unpricedTurnCount a + 1\<rparr>))"

definition addAggregate ::
  "costFactModel \<times> TurnCost \<Rightarrow> aggregateAccumulator \<Rightarrow> cost_error + aggregateAccumulator" where
  "addAggregate x a =
     (let (fact, cost) = x; a0 = addActivity (cf_ObservedAtMS fact) a; a1 = a0\<lparr>ag_turnCount := ag_turnCount a0 + 1\<rparr>
      in andThen (addNullable (cf_InputTokens fact) (ag_input a1)) (\<lambda>input.
         andThen (addNullable (cf_CachedInputTokens fact) (ag_cached a1)) (\<lambda>cached.
         andThen (addNullable (cf_OutputTokens fact) (ag_output a1)) (\<lambda>output.
         andThen (addNullable (cf_ReasoningTokens fact) (ag_reasoning a1)) (\<lambda>reasoning.
           addAmount cost (a1\<lparr>ag_input := input, ag_cached := cached, ag_output := output, ag_reasoning := reasoning\<rparr>))))))"

definition totalTokens ::
  "int64 option \<Rightarrow> int64 option \<Rightarrow> int64 option \<Rightarrow> int64 option \<Rightarrow> cost_error + int64 option" where
  "totalTokens input cached output reasoning =
     (case (input, cached, output, reasoning) of
        (Some i, Some c, Some q, Some r) \<Rightarrow> andThen (foldE (\<lambda>x acc. addCostInteger acc x) [i, c, q, r] 0) (\<lambda>t. Inr (Some t))
      | _ \<Rightarrow> Inr None)"

definition totals :: "int64 \<Rightarrow> aggregateAccumulator \<Rightarrow> cost_error + RollupTotals" where
  "totals updatedAtMS a =
     (let input = pointerOf (ag_input a); cached = pointerOf (ag_cached a); output = pointerOf (ag_output a);
          reasoning = pointerOf (ag_reasoning a)
      in andThen (totalTokens input cached output reasoning) (\<lambda>tokens.
           Inr \<lparr>ro_TurnCount = ag_turnCount a, ro_InputTokens = input, ro_CachedInputTokens = cached,
                ro_OutputTokens = output, ro_ReasoningTokens = reasoning, ro_TotalTokens = tokens,
                ro_EstimatedUSDMicros = (if ag_pricedTurnCount a > 0 then Some (ag_estimatedUSDMicros a) else None),
                ro_PricedTurnCount = ag_pricedTurnCount a, ro_UnpricedTurnCount = ag_unpricedTurnCount a,
                ro_FirstActivityAtMS = ag_firstActivityAtMS a, ro_LastActivityAtMS = ag_lastActivityAtMS a,
                ro_UpdatedAtMS = updatedAtMS\<rparr>))"

section \<open>Groups and reconciliation\<close>

text \<open>\<open>accumulatorFor(groups, key).add(fact, cost)\<close>.\<close>

definition addGroup ::
  "'k \<Rightarrow> costFactModel \<times> TurnCost \<Rightarrow> ('k, aggregateAccumulator) fmap \<Rightarrow> cost_error + ('k, aggregateAccumulator) fmap" where
  "addGroup key x groups =
     (let a = (case fmlookup groups key of None \<Rightarrow> newAggregateAccumulator | Some a \<Rightarrow> a)
      in andThen (addAggregate x a) (\<lambda>a'. Inr (fmupd key a' groups)))"

record reconcileState =
  rs_turnCount :: int64
  rs_pricedCount :: int64
  rs_unpricedCount :: int64
  rs_estimated :: int64
  rs_input :: nullableSum
  rs_cached :: nullableSum
  rs_output :: nullableSum
  rs_reasoning :: nullableSum

definition reconcileStart :: reconcileState where
  "reconcileStart =
     \<lparr>rs_turnCount = 0, rs_pricedCount = 0, rs_unpricedCount = 0, rs_estimated = 0, rs_input = newNullableSum,
      rs_cached = newNullableSum, rs_output = newNullableSum, rs_reasoning = newNullableSum\<rparr>"

definition reconcileStep :: "RollupTotals \<Rightarrow> reconcileState \<Rightarrow> cost_error + reconcileState" where
  "reconcileStep v s =
     andThen (addCostInteger (rs_turnCount s) (ro_TurnCount v)) (\<lambda>turnCount.
     andThen (addCostInteger (rs_pricedCount s) (ro_PricedTurnCount v)) (\<lambda>pricedCount.
     andThen (addCostInteger (rs_unpricedCount s) (ro_UnpricedTurnCount v)) (\<lambda>unpricedCount.
     andThen (case ro_EstimatedUSDMicros v of None \<Rightarrow> Inr (rs_estimated s)
              | Some m \<Rightarrow> addCostInteger (rs_estimated s) m) (\<lambda>estimated.
     andThen (addNullable (ro_InputTokens v) (rs_input s)) (\<lambda>input.
     andThen (addNullable (ro_CachedInputTokens v) (rs_cached s)) (\<lambda>cached.
     andThen (addNullable (ro_OutputTokens v) (rs_output s)) (\<lambda>output.
     andThen (addNullable (ro_ReasoningTokens v) (rs_reasoning s)) (\<lambda>reasoning.
       Inr \<lparr>rs_turnCount = turnCount, rs_pricedCount = pricedCount, rs_unpricedCount = unpricedCount,
            rs_estimated = estimated, rs_input = input, rs_cached = cached, rs_output = output,
            rs_reasoning = reasoning\<rparr>))))))))"

definition reconcileRollupTotals :: "RollupTotals \<Rightarrow> RollupTotals list \<Rightarrow> cost_error + unit" where
  "reconcileRollupTotals expected vs =
     andThen (foldE reconcileStep vs reconcileStart) (\<lambda>s.
       if rs_turnCount s \<noteq> ro_TurnCount expected \<or> rs_pricedCount s \<noteq> ro_PricedTurnCount expected \<or>
          rs_unpricedCount s \<noteq> ro_UnpricedTurnCount expected \<or>
          pointerOf (rs_input s) \<noteq> ro_InputTokens expected \<or>
          pointerOf (rs_cached s) \<noteq> ro_CachedInputTokens expected \<or>
          pointerOf (rs_output s) \<noteq> ro_OutputTokens expected \<or>
          pointerOf (rs_reasoning s) \<noteq> ro_ReasoningTokens expected
       then Inl CostInvalidRecord
       else case ro_EstimatedUSDMicros expected of
         None \<Rightarrow> if rs_pricedCount s \<noteq> 0 \<or> rs_estimated s \<noteq> 0 then Inl CostInvalidRecord else Inr ()
       | Some m \<Rightarrow> if rs_estimated s \<noteq> m then Inl CostInvalidRecord else Inr ())"

definition groupTotals :: "int64 \<Rightarrow> ('k, aggregateAccumulator) fmap \<Rightarrow> 'k list \<Rightarrow> cost_error + RollupTotals list" where
  "groupTotals updatedAtMS groups order =
     foldE (\<lambda>key vs. case fmlookup groups key of
         None \<Rightarrow> Inr vs
       | Some a \<Rightarrow> andThen (totals updatedAtMS a) (\<lambda>v. Inr (vs @ [v]))) order []"

definition reconcileAggregateGroups ::
  "RollupTotals \<Rightarrow> ('k, aggregateAccumulator) fmap \<Rightarrow> int64 \<Rightarrow> 'k list \<Rightarrow> cost_error + unit" where
  "reconcileAggregateGroups expected groups updatedAtMS order =
     andThen (groupTotals updatedAtMS groups order) (reconcileRollupTotals expected)"

section \<open>Lemmas: sums\<close>

lemma andThen_Inr: "andThen m f = Inr y \<longleftrightarrow> (\<exists>x. m = Inr x \<and> f x = Inr y)"
  by (cases m) auto

definition val :: "int64 option \<Rightarrow> int64" where
  "val v = (case v of None \<Rightarrow> 0 | Some x \<Rightarrow> x)"

lemma val_simps [simp]: "val None = 0" "val (Some x) = x"
  by (simp_all add: val_def)

definition known :: "('a \<Rightarrow> int64 option) \<Rightarrow> 'a list \<Rightarrow> int64 option" where
  "known f xs = (if \<forall>x \<in> set xs. f x \<noteq> None then Some (\<Sum>x \<leftarrow> xs. val (f x)) else None)"

definition nonneg :: "('a \<Rightarrow> int64 option) \<Rightarrow> 'a list \<Rightarrow> bool" where
  "nonneg f xs \<longleftrightarrow> (\<forall>x \<in> set xs. 0 \<le> val (f x))"

lemma nonneg_sum: "nonneg f xs \<Longrightarrow> 0 \<le> (\<Sum>x \<leftarrow> xs. val (f x))"
  by (auto simp: nonneg_def intro!: sum_list_nonneg)

lemma nonneg_append [simp]: "nonneg f (xs @ ys) \<longleftrightarrow> nonneg f xs \<and> nonneg f ys"
  by (auto simp: nonneg_def)

lemma addCostInteger_ok: "0 \<le> a \<Longrightarrow> 0 \<le> b \<Longrightarrow> a + b \<le> maxCostInteger \<Longrightarrow> addCostInteger a b = Inr (a + b)"
  by (simp add: addCostInteger_def)

definition sumIs :: "('a \<Rightarrow> int64 option) \<Rightarrow> 'a list \<Rightarrow> nullableSum \<Rightarrow> bool" where
  "sumIs f xs s \<longleftrightarrow>
     ns_complete s = (\<forall>x \<in> set xs. f x \<noteq> None) \<and> (ns_complete s \<longrightarrow> ns_value s = (\<Sum>x \<leftarrow> xs. val (f x)))"

lemma sumIs_new: "sumIs f [] newNullableSum"
  by (simp add: sumIs_def newNullableSum_def)

lemma sumIs_pointer: "sumIs f xs s \<Longrightarrow> pointerOf s = known f xs"
  by (auto simp: sumIs_def pointerOf_def known_def)

lemma addNullable_ok:
  assumes "sumIs f xs s" and "nonneg f (xs @ [x])" and "(\<Sum>x \<leftarrow> xs @ [x]. val (f x)) \<le> maxCostInteger"
  shows "\<exists>s'. addNullable (f x) s = Inr s' \<and> sumIs f (xs @ [x]) s'"
proof (cases "ns_complete s")
  case True
  show ?thesis
  proof (cases "f x")
    case None
    with True assms(1) show ?thesis by (simp add: addNullable_def sumIs_def)
  next
    case (Some y)
    have v: "ns_value s = (\<Sum>x \<leftarrow> xs. val (f x))" using True assms(1) by (simp add: sumIs_def)
    have "0 \<le> y" using assms(2) Some by (simp add: nonneg_def)
    with v assms(2,3) Some nonneg_sum[of f xs] have "addCostInteger (ns_value s) y = Inr (ns_value s + y)"
      by (intro addCostInteger_ok) auto
    with True Some v assms(1) show ?thesis by (simp add: addNullable_def sumIs_def)
  qed
qed (use assms(1) in \<open>auto simp: addNullable_def sumIs_def\<close>)

section \<open>Lemmas: what an accumulator holds\<close>

definition amount :: "costFactModel \<times> TurnCost \<Rightarrow> int64" where
  "amount x = (if tc_Status (snd x) = CostStatusPriced then val (tc_EstimatedUSDMicros (snd x)) else 0)"

definition isPriced :: "costFactModel \<times> TurnCost \<Rightarrow> bool" where
  "isPriced x \<longleftrightarrow> tc_Status (snd x) = CostStatusPriced"

definition entryOK :: "costFactModel \<times> TurnCost \<Rightarrow> bool" where
  "entryOK x \<longleftrightarrow>
     0 \<le> val (cf_InputTokens (fst x)) \<and> 0 \<le> val (cf_CachedInputTokens (fst x)) \<and>
     0 \<le> val (cf_OutputTokens (fst x)) \<and> 0 \<le> val (cf_ReasoningTokens (fst x)) \<and>
     (isPriced x \<longrightarrow> tc_EstimatedUSDMicros (snd x) \<noteq> None) \<and> 0 \<le> amount x"

definition weight :: "costFactModel \<times> TurnCost \<Rightarrow> int64" where
  "weight x = val (cf_InputTokens (fst x)) + val (cf_CachedInputTokens (fst x)) +
     val (cf_OutputTokens (fst x)) + val (cf_ReasoningTokens (fst x))"

text \<open>Everything the sums can reach fits an int64.\<close>

definition fits :: "(costFactModel \<times> TurnCost) list \<Rightarrow> bool" where
  "fits xs \<longleftrightarrow> (\<forall>x \<in> set xs. entryOK x) \<and> (\<Sum>x \<leftarrow> xs. weight x) \<le> maxCostInteger \<and>
     (\<Sum>x \<leftarrow> xs. amount x) \<le> maxCostInteger \<and> int (length xs) \<le> maxCostInteger"

definition rollup :: "int64 \<Rightarrow> (costFactModel \<times> TurnCost) list \<Rightarrow> RollupTotals" where
  "rollup updatedAtMS xs =
     (let input = known (cf_InputTokens \<circ> fst) xs; cached = known (cf_CachedInputTokens \<circ> fst) xs;
          output = known (cf_OutputTokens \<circ> fst) xs; reasoning = known (cf_ReasoningTokens \<circ> fst) xs
      in \<lparr>ro_TurnCount = int (length xs), ro_InputTokens = input, ro_CachedInputTokens = cached,
          ro_OutputTokens = output, ro_ReasoningTokens = reasoning,
          ro_TotalTokens = (if input = None \<or> cached = None \<or> output = None \<or> reasoning = None then None
                            else Some (\<Sum>x \<leftarrow> xs. weight x)),
          ro_EstimatedUSDMicros = (if \<exists>x \<in> set xs. isPriced x then Some (\<Sum>x \<leftarrow> xs. amount x) else None),
          ro_PricedTurnCount = int (length (filter isPriced xs)),
          ro_UnpricedTurnCount = int (length (filter (\<lambda>x. \<not> isPriced x) xs)),
          ro_FirstActivityAtMS = (if xs = [] then 0 else Min (cf_ObservedAtMS ` fst ` set xs)),
          ro_LastActivityAtMS = (if xs = [] then 0 else Max (cf_ObservedAtMS ` fst ` set xs)),
          ro_UpdatedAtMS = updatedAtMS\<rparr>)"

definition accIs :: "(costFactModel \<times> TurnCost) list \<Rightarrow> aggregateAccumulator \<Rightarrow> bool" where
  "accIs xs a \<longleftrightarrow>
     ag_turnCount a = int (length xs) \<and> ag_pricedTurnCount a = int (length (filter isPriced xs)) \<and>
     ag_unpricedTurnCount a = int (length (filter (\<lambda>x. \<not> isPriced x) xs)) \<and>
     sumIs (cf_InputTokens \<circ> fst) xs (ag_input a) \<and> sumIs (cf_CachedInputTokens \<circ> fst) xs (ag_cached a) \<and>
     sumIs (cf_OutputTokens \<circ> fst) xs (ag_output a) \<and> sumIs (cf_ReasoningTokens \<circ> fst) xs (ag_reasoning a) \<and>
     ag_estimatedUSDMicros a = (\<Sum>x \<leftarrow> xs. amount x) \<and>
     ag_firstActivityAtMS a = (if xs = [] then 0 else Min (cf_ObservedAtMS ` fst ` set xs)) \<and>
     ag_lastActivityAtMS a = (if xs = [] then 0 else Max (cf_ObservedAtMS ` fst ` set xs))"

lemma accIs_new: "accIs [] newAggregateAccumulator"
  by (simp add: accIs_def newAggregateAccumulator_def sumIs_new)

lemma weight_ge:
  assumes "\<forall>x \<in> set xs. entryOK x"
  shows "nonneg (cf_InputTokens \<circ> fst) xs" "nonneg (cf_CachedInputTokens \<circ> fst) xs"
    "nonneg (cf_OutputTokens \<circ> fst) xs" "nonneg (cf_ReasoningTokens \<circ> fst) xs"
    "(\<Sum>x \<leftarrow> xs. val ((cf_InputTokens \<circ> fst) x)) + (\<Sum>x \<leftarrow> xs. val ((cf_CachedInputTokens \<circ> fst) x)) +
     (\<Sum>x \<leftarrow> xs. val ((cf_OutputTokens \<circ> fst) x)) + (\<Sum>x \<leftarrow> xs. val ((cf_ReasoningTokens \<circ> fst) x)) = (\<Sum>x \<leftarrow> xs. weight x)"
    "0 \<le> (\<Sum>x \<leftarrow> xs. amount x)"
proof -
  show "nonneg (cf_InputTokens \<circ> fst) xs" "nonneg (cf_CachedInputTokens \<circ> fst) xs"
    "nonneg (cf_OutputTokens \<circ> fst) xs" "nonneg (cf_ReasoningTokens \<circ> fst) xs"
    using assms by (auto simp: nonneg_def entryOK_def)
  show "0 \<le> (\<Sum>x \<leftarrow> xs. amount x)" using assms by (auto simp: entryOK_def intro!: sum_list_nonneg)
  show "(\<Sum>x \<leftarrow> xs. val ((cf_InputTokens \<circ> fst) x)) + (\<Sum>x \<leftarrow> xs. val ((cf_CachedInputTokens \<circ> fst) x)) +
     (\<Sum>x \<leftarrow> xs. val ((cf_OutputTokens \<circ> fst) x)) + (\<Sum>x \<leftarrow> xs. val ((cf_ReasoningTokens \<circ> fst) x)) = (\<Sum>x \<leftarrow> xs. weight x)"
    by (induction xs) (simp_all add: weight_def)
qed

lemma class_fits:
  assumes "fits xs" and "f \<in> {cf_InputTokens \<circ> fst, cf_CachedInputTokens \<circ> fst, cf_OutputTokens \<circ> fst, cf_ReasoningTokens \<circ> fst}"
  shows "nonneg f xs" "(\<Sum>x \<leftarrow> xs. val (f x)) \<le> maxCostInteger"
proof -
  have ok: "\<forall>x \<in> set xs. entryOK x" and b: "(\<Sum>x \<leftarrow> xs. weight x) \<le> maxCostInteger" using assms(1) by (auto simp: fits_def)
  note w = weight_ge[OF ok]
  show "nonneg f xs" using assms(2) w by auto
  note p = nonneg_sum[OF w(1)] nonneg_sum[OF w(2)] nonneg_sum[OF w(3)] nonneg_sum[OF w(4)]
  from assms(2) consider "f = cf_InputTokens \<circ> fst" | "f = cf_CachedInputTokens \<circ> fst"
    | "f = cf_OutputTokens \<circ> fst" | "f = cf_ReasoningTokens \<circ> fst" by blast
  then show "(\<Sum>x \<leftarrow> xs. val (f x)) \<le> maxCostInteger"
  proof cases
    case 1 show ?thesis unfolding 1 using w(5) b p by linarith
  next
    case 2 show ?thesis unfolding 2 using w(5) b p by linarith
  next
    case 3 show ?thesis unfolding 3 using w(5) b p by linarith
  next
    case 4 show ?thesis unfolding 4 using w(5) b p by linarith
  qed
qed

lemma addActivity_eq:
  assumes "ag_turnCount a = int (length xs)"
    and "ag_firstActivityAtMS a = (if xs = [] then 0 else Min (cf_ObservedAtMS ` fst ` set xs))"
    and "ag_lastActivityAtMS a = (if xs = [] then 0 else Max (cf_ObservedAtMS ` fst ` set xs))"
  shows "addActivity (cf_ObservedAtMS (fst x)) a =
    a\<lparr>ag_firstActivityAtMS := Min (cf_ObservedAtMS ` fst ` set (xs @ [x])),
      ag_lastActivityAtMS := Max (cf_ObservedAtMS ` fst ` set (xs @ [x]))\<rparr>"
proof (cases "xs = []")
  case False
  let ?S = "cf_ObservedAtMS ` fst ` set xs"
  have S: "finite ?S" "?S \<noteq> {}" using False by auto
  let ?t = "cf_ObservedAtMS (fst x)"
  have le: "Min ?S \<le> Max ?S" using S by (simp add: Min_le_iff)
  have ins: "cf_ObservedAtMS ` fst ` set (xs @ [x]) = insert ?t ?S" by auto
  have m: "Min (insert ?t ?S) = min ?t (Min ?S)" "Max (insert ?t ?S) = max ?t (Max ?S)"
    using S by (simp_all add: Min_insert Max_insert)
  have a: "ag_turnCount a \<noteq> 0" "ag_firstActivityAtMS a = Min ?S" "ag_lastActivityAtMS a = Max ?S"
    using False assms by simp_all
  show ?thesis unfolding ins m addActivity_def Let_def using a le
    by (cases "?t < Min ?S"; cases "?t > Max ?S") simp_all
qed (use assms in \<open>auto simp: addActivity_def intro!: aggregateAccumulator.equality\<close>)

lemma addAggregate_ok:
  assumes "accIs xs a" and "fits (xs @ [x])"
  shows "\<exists>a'. addAggregate x a = Inr a' \<and> accIs (xs @ [x]) a'"
proof -
  let ?ys = "xs @ [x]"
  let ?I = "cf_InputTokens \<circ> fst" and ?C = "cf_CachedInputTokens \<circ> fst" and ?O = "cf_OutputTokens \<circ> fst"
    and ?R = "cf_ReasoningTokens \<circ> fst"
  note A = assms(1)[unfolded accIs_def]
  have step: "\<exists>s'. addNullable (f x) s = Inr s' \<and> sumIs f ?ys s'"
    if "sumIs f xs s" "f \<in> {?I, ?C, ?O, ?R}" for f s
    using addNullable_ok[OF that(1)] class_fits[OF assms(2) that(2)] by blast
  obtain i where i: "addNullable (?I x) (ag_input a) = Inr i" "sumIs ?I ?ys i" using step[of ?I "ag_input a"] A by blast
  obtain c where c: "addNullable (?C x) (ag_cached a) = Inr c" "sumIs ?C ?ys c" using step[of ?C "ag_cached a"] A by blast
  obtain q where q: "addNullable (?O x) (ag_output a) = Inr q" "sumIs ?O ?ys q" using step[of ?O "ag_output a"] A by blast
  obtain r where r: "addNullable (?R x) (ag_reasoning a) = Inr r" "sumIs ?R ?ys r" using step[of ?R "ag_reasoning a"] A by blast
  define a1 where "a1 = a\<lparr>ag_firstActivityAtMS := Min (cf_ObservedAtMS ` fst ` set ?ys),
    ag_lastActivityAtMS := Max (cf_ObservedAtMS ` fst ` set ?ys), ag_turnCount := ag_turnCount a + 1,
    ag_input := i, ag_cached := c, ag_output := q, ag_reasoning := r\<rparr>"
  have "addActivity (cf_ObservedAtMS (fst x)) a =
    a\<lparr>ag_firstActivityAtMS := Min (cf_ObservedAtMS ` fst ` set ?ys),
      ag_lastActivityAtMS := Max (cf_ObservedAtMS ` fst ` set ?ys)\<rparr>"
    using addActivity_eq[of a xs x] A by blast
  then have add: "addAggregate x a = addAmount (snd x) a1"
    using i(1) c(1) q(1) r(1) by (simp add: addAggregate_def case_prod_beta Let_def a1_def del: set_append)
  have e: "entryOK x" "\<forall>x \<in> set xs. entryOK x" and b: "(\<Sum>x \<leftarrow> xs. amount x) + amount x \<le> maxCostInteger"
    using assms(2) by (auto simp: fits_def)
  note est = A[THEN conjunct2, THEN conjunct2, THEN conjunct2, THEN conjunct2, THEN conjunct2, THEN conjunct2,
      THEN conjunct2, THEN conjunct1]
  show ?thesis
  proof (cases "isPriced x")
    case True
    with e(1) obtain m where m: "tc_EstimatedUSDMicros (snd x) = Some m" by (auto simp: entryOK_def)
    have am: "amount x = m" using True m by (simp add: amount_def isPriced_def)
    have "addCostInteger (ag_estimatedUSDMicros a) m = Inr (ag_estimatedUSDMicros a + m)"
      using est b am e weight_ge(6)[OF e(2)] by (intro addCostInteger_ok) (auto simp: entryOK_def)
    then have "addAggregate x a = Inr (a1\<lparr>ag_pricedTurnCount := ag_pricedTurnCount a + 1,
        ag_estimatedUSDMicros := ag_estimatedUSDMicros a + m\<rparr>)"
      unfolding add using True m by (simp add: addAmount_def isPriced_def a1_def)
    moreover have "accIs ?ys (a1\<lparr>ag_pricedTurnCount := ag_pricedTurnCount a + 1,
        ag_estimatedUSDMicros := ag_estimatedUSDMicros a + m\<rparr>)"
      using A i(2) c(2) q(2) r(2) True am by (simp add: accIs_def a1_def)
    ultimately show ?thesis by blast
  next
    case False
    then have am: "amount x = 0" by (simp add: amount_def isPriced_def)
    from False have "addAggregate x a = Inr (a1\<lparr>ag_unpricedTurnCount := ag_unpricedTurnCount a + 1\<rparr>)"
      unfolding add by (simp add: addAmount_def isPriced_def a1_def)
    moreover have "accIs ?ys (a1\<lparr>ag_unpricedTurnCount := ag_unpricedTurnCount a + 1\<rparr>)"
      using A i(2) c(2) q(2) r(2) False am by (simp add: accIs_def a1_def)
    ultimately show ?thesis by blast
  qed
qed

lemma totals_ok:
  assumes "accIs xs a" and "fits xs"
  shows "totals t a = Inr (rollup t xs)"
proof -
  let ?I = "cf_InputTokens \<circ> fst" and ?C = "cf_CachedInputTokens \<circ> fst" and ?O = "cf_OutputTokens \<circ> fst"
    and ?R = "cf_ReasoningTokens \<circ> fst"
  have ok: "\<forall>x \<in> set xs. entryOK x" and b: "(\<Sum>x \<leftarrow> xs. weight x) \<le> maxCostInteger" using assms(2) by (auto simp: fits_def)
  note w = weight_ge[OF ok]
  note p = nonneg_sum[OF w(1)] nonneg_sum[OF w(2)] nonneg_sum[OF w(3)] nonneg_sum[OF w(4)]
  have ptr: "pointerOf (ag_input a) = known ?I xs" "pointerOf (ag_cached a) = known ?C xs"
    "pointerOf (ag_output a) = known ?O xs" "pointerOf (ag_reasoning a) = known ?R xs"
    using assms(1) sumIs_pointer by (auto simp: accIs_def)
  have tt: "totalTokens (known ?I xs) (known ?C xs) (known ?O xs) (known ?R xs) =
    Inr (if known ?I xs = None \<or> known ?C xs = None \<or> known ?O xs = None \<or> known ?R xs = None then None
         else Some (\<Sum>x \<leftarrow> xs. weight x))"
  proof (cases "known ?I xs = None \<or> known ?C xs = None \<or> known ?O xs = None \<or> known ?R xs = None")
    case True
    then show ?thesis by (auto simp: totalTokens_def split: option.split)
  next
    case False
    then have k: "known ?I xs = Some (\<Sum>x \<leftarrow> xs. val (?I x))" "known ?C xs = Some (\<Sum>x \<leftarrow> xs. val (?C x))"
      "known ?O xs = Some (\<Sum>x \<leftarrow> xs. val (?O x))" "known ?R xs = Some (\<Sum>x \<leftarrow> xs. val (?R x))"
      by (auto simp: known_def split: if_splits)
    let ?i = "\<Sum>x \<leftarrow> xs. val (?I x)" and ?c = "\<Sum>x \<leftarrow> xs. val (?C x)" and ?o = "\<Sum>x \<leftarrow> xs. val (?O x)"
      and ?r = "\<Sum>x \<leftarrow> xs. val (?R x)"
    have "addCostInteger 0 ?i = Inr ?i" "addCostInteger ?i ?c = Inr (?i + ?c)"
      "addCostInteger (?i + ?c) ?o = Inr (?i + ?c + ?o)" "addCostInteger (?i + ?c + ?o) ?r = Inr (\<Sum>x \<leftarrow> xs. weight x)"
      using p b w(5) addCostInteger_ok[of 0 ?i] addCostInteger_ok[of ?i ?c] addCostInteger_ok[of "?i + ?c" ?o]
        addCostInteger_ok[of "?i + ?c + ?o" ?r] by simp_all
    then show ?thesis unfolding k by (simp add: totalTokens_def)
  qed
  have pr: "0 < int (length (filter isPriced xs)) \<longleftrightarrow> (\<exists>x \<in> set xs. isPriced x)"
    by (simp add: filter_empty_conv)
  show ?thesis
    using assms(1) unfolding totals_def Let_def ptr tt accIs_def by (simp add: rollup_def Let_def pr filter_empty_conv)
qed

section \<open>Lemmas: groups\<close>

lemma sum_filter_le:
  assumes "\<And>x. x \<in> set xs \<Longrightarrow> 0 \<le> (g x :: int)"
  shows "(\<Sum>x \<leftarrow> filter P xs. g x) \<le> (\<Sum>x \<leftarrow> xs. g x)"
  using assms by (induction xs) (auto simp: add_increasing)

lemma entryOK_weight: "entryOK x \<Longrightarrow> 0 \<le> weight x"
  by (simp add: entryOK_def weight_def)

lemma entryOK_amount: "entryOK x \<Longrightarrow> 0 \<le> amount x"
  by (simp add: entryOK_def)

lemma fits_filter:
  assumes "fits xs"
  shows "fits (filter P xs)"
proof -
  have e: "\<forall>x \<in> set xs. entryOK x" using assms by (simp add: fits_def)
  have "(\<Sum>x \<leftarrow> filter P xs. weight x) \<le> (\<Sum>x \<leftarrow> xs. weight x)" "(\<Sum>x \<leftarrow> filter P xs. amount x) \<le> (\<Sum>x \<leftarrow> xs. amount x)"
    using e by (auto intro!: sum_filter_le entryOK_weight entryOK_amount)
  moreover have "length (filter P xs) \<le> length xs" by simp
  then have "int (length (filter P xs)) \<le> int (length xs)" by linarith
  moreover have "\<forall>x \<in> set (filter P xs). entryOK x" using e by simp
  ultimately show ?thesis using assms unfolding fits_def by linarith
qed

lemma fits_prefix:
  assumes "fits (xs @ ys)"
  shows "fits xs"
proof -
  have e: "\<forall>x \<in> set (xs @ ys). entryOK x" using assms by (simp add: fits_def)
  then have "0 \<le> (\<Sum>x \<leftarrow> ys. weight x)" "0 \<le> (\<Sum>x \<leftarrow> ys. amount x)"
    by (auto intro!: sum_list_nonneg entryOK_weight entryOK_amount)
  with assms show ?thesis by (auto simp: fits_def)
qed

definition part :: "('a \<Rightarrow> 'k) \<Rightarrow> 'a list \<Rightarrow> 'k \<Rightarrow> 'a list" where
  "part k xs key = filter (\<lambda>x. k x = key) xs"

definition groupsAre ::
  "(costFactModel \<times> TurnCost \<Rightarrow> 'k) \<Rightarrow> (costFactModel \<times> TurnCost) list \<Rightarrow> ('k, aggregateAccumulator) fmap \<Rightarrow> bool" where
  "groupsAre k xs G \<longleftrightarrow>
     (\<forall>key. case fmlookup G key of None \<Rightarrow> part k xs key = [] | Some a \<Rightarrow> part k xs key \<noteq> [] \<and> accIs (part k xs key) a)"

lemma groupsAre_empty: "groupsAre k [] fmempty"
  by (simp add: groupsAre_def part_def)

lemma addGroup_ok:
  assumes "groupsAre k xs G" and "fits (xs @ [x])"
  shows "\<exists>G'. addGroup (k x) x G = Inr G' \<and> groupsAre k (xs @ [x]) G'"
proof -
  define a where "a = (case fmlookup G (k x) of None \<Rightarrow> newAggregateAccumulator | Some a \<Rightarrow> a)"
  have "accIs (part k xs (k x)) a"
    using assms(1)[unfolded groupsAre_def, rule_format, of "k x"] accIs_new
    by (simp add: a_def split: option.splits)
  moreover have p: "part k (xs @ [x]) (k x) = part k xs (k x) @ [x]" by (simp add: part_def)
  moreover have "fits (part k (xs @ [x]) (k x))" unfolding part_def by (rule fits_filter[OF assms(2)])
  ultimately obtain a' where a': "addAggregate x a = Inr a'" "accIs (part k (xs @ [x]) (k x)) a'"
    using addAggregate_ok by (metis (no_types, lifting))
  have "groupsAre k (xs @ [x]) (fmupd (k x) a' G)"
    unfolding groupsAre_def
  proof
    fix key
    have q: "key \<noteq> k x \<Longrightarrow> part k (xs @ [x]) key = part k xs key" by (auto simp: part_def)
    show "case fmlookup (fmupd (k x) a' G) key of None \<Rightarrow> part k (xs @ [x]) key = []
        | Some a \<Rightarrow> part k (xs @ [x]) key \<noteq> [] \<and> accIs (part k (xs @ [x]) key) a"
      using assms(1)[unfolded groupsAre_def, rule_format, of key] a'(2) p q
      by (cases "key = k x"; cases "fmlookup G key") auto
  qed
  with a'(1) show ?thesis by (simp add: addGroup_def a_def[symmetric] Let_def)
qed

lemma groupsAre_dom:
  assumes "groupsAre k xs G"
  shows "fset (fmdom G) = k ` set xs"
proof -
  have "key |\<in>| fmdom G \<longleftrightarrow> part k xs key \<noteq> []" for key
    using assms[unfolded groupsAre_def, rule_format, of key] by (auto simp: fmlookup_dom_iff split: option.splits)
  then show ?thesis by (auto simp: part_def filter_empty_conv)
qed

text \<open>Walking over the keys of a group map and collecting what \<open>row\<close> makes of each group's totals.\<close>

lemma foldTotals_ok:
  assumes "groupsAre k xs G" and "fits xs" and "set order \<subseteq> k ` set xs"
  shows "foldE (\<lambda>key vs. case fmlookup G key of None \<Rightarrow> Inr vs
      | Some a \<Rightarrow> andThen (totals t a) (\<lambda>v. Inr (vs @ [row key v]))) order vs =
    Inr (vs @ map (\<lambda>key. row key (rollup t (part k xs key))) order)"
proof -
  have one: "\<exists>a. fmlookup G key = Some a \<and> totals t a = Inr (rollup t (part k xs key))" if "key \<in> k ` set xs" for key
  proof -
    have "part k xs key \<noteq> []" using that by (auto simp: part_def filter_empty_conv)
    with assms(1)[unfolded groupsAre_def, rule_format, of key] obtain a where
      "fmlookup G key = Some a" "accIs (part k xs key) a" by (auto split: option.splits)
    with totals_ok[OF this(2)] fits_filter[OF assms(2)] show ?thesis by (auto simp: part_def)
  qed
  show ?thesis
    using assms(3)
  proof (induction order arbitrary: vs)
    case (Cons key order)
    then have "key \<in> k ` set xs" by simp
    from one[OF this] obtain a where "fmlookup G key = Some a" "totals t a = Inr (rollup t (part k xs key))" by blast
    with Cons show ?case by simp
  qed simp
qed

lemma groupTotals_ok:
  assumes "groupsAre k xs G" and "fits xs" and "set order \<subseteq> k ` set xs"
  shows "groupTotals t G order = Inr (map (\<lambda>key. rollup t (part k xs key)) order)"
  using foldTotals_ok[OF assms, of t "\<lambda>_ v. v" "[]"] by (simp add: groupTotals_def)

section \<open>Lemmas: reconciliation\<close>

lemma sum_parts:
  fixes g :: "'a \<Rightarrow> int"
  assumes "distinct order" and "k ` set xs \<subseteq> set order"
  shows "(\<Sum>key \<leftarrow> order. \<Sum>x \<leftarrow> part k xs key. g x) = (\<Sum>x \<leftarrow> xs. g x)"
  using assms(2)
proof (induction xs)
  case Nil
  then show ?case by (simp add: part_def)
next
  case (Cons x xs)
  have "(\<Sum>key \<leftarrow> order. \<Sum>y \<leftarrow> part k (x # xs) key. g y) =
      (\<Sum>key \<leftarrow> order. (if k x = key then g x else 0) + (\<Sum>y \<leftarrow> part k xs key. g y))"
    by (rule arg_cong[where f = sum_list]) (auto simp: part_def)
  also have "\<dots> = (\<Sum>key \<leftarrow> order. if k x = key then g x else 0) + (\<Sum>key \<leftarrow> order. \<Sum>y \<leftarrow> part k xs key. g y)"
    by (rule sum_list_addf)
  also have "(\<Sum>key \<leftarrow> order. if k x = key then g x else 0) = (\<Sum>key \<in> set order. if k x = key then g x else 0)"
    using assms(1) by (rule sum_list_distinct_conv_sum_set)
  also have "\<dots> = g x" using Cons.prems by simp
  finally show ?case using Cons by simp
qed

definition recIs :: "RollupTotals list \<Rightarrow> reconcileState \<Rightarrow> bool" where
  "recIs vs s \<longleftrightarrow>
     rs_turnCount s = (\<Sum>v \<leftarrow> vs. ro_TurnCount v) \<and> rs_pricedCount s = (\<Sum>v \<leftarrow> vs. ro_PricedTurnCount v) \<and>
     rs_unpricedCount s = (\<Sum>v \<leftarrow> vs. ro_UnpricedTurnCount v) \<and>
     rs_estimated s = (\<Sum>v \<leftarrow> vs. val (ro_EstimatedUSDMicros v)) \<and>
     sumIs ro_InputTokens vs (rs_input s) \<and> sumIs ro_CachedInputTokens vs (rs_cached s) \<and>
     sumIs ro_OutputTokens vs (rs_output s) \<and> sumIs ro_ReasoningTokens vs (rs_reasoning s)"

text \<open>The nine columns a reconciliation adds up.\<close>

definition columns :: "(RollupTotals \<Rightarrow> int64 option) list" where
  "columns = [Some \<circ> ro_TurnCount, Some \<circ> ro_PricedTurnCount, Some \<circ> ro_UnpricedTurnCount, ro_EstimatedUSDMicros,
     ro_InputTokens, ro_CachedInputTokens, ro_OutputTokens, ro_ReasoningTokens]"

definition recFits :: "RollupTotals list \<Rightarrow> bool" where
  "recFits vs \<longleftrightarrow> (\<forall>f \<in> set columns. nonneg f vs \<and> (\<Sum>v \<leftarrow> vs. val (f v)) \<le> maxCostInteger)"

lemma recFits_prefix: "recFits (vs @ ws) \<Longrightarrow> recFits vs"
  using nonneg_sum by (fastforce simp: recFits_def)

lemma reconcileStep_ok:
  assumes "recIs vs s" and "recFits (vs @ [v])"
  shows "\<exists>s'. reconcileStep v s = Inr s' \<and> recIs (vs @ [v]) s'"
proof -
  have F: "nonneg f (vs @ [v])" "(\<Sum>v \<leftarrow> vs @ [v]. val (f v)) \<le> maxCostInteger" if "f \<in> set columns" for f
    using assms(2) that by (auto simp: recFits_def)
  have int: "addCostInteger (\<Sum>v \<leftarrow> vs. val (f v)) (val (f v)) = Inr ((\<Sum>v \<leftarrow> vs. val (f v)) + val (f v))"
    if "f \<in> set columns" for f
    using F[OF that] nonneg_sum[of f vs] by (intro addCostInteger_ok) (auto simp: nonneg_def)
  have nul: "\<exists>n'. addNullable (f v) n = Inr n' \<and> sumIs f (vs @ [v]) n'" if "f \<in> set columns" "sumIs f vs n" for f n
    using addNullable_ok[OF that(2)] F[OF that(1)] by blast
  note S = assms(1)[unfolded recIs_def]
  have c: "addCostInteger (rs_turnCount s) (ro_TurnCount v) = Inr (rs_turnCount s + ro_TurnCount v)"
    "addCostInteger (rs_pricedCount s) (ro_PricedTurnCount v) = Inr (rs_pricedCount s + ro_PricedTurnCount v)"
    "addCostInteger (rs_unpricedCount s) (ro_UnpricedTurnCount v) = Inr (rs_unpricedCount s + ro_UnpricedTurnCount v)"
    using int[of "Some \<circ> ro_TurnCount"] int[of "Some \<circ> ro_PricedTurnCount"] int[of "Some \<circ> ro_UnpricedTurnCount"] S
    by (simp_all add: columns_def)
  have e: "(case ro_EstimatedUSDMicros v of None \<Rightarrow> Inr (rs_estimated s) | Some m \<Rightarrow> addCostInteger (rs_estimated s) m) =
      Inr (rs_estimated s + val (ro_EstimatedUSDMicros v))"
    using int[of ro_EstimatedUSDMicros] S by (cases "ro_EstimatedUSDMicros v") (simp_all add: columns_def)
  obtain i where i: "addNullable (ro_InputTokens v) (rs_input s) = Inr i" "sumIs ro_InputTokens (vs @ [v]) i"
    using nul[of ro_InputTokens "rs_input s"] S by (auto simp: columns_def)
  obtain h where h: "addNullable (ro_CachedInputTokens v) (rs_cached s) = Inr h" "sumIs ro_CachedInputTokens (vs @ [v]) h"
    using nul[of ro_CachedInputTokens "rs_cached s"] S by (auto simp: columns_def)
  obtain q where q: "addNullable (ro_OutputTokens v) (rs_output s) = Inr q" "sumIs ro_OutputTokens (vs @ [v]) q"
    using nul[of ro_OutputTokens "rs_output s"] S by (auto simp: columns_def)
  obtain r where r: "addNullable (ro_ReasoningTokens v) (rs_reasoning s) = Inr r" "sumIs ro_ReasoningTokens (vs @ [v]) r"
    using nul[of ro_ReasoningTokens "rs_reasoning s"] S by (auto simp: columns_def)
  show ?thesis using S i h q r c e by (simp add: reconcileStep_def recIs_def)
qed

lemma reconcileFold_ok:
  "recIs vs s \<Longrightarrow> recFits (vs @ ws) \<Longrightarrow> \<exists>s'. foldE reconcileStep ws s = Inr s' \<and> recIs (vs @ ws) s'"
proof (induction ws arbitrary: vs s)
  case (Cons w ws)
  from Cons.prems(2) recFits_prefix[of "vs @ [w]" ws] have "recFits (vs @ [w])" by simp
  from reconcileStep_ok[OF Cons.prems(1) this] obtain s1 where s1: "reconcileStep w s = Inr s1" "recIs (vs @ [w]) s1" by blast
  from Cons.IH[OF s1(2)] Cons.prems(2) s1(1) show ?case by simp
qed simp

lemma known_parts:
  assumes "distinct order" and "set order = k ` set xs"
  shows "known (\<lambda>key. known f (part k xs key)) order = known f xs"
proof -
  have all: "(\<forall>key \<in> set order. known f (part k xs key) \<noteq> None) \<longleftrightarrow> (\<forall>x \<in> set xs. f x \<noteq> None)"
    unfolding assms(2) by (auto simp: known_def part_def)
  show ?thesis
  proof (cases "\<forall>x \<in> set xs. f x \<noteq> None")
    case True
    then have "val (known f (part k xs key)) = (\<Sum>x \<leftarrow> part k xs key. val (f x))" for key
      by (simp add: known_def part_def)
    then have "(\<Sum>key \<leftarrow> order. val (known f (part k xs key))) = (\<Sum>x \<leftarrow> xs. val (f x))"
      using sum_parts[OF assms(1), of k xs "\<lambda>x. val (f x)"] assms(2) by simp
    with True all show ?thesis by (simp add: known_def[of _ order] known_def[of f xs])
  next
    case False
    with all show ?thesis by (metis known_def)
  qed
qed

lemma known_map: "known f (map h xs) = known (f \<circ> h) xs"
  by (simp add: known_def comp_def)

lemma known_val_le: "nonneg f xs \<Longrightarrow> 0 \<le> val (known f xs) \<and> val (known f xs) \<le> (\<Sum>x \<leftarrow> xs. val (f x))"
  using nonneg_sum[of f xs] by (simp add: known_def)

lemma nonneg_part: "nonneg f xs \<Longrightarrow> nonneg f (part k xs key)"
  by (auto simp: nonneg_def part_def)

lemma column_parts:
  assumes "distinct order" and "set order = k ` set xs" and "nonneg f xs" and "(\<Sum>x \<leftarrow> xs. val (f x)) \<le> maxCostInteger"
  shows "nonneg (\<lambda>key. known f (part k xs key)) order"
    "(\<Sum>key \<leftarrow> order. val (known f (part k xs key))) \<le> maxCostInteger"
proof -
  note le = known_val_le[OF nonneg_part[OF assms(3), of k]]
  then show "nonneg (\<lambda>key. known f (part k xs key)) order" by (simp add: nonneg_def)
  have "(\<Sum>key \<leftarrow> order. val (known f (part k xs key))) \<le> (\<Sum>key \<leftarrow> order. \<Sum>x \<leftarrow> part k xs key. val (f x))"
    using le by (intro sum_list_mono) blast
  with sum_parts[OF assms(1), of k xs "\<lambda>x. val (f x)"] assms(2,4)
  show "(\<Sum>key \<leftarrow> order. val (known f (part k xs key))) \<le> maxCostInteger" by simp
qed

lemma rollup_columns:
  "ro_InputTokens (rollup t xs) = known (cf_InputTokens \<circ> fst) xs"
  "ro_CachedInputTokens (rollup t xs) = known (cf_CachedInputTokens \<circ> fst) xs"
  "ro_OutputTokens (rollup t xs) = known (cf_OutputTokens \<circ> fst) xs"
  "ro_ReasoningTokens (rollup t xs) = known (cf_ReasoningTokens \<circ> fst) xs"
  "Some (ro_TurnCount (rollup t xs)) = known (\<lambda>x. Some 1) xs"
  "Some (ro_PricedTurnCount (rollup t xs)) = known (\<lambda>x. Some (if isPriced x then 1 else 0)) xs"
  "Some (ro_UnpricedTurnCount (rollup t xs)) = known (\<lambda>x. Some (if isPriced x then 0 else 1)) xs"
  "val (ro_EstimatedUSDMicros (rollup t xs)) = val (known (Some \<circ> amount) xs)"
proof -
  show "Some (ro_TurnCount (rollup t xs)) = known (\<lambda>x. Some 1) xs"
    by (simp add: rollup_def Let_def known_def sum_list_triv)
  show "Some (ro_PricedTurnCount (rollup t xs)) = known (\<lambda>x. Some (if isPriced x then 1 else 0)) xs"
    by (induction xs) (auto simp: rollup_def Let_def known_def)
  show "Some (ro_UnpricedTurnCount (rollup t xs)) = known (\<lambda>x. Some (if isPriced x then 0 else 1)) xs"
    by (induction xs) (auto simp: rollup_def Let_def known_def)
  have "(\<forall>x \<in> set xs. \<not> isPriced x) \<Longrightarrow> (\<Sum>x \<leftarrow> xs. amount x) = 0"
    by (induction xs) (auto simp: amount_def isPriced_def)
  then show "val (ro_EstimatedUSDMicros (rollup t xs)) = val (known (Some \<circ> amount) xs)"
    by (auto simp: rollup_def Let_def known_def)
qed (simp_all add: rollup_def Let_def)

text \<open>The column of the group totals that sums \<open>g\<close> over the turns.\<close>

lemma column_of_parts:
  assumes "distinct order" and "set order = k ` set xs" and "nonneg g xs" and "(\<Sum>x \<leftarrow> xs. val (g x)) \<le> maxCostInteger"
    and "\<And>ys. val (f (rollup t ys)) = val (known g ys)"
  defines "vs \<equiv> map (\<lambda>key. rollup t (part k xs key)) order"
  shows "nonneg f vs" "(\<Sum>v \<leftarrow> vs. val (f v)) \<le> maxCostInteger"
    "(\<And>ys. f (rollup t ys) = known g ys) \<Longrightarrow> known f vs = known g xs"
    "(\<And>x. g x \<noteq> None) \<Longrightarrow> (\<Sum>v \<leftarrow> vs. val (f v)) = val (known g xs)"
proof -
  note c = column_parts[OF assms(1-4)]
  show "nonneg f vs" using c(1) by (auto simp: vs_def nonneg_def assms(5))
  show "(\<Sum>v \<leftarrow> vs. val (f v)) \<le> maxCostInteger" using c(2) by (simp add: vs_def assms(5) comp_def)
  show "known f vs = known g xs" if "\<And>ys. f (rollup t ys) = known g ys"
    using known_parts[OF assms(1,2), of g] by (simp add: vs_def known_map that comp_def)
  show "(\<Sum>v \<leftarrow> vs. val (f v)) = val (known g xs)" if "\<And>x. g x \<noteq> None"
    using known_parts[OF assms(1,2), of g] that
    by (simp add: vs_def assms(5) comp_def known_def[of _ order]) (metis known_def option.discI val_simps(2))
qed

lemma count_fits:
  assumes "fits xs"
  shows "(\<Sum>x \<leftarrow> xs. val (Some (1 :: int))) \<le> maxCostInteger"
    "(\<Sum>x \<leftarrow> xs. val (Some (if isPriced x then 1 else 0))) \<le> maxCostInteger"
    "(\<Sum>x \<leftarrow> xs. val (Some (if isPriced x then 0 else 1))) \<le> maxCostInteger"
proof -
  have n: "int (length xs) \<le> maxCostInteger" using assms by (simp add: fits_def)
  then show "(\<Sum>x \<leftarrow> xs. val (Some (1 :: int))) \<le> maxCostInteger" by (simp add: sum_list_triv)
  have "(\<Sum>x \<leftarrow> xs. val (Some (if P x then 1 else 0))) \<le> int (length xs)"
    "(\<Sum>x \<leftarrow> xs. val (Some (if P x then 0 else 1))) \<le> int (length xs)" for P
    by (induction xs) auto
  with n show "(\<Sum>x \<leftarrow> xs. val (Some (if isPriced x then 1 else 0))) \<le> maxCostInteger"
    "(\<Sum>x \<leftarrow> xs. val (Some (if isPriced x then 0 else 1))) \<le> maxCostInteger"
    using order_trans by blast+
qed

lemma reconcile_ok:
  assumes "fits xs" and "distinct order" and "set order = k ` set xs"
  shows "reconcileRollupTotals (rollup t xs) (map (\<lambda>key. rollup t (part k xs key)) order) = Inr ()"
proof -
  define vs where "vs = map (\<lambda>key. rollup t (part k xs key)) order"
  note col = column_of_parts[OF assms(2,3), where t = t, folded vs_def]
  note cls = class_fits[OF assms(1)] and cnt = count_fits[OF assms(1)] and rc = rollup_columns[of t]
  have am: "nonneg (Some \<circ> amount) xs" "(\<Sum>x \<leftarrow> xs. val ((Some \<circ> amount) x)) \<le> maxCostInteger"
    using assms(1) entryOK_amount by (auto simp: fits_def nonneg_def comp_def)
  have n: "nonneg (\<lambda>x. Some 1) xs" "nonneg (\<lambda>x. Some (if isPriced x then 1 else 0)) xs"
    "nonneg (\<lambda>x. Some (if isPriced x then 0 else 1)) xs" by (auto simp: nonneg_def)
  have v: "val ((Some \<circ> ro_TurnCount) (rollup t ys)) = val (known (\<lambda>x. Some 1) ys)"
    "val ((Some \<circ> ro_PricedTurnCount) (rollup t ys)) = val (known (\<lambda>x. Some (if isPriced x then 1 else 0)) ys)"
    "val ((Some \<circ> ro_UnpricedTurnCount) (rollup t ys)) = val (known (\<lambda>x. Some (if isPriced x then 0 else 1)) ys)" for ys
    by (simp_all only: rc[symmetric] comp_def)
  note T = col[OF n(1) cnt(1) v(1)] and Q = col[OF n(2) cnt(2) v(2)] and U = col[OF n(3) cnt(3) v(3)]
    and E = col[OF am rc(8)]
  let ?cs = "{cf_InputTokens \<circ> fst, cf_CachedInputTokens \<circ> fst, cf_OutputTokens \<circ> fst, cf_ReasoningTokens \<circ> fst}"
  have K: "nonneg f vs" "(\<Sum>v \<leftarrow> vs. val (f v)) \<le> maxCostInteger" "known f vs = f (rollup t xs)"
    if "\<And>ys. f (rollup t ys) = known g ys" "g \<in> ?cs" for f g
  proof -
    note k = col[OF cls(1)[OF that(2)] cls(2)[OF that(2)] arg_cong[OF that(1), of val]]
    show "nonneg f vs" "(\<Sum>v \<leftarrow> vs. val (f v)) \<le> maxCostInteger" by (fact k(1), fact k(2))
    show "known f vs = f (rollup t xs)" unfolding that(1) by (rule k(3)[OF that(1)])
  qed
  have mem: "cf_InputTokens \<circ> fst \<in> ?cs" "cf_CachedInputTokens \<circ> fst \<in> ?cs" "cf_OutputTokens \<circ> fst \<in> ?cs"
    "cf_ReasoningTokens \<circ> fst \<in> ?cs" by blast+
  note I = K[OF rc(1) mem(1)] and C = K[OF rc(2) mem(2)] and O = K[OF rc(3) mem(3)] and R = K[OF rc(4) mem(4)]
  have "recFits vs"
    unfolding recFits_def columns_def list.set
    using T(1,2) Q(1,2) U(1,2) E(1,2) I(1,2) C(1,2) O(1,2) R(1,2) by blast
  moreover have "recIs [] reconcileStart" by (simp add: recIs_def reconcileStart_def sumIs_new)
  ultimately obtain s where s: "foldE reconcileStep vs reconcileStart = Inr s" "recIs vs s"
    using reconcileFold_ok[of "[]" reconcileStart vs] by auto
  have tq: "rs_turnCount s = ro_TurnCount (rollup t xs)" "rs_pricedCount s = ro_PricedTurnCount (rollup t xs)"
    "rs_unpricedCount s = ro_UnpricedTurnCount (rollup t xs)" "rs_estimated s = val (ro_EstimatedUSDMicros (rollup t xs))"
    using s(2) T(4) Q(4) U(4) E(4) v[of xs] rc(8)[of xs] by (simp_all add: recIs_def comp_def)
  have pp: "pointerOf (rs_input s) = ro_InputTokens (rollup t xs)" "pointerOf (rs_cached s) = ro_CachedInputTokens (rollup t xs)"
    "pointerOf (rs_output s) = ro_OutputTokens (rollup t xs)" "pointerOf (rs_reasoning s) = ro_ReasoningTokens (rollup t xs)"
    using s(2) I(3) C(3) O(3) R(3) sumIs_pointer unfolding recIs_def by fastforce+
  have none: "ro_EstimatedUSDMicros (rollup t xs) = None \<Longrightarrow> ro_PricedTurnCount (rollup t xs) = 0"
    by (auto simp: rollup_def Let_def filter_empty_conv split: if_splits)
  show ?thesis unfolding vs_def[symmetric] reconcileRollupTotals_def s(1) andThen.simps tq pp
    using none by (auto split: option.split)
qed

lemma reconcileGroups_ok:
  assumes "groupsAre key xs G" and "fits xs" and "distinct order" and "set order = fset (fmdom G)"
  shows "reconcileAggregateGroups (rollup t xs) G t order = Inr ()"
proof -
  have o: "set order = key ` set xs" using assms(4) groupsAre_dom[OF assms(1)] by simp
  then have "groupTotals t G order = Inr (map (\<lambda>k. rollup t (part key xs k)) order)"
    using groupTotals_ok[OF assms(1,2)] by blast
  with reconcile_ok[OF assms(2,3) o] show ?thesis by (simp add: reconcileAggregateGroups_def)
qed

lemma addAll_ok:
  assumes "fits xs"
  shows "\<exists>a. foldE addAggregate xs newAggregateAccumulator = Inr a \<and> accIs xs a"
proof -
  have "accIs ys a \<Longrightarrow> fits (ys @ xs) \<Longrightarrow> \<exists>a'. foldE addAggregate xs a = Inr a' \<and> accIs (ys @ xs) a'" for ys a
  proof (induction xs arbitrary: ys a)
    case (Cons x xs)
    from Cons.prems(2) fits_prefix[of "ys @ [x]" xs] have "fits (ys @ [x])" by simp
    from addAggregate_ok[OF Cons.prems(1) this] obtain a1 where a1: "addAggregate x a = Inr a1" "accIs (ys @ [x]) a1" by blast
    from Cons.IH[OF a1(2)] Cons.prems(2) a1(1) show ?case by simp
  qed simp
  from this[OF accIs_new] assms show ?thesis by simp
qed

lemma addGroups_ok:
  assumes "fits xs"
  shows "\<exists>G. foldE (\<lambda>x. addGroup (k x) x) xs fmempty = Inr G \<and> groupsAre k xs G"
proof -
  have "groupsAre k ys G \<Longrightarrow> fits (ys @ xs) \<Longrightarrow> \<exists>G'. foldE (\<lambda>x. addGroup (k x) x) xs G = Inr G' \<and> groupsAre k (ys @ xs) G'" for ys G
  proof (induction xs arbitrary: ys G)
    case (Cons x xs)
    from Cons.prems(2) fits_prefix[of "ys @ [x]" xs] have "fits (ys @ [x])" by simp
    from addGroup_ok[OF Cons.prems(1) this] obtain G1 where G1: "addGroup (k x) x G = Inr G1" "groupsAre k (ys @ [x]) G1" by blast
    from Cons.IH[OF G1(2)] Cons.prems(2) G1(1) show ?case by simp
  qed simp
  from this[OF groupsAre_empty] assms show ?thesis by simp
qed

section \<open>Properties\<close>

text \<open>C30: Every grouping of priced turns reconciles with the overall totals. When the tokens and the
  amounts of all turns together fit an int64, accumulating the turns overall and by any key succeeds,
  the overall totals are the specified sums, which stay unknown exactly when one turn's count is
  unknown, and the reconciliation of the groups with them succeeds in whatever order Go iterates over
  the groups: the reconciliation guards never reject a correctly built ledger.\<close>

theorem rollups_reconcile:
  fixes key :: "costFactModel \<times> TurnCost \<Rightarrow> 'k"
  assumes "fits xs"
  shows "\<exists>a G. foldE addAggregate xs newAggregateAccumulator = Inr a \<and> totals t a = Inr (rollup t xs) \<and>
    foldE (\<lambda>x. addGroup (key x) x) xs fmempty = Inr G \<and>
    (\<forall>order. distinct order \<and> set order = fset (fmdom G) \<longrightarrow>
       reconcileAggregateGroups (rollup t xs) G t order = Inr ())"
proof -
  obtain a where a: "foldE addAggregate xs newAggregateAccumulator = Inr a" "accIs xs a" using addAll_ok[OF assms] by blast
  obtain G where G: "foldE (\<lambda>x. addGroup (key x) x) xs fmempty = Inr G" "groupsAre key xs G"
    using addGroups_ok[OF assms, of key] by blast
  from a(1) totals_ok[OF a(2) assms] G(1) reconcileGroups_ok[OF G(2) assms] show ?thesis by blast
qed

definition ex_entry :: "string \<Rightarrow> int64 option \<Rightarrow> int64 \<Rightarrow> costFactModel \<times> TurnCost" where
  "ex_entry s tokens m =
     (\<lparr>cf_TurnID = s, cf_SessionID = s, cf_ObservedAtMS = m, cf_InputTokens = tokens, cf_CachedInputTokens = Some 0,
       cf_OutputTokens = Some 1, cf_ReasoningTokens = Some 0, cf_AttributionTurnID = None, cf_ProjectID = None,
       cf_ProjectDisplay = None, cf_ProjectConfidence = None, cf_ProjectSource = None, cf_ProjectReason = None,
       cf_ModelKey = None, cf_ModelDisplay = None, cf_ModelConfidence = None, cf_ModelSource = None, cf_ModelReason = None\<rparr>,
      \<lparr>tc_GenerationID = ''g'', tc_TurnID = s, tc_PricingVersion = Some ''v'', tc_EstimatedUSDMicros = Some m,
       tc_Status = CostStatusPriced, tc_Reason = CostReasonPriced, tc_CalculatedAtMS = 9\<rparr>)"

theorem rollups_reconcile_witness:
  "\<exists>a G. foldE addAggregate [ex_entry ''s'' (Some 4) 5, ex_entry ''u'' None 7] newAggregateAccumulator = Inr a \<and>
    totals 9 a = Inr (rollup 9 [ex_entry ''s'' (Some 4) 5, ex_entry ''u'' None 7]) \<and>
    foldE (\<lambda>x. addGroup (cf_SessionID (fst x)) x) [ex_entry ''s'' (Some 4) 5, ex_entry ''u'' None 7] fmempty = Inr G \<and>
    reconcileAggregateGroups (rollup 9 [ex_entry ''s'' (Some 4) 5, ex_entry ''u'' None 7]) G 9 (sorted_list_of_fset (fmdom G)) = Inr ()"
proof -
  have f: "fits [ex_entry ''s'' (Some 4) 5, ex_entry ''u'' None 7]" by code_simp
  have e: "distinct (sorted_list_of_fset S) \<and> set (sorted_list_of_fset S) = fset S" for S :: "string fset"
    by (simp add: sorted_list_of_fset.rep_eq)
  from rollups_reconcile[OF f, of 9 "\<lambda>x. cf_SessionID (fst x)"] e show ?thesis by blast
qed


end
