(* ===== verification/Cost_Ledger.thy ===== *)
theory Cost_Ledger
  imports Cost_Aggregate
begin

text \<open>
  The cost ledger of \<open>src/internal/store/cost_repository.go\<close>: one transaction prices every final
  turn, builds the session, day, project and model rollups of a new generation, reconciles them with
  the overall totals before and after writing them, and makes the generation the active one of its
  timezone. The tables are lists of rows; a row and the record it is read into are one type. Of the tables
  that other parts of the program fill, the columns the ledger reads are modelled. The
  \<open>CHECK\<close> constraints and primary keys of \<open>cost_schema.go\<close> are checked on insertion. The time zone
  database and the iteration order of Go maps are the fields of \<open>cost_env\<close>. Cancellation of the
  context and failures of the database itself are not modelled; a failing transaction changes nothing.
\<close>

datatype CostRollupGenerationState = CostRollupGenerationBuilding | CostRollupGenerationActive | CostRollupGenerationSuperseded

record costRollupGenerationModel =
  cg_GenerationID :: string
  cg_ReportingTimezone :: string
  cg_PricingSource :: string
  cg_Currency :: string
  cg_RollupVersion :: int64
  cg_State :: CostRollupGenerationState
  cg_CreatedAtMS :: int64
  cg_CompletedAtMS :: "int64 option"
  cg_UpdatedAtMS :: int64

record RebuildCostLedgerRequest =
  rq_GenerationID :: string
  rq_ReportingTimezone :: string
  rq_PricingSource :: string
  rq_Currency :: string
  rq_RollupVersion :: int64
  rq_CalculatedAtMS :: int64

record RebuildCostLedgerReport =
  rp_GenerationID :: string
  rp_FinalTurns :: int64
  rp_PricedTurns :: int64
  rp_UnpricedTurns :: int64
  rp_EstimatedUSDMicros :: "int64 option"
  rp_Replayed :: bool

record pricingVersionModel =
  pv_PricingVersion :: string
  pv_Source :: string
  pv_Currency :: string
  pv_EffectiveFromMS :: int64

record modelPriceModel =
  mm_PricingVersion :: string
  mm_Price :: ModelPrice

record turnModel =
  tn_TurnID :: string
  tn_SessionID :: string

record turnUsageModel =
  tu_TurnID :: string
  tu_ObservedAtMS :: int64
  tu_IsFinal :: bool
  tu_InputTokens :: "int64 option"
  tu_CachedInputTokens :: "int64 option"
  tu_OutputTokens :: "int64 option"
  tu_ReasoningTokens :: "int64 option"

record turnAttributionModel =
  ta_TurnID :: string
  ta_ProjectID :: "string option"
  ta_ProjectDisplay :: "string option"
  ta_ProjectConfidence :: string
  ta_ProjectSource :: string
  ta_ProjectReason :: string
  ta_ModelKey :: "string option"
  ta_ModelDisplay :: "string option"
  ta_ModelConfidence :: string
  ta_ModelSource :: string
  ta_ModelReason :: string

record sessionUsageRollupModel =
  sr_GenerationID :: string
  sr_SessionID :: string
  sr_Totals :: RollupTotals

record usageDailyModel =
  ud_GenerationID :: string
  ud_BucketStartMS :: int64
  ud_ReportingTimezone :: string
  ud_Totals :: RollupTotals

text \<open>The project and the model rollups have the same columns.\<close>

record projectUsageDailyModel =
  pd_GenerationID :: string
  pd_BucketStartMS :: int64
  pd_ReportingTimezone :: string
  pd_DimensionKey :: string
  pd_Identity :: "string option"
  pd_DisplayName :: "string option"
  pd_AttributionConfidence :: string
  pd_AttributionSource :: string
  pd_AttributionReason :: string
  pd_Totals :: RollupTotals

type_synonym modelUsageDailyModel = projectUsageDailyModel

record safeDimension =
  sd_key :: string
  sd_confidence :: string
  sd_source :: string
  sd_reason :: string
  sd_identity :: "string option"
  sd_display :: "string option"

type_synonym dimensionBucketKey = "int64 \<times> string"

record cost_db =
  cd_TurnUsage :: "turnUsageModel list"
  cd_Turns :: "turnModel list"
  cd_Attributions :: "turnAttributionModel list"
  cd_PricingVersions :: "pricingVersionModel list"
  cd_ModelPrices :: "modelPriceModel list"
  cd_Generations :: "costRollupGenerationModel list"
  cd_TurnCosts :: "TurnCost list"
  cd_Sessions :: "sessionUsageRollupModel list"
  cd_Daily :: "usageDailyModel list"
  cd_Projects :: "projectUsageDailyModel list"
  cd_Models :: "modelUsageDailyModel list"

record cost_env =
  ce_location :: "string \<Rightarrow> (int64 \<Rightarrow> int64) option"
  ce_strings :: "string fset \<Rightarrow> string list"
  ce_days :: "int64 fset \<Rightarrow> int64 list"
  ce_dims :: "dimensionBucketKey fset \<Rightarrow> dimensionBucketKey list"

section \<open>The price of a turn\<close>

definition modelAttributionCostReason :: "string option \<Rightarrow> CostReason" where
  "modelAttributionCostReason reason =
     (case reason of
        None \<Rightarrow> CostReasonMissingAttribution
      | Some r \<Rightarrow>
          if r = ''conflict'' then CostReasonConflictModel
          else if r = ''invalid'' then CostReasonInvalidModel
          else if r = ''missing'' then CostReasonMissingModel
          else CostReasonMissingAttribution)"

definition laterVersion :: "pricingVersionModel \<Rightarrow> pricingVersionModel \<Rightarrow> bool" where
  "laterVersion v w = (pv_EffectiveFromMS v > pv_EffectiveFromMS w)"

definition effectiveVersion :: "cost_db \<Rightarrow> RebuildCostLedgerRequest \<Rightarrow> int64 \<Rightarrow> pricingVersionModel option" where
  "effectiveVersion db request atMS =
     (case sort_by laterVersion (filter (\<lambda>v. pv_Source v = rq_PricingSource request \<and>
             pv_Currency v = rq_Currency request \<and> pv_EffectiveFromMS v \<le> atMS) (cd_PricingVersions db)) of
        [] \<Rightarrow> None
      | v # _ \<Rightarrow> Some v)"

definition listedPrice :: "cost_db \<Rightarrow> string \<Rightarrow> string \<Rightarrow> ModelPrice option" where
  "listedPrice db version model =
     map_option mm_Price (find (\<lambda>m. mm_PricingVersion m = version \<and> mp_MatchKind (mm_Price m) = ModelMatchExact \<and>
       mp_ModelPattern (mm_Price m) = model) (cd_ModelPrices db))"

definition turnCostForFact :: "cost_db \<Rightarrow> RebuildCostLedgerRequest \<Rightarrow> costFactModel \<Rightarrow> cost_error + TurnCost" where
  "turnCostForFact db request fct =
     (let unpriced = (\<lambda>version reason. \<lparr>tc_GenerationID = rq_GenerationID request, tc_TurnID = cf_TurnID fct,
            tc_PricingVersion = version, tc_EstimatedUSDMicros = None, tc_Status = CostStatusUnpriced,
            tc_Reason = reason, tc_CalculatedAtMS = rq_CalculatedAtMS request\<rparr>)
      in if cf_AttributionTurnID fct = None then Inr (unpriced None CostReasonMissingAttribution)
         else case cf_ModelKey fct of
           None \<Rightarrow> Inr (unpriced None (modelAttributionCostReason (cf_ModelReason fct)))
         | Some model \<Rightarrow>
             (case effectiveVersion db request (cf_ObservedAtMS fct) of
                None \<Rightarrow> Inr (unpriced None CostReasonCatalogNotEffective)
              | Some v \<Rightarrow>
                  (case listedPrice db (pv_PricingVersion v) model of
                     None \<Rightarrow> Inr (unpriced (Some (pv_PricingVersion v)) CostReasonModelNotListed)
                   | Some p \<Rightarrow>
                       (case Calculate
                           \<lparr>us_InputTokens = cf_InputTokens fct, us_CachedInputTokens = cf_CachedInputTokens fct,
                            us_OutputTokens = cf_OutputTokens fct, us_ReasoningTokens = cf_ReasoningTokens fct\<rparr>
                           \<lparr>rt_Input = mp_InputMicrosPerMillion p, rt_CachedInput = mp_CachedInputMicrosPerMillion p,
                            rt_Output = mp_OutputMicrosPerMillion p\<rparr> of
                          Inl e \<Rightarrow> Inl (CostCalculation e)
                        | Inr c \<Rightarrow>
                            Inr ((unpriced (Some (pv_PricingVersion v)) (ca_Reason c))
                                 \<lparr>tc_Status := ca_Status c, tc_EstimatedUSDMicros := ca_EstimatedUSDMicros c\<rparr>)))))"

section \<open>Dimensions\<close>

definition optionalCostDimensionValue :: "string option \<Rightarrow> string \<Rightarrow> string" where
  "optionalCostDimensionValue value fallback =
     (case value of None \<Rightarrow> fallback | Some v \<Rightarrow> if v = [] then fallback else v)"

definition costDimension ::
  "string option \<Rightarrow> string option \<Rightarrow> string option \<Rightarrow> string option \<Rightarrow> string option \<Rightarrow> safeDimension" where
  "costDimension identity display confidence source reason =
     (let safeConfidence = optionalCostDimensionValue confidence ''unknown'';
          safeSource = optionalCostDimensionValue source ''missing'';
          safeReason = optionalCostDimensionValue reason ''missing'';
          unknown = \<lparr>sd_key = ''unknown|'' @ safeConfidence @ ''|'' @ safeSource @ ''|'' @ safeReason,
                     sd_confidence = safeConfidence, sd_source = safeSource, sd_reason = safeReason,
                     sd_identity = None, sd_display = None\<rparr>
      in case (identity, display) of
           (Some i, Some d) \<Rightarrow>
             if i \<noteq> [] \<and> d \<noteq> []
             then \<lparr>sd_key = i, sd_confidence = safeConfidence, sd_source = safeSource, sd_reason = safeReason,
                   sd_identity = Some i, sd_display = Some d\<rparr>
             else unknown
         | _ \<Rightarrow> unknown)"

definition costDimensionConfidenceRank :: "string \<Rightarrow> int" where
  "costDimensionConfidenceRank value =
     (if value = ''high'' then 4 else if value = ''medium'' then 3 else if value = ''low'' then 2
      else if value = ''unknown'' then 1 else 0)"

definition conservativeCostDimensionConfidence :: "string \<Rightarrow> string \<Rightarrow> string" where
  "conservativeCostDimensionConfidence left right =
     (if costDimensionConfidenceRank left \<le> costDimensionConfidenceRank right then left else right)"

definition mergeCostDimensionValue :: "string \<Rightarrow> string \<Rightarrow> string" where
  "mergeCostDimensionValue left right = (if left = right then left else ''mixed'')"

definition recordCostDimension ::
  "dimensionBucketKey \<Rightarrow> safeDimension \<Rightarrow> (dimensionBucketKey, safeDimension) fmap \<Rightarrow>
   cost_error + (dimensionBucketKey, safeDimension) fmap" where
  "recordCostDimension key dimension dimensions =
     (case fmlookup dimensions key of
        None \<Rightarrow> Inr (fmupd key dimension dimensions)
      | Some previous \<Rightarrow>
          if sd_key previous \<noteq> sd_key dimension \<or> sd_identity previous \<noteq> sd_identity dimension
          then Inl CostInvalidRecord
          else if sd_identity previous = None then
            (if sd_display previous \<noteq> sd_display dimension \<or> sd_confidence previous \<noteq> sd_confidence dimension \<or>
                sd_source previous \<noteq> sd_source dimension \<or> sd_reason previous \<noteq> sd_reason dimension
             then Inl CostInvalidRecord else Inr dimensions)
          else Inr (fmupd key (previous\<lparr>
              sd_display := (if sd_display previous \<noteq> sd_display dimension then Some (sd_key previous) else sd_display previous),
              sd_confidence := conservativeCostDimensionConfidence (sd_confidence previous) (sd_confidence dimension),
              sd_source := mergeCostDimensionValue (sd_source previous) (sd_source dimension),
              sd_reason := mergeCostDimensionValue (sd_reason previous) (sd_reason dimension)\<rparr>) dimensions))"

section \<open>Building a generation\<close>

record buildState =
  bs_overall :: aggregateAccumulator
  bs_sessions :: "(string, aggregateAccumulator) fmap"
  bs_days :: "(int64, aggregateAccumulator) fmap"
  bs_projects :: "(dimensionBucketKey, aggregateAccumulator) fmap"
  bs_models :: "(dimensionBucketKey, aggregateAccumulator) fmap"
  bs_projectDimensions :: "(dimensionBucketKey, safeDimension) fmap"
  bs_modelDimensions :: "(dimensionBucketKey, safeDimension) fmap"
  bs_costs :: "TurnCost list"

definition buildStart :: buildState where
  "buildStart =
     \<lparr>bs_overall = newAggregateAccumulator, bs_sessions = fmempty, bs_days = fmempty, bs_projects = fmempty,
      bs_models = fmempty, bs_projectDimensions = fmempty, bs_modelDimensions = fmempty, bs_costs = []\<rparr>"

definition projectDimension :: "costFactModel \<Rightarrow> safeDimension" where
  "projectDimension fct = costDimension (cf_ProjectID fct) (cf_ProjectDisplay fct) (cf_ProjectConfidence fct)
     (cf_ProjectSource fct) (cf_ProjectReason fct)"

definition modelDimension :: "costFactModel \<Rightarrow> safeDimension" where
  "modelDimension fct = costDimension (cf_ModelKey fct) (cf_ModelDisplay fct) (cf_ModelConfidence fct)
     (cf_ModelSource fct) (cf_ModelReason fct)"

definition buildFact ::
  "cost_db \<Rightarrow> RebuildCostLedgerRequest \<Rightarrow> (int64 \<Rightarrow> int64) \<Rightarrow> costFactModel \<Rightarrow> buildState \<Rightarrow> cost_error + buildState" where
  "buildFact db request dayStart fct st =
     (if cf_ObservedAtMS fct > rq_CalculatedAtMS request then Inl CostInvalidRecord
      else andThen (turnCostForFact db request fct) (\<lambda>cost.
        let x = (fct, cost); bucket = dayStart (cf_ObservedAtMS fct);
            projectKey = (bucket, sd_key (projectDimension fct)); modelKey = (bucket, sd_key (modelDimension fct))
        in andThen (addAggregate x (bs_overall st)) (\<lambda>overall.
           andThen (addGroup (cf_SessionID fct) x (bs_sessions st)) (\<lambda>sessions.
           andThen (addGroup bucket x (bs_days st)) (\<lambda>days.
           andThen (recordCostDimension projectKey (projectDimension fct) (bs_projectDimensions st)) (\<lambda>projectDimensions.
           andThen (addGroup projectKey x (bs_projects st)) (\<lambda>projects.
           andThen (recordCostDimension modelKey (modelDimension fct) (bs_modelDimensions st)) (\<lambda>modelDimensions.
           andThen (addGroup modelKey x (bs_models st)) (\<lambda>models.
             Inr \<lparr>bs_overall = overall, bs_sessions = sessions, bs_days = days, bs_projects = projects,
                  bs_models = models, bs_projectDimensions = projectDimensions, bs_modelDimensions = modelDimensions,
                  bs_costs = bs_costs st @ [cost]\<rparr>)))))))))"

text \<open>The rollup rows: one per key of a group map, in the order of the keys.\<close>

definition rollupRows ::
  "int64 \<Rightarrow> ('k \<Rightarrow> RollupTotals \<Rightarrow> 'r) \<Rightarrow> ('k :: linorder, aggregateAccumulator) fmap \<Rightarrow> cost_error + 'r list" where
  "rollupRows updatedAtMS row groups =
     foldE (\<lambda>key rows. case fmlookup groups key of
         None \<Rightarrow> Inr rows
       | Some a \<Rightarrow> andThen (totals updatedAtMS a) (\<lambda>t. Inr (rows @ [row key t])))
       (sorted_list_of_fset (fmdom groups)) []"

definition sessionRow :: "RebuildCostLedgerRequest \<Rightarrow> string \<Rightarrow> RollupTotals \<Rightarrow> sessionUsageRollupModel" where
  "sessionRow request key t = \<lparr>sr_GenerationID = rq_GenerationID request, sr_SessionID = key, sr_Totals = t\<rparr>"

definition dailyRow :: "RebuildCostLedgerRequest \<Rightarrow> int64 \<Rightarrow> RollupTotals \<Rightarrow> usageDailyModel" where
  "dailyRow request key t = \<lparr>ud_GenerationID = rq_GenerationID request, ud_BucketStartMS = key,
     ud_ReportingTimezone = rq_ReportingTimezone request, ud_Totals = t\<rparr>"

definition zeroDimension :: safeDimension where
  "zeroDimension = \<lparr>sd_key = [], sd_confidence = [], sd_source = [], sd_reason = [], sd_identity = None, sd_display = None\<rparr>"

definition dimensionRow ::
  "RebuildCostLedgerRequest \<Rightarrow> (dimensionBucketKey, safeDimension) fmap \<Rightarrow> dimensionBucketKey \<Rightarrow> RollupTotals \<Rightarrow> projectUsageDailyModel" where
  "dimensionRow request dimensions key t =
     (let d = (case fmlookup dimensions key of None \<Rightarrow> zeroDimension | Some d \<Rightarrow> d)
      in \<lparr>pd_GenerationID = rq_GenerationID request, pd_BucketStartMS = fst key,
          pd_ReportingTimezone = rq_ReportingTimezone request, pd_DimensionKey = sd_key d,
          pd_Identity = sd_identity d, pd_DisplayName = sd_display d, pd_AttributionConfidence = sd_confidence d,
          pd_AttributionSource = sd_source d, pd_AttributionReason = sd_reason d, pd_Totals = t\<rparr>)"

definition sessionRollupModels ::
  "RebuildCostLedgerRequest \<Rightarrow> (string, aggregateAccumulator) fmap \<Rightarrow> cost_error + sessionUsageRollupModel list" where
  "sessionRollupModels request groups = rollupRows (rq_CalculatedAtMS request) (sessionRow request) groups"

definition dailyRollupModels ::
  "RebuildCostLedgerRequest \<Rightarrow> (int64, aggregateAccumulator) fmap \<Rightarrow> cost_error + usageDailyModel list" where
  "dailyRollupModels request groups = rollupRows (rq_CalculatedAtMS request) (dailyRow request) groups"

definition projectRollupModels ::
  "RebuildCostLedgerRequest \<Rightarrow> (dimensionBucketKey, aggregateAccumulator) fmap \<Rightarrow> (dimensionBucketKey, safeDimension) fmap \<Rightarrow>
   cost_error + projectUsageDailyModel list" where
  "projectRollupModels request groups dimensions =
     rollupRows (rq_CalculatedAtMS request) (dimensionRow request dimensions) groups"

definition modelRollupModels ::
  "RebuildCostLedgerRequest \<Rightarrow> (dimensionBucketKey, aggregateAccumulator) fmap \<Rightarrow> (dimensionBucketKey, safeDimension) fmap \<Rightarrow>
   cost_error + modelUsageDailyModel list" where
  "modelRollupModels request groups dimensions =
     rollupRows (rq_CalculatedAtMS request) (dimensionRow request dimensions) groups"

section \<open>Tables\<close>

definition totals_check :: "RollupTotals \<Rightarrow> bool" where
  "totals_check t \<longleftrightarrow>
     ro_TurnCount t > 0 \<and> val (ro_InputTokens t) \<ge> 0 \<and> val (ro_CachedInputTokens t) \<ge> 0 \<and>
     val (ro_OutputTokens t) \<ge> 0 \<and> val (ro_ReasoningTokens t) \<ge> 0 \<and> val (ro_TotalTokens t) \<ge> 0 \<and>
     val (ro_EstimatedUSDMicros t) \<ge> 0 \<and> ro_PricedTurnCount t \<ge> 0 \<and> ro_UnpricedTurnCount t \<ge> 0 \<and>
     ro_FirstActivityAtMS t \<ge> 0 \<and> ro_LastActivityAtMS t \<ge> ro_FirstActivityAtMS t \<and>
     ro_UpdatedAtMS t \<ge> ro_LastActivityAtMS t \<and>
     ro_PricedTurnCount t + ro_UnpricedTurnCount t = ro_TurnCount t \<and>
     (ro_PricedTurnCount t = 0) = (ro_EstimatedUSDMicros t = None) \<and>
     (case (ro_InputTokens t, ro_CachedInputTokens t, ro_OutputTokens t, ro_ReasoningTokens t) of
        (Some i, Some c, Some q, Some r) \<Rightarrow> ro_TotalTokens t = Some (i + c + q + r)
      | _ \<Rightarrow> ro_TotalTokens t = None)"

definition turn_costs_check :: "TurnCost \<Rightarrow> bool" where
  "turn_costs_check c \<longleftrightarrow>
     tc_GenerationID c \<noteq> [] \<and> tc_TurnID c \<noteq> [] \<and> tc_PricingVersion c \<noteq> Some [] \<and>
     val (tc_EstimatedUSDMicros c) \<ge> 0 \<and> tc_CalculatedAtMS c \<ge> 0 \<and>
     (if tc_Status c = CostStatusPriced
      then tc_Reason c = CostReasonPriced \<and> tc_PricingVersion c \<noteq> None \<and> tc_EstimatedUSDMicros c \<noteq> None
      else tc_Reason c \<noteq> CostReasonPriced \<and> tc_EstimatedUSDMicros c = None)"

definition session_usage_rollups_check :: "sessionUsageRollupModel \<Rightarrow> bool" where
  "session_usage_rollups_check r \<longleftrightarrow> sr_GenerationID r \<noteq> [] \<and> sr_SessionID r \<noteq> [] \<and> totals_check (sr_Totals r)"

definition usage_daily_check :: "usageDailyModel \<Rightarrow> bool" where
  "usage_daily_check r \<longleftrightarrow>
     ud_GenerationID r \<noteq> [] \<and> ud_BucketStartMS r \<ge> 0 \<and> ud_ReportingTimezone r \<noteq> [] \<and> totals_check (ud_Totals r)"

definition dimension_daily_check :: "projectUsageDailyModel \<Rightarrow> bool" where
  "dimension_daily_check r \<longleftrightarrow>
     pd_GenerationID r \<noteq> [] \<and> pd_BucketStartMS r \<ge> 0 \<and> pd_ReportingTimezone r \<noteq> [] \<and> pd_DimensionKey r \<noteq> [] \<and>
     pd_AttributionConfidence r \<noteq> [] \<and> pd_AttributionSource r \<noteq> [] \<and> pd_AttributionReason r \<noteq> [] \<and>
     (case pd_Identity r of
        None \<Rightarrow> pd_DisplayName r = None
      | Some i \<Rightarrow> i \<noteq> [] \<and> pd_DisplayName r \<noteq> None \<and> pd_DisplayName r \<noteq> Some [] \<and> pd_DimensionKey r = i) \<and>
     totals_check (pd_Totals r)"

definition createCostRows :: "('r \<Rightarrow> 'p) \<Rightarrow> ('r \<Rightarrow> bool) \<Rightarrow> 'r list \<Rightarrow> 'r list \<Rightarrow> cost_error + 'r list" where
  "createCostRows pk check rows table =
     (if rows = [] then Inr table
      else if list_all check rows \<and> distinct (map pk rows) \<and> (\<forall>r \<in> set rows. pk r \<notin> pk ` set table)
      then Inr (table @ rows)
      else Inl CostConstraint)"

definition turn_costs_pk :: "TurnCost \<Rightarrow> string \<times> string" where
  "turn_costs_pk c = (tc_GenerationID c, tc_TurnID c)"

definition session_pk :: "sessionUsageRollupModel \<Rightarrow> string \<times> string" where
  "session_pk r = (sr_GenerationID r, sr_SessionID r)"

definition daily_pk :: "usageDailyModel \<Rightarrow> string \<times> int64" where
  "daily_pk r = (ud_GenerationID r, ud_BucketStartMS r)"

definition dimension_key :: "projectUsageDailyModel \<Rightarrow> dimensionBucketKey" where
  "dimension_key r = (pd_BucketStartMS r, pd_DimensionKey r)"

definition dimension_pk :: "projectUsageDailyModel \<Rightarrow> string \<times> dimensionBucketKey" where
  "dimension_pk r = (pd_GenerationID r, dimension_key r)"

definition loadPersistedCostRows :: "('r \<Rightarrow> string) \<Rightarrow> ('r \<Rightarrow> 'k :: linorder) \<Rightarrow> string \<Rightarrow> 'r list \<Rightarrow> 'r list" where
  "loadPersistedCostRows gen order generationID table = sort_key order (filter (\<lambda>r. gen r = generationID) table)"

definition reportStep :: "TurnCost \<Rightarrow> int64 \<times> int64 \<times> int64 \<Rightarrow> cost_error + (int64 \<times> int64 \<times> int64)" where
  "reportStep c s =
     (let (priced, unpriced, estimated) = s
      in if tc_Status c = CostStatusPriced then
           (case tc_EstimatedUSDMicros c of
              None \<Rightarrow> Inl CostInvalidRecord
            | Some m \<Rightarrow> andThen (addCostInteger estimated m) (\<lambda>y. Inr (priced + 1, unpriced, y)))
         else Inr (priced, unpriced + 1, estimated))"

definition costGenerationReport :: "cost_db \<Rightarrow> string \<Rightarrow> cost_error + RebuildCostLedgerReport" where
  "costGenerationReport db generationID =
     (let rows = filter (\<lambda>c. tc_GenerationID c = generationID) (cd_TurnCosts db)
      in andThen (foldE reportStep rows (0, 0, 0)) (\<lambda>(priced, unpriced, estimated).
           Inr \<lparr>rp_GenerationID = generationID, rp_FinalTurns = int (length rows), rp_PricedTurns = priced,
                rp_UnpricedTurns = unpriced, rp_EstimatedUSDMicros = (if priced > 0 then Some estimated else None),
                rp_Replayed = False\<rparr>))"

definition reconcilePersistedCostGeneration ::
  "cost_db \<Rightarrow> string \<Rightarrow> RollupTotals \<Rightarrow> TurnCost list \<Rightarrow> sessionUsageRollupModel list \<Rightarrow> usageDailyModel list \<Rightarrow>
   projectUsageDailyModel list \<Rightarrow> modelUsageDailyModel list \<Rightarrow> cost_error + unit" where
  "reconcilePersistedCostGeneration db g expected costs sessions daily projects models =
     (let storedCosts = loadPersistedCostRows tc_GenerationID tc_TurnID g (cd_TurnCosts db);
          storedSessions = loadPersistedCostRows sr_GenerationID sr_SessionID g (cd_Sessions db);
          storedDaily = loadPersistedCostRows ud_GenerationID ud_BucketStartMS g (cd_Daily db);
          storedProjects = loadPersistedCostRows pd_GenerationID dimension_key g (cd_Projects db);
          storedModels = loadPersistedCostRows pd_GenerationID dimension_key g (cd_Models db)
      in if costs \<noteq> storedCosts \<or> sessions \<noteq> storedSessions \<or> daily \<noteq> storedDaily \<or> projects \<noteq> storedProjects \<or>
            models \<noteq> storedModels
         then Inl CostInvalidRecord
         else andThen (costGenerationReport db g) (\<lambda>report.
           if rp_FinalTurns report \<noteq> ro_TurnCount expected \<or> rp_PricedTurns report \<noteq> ro_PricedTurnCount expected \<or>
              rp_UnpricedTurns report \<noteq> ro_UnpricedTurnCount expected \<or>
              rp_EstimatedUSDMicros report \<noteq> ro_EstimatedUSDMicros expected
           then Inl CostInvalidRecord
           else andThen (reconcileRollupTotals expected (map sr_Totals storedSessions)) (\<lambda>_.
                andThen (reconcileRollupTotals expected (map ud_Totals storedDaily)) (\<lambda>_.
                andThen (reconcileRollupTotals expected (map pd_Totals storedProjects)) (\<lambda>_.
                reconcileRollupTotals expected (map pd_Totals storedModels))))))"

section \<open>The transaction\<close>

text \<open>The final usage rows, joined with their turn and left-joined with its attribution.\<close>

definition joinFact :: "turnUsageModel \<Rightarrow> turnModel \<Rightarrow> turnAttributionModel option \<Rightarrow> costFactModel" where
  "joinFact u t a =
     \<lparr>cf_TurnID = tu_TurnID u, cf_SessionID = tn_SessionID t, cf_ObservedAtMS = tu_ObservedAtMS u,
      cf_InputTokens = tu_InputTokens u, cf_CachedInputTokens = tu_CachedInputTokens u,
      cf_OutputTokens = tu_OutputTokens u, cf_ReasoningTokens = tu_ReasoningTokens u,
      cf_AttributionTurnID = map_option ta_TurnID a, cf_ProjectID = Option.bind a ta_ProjectID,
      cf_ProjectDisplay = Option.bind a ta_ProjectDisplay, cf_ProjectConfidence = map_option ta_ProjectConfidence a,
      cf_ProjectSource = map_option ta_ProjectSource a, cf_ProjectReason = map_option ta_ProjectReason a,
      cf_ModelKey = Option.bind a ta_ModelKey, cf_ModelDisplay = Option.bind a ta_ModelDisplay,
      cf_ModelConfidence = map_option ta_ModelConfidence a, cf_ModelSource = map_option ta_ModelSource a,
      cf_ModelReason = map_option ta_ModelReason a\<rparr>"

definition attributionsOf :: "cost_db \<Rightarrow> string \<Rightarrow> turnAttributionModel option list" where
  "attributionsOf db turnID =
     (case filter (\<lambda>a. ta_TurnID a = turnID) (cd_Attributions db) of [] \<Rightarrow> [None] | as \<Rightarrow> map Some as)"

definition loadFinalCostFacts :: "cost_db \<Rightarrow> costFactModel list" where
  "loadFinalCostFacts db =
     sort_key cf_TurnID (concat (map (\<lambda>u.
       concat (map (\<lambda>t. map (joinFact u t) (attributionsOf db (tu_TurnID u)))
         (filter (\<lambda>t. tn_TurnID t = tu_TurnID u) (cd_Turns db))))
       (filter tu_IsFinal (cd_TurnUsage db))))"

definition validateCostRebuildRequest :: "cost_env \<Rightarrow> RebuildCostLedgerRequest \<Rightarrow> cost_error + (int64 \<Rightarrow> int64)" where
  "validateCostRebuildRequest env request =
     (if rq_GenerationID request = [] \<or> rq_ReportingTimezone request = [] \<or> rq_PricingSource request = [] \<or>
         rq_Currency request = [] \<or> rq_RollupVersion request \<le> 0 \<or> rq_CalculatedAtMS request < 0
      then Inl CostInvalidRecord
      else case ce_location env (rq_ReportingTimezone request) of
        None \<Rightarrow> Inl CostInvalidRecord
      | Some dayStart \<Rightarrow> Inr dayStart)"

definition generationMatchesRequest :: "costRollupGenerationModel \<Rightarrow> RebuildCostLedgerRequest \<Rightarrow> bool" where
  "generationMatchesRequest m request \<longleftrightarrow>
     cg_GenerationID m = rq_GenerationID request \<and> cg_ReportingTimezone m = rq_ReportingTimezone request \<and>
     cg_PricingSource m = rq_PricingSource request \<and> cg_Currency m = rq_Currency request \<and>
     cg_RollupVersion m = rq_RollupVersion request \<and> cg_CreatedAtMS m = rq_CalculatedAtMS request"

definition newGeneration :: "RebuildCostLedgerRequest \<Rightarrow> costRollupGenerationModel" where
  "newGeneration request =
     \<lparr>cg_GenerationID = rq_GenerationID request, cg_ReportingTimezone = rq_ReportingTimezone request,
      cg_PricingSource = rq_PricingSource request, cg_Currency = rq_Currency request,
      cg_RollupVersion = rq_RollupVersion request, cg_State = CostRollupGenerationBuilding,
      cg_CreatedAtMS = rq_CalculatedAtMS request, cg_CompletedAtMS = None, cg_UpdatedAtMS = rq_CalculatedAtMS request\<rparr>"

definition supersede :: "int64 \<Rightarrow> costRollupGenerationModel \<Rightarrow> costRollupGenerationModel" where
  "supersede atMS g = g\<lparr>cg_State := CostRollupGenerationSuperseded, cg_UpdatedAtMS := atMS\<rparr>"

definition activate :: "int64 \<Rightarrow> costRollupGenerationModel \<Rightarrow> costRollupGenerationModel" where
  "activate atMS g = g\<lparr>cg_State := CostRollupGenerationActive, cg_CompletedAtMS := Some atMS, cg_UpdatedAtMS := atMS\<rparr>"

definition activeIn :: "string \<Rightarrow> costRollupGenerationModel \<Rightarrow> bool" where
  "activeIn tz g \<longleftrightarrow> cg_ReportingTimezone g = tz \<and> cg_State g = CostRollupGenerationActive"

text \<open>The switch of the active generation; the unique index allows one active row per timezone.\<close>

definition switchGeneration ::
  "RebuildCostLedgerRequest \<Rightarrow> costRollupGenerationModel list \<Rightarrow> cost_error + costRollupGenerationModel list" where
  "switchGeneration request gens =
     (let atMS = rq_CalculatedAtMS request;
          superseded = (case find (activeIn (rq_ReportingTimezone request)) gens of
             None \<Rightarrow> Inr gens
           | Some active \<Rightarrow>
               if cg_UpdatedAtMS active > atMS then Inl CostInvalidRecord
               else
                 (let hit = (\<lambda>g. cg_GenerationID g = cg_GenerationID active \<and> cg_State g = CostRollupGenerationActive)
                  in if length (filter hit gens) \<noteq> 1 then Inl CostInvalidRecord
                     else Inr (map (\<lambda>g. if hit g then supersede atMS g else g) gens)))
      in andThen superseded (\<lambda>gens1.
           let hit = (\<lambda>g. cg_GenerationID g = rq_GenerationID request \<and> cg_State g = CostRollupGenerationBuilding);
               gens2 = map (\<lambda>g. if hit g then activate atMS g else g) gens1
           in if length (filter (activeIn (rq_ReportingTimezone request)) gens2) > 1 then Inl CostConstraint
              else if length (filter hit gens1) \<noteq> 1 then Inl CostInvalidRecord
              else Inr gens2))"

definition persistRows ::
  "cost_db \<Rightarrow> TurnCost list \<Rightarrow> sessionUsageRollupModel list \<Rightarrow> usageDailyModel list \<Rightarrow> projectUsageDailyModel list \<Rightarrow>
   modelUsageDailyModel list \<Rightarrow> cost_error + cost_db" where
  "persistRows db costs sessions daily projects models =
     andThen (createCostRows turn_costs_pk turn_costs_check costs (cd_TurnCosts db)) (\<lambda>t1.
     andThen (createCostRows session_pk session_usage_rollups_check sessions (cd_Sessions db)) (\<lambda>t2.
     andThen (createCostRows daily_pk usage_daily_check daily (cd_Daily db)) (\<lambda>t3.
     andThen (createCostRows dimension_pk dimension_daily_check projects (cd_Projects db)) (\<lambda>t4.
     andThen (createCostRows dimension_pk dimension_daily_check models (cd_Models db)) (\<lambda>t5.
       Inr (db\<lparr>cd_TurnCosts := t1, cd_Sessions := t2, cd_Daily := t3, cd_Projects := t4, cd_Models := t5\<rparr>))))))"

definition reconcileBuilt :: "cost_env \<Rightarrow> int64 \<Rightarrow> RollupTotals \<Rightarrow> buildState \<Rightarrow> cost_error + unit" where
  "reconcileBuilt env atMS expected st =
     andThen (reconcileAggregateGroups expected (bs_projects st) atMS (ce_dims env (fmdom (bs_projects st)))) (\<lambda>_.
     andThen (reconcileAggregateGroups expected (bs_models st) atMS (ce_dims env (fmdom (bs_models st)))) (\<lambda>_.
     andThen (reconcileAggregateGroups expected (bs_sessions st) atMS (ce_strings env (fmdom (bs_sessions st)))) (\<lambda>_.
     reconcileAggregateGroups expected (bs_days st) atMS (ce_days env (fmdom (bs_days st))))))"

definition rebuildCostLedgerInTransaction ::
  "cost_env \<Rightarrow> RebuildCostLedgerRequest \<Rightarrow> (int64 \<Rightarrow> int64) \<Rightarrow> cost_db \<Rightarrow> cost_error + (RebuildCostLedgerReport \<times> cost_db)" where
  "rebuildCostLedgerInTransaction env request dayStart db =
     (case find (\<lambda>g. cg_GenerationID g = rq_GenerationID request) (cd_Generations db) of
        Some existing \<Rightarrow>
          if \<not> generationMatchesRequest existing request \<or> cg_State existing = CostRollupGenerationBuilding
          then Inl CostInvalidRecord
          else andThen (costGenerationReport db (rq_GenerationID request)) (\<lambda>report. Inr (report\<lparr>rp_Replayed := True\<rparr>, db))
      | None \<Rightarrow>
          (let db1 = db\<lparr>cd_Generations := cd_Generations db @ [newGeneration request]\<rparr>; atMS = rq_CalculatedAtMS request
           in andThen (foldE (buildFact db1 request dayStart) (loadFinalCostFacts db1) buildStart) (\<lambda>st.
              andThen (totals atMS (bs_overall st)) (\<lambda>expected.
              andThen (reconcileBuilt env atMS expected st) (\<lambda>_.
              andThen (sessionRollupModels request (bs_sessions st)) (\<lambda>sessions.
              andThen (dailyRollupModels request (bs_days st)) (\<lambda>daily.
              andThen (projectRollupModels request (bs_projects st) (bs_projectDimensions st)) (\<lambda>projects.
              andThen (modelRollupModels request (bs_models st) (bs_modelDimensions st)) (\<lambda>models.
              andThen (persistRows db1 (bs_costs st) sessions daily projects models) (\<lambda>db2.
              andThen (reconcilePersistedCostGeneration db2 (rq_GenerationID request) expected (bs_costs st)
                         sessions daily projects models) (\<lambda>_.
              andThen (switchGeneration request (cd_Generations db2)) (\<lambda>gens.
                Inr (\<lparr>rp_GenerationID = rq_GenerationID request, rp_FinalTurns = ro_TurnCount expected,
                      rp_PricedTurns = ro_PricedTurnCount expected, rp_UnpricedTurns = ro_UnpricedTurnCount expected,
                      rp_EstimatedUSDMicros = ro_EstimatedUSDMicros expected, rp_Replayed = False\<rparr>,
                     db2\<lparr>cd_Generations := gens\<rparr>)))))))))))))"

definition RebuildCostLedger ::
  "cost_env \<Rightarrow> RebuildCostLedgerRequest \<Rightarrow> cost_db \<Rightarrow> cost_error + (RebuildCostLedgerReport \<times> cost_db)" where
  "RebuildCostLedger env request db =
     andThen (validateCostRebuildRequest env request) (\<lambda>dayStart. rebuildCostLedgerInTransaction env request dayStart db)"

section \<open>Reading the active ledger\<close>

record CostLedgerSnapshot =
  sn_Generation :: costRollupGenerationModel
  sn_TurnCosts :: "TurnCost list"
  sn_SessionRollups :: "sessionUsageRollupModel list"
  sn_DailyRollups :: "usageDailyModel list"
  sn_ProjectDaily :: "projectUsageDailyModel list"
  sn_ModelDaily :: "modelUsageDailyModel list"

definition loadCostLedgerSnapshot :: "cost_db \<Rightarrow> costRollupGenerationModel \<Rightarrow> CostLedgerSnapshot" where
  "loadCostLedgerSnapshot db g =
     (let i = cg_GenerationID g
      in \<lparr>sn_Generation = g, sn_TurnCosts = loadPersistedCostRows tc_GenerationID tc_TurnID i (cd_TurnCosts db),
          sn_SessionRollups = loadPersistedCostRows sr_GenerationID sr_SessionID i (cd_Sessions db),
          sn_DailyRollups = loadPersistedCostRows ud_GenerationID ud_BucketStartMS i (cd_Daily db),
          sn_ProjectDaily = loadPersistedCostRows pd_GenerationID dimension_key i (cd_Projects db),
          sn_ModelDaily = loadPersistedCostRows pd_GenerationID dimension_key i (cd_Models db)\<rparr>)"

definition ActiveCostLedger :: "cost_env \<Rightarrow> string \<Rightarrow> cost_db \<Rightarrow> cost_error + CostLedgerSnapshot" where
  "ActiveCostLedger env tz db =
     (if tz = [] \<or> ce_location env tz = None then Inl CostInvalidRecord
      else case find (activeIn tz) (cd_Generations db) of
        None \<Rightarrow> Inl CostNotFound
      | Some g \<Rightarrow> Inr (loadCostLedgerSnapshot db g))"

end
