(* ===== verification/Ledger_Properties.thy ===== *)
theory Ledger_Properties
  imports Cost_Ledger
begin

text \<open>
  Correctness of the cost ledger: the invariant of its tables over any sequence of rebuilds, success
  and conservation of a rebuild, its replay, and what a reader of the active ledger sees.
\<close>

section \<open>Lemmas: the switch of generations\<close>

definition gens_inv :: "costRollupGenerationModel list \<Rightarrow> bool" where
  "gens_inv gens \<longleftrightarrow>
     distinct (map cg_GenerationID gens) \<and> (\<forall>g \<in> set gens. cg_State g \<noteq> CostRollupGenerationBuilding) \<and>
     (\<forall>g \<in> set gens. \<forall>h \<in> set gens. cg_State g = CostRollupGenerationActive \<longrightarrow> cg_State h = CostRollupGenerationActive \<longrightarrow>
        cg_ReportingTimezone g = cg_ReportingTimezone h \<longrightarrow> g = h)"

definition switched :: "RebuildCostLedgerRequest \<Rightarrow> costRollupGenerationModel list \<Rightarrow> costRollupGenerationModel list" where
  "switched rq gens =
     map (\<lambda>g. if activeIn (rq_ReportingTimezone rq) g then supersede (rq_CalculatedAtMS rq) g else g) gens @
     [activate (rq_CalculatedAtMS rq) (newGeneration rq)]"

lemma switch_supersede:
  assumes "gens_inv gens" and "rq_GenerationID rq \<notin> cg_GenerationID ` set gens"
  defines "tz \<equiv> rq_ReportingTimezone rq" and "atMS \<equiv> rq_CalculatedAtMS rq" and "new \<equiv> newGeneration rq"
  shows "(case find (activeIn tz) (gens @ [new]) of
       None \<Rightarrow> Inr (gens @ [new])
     | Some active \<Rightarrow>
         if cg_UpdatedAtMS active > atMS then Inl CostInvalidRecord
         else
           (let hit = (\<lambda>g. cg_GenerationID g = cg_GenerationID active \<and> cg_State g = CostRollupGenerationActive)
            in if length (filter hit (gens @ [new])) \<noteq> 1 then Inl CostInvalidRecord
               else Inr (map (\<lambda>g. if hit g then supersede atMS g else g) (gens @ [new])))) =
    (if \<exists>g \<in> set gens. activeIn tz g \<and> cg_UpdatedAtMS g > atMS then Inl CostInvalidRecord
     else Inr (map (\<lambda>g. if activeIn tz g then supersede atMS g else g) gens @ [new]))"
proof -
  have nb: "cg_State new = CostRollupGenerationBuilding" "\<not> activeIn tz new" "cg_GenerationID new = rq_GenerationID rq"
    by (simp_all add: new_def newGeneration_def activeIn_def)
  show ?thesis
  proof (cases "find (activeIn tz) (gens @ [new])")
    case None
    then have "\<forall>g \<in> set gens. \<not> activeIn tz g" by (auto simp: find_None_iff)
    with None show ?thesis by (simp add: map_idI)
  next
    case (Some active)
    then have a: "active \<in> set gens" "activeIn tz active" using nb(2) by (auto simp: find_Some_iff nth_append split: if_splits)
    let ?hit = "\<lambda>g. cg_GenerationID g = cg_GenerationID active \<and> cg_State g = CostRollupGenerationActive"
    have one: "activeIn tz g \<longleftrightarrow> g = active" "?hit g \<longleftrightarrow> g = active" if "g \<in> set gens" for g
      using that a assms(1) by (auto simp: gens_inv_def activeIn_def distinct_map dest: inj_onD)
    have d: "distinct gens" using assms(1) by (auto simp: gens_inv_def distinct_map)
    have "\<not> ?hit new" using nb by simp
    then have len: "length (filter ?hit (gens @ [new])) = 1" using filter_single[OF d a(1), of ?hit] one(2) by simp
    have "map (\<lambda>g. if ?hit g then supersede atMS g else g) (gens @ [new]) =
        map (\<lambda>g. if activeIn tz g then supersede atMS g else g) gens @ [new]"
      using one nb by simp
    moreover have "(\<exists>g \<in> set gens. activeIn tz g \<and> cg_UpdatedAtMS g > atMS) \<longleftrightarrow> cg_UpdatedAtMS active > atMS"
      using one(1) a by auto
    ultimately show ?thesis using Some len by (simp add: Let_def)
  qed
qed

lemma switchGeneration_eq:
  assumes "gens_inv gens" and "rq_GenerationID rq \<notin> cg_GenerationID ` set gens"
  shows "switchGeneration rq (gens @ [newGeneration rq]) =
    (if \<exists>g \<in> set gens. activeIn (rq_ReportingTimezone rq) g \<and> cg_UpdatedAtMS g > rq_CalculatedAtMS rq
     then Inl CostInvalidRecord else Inr (switched rq gens))"
proof -
  let ?tz = "rq_ReportingTimezone rq" and ?at = "rq_CalculatedAtMS rq" and ?new = "newGeneration rq"
  let ?gs = "map (\<lambda>g. if activeIn ?tz g then supersede ?at g else g) gens"
  let ?hit = "\<lambda>g. cg_GenerationID g = rq_GenerationID rq \<and> cg_State g = CostRollupGenerationBuilding"
  have nohit: "\<forall>g \<in> set ?gs. \<not> ?hit g" using assms(2) by (force simp: supersede_def split: if_splits)
  then have "map (\<lambda>g. if ?hit g then activate ?at g else g) ?gs = ?gs" by (intro map_idI) auto
  moreover have "?hit ?new" by (simp add: newGeneration_def)
  ultimately have m: "map (\<lambda>g. if ?hit g then activate ?at g else g) (?gs @ [?new]) = switched rq gens"
    unfolding switched_def map_append by (simp del: map_map)
  have "filter (activeIn ?tz) ?gs = []" by (auto simp: filter_empty_conv supersede_def activeIn_def)
  then have act: "length (filter (activeIn ?tz) (switched rq gens)) = 1"
    by (simp add: switched_def activate_def newGeneration_def activeIn_def)
  have hits: "length (filter ?hit (?gs @ [?new])) = 1"
    using nohit by (simp add: filter_False newGeneration_def)
  show ?thesis
  proof (cases "\<exists>g \<in> set gens. activeIn ?tz g \<and> cg_UpdatedAtMS g > ?at")
    case False
    show ?thesis
      unfolding switchGeneration_def Let_def[of ?at] switch_supersede[OF assms] if_not_P[OF False]
      unfolding Let_def andThen.simps m act hits by simp
  next
    case True
    show ?thesis
      unfolding switchGeneration_def Let_def[of ?at] switch_supersede[OF assms] if_P[OF True] by (simp add: Let_def)
  qed
qed

lemma switched_inv:
  assumes "gens_inv gens" and "rq_GenerationID rq \<notin> cg_GenerationID ` set gens"
  shows "gens_inv (switched rq gens)" "map cg_GenerationID (switched rq gens) = map cg_GenerationID gens @ [rq_GenerationID rq]"
    "find (activeIn (rq_ReportingTimezone rq)) (switched rq gens) = Some (activate (rq_CalculatedAtMS rq) (newGeneration rq))"
proof -
  let ?tz = "rq_ReportingTimezone rq" and ?at = "rq_CalculatedAtMS rq" and ?new = "activate (rq_CalculatedAtMS rq) (newGeneration rq)"
  let ?f = "\<lambda>g. if activeIn ?tz g then supersede ?at g else g"
  have n: "cg_GenerationID ?new = rq_GenerationID rq" "cg_State ?new = CostRollupGenerationActive" "cg_ReportingTimezone ?new = ?tz"
    by (simp_all add: activate_def newGeneration_def)
  have f: "cg_GenerationID (?f g) = cg_GenerationID g" "cg_ReportingTimezone (?f g) = cg_ReportingTimezone g"
    "\<not> activeIn ?tz (?f g)" "cg_State (?f g) = CostRollupGenerationActive \<Longrightarrow> ?f g = g" for g
    by (auto simp: supersede_def activeIn_def)
  show ids: "map cg_GenerationID (switched rq gens) = map cg_GenerationID gens @ [rq_GenerationID rq]"
    using f(1) n(1) by (simp add: switched_def)
  have "find (activeIn ?tz) (map ?f gens) = None" unfolding find_None_iff set_map using f(3) by blast
  then show "find (activeIn ?tz) (switched rq gens) = Some ?new"
    unfolding switched_def using n by (induction gens) (auto simp: activeIn_def split: if_splits)
  show "gens_inv (switched rq gens)"
    unfolding gens_inv_def
  proof (intro conjI ballI impI)
    show "distinct (map cg_GenerationID (switched rq gens))"
      unfolding ids using assms by (auto simp: gens_inv_def)
    show "cg_State g \<noteq> CostRollupGenerationBuilding" if "g \<in> set (switched rq gens)" for g
      using that assms(1) n(2) by (auto simp: switched_def gens_inv_def supersede_def split: if_splits)
    fix g h assume gh: "g \<in> set (switched rq gens)" "h \<in> set (switched rq gens)"
      "cg_State g = CostRollupGenerationActive" "cg_State h = CostRollupGenerationActive"
      "cg_ReportingTimezone g = cg_ReportingTimezone h"
    have sp: "x = ?new \<or> (x \<in> set gens \<and> cg_ReportingTimezone x \<noteq> ?tz)"
      if "x \<in> set (switched rq gens)" "cg_State x = CostRollupGenerationActive" for x
      using that f(4) by (auto simp: switched_def supersede_def activeIn_def split: if_splits)
    from sp[OF gh(1,3)] sp[OF gh(2,4)] gh(3-5) n(3) assms(1) show "g = h" by (auto simp: gens_inv_def)
  qed
qed

section \<open>Lemmas: the tables of a generation\<close>

text \<open>A stored generation reconciles when its report exists and agrees with totals that every one of
  its four rollup tables adds up to.\<close>

definition generation_reconciles :: "cost_db \<Rightarrow> string \<Rightarrow> bool" where
  "generation_reconciles db g \<longleftrightarrow> (\<exists>expected report.
     costGenerationReport db g = Inr report \<and>
     rp_FinalTurns report = ro_TurnCount expected \<and> rp_PricedTurns report = ro_PricedTurnCount expected \<and>
     rp_UnpricedTurns report = ro_UnpricedTurnCount expected \<and>
     rp_EstimatedUSDMicros report = ro_EstimatedUSDMicros expected \<and>
     reconcileRollupTotals expected (map sr_Totals (loadPersistedCostRows sr_GenerationID sr_SessionID g (cd_Sessions db))) = Inr () \<and>
     reconcileRollupTotals expected (map ud_Totals (loadPersistedCostRows ud_GenerationID ud_BucketStartMS g (cd_Daily db))) = Inr () \<and>
     reconcileRollupTotals expected (map pd_Totals (loadPersistedCostRows pd_GenerationID dimension_key g (cd_Projects db))) = Inr () \<and>
     reconcileRollupTotals expected (map pd_Totals (loadPersistedCostRows pd_GenerationID dimension_key g (cd_Models db))) = Inr ())"

text \<open>The rows of one generation, table by table.\<close>

definition rows_of :: "string \<Rightarrow> cost_db \<Rightarrow> TurnCost list \<times> sessionUsageRollupModel list \<times> usageDailyModel list \<times>
    projectUsageDailyModel list \<times> modelUsageDailyModel list" where
  "rows_of g db =
     (filter (\<lambda>c. tc_GenerationID c = g) (cd_TurnCosts db), filter (\<lambda>r. sr_GenerationID r = g) (cd_Sessions db),
      filter (\<lambda>r. ud_GenerationID r = g) (cd_Daily db), filter (\<lambda>r. pd_GenerationID r = g) (cd_Projects db),
      filter (\<lambda>r. pd_GenerationID r = g) (cd_Models db))"

lemma generation_reconciles_cong:
  assumes "rows_of g db = rows_of g db'"
  shows "generation_reconciles db g = generation_reconciles db' g"
  using assms unfolding rows_of_def generation_reconciles_def costGenerationReport_def loadPersistedCostRows_def prod.inject
  by simp

definition table_ok :: "('r \<Rightarrow> 'p) \<Rightarrow> ('r \<Rightarrow> bool) \<Rightarrow> ('r \<Rightarrow> string) \<Rightarrow> string set \<Rightarrow> 'r list \<Rightarrow> bool" where
  "table_ok pk check gen ids table \<longleftrightarrow>
     distinct (map pk table) \<and> list_all check table \<and> gen ` set table \<subseteq> ids"

text \<open>The invariant of the ledger's tables.\<close>

definition ledger_inv :: "cost_db \<Rightarrow> bool" where
  "ledger_inv db \<longleftrightarrow>
     (let ids = cg_GenerationID ` set (cd_Generations db)
      in gens_inv (cd_Generations db) \<and>
         table_ok turn_costs_pk turn_costs_check tc_GenerationID ids (cd_TurnCosts db) \<and>
         table_ok session_pk session_usage_rollups_check sr_GenerationID ids (cd_Sessions db) \<and>
         table_ok daily_pk usage_daily_check ud_GenerationID ids (cd_Daily db) \<and>
         table_ok dimension_pk dimension_daily_check pd_GenerationID ids (cd_Projects db) \<and>
         table_ok dimension_pk dimension_daily_check pd_GenerationID ids (cd_Models db) \<and>
         (\<forall>i \<in> ids. generation_reconciles db i))"

lemma createCostRows_ok:
  assumes "createCostRows pk check rows table = Inr table'" and "table_ok pk check gen ids table"
    and "\<forall>r \<in> set rows. gen r = g"
  shows "table' = table @ rows" "table_ok pk check gen (insert g ids) table'"
    "h \<noteq> g \<Longrightarrow> filter (\<lambda>r. gen r = h) table' = filter (\<lambda>r. gen r = h) table"
proof -
  show t: "table' = table @ rows" using assms(1) by (auto simp: createCostRows_def split: if_splits)
  show "table_ok pk check gen (insert g ids) table'"
    using assms unfolding t by (auto simp: createCostRows_def table_ok_def split: if_splits) (metis image_eqI)
  show "filter (\<lambda>r. gen r = h) table' = filter (\<lambda>r. gen r = h) table" if "h \<noteq> g"
    using assms(3) that unfolding t by (auto simp: filter_empty_conv)
qed

lemma loaded_generation: "\<forall>r \<in> set (loadPersistedCostRows gen order g table). gen r = g"
  by (simp add: loadPersistedCostRows_def)

lemma reconcilePersisted_ok:
  assumes "reconcilePersistedCostGeneration db g expected costs sessions daily projects models = Inr ()"
  shows "generation_reconciles db g" "costs = loadPersistedCostRows tc_GenerationID tc_TurnID g (cd_TurnCosts db)"
    "sessions = loadPersistedCostRows sr_GenerationID sr_SessionID g (cd_Sessions db)"
    "daily = loadPersistedCostRows ud_GenerationID ud_BucketStartMS g (cd_Daily db)"
    "projects = loadPersistedCostRows pd_GenerationID dimension_key g (cd_Projects db)"
    "models = loadPersistedCostRows pd_GenerationID dimension_key g (cd_Models db)"
    "\<exists>report. costGenerationReport db g = Inr report \<and> rp_FinalTurns report = ro_TurnCount expected \<and>
       rp_PricedTurns report = ro_PricedTurnCount expected \<and> rp_UnpricedTurns report = ro_UnpricedTurnCount expected \<and>
       rp_EstimatedUSDMicros report = ro_EstimatedUSDMicros expected"
  using assms unfolding reconcilePersistedCostGeneration_def generation_reconciles_def Let_def
  by (auto simp: andThen_Inr split: if_splits)

section \<open>Lemmas: one rebuild\<close>

text \<open>What a rebuild that creates a generation leaves behind, whatever the facts and prices are.\<close>

lemma rebuild_creates:
  assumes "rebuildCostLedgerInTransaction env rq dayStart db = Inr (report, db')"
    and "rq_GenerationID rq \<notin> cg_GenerationID ` set (cd_Generations db)" and "ledger_inv db"
  shows "ledger_inv db'" and "cd_Generations db' = switched rq (cd_Generations db)"
    and "h \<noteq> rq_GenerationID rq \<Longrightarrow> rows_of h db' = rows_of h db"
    and "costGenerationReport db' (rq_GenerationID rq) = Inr report"
proof -
  let ?g = "rq_GenerationID rq" and ?gens = "cd_Generations db"
  let ?db1 = "db\<lparr>cd_Generations := ?gens @ [newGeneration rq]\<rparr>"
  have "find (\<lambda>g. cg_GenerationID g = ?g) ?gens = None" using assms(2) by (force simp: find_None_iff)
  note none = this
  obtain st :: buildState and expected :: RollupTotals and sessions daily projects models db2 gens where
    p: "persistRows ?db1 (bs_costs st) sessions daily projects models = Inr db2"
    and rp: "\<lparr>rp_GenerationID = ?g, rp_FinalTurns = ro_TurnCount expected,
      rp_PricedTurns = ro_PricedTurnCount expected, rp_UnpricedTurns = ro_UnpricedTurnCount expected,
      rp_EstimatedUSDMicros = ro_EstimatedUSDMicros expected, rp_Replayed = False\<rparr> = report"
    and sw: "switchGeneration rq (cd_Generations db2) = Inr gens" and db': "db2\<lparr>cd_Generations := gens\<rparr> = db'"
    and rec: "reconcilePersistedCostGeneration db2 ?g expected (bs_costs st) sessions daily projects models = Inr ()"
    using assms(1) unfolding rebuildCostLedgerInTransaction_def none Let_def andThen_Inr option.simps sum.inject prod.inject
    by (elim exE conjE) (rule that, assumption+, simp)
  note r = reconcilePersisted_ok[OF rec]
  have own: "\<forall>c \<in> set (bs_costs st). tc_GenerationID c = ?g" "\<forall>x \<in> set sessions. sr_GenerationID x = ?g"
    "\<forall>x \<in> set daily. ud_GenerationID x = ?g" "\<forall>x \<in> set projects. pd_GenerationID x = ?g"
    "\<forall>x \<in> set models. pd_GenerationID x = ?g"
    using r(2-6) loaded_generation by metis+
  obtain t1 t2 t3 t4 t5 where
    t: "createCostRows turn_costs_pk turn_costs_check (bs_costs st) (cd_TurnCosts db) = Inr t1"
      "createCostRows session_pk session_usage_rollups_check sessions (cd_Sessions db) = Inr t2"
      "createCostRows daily_pk usage_daily_check daily (cd_Daily db) = Inr t3"
      "createCostRows dimension_pk dimension_daily_check projects (cd_Projects db) = Inr t4"
      "createCostRows dimension_pk dimension_daily_check models (cd_Models db) = Inr t5"
    and db2: "db2 = ?db1\<lparr>cd_TurnCosts := t1, cd_Sessions := t2, cd_Daily := t3, cd_Projects := t4, cd_Models := t5\<rparr>"
    using p by (auto simp: persistRows_def andThen_Inr)
  let ?ids = "cg_GenerationID ` set ?gens"
  have inv: "gens_inv ?gens" "table_ok turn_costs_pk turn_costs_check tc_GenerationID ?ids (cd_TurnCosts db)"
    "table_ok session_pk session_usage_rollups_check sr_GenerationID ?ids (cd_Sessions db)"
    "table_ok daily_pk usage_daily_check ud_GenerationID ?ids (cd_Daily db)"
    "table_ok dimension_pk dimension_daily_check pd_GenerationID ?ids (cd_Projects db)"
    "table_ok dimension_pk dimension_daily_check pd_GenerationID ?ids (cd_Models db)"
    "\<forall>i \<in> ?ids. generation_reconciles db i"
    using assms(3) by (simp_all add: ledger_inv_def Let_def)
  note c1 = createCostRows_ok[OF t(1) inv(2) own(1)]
    and c2 = createCostRows_ok[OF t(2) inv(3) own(2)]
    and c3 = createCostRows_ok[OF t(3) inv(4) own(3)]
    and c4 = createCostRows_ok[OF t(4) inv(5) own(4)]
    and c5 = createCostRows_ok[OF t(5) inv(6) own(5)]
  have gens: "gens = switched rq ?gens"
    using sw switchGeneration_eq[OF inv(1) assms(2)] by (simp add: db2 split: if_splits)
  then show gg: "cd_Generations db' = switched rq ?gens" by (simp add: db'[symmetric])
  note sg = switched_inv[OF inv(1) assms(2)]
  have ids: "cg_GenerationID ` set (switched rq ?gens) = insert ?g ?ids"
    using arg_cong[OF sg(2), of set] by simp
  have same: "rows_of h db' = rows_of h db" if "h \<noteq> ?g" for h
    unfolding rows_of_def using c1(3) c2(3) c3(3) c4(3) c5(3) that by (simp add: db'[symmetric] db2)
  then show "h \<noteq> ?g \<Longrightarrow> rows_of h db' = rows_of h db" .
  have new: "generation_reconciles db' ?g"
    using r(1) generation_reconciles_cong[of ?g db2 db'] by (simp add: db'[symmetric] rows_of_def)
  have "generation_reconciles db' i" if "i \<in> insert ?g ?ids" for i
    using that new inv(7) generation_reconciles_cong[OF same, of i] by (cases "i = ?g") auto
  with sg(1) c1(2) c2(2) c3(2) c4(2) c5(2) show "ledger_inv db'"
    by (simp add: ledger_inv_def Let_def gg ids) (simp add: db'[symmetric] db2)
  obtain rep where rep: "costGenerationReport db2 ?g = Inr rep" "rp_FinalTurns rep = ro_TurnCount expected"
    "rp_PricedTurns rep = ro_PricedTurnCount expected" "rp_UnpricedTurns rep = ro_UnpricedTurnCount expected"
    "rp_EstimatedUSDMicros rep = ro_EstimatedUSDMicros expected" using r(7) by blast
  moreover have "rp_GenerationID rep = ?g" "\<not> rp_Replayed rep"
    using rep(1) by (auto simp: costGenerationReport_def Let_def andThen_Inr)
  ultimately have "rep = report" by (simp add: rp[symmetric])
  with rep(1) show "costGenerationReport db' ?g = Inr report" by (simp add: db'[symmetric] costGenerationReport_def)
qed

text \<open>A request for a generation that exists is answered from its stored rows.\<close>

lemma rebuild_replays:
  assumes "rebuildCostLedgerInTransaction env rq dayStart db = Inr (report, db')"
    and "rq_GenerationID rq \<in> cg_GenerationID ` set (cd_Generations db)"
  shows "db' = db" "rp_Replayed report"
proof -
  obtain g where "find (\<lambda>g. cg_GenerationID g = rq_GenerationID rq) (cd_Generations db) = Some g"
    using assms(2) by (cases "find (\<lambda>g. cg_GenerationID g = rq_GenerationID rq) (cd_Generations db)") (auto simp: find_None_iff)
  then show "db' = db" "rp_Replayed report"
    using assms(1) by (auto simp: rebuildCostLedgerInTransaction_def andThen_Inr split: if_splits)
qed

lemma rebuild_inv:
  assumes "RebuildCostLedger env rq db = Inr (report, db')" and "ledger_inv db"
  shows "ledger_inv db'"
  using assms rebuild_creates(1) rebuild_replays(1)
  by (cases "rq_GenerationID rq \<in> cg_GenerationID ` set (cd_Generations db)") (fastforce simp: RebuildCostLedger_def andThen_Inr)+

text \<open>The ledger as a machine: rebuilds, and changes of the turns and the price lists by the rest of the program.\<close>

datatype ledger_event =
  Rebuild cost_env RebuildCostLedgerRequest
| ReplaceSources "turnUsageModel list" "turnModel list" "turnAttributionModel list" "pricingVersionModel list" "modelPriceModel list"

definition ledger_step :: "cost_db \<Rightarrow> ledger_event \<Rightarrow> cost_db" where
  "ledger_step db e =
     (case e of
        Rebuild env rq \<Rightarrow> (case RebuildCostLedger env rq db of Inl _ \<Rightarrow> db | Inr (_, db') \<Rightarrow> db')
      | ReplaceSources usage turns attributions versions prices \<Rightarrow>
          db\<lparr>cd_TurnUsage := usage, cd_Turns := turns, cd_Attributions := attributions, cd_PricingVersions := versions,
             cd_ModelPrices := prices\<rparr>)"

definition emptyLedger :: cost_db where
  "emptyLedger = \<lparr>cd_TurnUsage = [], cd_Turns = [], cd_Attributions = [], cd_PricingVersions = [], cd_ModelPrices = [], cd_Generations = [], cd_TurnCosts = [],
     cd_Sessions = [], cd_Daily = [], cd_Projects = [], cd_Models = []\<rparr>"

lemma emptyLedger_inv: "ledger_inv emptyLedger"
  by (simp add: ledger_inv_def emptyLedger_def gens_inv_def table_ok_def)

interpretation ledger: event_machine ledger_step "\<lambda>_. True" ledger_inv
proof
  fix db e assume "ledger_inv db"
  then show "ledger_inv (ledger_step db e)"
  proof (cases e)
    case (ReplaceSources usage turns attributions versions prices)
    have "generation_reconciles (ledger_step db e) i = generation_reconciles db i" for i
      by (rule generation_reconciles_cong) (simp add: rows_of_def ledger_step_def ReplaceSources)
    with \<open>ledger_inv db\<close> show ?thesis by (simp add: ledger_inv_def Let_def) (simp add: ledger_step_def ReplaceSources)
  qed (auto simp: ledger_step_def rebuild_inv split: sum.splits)
qed

lemmas ledger_run_inv = ledger.inv_run[OF emptyLedger_inv TrueI]

section \<open>Properties\<close>


text \<open>C29: A rebuild that creates a generation is what a reader sees next. The active ledger of its
  timezone is the new generation with its own rows, its report is the one computed from the stored
  turn costs, the rows of every other generation are untouched and their state changes only from active
  to superseded, and sending the same request again changes nothing and returns the same report marked
  as replayed.\<close>

theorem rebuild_visible_and_replayable:
  assumes "ledger_inv db" and "rq_GenerationID rq \<notin> cg_GenerationID ` set (cd_Generations db)"
    and "RebuildCostLedger env rq db = Inr (report, db')"
  shows "ActiveCostLedger env (rq_ReportingTimezone rq) db' =
      Inr (loadCostLedgerSnapshot db' (activate (rq_CalculatedAtMS rq) (newGeneration rq))) \<and>
    RebuildCostLedger env rq db' = Inr (report\<lparr>rp_Replayed := True\<rparr>, db') \<and> \<not> rp_Replayed report \<and>
    (\<forall>g. g \<noteq> rq_GenerationID rq \<longrightarrow> rows_of g db' = rows_of g db) \<and>
    cd_Generations db' = map (\<lambda>g. if activeIn (rq_ReportingTimezone rq) g then supersede (rq_CalculatedAtMS rq) g else g)
      (cd_Generations db) @ [activate (rq_CalculatedAtMS rq) (newGeneration rq)]"
proof -
  let ?new = "activate (rq_CalculatedAtMS rq) (newGeneration rq)"
  obtain dayStart where v: "validateCostRebuildRequest env rq = Inr dayStart"
    and t: "rebuildCostLedgerInTransaction env rq dayStart db = Inr (report, db')"
    using assms(3) by (auto simp: RebuildCostLedger_def andThen_Inr)
  note c = rebuild_creates[OF t assms(2,1)]
  have gi: "gens_inv (cd_Generations db)" using assms(1) by (simp add: ledger_inv_def Let_def)
  note sg = switched_inv[OF gi assms(2), folded c(2)]
  have loc: "rq_ReportingTimezone rq \<noteq> []" "ce_location env (rq_ReportingTimezone rq) \<noteq> None"
    using v by (auto simp: validateCostRebuildRequest_def split: if_splits option.splits)
  then have a: "ActiveCostLedger env (rq_ReportingTimezone rq) db' = Inr (loadCostLedgerSnapshot db' ?new)"
    using sg(3) by (simp add: ActiveCostLedger_def)
  have mem: "?new \<in> set (cd_Generations db')" "cg_GenerationID ?new = rq_GenerationID rq"
    by (simp_all add: c(2) switched_def activate_def newGeneration_def)
  have "find (\<lambda>g. cg_GenerationID g = rq_GenerationID rq) (cd_Generations db') = Some ?new"
    by (rule find_unique[where key = cg_GenerationID]) (use mem sg(1) in \<open>auto simp: gens_inv_def\<close>)
  moreover have "generationMatchesRequest ?new rq" "cg_State ?new \<noteq> CostRollupGenerationBuilding"
    by (simp_all add: generationMatchesRequest_def activate_def newGeneration_def)
  ultimately have r: "RebuildCostLedger env rq db' = Inr (report\<lparr>rp_Replayed := True\<rparr>, db')"
    using v c(4) by (simp add: RebuildCostLedger_def rebuildCostLedgerInTransaction_def)
  have n: "\<not> rp_Replayed report" using c(4) by (auto simp: costGenerationReport_def Let_def andThen_Inr)
  from a r n c(3) c(2)[unfolded switched_def] show ?thesis by blast
qed

definition ex_usage :: turnUsageModel where
  "ex_usage = \<lparr>tu_TurnID = ''t'', tu_ObservedAtMS = 5, tu_IsFinal = True, tu_InputTokens = Some 1000000,
     tu_CachedInputTokens = Some 0, tu_OutputTokens = Some 0, tu_ReasoningTokens = Some 0\<rparr>"

definition ex_attribution :: turnAttributionModel where
  "ex_attribution = \<lparr>ta_TurnID = ''t'', ta_ProjectID = Some ''p'', ta_ProjectDisplay = Some ''p'', ta_ProjectConfidence = ''high'',
     ta_ProjectSource = ''cwd'', ta_ProjectReason = ''ok'', ta_ModelKey = Some ''m'', ta_ModelDisplay = Some ''m'',
     ta_ModelConfidence = ''high'', ta_ModelSource = ''turn'', ta_ModelReason = ''ok''\<rparr>"

definition ex_ledger :: cost_db where
  "ex_ledger = emptyLedger\<lparr>cd_TurnUsage := [ex_usage], cd_Turns := [\<lparr>tn_TurnID = ''t'', tn_SessionID = ''s''\<rparr>],
     cd_Attributions := [ex_attribution],
     cd_PricingVersions := [\<lparr>pv_PricingVersion = ''v'', pv_Source = ''openai'', pv_Currency = ''USD'', pv_EffectiveFromMS = 0\<rparr>],
     cd_ModelPrices := [\<lparr>mm_PricingVersion = ''v'', mm_Price = exactPrice ''m'' 3 2 1\<rparr>]\<rparr>"

definition ex_env :: cost_env where
  "ex_env = \<lparr>ce_location = (\<lambda>tz. if tz = ''UTC'' then Some (\<lambda>t. t - t mod 86400000) else None),
     ce_strings = sorted_list_of_fset, ce_days = sorted_list_of_fset, ce_dims = sorted_list_of_fset\<rparr>"

definition ex_request :: "string \<Rightarrow> int64 \<Rightarrow> RebuildCostLedgerRequest" where
  "ex_request g t = \<lparr>rq_GenerationID = g, rq_ReportingTimezone = ''UTC'', rq_PricingSource = ''openai'', rq_Currency = ''USD'',
     rq_RollupVersion = 1, rq_CalculatedAtMS = t\<rparr>"

theorem rebuild_visible_and_replayable_witness:
  "\<exists>report db'. RebuildCostLedger ex_env (ex_request ''g1'' 9) ex_ledger = Inr (report, db') \<and>
    rp_EstimatedUSDMicros report = Some 3 \<and>
    RebuildCostLedger ex_env (ex_request ''g1'' 9) db' = Inr (report\<lparr>rp_Replayed := True\<rparr>, db')"
proof -
  have "case RebuildCostLedger ex_env (ex_request ''g1'' 9) ex_ledger of
      Inl _ \<Rightarrow> False | Inr (r, _) \<Rightarrow> rp_EstimatedUSDMicros r = Some 3"
    by code_simp
  then obtain report db' where run: "RebuildCostLedger ex_env (ex_request ''g1'' 9) ex_ledger = Inr (report, db')"
    "rp_EstimatedUSDMicros report = Some 3" by (auto split: sum.splits prod.splits)
  have "ledger_inv ex_ledger" "rq_GenerationID (ex_request ''g1'' 9) \<notin> cg_GenerationID ` set (cd_Generations ex_ledger)"
    by (simp_all add: ledger_inv_def ex_ledger_def emptyLedger_def gens_inv_def table_ok_def)
  from rebuild_visible_and_replayable[OF this run(1)] run show ?thesis by blast
qed

end
