(* ===== verification/Ledger_Rebuild.thy ===== *)
theory Ledger_Rebuild
  imports Ledger_Properties
begin

text \<open>
  Total correctness of the cost rebuild: under the stated conditions on the facts, the prices and the
  active generation, every guard of the transaction passes and the stored rows are the specified
  rollups.
\<close>

section \<open>Lemmas: dimensions\<close>

definition dimOK :: "safeDimension \<Rightarrow> bool" where
  "dimOK d \<longleftrightarrow> sd_key d \<noteq> [] \<and> sd_confidence d \<noteq> [] \<and> sd_source d \<noteq> [] \<and> sd_reason d \<noteq> [] \<and>
     (case sd_identity d of None \<Rightarrow> sd_display d = None
      | Some i \<Rightarrow> i \<noteq> [] \<and> sd_display d \<noteq> None \<and> sd_display d \<noteq> Some [] \<and> sd_key d = i)"

lemma optional_nonempty: "fallback \<noteq> [] \<Longrightarrow> optionalCostDimensionValue v fallback \<noteq> []"
  by (simp add: optionalCostDimensionValue_def split: option.split)

lemma costDimension_ok: "dimOK (costDimension i d c s r)"
  by (auto simp: costDimension_def dimOK_def Let_def optional_nonempty split: option.split)

text \<open>Facts that share a dimension key agree on the identity, and on everything when there is none.\<close>

definition coherent :: "('a \<Rightarrow> safeDimension) \<Rightarrow> 'a list \<Rightarrow> bool" where
  "coherent f xs \<longleftrightarrow> (\<forall>x \<in> set xs. \<forall>y \<in> set xs. sd_key (f x) = sd_key (f y) \<longrightarrow>
     sd_identity (f x) = sd_identity (f y) \<and> (sd_identity (f x) = None \<longrightarrow> f x = f y))"

lemma coherent_pair: "coherent f xs \<Longrightarrow> x \<in> set xs \<Longrightarrow> y \<in> set xs \<Longrightarrow> sd_key (f x) = sd_key (f y) \<Longrightarrow>
    sd_identity (f x) = sd_identity (f y) \<and> (sd_identity (f x) = None \<longrightarrow> f x = f y)"
  unfolding coherent_def by blast

definition describes :: "safeDimension \<Rightarrow> safeDimension \<Rightarrow> bool" where
  "describes d e \<longleftrightarrow> dimOK d \<and> sd_key d = sd_key e \<and> sd_identity d = sd_identity e \<and> (sd_identity d = None \<longrightarrow> d = e)"

definition dimsAre :: "('a \<Rightarrow> safeDimension) \<Rightarrow> ('a \<Rightarrow> int64) \<Rightarrow> 'a list \<Rightarrow> (dimensionBucketKey, safeDimension) fmap \<Rightarrow> bool" where
  "dimsAre f b xs D \<longleftrightarrow> (\<forall>key. case fmlookup D key of
       None \<Rightarrow> \<forall>x \<in> set xs. (b x, sd_key (f x)) \<noteq> key
     | Some d \<Rightarrow> \<exists>x \<in> set xs. (b x, sd_key (f x)) = key \<and> describes d (f x))"

lemma dimsAre_empty: "dimsAre f b [] fmempty"
  by (simp add: dimsAre_def)

lemma dimsAre_Some: "dimsAre f b xs D \<Longrightarrow> fmlookup D key = Some d \<Longrightarrow> \<exists>x \<in> set xs. (b x, sd_key (f x)) = key \<and> describes d (f x)"
  unfolding dimsAre_def by (elim allE[of _ key]) simp

lemma dimsAre_upd:
  assumes "dimsAre f b xs D" and "describes d (f x)"
  shows "dimsAre f b (xs @ [x]) (fmupd (b x, sd_key (f x)) d D)"
  unfolding dimsAre_def
proof
  fix key
  show "case fmlookup (fmupd (b x, sd_key (f x)) d D) key of None \<Rightarrow> \<forall>x \<in> set (xs @ [x]). (b x, sd_key (f x)) \<noteq> key
     | Some d \<Rightarrow> \<exists>x \<in> set (xs @ [x]). (b x, sd_key (f x)) = key \<and> describes d (f x)"
    using assms(1)[unfolded dimsAre_def, rule_format, of key] assms(2)
    by (cases "key = (b x, sd_key (f x))"; cases "fmlookup D key") auto
qed

lemma fmupd_same: "fmlookup m k = Some v \<Longrightarrow> fmupd k v m = m"
  by (rule fmap_ext) auto

lemma recordCostDimension_ok:
  assumes "dimsAre f b xs D" and "coherent f (xs @ [x])" and "dimOK (f x)"
  shows "\<exists>D'. recordCostDimension (b x, sd_key (f x)) (f x) D = Inr D' \<and> dimsAre f b (xs @ [x]) D'"
proof (cases "fmlookup D (b x, sd_key (f x))")
  case None
  then show ?thesis using dimsAre_upd[OF assms(1), of "f x" x] assms(3) by (simp add: recordCostDimension_def describes_def)
next
  case (Some p)
  from dimsAre_Some[OF assms(1) Some] obtain y where
    y0: "y \<in> set xs" "(b y, sd_key (f y)) = (b x, sd_key (f x))" "describes p (f y)" by blast
  note d = y0(3)[unfolded describes_def]
  have y: "y \<in> set xs" "sd_key (f y) = sd_key (f x)" "sd_identity p = sd_identity (f y)" "sd_identity p = None \<longrightarrow> p = f y"
    using y0(1,2) d by blast+
  have p: "dimOK p" "sd_key p = sd_key (f x)" using d y(2) by (blast, simp only:)
  from assms(2) y(1,2) have c: "sd_identity (f y) = sd_identity (f x)" "sd_identity (f y) = None \<Longrightarrow> f y = f x"
    using coherent_pair[OF assms(2), of y x] by simp_all
  show ?thesis
  proof (cases "sd_identity p")
    case None
    then have eq: "p = f x" using y(3,4) c by metis
    then have "describes p (f x)" using assms(3) by (simp add: describes_def)
    from dimsAre_upd[OF assms(1) this] have "dimsAre f b (xs @ [x]) D"
      unfolding fmupd_same[OF \<open>fmlookup D (b x, sd_key (f x)) = Some p\<close>] .
    with None Some eq show ?thesis by (simp add: recordCostDimension_def)
  next
    case (Some i)
    then have fx: "sd_identity (f x) = Some i" using y(3) c(1) by simp
    let ?d = "p\<lparr>sd_display := (if sd_display p \<noteq> sd_display (f x) then Some (sd_key p) else sd_display p),
              sd_confidence := conservativeCostDimensionConfidence (sd_confidence p) (sd_confidence (f x)),
              sd_source := mergeCostDimensionValue (sd_source p) (sd_source (f x)),
              sd_reason := mergeCostDimensionValue (sd_reason p) (sd_reason (f x))\<rparr>"
    have "dimOK ?d"
      using p(1) assms(3) Some
      by (auto simp: dimOK_def conservativeCostDimensionConfidence_def mergeCostDimensionValue_def)
    then have "dimsAre f b (xs @ [x]) (fmupd (b x, sd_key (f x)) ?d D)"
      using p(2) fx Some by (intro dimsAre_upd[OF assms(1)]) (simp add: describes_def)
    with \<open>fmlookup D (b x, sd_key (f x)) = Some p\<close> p(2) fx Some show ?thesis
      by (simp add: recordCostDimension_def)
  qed
qed

section \<open>Lemmas: building the groups\<close>

type_synonym entry = "costFactModel \<times> TurnCost"

definition dayOf :: "(int64 \<Rightarrow> int64) \<Rightarrow> entry \<Rightarrow> int64" where
  "dayOf dayStart x = dayStart (cf_ObservedAtMS (fst x))"

definition projectOf :: "entry \<Rightarrow> safeDimension" where
  "projectOf x = projectDimension (fst x)"

definition modelOf :: "entry \<Rightarrow> safeDimension" where
  "modelOf x = modelDimension (fst x)"

definition bucketOf :: "(entry \<Rightarrow> safeDimension) \<Rightarrow> (int64 \<Rightarrow> int64) \<Rightarrow> entry \<Rightarrow> dimensionBucketKey" where
  "bucketOf f dayStart x = (dayOf dayStart x, sd_key (f x))"

definition sessionOf :: "entry \<Rightarrow> string" where
  "sessionOf x = cf_SessionID (fst x)"

definition buildIs :: "(int64 \<Rightarrow> int64) \<Rightarrow> entry list \<Rightarrow> buildState \<Rightarrow> bool" where
  "buildIs dayStart xs st \<longleftrightarrow>
     accIs xs (bs_overall st) \<and> groupsAre sessionOf xs (bs_sessions st) \<and> groupsAre (dayOf dayStart) xs (bs_days st) \<and>
     groupsAre (bucketOf projectOf dayStart) xs (bs_projects st) \<and> groupsAre (bucketOf modelOf dayStart) xs (bs_models st) \<and>
     dimsAre projectOf (dayOf dayStart) xs (bs_projectDimensions st) \<and>
     dimsAre modelOf (dayOf dayStart) xs (bs_modelDimensions st) \<and> bs_costs st = map snd xs"

lemma buildStart_is: "buildIs dayStart [] buildStart"
  by (simp add: buildIs_def buildStart_def accIs_new groupsAre_empty dimsAre_empty)

lemma buildFact_ok:
  assumes "buildIs dayStart xs st" and "fits (xs @ [x])" and "coherent projectOf (xs @ [x])" and "coherent modelOf (xs @ [x])"
    and "turnCostForFact db rq (fst x) = Inr (snd x)" and "cf_ObservedAtMS (fst x) \<le> rq_CalculatedAtMS rq"
  shows "\<exists>st'. buildFact db rq dayStart (fst x) st = Inr st' \<and> buildIs dayStart (xs @ [x]) st'"
proof -
  note B = assms(1)[unfolded buildIs_def]
  obtain a where a: "addAggregate x (bs_overall st) = Inr a" "accIs (xs @ [x]) a"
    using addAggregate_ok[OF _ assms(2)] B by blast
  obtain s where s: "addGroup (sessionOf x) x (bs_sessions st) = Inr s" "groupsAre sessionOf (xs @ [x]) s"
    using addGroup_ok[OF _ assms(2)] B by blast
  obtain d where d: "addGroup (dayOf dayStart x) x (bs_days st) = Inr d" "groupsAre (dayOf dayStart) (xs @ [x]) d"
    using addGroup_ok[OF _ assms(2)] B by blast
  obtain p where p: "addGroup (bucketOf projectOf dayStart x) x (bs_projects st) = Inr p"
    "groupsAre (bucketOf projectOf dayStart) (xs @ [x]) p"
    using addGroup_ok[OF _ assms(2)] B by blast
  obtain m where m: "addGroup (bucketOf modelOf dayStart x) x (bs_models st) = Inr m"
    "groupsAre (bucketOf modelOf dayStart) (xs @ [x]) m"
    using addGroup_ok[OF _ assms(2)] B by blast
  have ok: "dimOK (projectOf x)" "dimOK (modelOf x)"
    by (simp_all add: projectOf_def modelOf_def projectDimension_def modelDimension_def costDimension_ok)
  obtain pd where pd: "recordCostDimension (dayOf dayStart x, sd_key (projectOf x)) (projectOf x) (bs_projectDimensions st) = Inr pd"
    "dimsAre projectOf (dayOf dayStart) (xs @ [x]) pd"
    using recordCostDimension_ok[OF _ assms(3) ok(1)] B by blast
  obtain md where md: "recordCostDimension (dayOf dayStart x, sd_key (modelOf x)) (modelOf x) (bs_modelDimensions st) = Inr md"
    "dimsAre modelOf (dayOf dayStart) (xs @ [x]) md"
    using recordCostDimension_ok[OF _ assms(4) ok(2)] B by blast
  define st' where "st' = \<lparr>bs_overall = a, bs_sessions = s, bs_days = d, bs_projects = p, bs_models = m,
    bs_projectDimensions = pd, bs_modelDimensions = md, bs_costs = bs_costs st @ [snd x]\<rparr>"
  have "buildFact db rq dayStart (fst x) st = Inr st'"
    using assms(5,6) a(1) s(1) d(1) p(1) m(1) pd(1) md(1)
    unfolding sessionOf_def dayOf_def bucketOf_def projectOf_def modelOf_def
    by (simp add: buildFact_def Let_def st'_def)
  moreover have "buildIs dayStart (xs @ [x]) st'"
    using a(2) s(2) d(2) p(2) m(2) pd(2) md(2) B by (simp add: buildIs_def st'_def)
  ultimately show ?thesis by blast
qed

text \<open>The conditions under which a turn list is priced and grouped without an error.\<close>

definition priceable :: "cost_db \<Rightarrow> RebuildCostLedgerRequest \<Rightarrow> entry list \<Rightarrow> bool" where
  "priceable db rq xs \<longleftrightarrow> (\<forall>x \<in> set xs. turnCostForFact db rq (fst x) = Inr (snd x) \<and> cf_ObservedAtMS (fst x) \<le> rq_CalculatedAtMS rq)"

lemma coherent_prefix: "coherent f (xs @ ys) \<Longrightarrow> coherent f xs"
  unfolding coherent_def set_append by blast

lemma buildFacts_ok:
  assumes "fits xs" and "coherent projectOf xs" and "coherent modelOf xs" and "priceable db rq xs"
  shows "\<exists>st. foldE (buildFact db rq dayStart) (map fst xs) buildStart = Inr st \<and> buildIs dayStart xs st"
proof -
  have "\<exists>st'. foldE (buildFact db rq dayStart) (map fst zs) st = Inr st' \<and> buildIs dayStart (ys @ zs) st'"
    if "buildIs dayStart ys st" "ys @ zs = xs" for ys zs st
    using that
  proof (induction zs arbitrary: ys st)
    case (Cons z zs)
    then have xs: "xs = (ys @ [z]) @ zs" by simp
    have f: "fits (ys @ [z])" and c: "coherent projectOf (ys @ [z])" "coherent modelOf (ys @ [z])"
      using assms(1-3) fits_prefix coherent_prefix unfolding xs by blast+
    have z: "turnCostForFact db rq (fst z) = Inr (snd z)" "cf_ObservedAtMS (fst z) \<le> rq_CalculatedAtMS rq"
      using assms(4) unfolding xs priceable_def by simp_all
    from buildFact_ok[OF Cons.prems(1) f c z] obtain st1 where
      st1: "buildFact db rq dayStart (fst z) st = Inr st1" "buildIs dayStart (ys @ [z]) st1" by blast
    from Cons.IH[OF st1(2)] xs st1(1) show ?case by simp
  qed simp
  from this[OF buildStart_is] show ?thesis by simp
qed

section \<open>Lemmas: the rows\<close>

text \<open>The rows a grouping by \<open>k\<close> must have, in the order of the keys.\<close>

definition totalsRows :: "(entry \<Rightarrow> 'k :: linorder) \<Rightarrow> ('k \<Rightarrow> RollupTotals \<Rightarrow> 'r) \<Rightarrow> int64 \<Rightarrow> entry list \<Rightarrow> 'r list" where
  "totalsRows k row t xs = map (\<lambda>key. row key (rollup t (part k xs key))) (sorted_list_of_set (k ` set xs))"

lemma rollupRows_ok:
  assumes "groupsAre k xs G" and "fits xs"
  shows "rollupRows t row G = Inr (totalsRows k row t xs)"
proof -
  have o: "sorted_list_of_fset (fmdom G) = sorted_list_of_set (k ` set xs)"
    by (simp add: sorted_list_of_fset.rep_eq groupsAre_dom[OF assms(1)])
  show ?thesis
    unfolding rollupRows_def o totalsRows_def using foldTotals_ok[OF assms, of "sorted_list_of_set (k ` set xs)" t row "[]"] by simp
qed

text \<open>A new generation's rows, in key order, are stored and read back as they are.\<close>

lemma createCostRows_new:
  assumes "table_ok pk check gen ids table" and "g \<notin> ids" and "\<forall>r \<in> set rows. gen r = g \<and> check r"
    and "\<And>r s. pk r = pk s \<Longrightarrow> gen r = gen s" and "distinct (map pk rows)" and "sorted (map order rows)"
  shows "createCostRows pk check rows table = Inr (table @ rows)"
    "loadPersistedCostRows gen order g (table @ rows) = rows" "filter (\<lambda>r. gen r = g) (table @ rows) = rows"
proof -
  have old: "gen r \<noteq> g" if "r \<in> set table" for r using that assms(1,2) unfolding table_ok_def by blast
  then have new: "\<forall>r \<in> set rows. pk r \<notin> pk ` set table" using assms(3,4) by (metis imageE)
  show "createCostRows pk check rows table = Inr (table @ rows)"
    unfolding createCostRows_def list_all_iff using new assms(3,5) by simp
  have "filter (\<lambda>r. gen r = g) table = []" "filter (\<lambda>r. gen r = g) rows = rows"
    using old assms(3) by (auto simp: filter_empty_conv)
  then show f: "filter (\<lambda>r. gen r = g) (table @ rows) = rows" by simp
  show "loadPersistedCostRows gen order g (table @ rows) = rows"
    unfolding loadPersistedCostRows_def f using assms(6) by (rule sort_key_id_if_sorted)
qed

lemma Min_Max_in:
  assumes "xs \<noteq> []" and "\<forall>x \<in> set xs. (0 :: int) \<le> f x \<and> f x \<le> t"
  shows "0 \<le> Min (f ` set xs)" "Min (f ` set xs) \<le> Max (f ` set xs)" "Max (f ` set xs) \<le> t"
proof -
  have S: "finite (f ` set xs)" "f ` set xs \<noteq> {}" using assms(1) by auto
  show "0 \<le> Min (f ` set xs)" "Max (f ` set xs) \<le> t" using S assms(2) by (auto simp: Min_ge_iff)
  from S show "Min (f ` set xs) \<le> Max (f ` set xs)" by (simp add: Min_le_iff)
qed

lemma rollup_check:
  assumes "fits xs" and "xs \<noteq> []" and "\<forall>x \<in> set xs. 0 \<le> cf_ObservedAtMS (fst x) \<and> cf_ObservedAtMS (fst x) \<le> t"
  shows "totals_check (rollup t xs)"
proof -
  let ?I = "cf_InputTokens \<circ> fst" and ?C = "cf_CachedInputTokens \<circ> fst" and ?O = "cf_OutputTokens \<circ> fst"
    and ?R = "cf_ReasoningTokens \<circ> fst"
  have ok: "\<forall>x \<in> set xs. entryOK x" using assms(1) by (simp add: fits_def)
  note w = weight_ge[OF ok]
  note v = known_val_le[OF w(1)] known_val_le[OF w(2)] known_val_le[OF w(3)] known_val_le[OF w(4)]
  have wn: "0 \<le> (\<Sum>x \<leftarrow> xs. weight x)" using ok by (auto intro!: sum_list_nonneg entryOK_weight)
  have tok: "case (known ?I xs, known ?C xs, known ?O xs, known ?R xs) of
        (Some i, Some c, Some q, Some r) \<Rightarrow> (if known ?I xs = None \<or> known ?C xs = None \<or> known ?O xs = None \<or> known ?R xs = None
          then None else Some (\<Sum>x \<leftarrow> xs. weight x)) = Some (i + c + q + r)
      | _ \<Rightarrow> (if known ?I xs = None \<or> known ?C xs = None \<or> known ?O xs = None \<or> known ?R xs = None
          then None else Some (\<Sum>x \<leftarrow> xs. weight x)) = None"
    using w(5) by (auto simp: known_def split: option.splits if_splits)
  have total: "ro_TotalTokens (rollup t xs) = (if known ?I xs = None \<or> known ?C xs = None \<or> known ?O xs = None \<or> known ?R xs = None
      then None else Some (\<Sum>x \<leftarrow> xs. weight x))"
    by (simp add: rollup_def Let_def)
  note mm = Min_Max_in[OF assms(2), of "cf_ObservedAtMS \<circ> fst" t]
  have cnt: "int (length (filter isPriced xs)) + int (length (filter (\<lambda>x. \<not> isPriced x) xs)) = int (length xs)"
    using sum_length_filter_compl[of isPriced xs] by linarith
  show ?thesis
    unfolding totals_check_def
  proof (intro conjI)
    show "case (ro_InputTokens (rollup t xs), ro_CachedInputTokens (rollup t xs), ro_OutputTokens (rollup t xs), ro_ReasoningTokens (rollup t xs)) of
        (Some i, Some c, Some q, Some r) \<Rightarrow> ro_TotalTokens (rollup t xs) = Some (i + c + q + r)
      | _ \<Rightarrow> ro_TotalTokens (rollup t xs) = None"
      unfolding rollup_columns(1-4) total by (rule tok)
  qed (use assms(2,3) v wn w(6) mm cnt in \<open>simp_all add: rollup_def Let_def filter_empty_conv image_comp comp_def\<close>)
qed

section \<open>Lemmas: the turn costs\<close>

lemma Calculate_status:
  assumes "Calculate u r = Inr c"
  shows "if ca_Status c = CostStatusPriced then ca_Reason c = CostReasonPriced \<and> ca_EstimatedUSDMicros c \<noteq> None
    else ca_Reason c \<noteq> CostReasonPriced \<and> ca_EstimatedUSDMicros c = None"
  using assms by (auto simp: Calculate_def CalculateExact_def Let_def split: sum.splits option.splits if_splits)

lemma effectiveVersion_in: "effectiveVersion db rq t = Some v \<Longrightarrow> v \<in> set (cd_PricingVersions db)"
  unfolding effectiveVersion_def by (auto split: list.splits dest!: arg_cong[where f = set])

lemma turnCost_row:
  assumes "turnCostForFact db rq f = Inr c"
  shows "tc_GenerationID c = rq_GenerationID rq" "tc_TurnID c = cf_TurnID f" "tc_CalculatedAtMS c = rq_CalculatedAtMS rq"
    "tc_PricingVersion c = Some v \<Longrightarrow> v \<in> pv_PricingVersion ` set (cd_PricingVersions db)"
    "if tc_Status c = CostStatusPriced then tc_Reason c = CostReasonPriced \<and> tc_PricingVersion c \<noteq> None \<and> tc_EstimatedUSDMicros c \<noteq> None
     else tc_Reason c \<noteq> CostReasonPriced \<and> tc_EstimatedUSDMicros c = None"
proof -
  note spl = option.splits sum.splits and df = turnCostForFact_def Let_def
  show "tc_GenerationID c = rq_GenerationID rq" "tc_TurnID c = cf_TurnID f" "tc_CalculatedAtMS c = rq_CalculatedAtMS rq"
    using assms by (auto simp: df split: spl if_splits)
  show "tc_PricingVersion c = Some v \<Longrightarrow> v \<in> pv_PricingVersion ` set (cd_PricingVersions db)"
    using assms by (auto simp: df split: spl if_splits dest!: effectiveVersion_in)
  show "if tc_Status c = CostStatusPriced then tc_Reason c = CostReasonPriced \<and> tc_PricingVersion c \<noteq> None \<and> tc_EstimatedUSDMicros c \<noteq> None
     else tc_Reason c \<noteq> CostReasonPriced \<and> tc_EstimatedUSDMicros c = None"
    using assms by (auto simp: df modelAttributionCostReason_def dest!: Calculate_status split: spl if_splits)
qed

lemma turnCost_generations: "turnCostForFact (db\<lparr>cd_Generations := gs\<rparr>) rq f = turnCostForFact db rq f"
proof -
  have v: "effectiveVersion (db\<lparr>cd_Generations := gs\<rparr>) = effectiveVersion db" by (intro ext) (simp add: effectiveVersion_def)
  have p: "listedPrice (db\<lparr>cd_Generations := gs\<rparr>) = listedPrice db" by (intro ext) (simp add: listedPrice_def)
  show ?thesis unfolding turnCostForFact_def v p ..
qed

lemma reportFold_ok:
  assumes "\<forall>x \<in> set xs. entryOK x" and "0 \<le> e" and "e + (\<Sum>x \<leftarrow> xs. amount x) \<le> maxCostInteger"
  shows "foldE reportStep (map snd xs) (p, u, e) =
    Inr (p + int (length (filter isPriced xs)), u + int (length (filter (\<lambda>x. \<not> isPriced x) xs)), e + (\<Sum>x \<leftarrow> xs. amount x))"
  using assms
proof (induction xs arbitrary: p u e)
  case (Cons x xs)
  have pos: "0 \<le> amount x" "0 \<le> (\<Sum>x \<leftarrow> xs. amount x)" using Cons.prems weight_ge(6)[of xs] by (auto simp: entryOK_def)
  show ?case
  proof (cases "isPriced x")
    case True
    then obtain m where m: "tc_EstimatedUSDMicros (snd x) = Some m" "amount x = m"
      using Cons.prems(1) by (auto simp: entryOK_def amount_def isPriced_def)
    have "addCostInteger e m = Inr (e + m)" using Cons.prems pos m by (intro addCostInteger_ok) auto
    with True m Cons.IH[of "e + m" "p + 1" u] Cons.prems pos show ?thesis by (simp add: reportStep_def isPriced_def algebra_simps)
  next
    case False
    then have "amount x = 0" by (simp add: amount_def isPriced_def)
    with False Cons.IH[of e p "u + 1"] Cons.prems show ?thesis by (simp add: reportStep_def isPriced_def)
  qed
qed simp

section \<open>Lemmas: the dimension rows\<close>

lemma dimsAre_dom:
  assumes "dimsAre f b xs D" and "key \<in> (\<lambda>x. (b x, sd_key (f x))) ` set xs"
  shows "\<exists>d. fmlookup D key = Some d \<and> dimOK d \<and> sd_key d = snd key"
proof (cases "fmlookup D key")
  case None
  with assms(1)[unfolded dimsAre_def, rule_format, of key] assms(2) show ?thesis by auto
next
  case (Some d)
  from dimsAre_Some[OF assms(1) this] Some show ?thesis by (auto simp: describes_def)
qed

lemma dimensionRow_ok:
  assumes "dimsAre f b xs D" and "key \<in> (\<lambda>x. (b x, sd_key (f x))) ` set xs"
    and "rq_GenerationID rq \<noteq> []" and "rq_ReportingTimezone rq \<noteq> []" and "0 \<le> fst key" and "totals_check t"
  shows "dimension_key (dimensionRow rq D key t) = key" "pd_GenerationID (dimensionRow rq D key t) = rq_GenerationID rq"
    "pd_Totals (dimensionRow rq D key t) = t" "dimension_daily_check (dimensionRow rq D key t)"
proof -
  from dimsAre_dom[OF assms(1,2)] obtain d where d: "fmlookup D key = Some d" "dimOK d" "sd_key d = snd key" by blast
  then show "dimension_key (dimensionRow rq D key t) = key" "pd_GenerationID (dimensionRow rq D key t) = rq_GenerationID rq"
    "pd_Totals (dimensionRow rq D key t) = t" by (simp_all add: dimensionRow_def dimension_key_def)
  from d(1,2) assms(3-6) show "dimension_daily_check (dimensionRow rq D key t)"
    by (auto simp: dimensionRow_def dimension_daily_check_def dimOK_def split: option.splits)
qed

section \<open>Lemmas: a rebuild that is ready succeeds\<close>

definition enumerates :: "cost_env \<Rightarrow> bool" where
  "enumerates env \<longleftrightarrow>
     (\<forall>S. distinct (ce_strings env S) \<and> set (ce_strings env S) = fset S) \<and>
     (\<forall>S. distinct (ce_days env S) \<and> set (ce_days env S) = fset S) \<and>
     (\<forall>S. distinct (ce_dims env S) \<and> set (ce_dims env S) = fset S)"

text \<open>The final turns with their costs, as a rebuild needs them.\<close>

definition entriesReady :: "RebuildCostLedgerRequest \<Rightarrow> (int64 \<Rightarrow> int64) \<Rightarrow> cost_db \<Rightarrow> entry list \<Rightarrow> bool" where
  "entriesReady rq dayStart db xs \<longleftrightarrow>
     map fst xs = loadFinalCostFacts db \<and> priceable db rq xs \<and> fits xs \<and> coherent projectOf xs \<and> coherent modelOf xs \<and>
     distinct (map (cf_TurnID \<circ> fst) xs) \<and>
     (\<forall>x \<in> set xs. cf_TurnID (fst x) \<noteq> [] \<and> cf_SessionID (fst x) \<noteq> [] \<and> 0 \<le> cf_ObservedAtMS (fst x) \<and> 0 \<le> dayOf dayStart x) \<and>
     (\<forall>v \<in> set (cd_PricingVersions db). pv_PricingVersion v \<noteq> [])"

lemma reconcileBuilt_ok:
  assumes "buildIs dayStart xs st" and "fits xs" and "enumerates env"
  shows "reconcileBuilt env t (rollup t xs) st = Inr ()"
proof -
  have g: "groupsAre sessionOf xs (bs_sessions st)" "groupsAre (dayOf dayStart) xs (bs_days st)"
    "groupsAre (bucketOf projectOf dayStart) xs (bs_projects st)" "groupsAre (bucketOf modelOf dayStart) xs (bs_models st)"
    using assms(1) by (simp_all add: buildIs_def)
  have e: "distinct (ce_strings env S)" "set (ce_strings env S) = fset S" "distinct (ce_days env D)" "set (ce_days env D) = fset D"
    "distinct (ce_dims env B)" "set (ce_dims env B) = fset B" for S D B
    using assms(3) by (simp_all add: enumerates_def)
  note ok = reconcileGroups_ok[OF _ assms(2)]
  from ok[OF g(1) e(1,2)] ok[OF g(2) e(3,4)] ok[OF g(3) e(5,6)] ok[OF g(4) e(5,6)]
  show ?thesis by (simp add: reconcileBuilt_def)
qed

text \<open>The rows of one rollup table.\<close>

lemma newRows_ok:
  assumes "table_ok pk check gen ids table" and "g \<notin> ids" and "\<And>r. pk r = (gen r, order r)"
    and "sorted keys" and "distinct keys" and "\<And>key. key \<in> set keys \<Longrightarrow> gen (row key) = g \<and> order (row key) = key \<and> check (row key)"
  shows "createCostRows pk check (map row keys) table = Inr (table @ map row keys)"
    "loadPersistedCostRows gen order g (table @ map row keys) = map row keys"
proof -
  have o: "map order (map row keys) = keys" using assms(6) by (simp add: map_idI)
  have "map snd (map pk (map row keys)) = map order (map row keys)" by (simp add: assms(3))
  then have d: "distinct (map pk (map row keys))" unfolding o using assms(5) distinct_map by metis
  have c: "\<forall>r \<in> set (map row keys). gen r = g \<and> check r" using assms(6) by simp
  have s: "sorted (map order (map row keys))" unfolding o by (rule assms(4))
  have p: "\<And>r s. pk r = pk s \<Longrightarrow> gen r = gen s" by (simp add: assms(3))
  show "createCostRows pk check (map row keys) table = Inr (table @ map row keys)"
    "loadPersistedCostRows gen order g (table @ map row keys) = map row keys"
    by (rule createCostRows_new[OF assms(1,2) c p d s], assumption)+
qed

lemma part_ready:
  assumes "fits xs" and "\<forall>x \<in> set xs. 0 \<le> cf_ObservedAtMS (fst x) \<and> cf_ObservedAtMS (fst x) \<le> t" and "key \<in> k ` set xs"
  shows "totals_check (rollup t (part k xs key))"
proof (rule rollup_check)
  show "fits (part k xs key)" unfolding part_def by (rule fits_filter[OF assms(1)])
  show "part k xs key \<noteq> []" using assms(3) by (auto simp: part_def filter_empty_conv)
qed (use assms(2) in \<open>simp add: part_def\<close>)

lemma totalsRows_ok:
  assumes "table_ok pk check gen ids table" and "g \<notin> ids" and "\<And>r. pk r = (gen r, order r)" and "fits xs"
    and "\<forall>x \<in> set xs. 0 \<le> cf_ObservedAtMS (fst x) \<and> cf_ObservedAtMS (fst x) \<le> t"
    and "\<And>key v. key \<in> k ` set xs \<Longrightarrow> totals_check v \<Longrightarrow> gen (row key v) = g \<and> order (row key v) = key \<and> check (row key v) \<and> tot (row key v) = v"
  shows "createCostRows pk check (totalsRows k row t xs) table = Inr (table @ totalsRows k row t xs)"
    "loadPersistedCostRows gen order g (table @ totalsRows k row t xs) = totalsRows k row t xs"
    "map (\<lambda>r. (order r, tot r)) (totalsRows k row t xs) = map (\<lambda>key. (key, rollup t (part k xs key))) (sorted_list_of_set (k ` set xs))"
    "reconcileRollupTotals (rollup t xs) (map tot (totalsRows k row t xs)) = Inr ()"
proof -
  let ?keys = "sorted_list_of_set (k ` set xs)"
  have r: "gen (row key (rollup t (part k xs key))) = g \<and> order (row key (rollup t (part k xs key))) = key \<and>
      check (row key (rollup t (part k xs key)))" "tot (row key (rollup t (part k xs key))) = rollup t (part k xs key)"
    if "key \<in> set ?keys" for key
    using assms(6)[of key, OF _ part_ready[OF assms(4,5), of key k]] that by simp_all
  note n = newRows_ok[OF assms(1-3) sorted_sorted_list_of_set distinct_sorted_list_of_set,
      where row = "\<lambda>key. row key (rollup t (part k xs key))", OF r(1), folded totalsRows_def]
  show "createCostRows pk check (totalsRows k row t xs) table = Inr (table @ totalsRows k row t xs)"
    "loadPersistedCostRows gen order g (table @ totalsRows k row t xs) = totalsRows k row t xs"
    unfolding totalsRows_def by (rule n(1), assumption) (rule n(2), assumption)
  show "map (\<lambda>r. (order r, tot r)) (totalsRows k row t xs) = map (\<lambda>key. (key, rollup t (part k xs key))) ?keys"
    using r unfolding totalsRows_def map_map comp_def by (intro map_cong) auto
  have "map tot (totalsRows k row t xs) = map (\<lambda>key. rollup t (part k xs key)) ?keys"
    using r(2) unfolding totalsRows_def map_map comp_def by (intro map_cong) auto
  then show "reconcileRollupTotals (rollup t xs) (map tot (totalsRows k row t xs)) = Inr ()"
    using reconcile_ok[OF assms(4), of ?keys k t] by simp
qed

text \<open>The turn costs are stored in the order of the turns.\<close>

lemma costRows_ok:
  assumes "entriesReady rq dayStart db xs" and "validateCostRebuildRequest env rq = Inr dayStart"
    and "table_ok turn_costs_pk turn_costs_check tc_GenerationID ids table" and "rq_GenerationID rq \<notin> ids"
  shows "createCostRows turn_costs_pk turn_costs_check (map snd xs) table = Inr (table @ map snd xs)"
    "loadPersistedCostRows tc_GenerationID tc_TurnID (rq_GenerationID rq) (table @ map snd xs) = map snd xs"
    "filter (\<lambda>c. tc_GenerationID c = rq_GenerationID rq) (table @ map snd xs) = map snd xs"
proof -
  have E: "map fst xs = loadFinalCostFacts db" "\<forall>x \<in> set xs. turnCostForFact db rq (fst x) = Inr (snd x)" "fits xs"
    "distinct (map (cf_TurnID \<circ> fst) xs)" "\<forall>x \<in> set xs. cf_TurnID (fst x) \<noteq> []"
    "\<forall>v \<in> set (cd_PricingVersions db). pv_PricingVersion v \<noteq> []"
    using assms(1) by (auto simp: entriesReady_def priceable_def)
  have rq: "rq_GenerationID rq \<noteq> []" "0 \<le> rq_CalculatedAtMS rq"
    using assms(2) by (auto simp: validateCostRebuildRequest_def split: if_splits)
  have c: "tc_GenerationID (snd x) = rq_GenerationID rq \<and> tc_TurnID (snd x) = cf_TurnID (fst x) \<and> turn_costs_check (snd x)"
    if "x \<in> set xs" for x
  proof -
    from E(2) that have "turnCostForFact db rq (fst x) = Inr (snd x)" by blast
    note r = turnCost_row[OF this]
    have "entryOK x" using E(3) that by (simp add: fits_def)
    then have "0 \<le> val (tc_EstimatedUSDMicros (snd x))" using r(5) by (auto simp: entryOK_def amount_def split: if_splits)
    moreover have "tc_PricingVersion (snd x) \<noteq> Some []" using r(4)[of "[]"] E(6) by (metis imageE)
    ultimately show ?thesis using r(1-3,5) rq E(5) that by (auto simp: turn_costs_check_def)
  qed
  have ids: "map tc_TurnID (map snd xs) = map cf_TurnID (map fst xs)" using c by simp
  have "map snd (map turn_costs_pk (map snd xs)) = map tc_TurnID (map snd xs)" by (simp add: turn_costs_pk_def)
  then have d: "distinct (map turn_costs_pk (map snd xs))" unfolding ids using E(4) distinct_map by (metis map_map)
  have s: "sorted (map tc_TurnID (map snd xs))" unfolding ids E(1) loadFinalCostFacts_def by (rule sorted_sort_key)
  have g: "\<forall>r \<in> set (map snd xs). tc_GenerationID r = rq_GenerationID rq \<and> turn_costs_check r" using c by auto
  have p: "turn_costs_pk r = turn_costs_pk s \<Longrightarrow> tc_GenerationID r = tc_GenerationID s" for r s :: TurnCost
    by (simp add: turn_costs_pk_def)
  note n = createCostRows_new[OF assms(3,4) g p d s]
  show "createCostRows turn_costs_pk turn_costs_check (map snd xs) table = Inr (table @ map snd xs)"
    "loadPersistedCostRows tc_GenerationID tc_TurnID (rq_GenerationID rq) (table @ map snd xs) = map snd xs"
    "filter (\<lambda>c. tc_GenerationID c = rq_GenerationID rq) (table @ map snd xs) = map snd xs"
    by (rule n(1), assumption) (rule n(2), assumption, rule n(3), assumption)
qed

lemma report_ok:
  assumes "filter (\<lambda>c. tc_GenerationID c = g) (cd_TurnCosts db) = map snd xs" and "fits xs"
  shows "costGenerationReport db g = Inr \<lparr>rp_GenerationID = g, rp_FinalTurns = ro_TurnCount (rollup t xs),
    rp_PricedTurns = ro_PricedTurnCount (rollup t xs), rp_UnpricedTurns = ro_UnpricedTurnCount (rollup t xs),
    rp_EstimatedUSDMicros = ro_EstimatedUSDMicros (rollup t xs), rp_Replayed = False\<rparr>"
  unfolding costGenerationReport_def Let_def assms(1)
  using reportFold_ok[of xs 0 0 0] assms(2) by (simp add: fits_def rollup_def Let_def filter_empty_conv)

lemma persisted_ok:
  assumes "ledger_inv db" and "rq_GenerationID rq \<notin> cg_GenerationID ` set (cd_Generations db)"
    and "validateCostRebuildRequest env rq = Inr dayStart" and "entriesReady rq dayStart db xs"
    and "dimsAre projectOf (dayOf dayStart) xs P" and "dimsAre modelOf (dayOf dayStart) xs M"
  defines "t \<equiv> rq_CalculatedAtMS rq" and "g \<equiv> rq_GenerationID rq"
  defines "S \<equiv> totalsRows sessionOf (sessionRow rq) t xs" and "D \<equiv> totalsRows (dayOf dayStart) (dailyRow rq) t xs"
    and "PR \<equiv> totalsRows (bucketOf projectOf dayStart) (dimensionRow rq P) t xs"
    and "MR \<equiv> totalsRows (bucketOf modelOf dayStart) (dimensionRow rq M) t xs"
  defines "db2 \<equiv> db\<lparr>cd_Generations := cd_Generations db @ [newGeneration rq], cd_TurnCosts := cd_TurnCosts db @ map snd xs,
     cd_Sessions := cd_Sessions db @ S, cd_Daily := cd_Daily db @ D, cd_Projects := cd_Projects db @ PR, cd_Models := cd_Models db @ MR\<rparr>"
  shows "persistRows (db\<lparr>cd_Generations := cd_Generations db @ [newGeneration rq]\<rparr>) (map snd xs) S D PR MR = Inr db2"
    "reconcilePersistedCostGeneration db2 g (rollup t xs) (map snd xs) S D PR MR = Inr ()"
    "map (\<lambda>r. (dimension_key r, pd_Totals r)) PR =
       map (\<lambda>key. (key, rollup t (part (bucketOf projectOf dayStart) xs key))) (sorted_list_of_set (bucketOf projectOf dayStart ` set xs))"
    "map (\<lambda>r. (dimension_key r, pd_Totals r)) MR =
       map (\<lambda>key. (key, rollup t (part (bucketOf modelOf dayStart) xs key))) (sorted_list_of_set (bucketOf modelOf dayStart ` set xs))"
proof -
  let ?ids = "cg_GenerationID ` set (cd_Generations db)"
  have T: "table_ok turn_costs_pk turn_costs_check tc_GenerationID ?ids (cd_TurnCosts db)"
    "table_ok session_pk session_usage_rollups_check sr_GenerationID ?ids (cd_Sessions db)"
    "table_ok daily_pk usage_daily_check ud_GenerationID ?ids (cd_Daily db)"
    "table_ok dimension_pk dimension_daily_check pd_GenerationID ?ids (cd_Projects db)"
    "table_ok dimension_pk dimension_daily_check pd_GenerationID ?ids (cd_Models db)"
    using assms(1) by (simp_all add: ledger_inv_def Let_def)
  have new: "g \<notin> ?ids" using assms(2) by (simp add: g_def)
  have rq: "g \<noteq> []" "rq_ReportingTimezone rq \<noteq> []"
    using assms(3) by (auto simp: validateCostRebuildRequest_def g_def split: if_splits)
  have E: "fits xs" "\<forall>x \<in> set xs. sessionOf x \<noteq> [] \<and> 0 \<le> dayOf dayStart x"
    "\<forall>x \<in> set xs. 0 \<le> cf_ObservedAtMS (fst x) \<and> cf_ObservedAtMS (fst x) \<le> t"
    using assms(4) by (auto simp: entriesReady_def priceable_def sessionOf_def t_def)
  note C = costRows_ok[OF assms(4,3) T(1) new[unfolded g_def], folded g_def]
  have pks: "\<And>r. session_pk r = (sr_GenerationID r, sr_SessionID r)" "\<And>r. daily_pk r = (ud_GenerationID r, ud_BucketStartMS r)"
    "\<And>r. dimension_pk r = (pd_GenerationID r, dimension_key r)"
    by (simp_all add: session_pk_def daily_pk_def dimension_pk_def)
  have rs: "sr_GenerationID (sessionRow rq k v) = g \<and> sr_SessionID (sessionRow rq k v) = k \<and>
      session_usage_rollups_check (sessionRow rq k v) \<and> sr_Totals (sessionRow rq k v) = v"
    if "k \<in> sessionOf ` set xs" "totals_check v" for k v
    using that E(2) rq by (auto simp: sessionRow_def session_usage_rollups_check_def g_def)
  have rd: "ud_GenerationID (dailyRow rq k v) = g \<and> ud_BucketStartMS (dailyRow rq k v) = k \<and>
      usage_daily_check (dailyRow rq k v) \<and> ud_Totals (dailyRow rq k v) = v"
    if "k \<in> dayOf dayStart ` set xs" "totals_check v" for k v
    using that E(2) rq by (auto simp: dailyRow_def usage_daily_check_def g_def)
  have rm: "pd_GenerationID (dimensionRow rq N k v) = g \<and> dimension_key (dimensionRow rq N k v) = k \<and>
      dimension_daily_check (dimensionRow rq N k v) \<and> pd_Totals (dimensionRow rq N k v) = v"
    if "k \<in> bucketOf f dayStart ` set xs" "totals_check v" "dimsAre f (dayOf dayStart) xs N" for k v N f
  proof -
    have k: "k \<in> (\<lambda>x. (dayOf dayStart x, sd_key (f x))) ` set xs" using that(1) by (simp add: bucketOf_def)
    then have "0 \<le> fst k" using E(2) by auto
    with dimensionRow_ok[OF that(3) k _ rq(2) _ that(2)] rq(1) show ?thesis by (simp add: g_def)
  qed
  note tr = totalsRows_ok[OF _ new _ E(1,3)]
  note s = tr[where k = sessionOf, OF T(2) pks(1) rs, folded S_def]
    and d = tr[where k = "dayOf dayStart", OF T(3) pks(2) rd, folded D_def]
    and p = tr[where k = "bucketOf projectOf dayStart", OF T(4) pks(3) rm[OF _ _ assms(5)], folded PR_def]
    and m = tr[where k = "bucketOf modelOf dayStart", OF T(5) pks(3) rm[OF _ _ assms(6)], folded MR_def]
  show "persistRows (db\<lparr>cd_Generations := cd_Generations db @ [newGeneration rq]\<rparr>) (map snd xs) S D PR MR = Inr db2"
    using C(1) s(1) d(1) p(1) m(1) by (simp add: persistRows_def db2_def)
  have "costGenerationReport db2 g = Inr \<lparr>rp_GenerationID = g, rp_FinalTurns = ro_TurnCount (rollup t xs),
    rp_PricedTurns = ro_PricedTurnCount (rollup t xs), rp_UnpricedTurns = ro_UnpricedTurnCount (rollup t xs),
    rp_EstimatedUSDMicros = ro_EstimatedUSDMicros (rollup t xs), rp_Replayed = False\<rparr>"
    using C(3) by (intro report_ok E(1)) (simp add: db2_def)
  with C(2) s(2,4) d(2,4) p(2,4) m(2,4)
  show "reconcilePersistedCostGeneration db2 g (rollup t xs) (map snd xs) S D PR MR = Inr ()"
    unfolding reconcilePersistedCostGeneration_def by (simp add: db2_def)
  show "map (\<lambda>r. (dimension_key r, pd_Totals r)) PR =
       map (\<lambda>key. (key, rollup t (part (bucketOf projectOf dayStart) xs key))) (sorted_list_of_set (bucketOf projectOf dayStart ` set xs))"
    by (rule p(3))
  show "map (\<lambda>r. (dimension_key r, pd_Totals r)) MR =
       map (\<lambda>key. (key, rollup t (part (bucketOf modelOf dayStart) xs key))) (sorted_list_of_set (bucketOf modelOf dayStart ` set xs))"
    by (rule m(3))
qed

section \<open>Properties\<close>

lemma rollup_counts:
  "ro_TurnCount (rollup t xs) = int (length xs)" "ro_PricedTurnCount (rollup t xs) = int (length (filter isPriced xs))"
  "ro_UnpricedTurnCount (rollup t xs) = int (length (filter (\<lambda>x. \<not> isPriced x) xs))"
  "ro_EstimatedUSDMicros (rollup t xs) = (if \<exists>x \<in> set xs. isPriced x then Some (\<Sum>x \<leftarrow> xs. amount x) else None)"
  by (simp_all add: rollup_def Let_def)

lemma rollupModels_ok:
  assumes "buildIs dayStart xs st" and "fits xs"
  shows "sessionRollupModels rq (bs_sessions st) = Inr (totalsRows sessionOf (sessionRow rq) (rq_CalculatedAtMS rq) xs)"
    "dailyRollupModels rq (bs_days st) = Inr (totalsRows (dayOf dayStart) (dailyRow rq) (rq_CalculatedAtMS rq) xs)"
    "projectRollupModels rq (bs_projects st) P = Inr (totalsRows (bucketOf projectOf dayStart) (dimensionRow rq P) (rq_CalculatedAtMS rq) xs)"
    "modelRollupModels rq (bs_models st) P = Inr (totalsRows (bucketOf modelOf dayStart) (dimensionRow rq P) (rq_CalculatedAtMS rq) xs)"
  unfolding sessionRollupModels_def dailyRollupModels_def projectRollupModels_def modelRollupModels_def
  using assms(1)[unfolded buildIs_def] rollupRows_ok[OF _ assms(2)] by blast+

lemma active_after_switch:
  assumes gi: "gens_inv gens" and new: "rq_GenerationID rq \<notin> cg_GenerationID ` set gens"
    and v: "validateCostRebuildRequest env rq = Inr dayStart" and d: "cd_Generations db' = switched rq gens"
  shows "ActiveCostLedger env (rq_ReportingTimezone rq) db' =
    Inr (loadCostLedgerSnapshot db' (activate (rq_CalculatedAtMS rq) (newGeneration rq)))"
proof -
  have "rq_ReportingTimezone rq \<noteq> []" "ce_location env (rq_ReportingTimezone rq) \<noteq> None"
    using v by (auto simp: validateCostRebuildRequest_def split: if_splits option.splits)
  then show ?thesis using switched_inv(3)[OF gi new] by (simp add: ActiveCostLedger_def d)
qed

text \<open>C27: The rebuild succeeds and conserves. When the final turns can be priced, their tokens and amounts
  fit an int64, turn and session ids are non-empty and turns unique, no turn lies in the future of the
  request, turns that share a dimension key agree on it, and the active generation of the timezone is
  not newer, then no guard of the transaction fires whatever the iteration order of Go's maps: the
  report carries the specified totals over all turns, and the reader of the active ledger gets every
  turn's cost and, for every session, day, project and model, the specified totals of exactly its turns,
  in key order.\<close>

theorem rebuild_succeeds_and_conserves:
  fixes db :: cost_db
  assumes "ledger_inv db" and "rq_GenerationID rq \<notin> cg_GenerationID ` set (cd_Generations db)"
    and "validateCostRebuildRequest env rq = Inr dayStart" and "enumerates env" and "entriesReady rq dayStart db xs"
    and "\<forall>g \<in> set (cd_Generations db). activeIn (rq_ReportingTimezone rq) g \<longrightarrow> cg_UpdatedAtMS g \<le> rq_CalculatedAtMS rq"
  defines "t \<equiv> rq_CalculatedAtMS rq"
  shows "\<exists>db' snap. RebuildCostLedger env rq db =
      Inr (\<lparr>rp_GenerationID = rq_GenerationID rq, rp_FinalTurns = int (length xs),
        rp_PricedTurns = int (length (filter isPriced xs)), rp_UnpricedTurns = int (length (filter (\<lambda>x. \<not> isPriced x) xs)),
        rp_EstimatedUSDMicros = (if \<exists>x \<in> set xs. isPriced x then Some (\<Sum>x \<leftarrow> xs. amount x) else None), rp_Replayed = False\<rparr>, db') \<and>
    ActiveCostLedger env (rq_ReportingTimezone rq) db' = Inr snap \<and> cg_GenerationID (sn_Generation snap) = rq_GenerationID rq \<and>
    sn_TurnCosts snap = map snd xs \<and>
    sn_SessionRollups snap = totalsRows sessionOf (sessionRow rq) t xs \<and>
    sn_DailyRollups snap = totalsRows (dayOf dayStart) (dailyRow rq) t xs \<and>
    map (\<lambda>r. (dimension_key r, pd_Totals r)) (sn_ProjectDaily snap) = totalsRows (bucketOf projectOf dayStart) Pair t xs \<and>
    map (\<lambda>r. (dimension_key r, pd_Totals r)) (sn_ModelDaily snap) = totalsRows (bucketOf modelOf dayStart) Pair t xs"
proof -
  let ?g = "rq_GenerationID rq" and ?gens = "cd_Generations db" and ?new = "newGeneration rq"
  define db1 where "db1 = db\<lparr>cd_Generations := ?gens @ [?new]\<rparr>"
  have E: "map fst xs = loadFinalCostFacts db" "priceable db rq xs" "fits xs" "coherent projectOf xs" "coherent modelOf xs"
    using assms(5) by (simp_all add: entriesReady_def)
  have p1: "priceable db1 rq xs" "loadFinalCostFacts db1 = map fst xs"
    using E(1,2) by (simp_all add: priceable_def turnCost_generations loadFinalCostFacts_def attributionsOf_def db1_def)
  from buildFacts_ok[OF E(3-5) p1(1)] obtain st where
    st: "foldE (buildFact db1 rq dayStart) (map fst xs) buildStart = Inr st" "buildIs dayStart xs st" by blast
  note B = st(2)[unfolded buildIs_def]
  have tot: "totals t (bs_overall st) = Inr (rollup t xs)" using totals_ok[OF _ E(3)] B by blast
  define P M where "P = bs_projectDimensions st" and "M = bs_modelDimensions st"
  define S D PR MR where "S = totalsRows sessionOf (sessionRow rq) t xs" and "D = totalsRows (dayOf dayStart) (dailyRow rq) t xs"
    and "PR = totalsRows (bucketOf projectOf dayStart) (dimensionRow rq P) t xs"
    and "MR = totalsRows (bucketOf modelOf dayStart) (dimensionRow rq M) t xs"
  have rows: "sessionRollupModels rq (bs_sessions st) = Inr S" "dailyRollupModels rq (bs_days st) = Inr D"
    "projectRollupModels rq (bs_projects st) P = Inr PR" "modelRollupModels rq (bs_models st) M = Inr MR"
    using rollupModels_ok[OF st(2) E(3)] by (simp_all add: S_def D_def PR_def MR_def P_def M_def t_def)
  have dims: "dimsAre projectOf (dayOf dayStart) xs P" "dimsAre modelOf (dayOf dayStart) xs M"
    using B by (simp_all add: P_def M_def)
  define db2 where "db2 = db1\<lparr>cd_TurnCosts := cd_TurnCosts db @ map snd xs,
     cd_Sessions := cd_Sessions db @ S, cd_Daily := cd_Daily db @ D, cd_Projects := cd_Projects db @ PR, cd_Models := cd_Models db @ MR\<rparr>"
  note pers = persisted_ok[OF assms(1-3,5) dims, folded t_def, folded S_def D_def PR_def MR_def db1_def, folded db2_def]
  have gi: "gens_inv ?gens" using assms(1) by (simp add: ledger_inv_def Let_def)
  have "\<not> (\<exists>g \<in> set ?gens. activeIn (rq_ReportingTimezone rq) g \<and> cg_UpdatedAtMS g > rq_CalculatedAtMS rq)"
    using assms(6) by (meson not_le)
  then have sw: "switchGeneration rq (cd_Generations db2) = Inr (switched rq ?gens)"
    using switchGeneration_eq[OF gi assms(2)] by (simp add: db2_def db1_def)
  define db' where "db' = db2\<lparr>cd_Generations := switched rq ?gens\<rparr>"
  have "find (\<lambda>g. cg_GenerationID g = ?g) ?gens = None" using assms(2) by (force simp: find_None_iff)
  then have run: "RebuildCostLedger env rq db = Inr (\<lparr>rp_GenerationID = ?g, rp_FinalTurns = ro_TurnCount (rollup t xs),
      rp_PricedTurns = ro_PricedTurnCount (rollup t xs), rp_UnpricedTurns = ro_UnpricedTurnCount (rollup t xs),
      rp_EstimatedUSDMicros = ro_EstimatedUSDMicros (rollup t xs), rp_Replayed = False\<rparr>, db')"
    using assms(3) st(1) p1(2) tot reconcileBuilt_ok[OF st(2) E(3) assms(4)] rows pers(1,2) sw B
    by (simp add: RebuildCostLedger_def rebuildCostLedgerInTransaction_def Let_def db1_def[symmetric] t_def[symmetric]
        P_def[symmetric] M_def[symmetric] db'_def)
  let ?act = "activate t ?new"
  have act: "ActiveCostLedger env (rq_ReportingTimezone rq) db' = Inr (loadCostLedgerSnapshot db' ?act)"
    unfolding t_def by (rule active_after_switch[OF gi assms(2,3)]) (simp add: db'_def)
  have i: "cg_GenerationID ?act = ?g" by (simp add: activate_def newGeneration_def)
  have snap: "sn_TurnCosts (loadCostLedgerSnapshot db' ?act) = map snd xs" "sn_SessionRollups (loadCostLedgerSnapshot db' ?act) = S"
    "sn_DailyRollups (loadCostLedgerSnapshot db' ?act) = D" "sn_ProjectDaily (loadCostLedgerSnapshot db' ?act) = PR"
    "sn_ModelDaily (loadCostLedgerSnapshot db' ?act) = MR" "cg_GenerationID (sn_Generation (loadCostLedgerSnapshot db' ?act)) = ?g"
    using reconcilePersisted_ok(2-6)[OF pers(2)] i by (simp_all add: loadCostLedgerSnapshot_def Let_def db'_def)
  show ?thesis
    using run[unfolded rollup_counts] act snap pers(3,4) unfolding S_def D_def totalsRows_def[of _ Pair] by blast
qed

definition ex_turn :: turnModel where
  "ex_turn = \<lparr>tn_TurnID = ''t'', tn_SessionID = ''s''\<rparr>"

definition ex_usage2 :: turnUsageModel where
  "ex_usage2 = ex_usage\<lparr>tu_TurnID := ''u'', tu_ObservedAtMS := 7, tu_InputTokens := None\<rparr>"

definition ex_ledger2 :: cost_db where
  "ex_ledger2 = ex_ledger\<lparr>cd_TurnUsage := [ex_usage2, ex_usage, ex_usage\<lparr>tu_TurnID := ''w'', tu_IsFinal := False\<rparr>],
     cd_Turns := [ex_turn, ex_turn\<lparr>tn_TurnID := ''u''\<rparr>, ex_turn\<lparr>tn_TurnID := ''w''\<rparr>]\<rparr>"

definition ex_fact :: costFactModel where
  "ex_fact = joinFact ex_usage ex_turn (Some ex_attribution)"

definition ex_fact2 :: costFactModel where
  "ex_fact2 = joinFact ex_usage2 ex_turn None"

definition ex_cost :: TurnCost where
  "ex_cost = \<lparr>tc_GenerationID = ''g1'', tc_TurnID = ''t'', tc_PricingVersion = Some ''v'', tc_EstimatedUSDMicros = Some 3,
     tc_Status = CostStatusPriced, tc_Reason = CostReasonPriced, tc_CalculatedAtMS = 9\<rparr>"

definition ex_cost2 :: TurnCost where
  "ex_cost2 = ex_cost\<lparr>tc_TurnID := ''u'', tc_PricingVersion := None, tc_EstimatedUSDMicros := None,
     tc_Status := CostStatusUnpriced, tc_Reason := CostReasonMissingAttribution\<rparr>"

theorem rebuild_succeeds_and_conserves_witness:
  "\<exists>db' snap. RebuildCostLedger ex_env (ex_request ''g1'' 9) ex_ledger2 =
      Inr (\<lparr>rp_GenerationID = ''g1'', rp_FinalTurns = 2, rp_PricedTurns = 1, rp_UnpricedTurns = 1,
        rp_EstimatedUSDMicros = Some 3, rp_Replayed = False\<rparr>, db') \<and>
    ActiveCostLedger ex_env ''UTC'' db' = Inr snap \<and> sn_TurnCosts snap = [ex_cost, ex_cost2]"
proof -
  let ?xs = "[(ex_fact, ex_cost), (ex_fact2, ex_cost2)]" and ?rq = "ex_request ''g1'' 9" and ?day = "\<lambda>t. t - t mod 86400000 :: int"
  have inv: "ledger_inv ex_ledger2" "cd_Generations ex_ledger2 = []"
    by (simp_all add: ledger_inv_def ex_ledger2_def ex_ledger_def emptyLedger_def gens_inv_def table_ok_def)
  have v: "validateCostRebuildRequest ex_env ?rq = Inr ?day"
    by (simp add: validateCostRebuildRequest_def ex_env_def ex_request_def)
  have e: "enumerates ex_env" by (simp add: enumerates_def ex_env_def sorted_list_of_fset.rep_eq)
  have r: "entriesReady ?rq ?day ex_ledger2 ?xs" by code_simp
  have s: "filter isPriced ?xs = [(ex_fact, ex_cost)]" "filter (\<lambda>x. \<not> isPriced x) ?xs = [(ex_fact2, ex_cost2)]"
    "(\<Sum>x \<leftarrow> ?xs. amount x) = 3" "\<exists>x \<in> set ?xs. isPriced x"
    by (simp_all add: isPriced_def amount_def ex_cost_def ex_cost2_def)
  have g: "rq_GenerationID ?rq = ''g1''" "rq_ReportingTimezone ?rq = ''UTC''" by (simp_all add: ex_request_def)
  have n: "rq_GenerationID ?rq \<notin> cg_GenerationID ` set (cd_Generations ex_ledger2)"
    "\<forall>g \<in> set (cd_Generations ex_ledger2). activeIn (rq_ReportingTimezone ?rq) g \<longrightarrow> cg_UpdatedAtMS g \<le> rq_CalculatedAtMS ?rq"
    using inv(2) by simp_all
  from rebuild_succeeds_and_conserves[OF inv(1) n(1) v e r n(2)] show ?thesis
    unfolding s(1,2,3) if_P[OF s(4)] g by (elim exE conjE) (intro exI conjI, simp, assumption, simp)
qed

end
