(* ===== verification/Quota_Types.thy ===== *)
theory Quota_Types
  imports Float64 Runtime_Clock "HOL-Library.List_Lexorder" "HOL-Library.Char_ord"
begin

text \<open>
  Records of the quota projection (\<open>src/internal/store/quota_records.go\<close>) and of the source
  schedule (\<open>source_refresh_schedule_records.go\<close>, \<open>runtime_records.go\<close>). String types that the code
  orders or compares with arbitrary stored text stay strings with named constants; the others are
  datatypes, with a constructor for unknown stored text where the code has a default branch. The used
  percentage is a \<open>float64\<close>, compared as IEEE 754 prescribes: every comparison with NaN but \<open>!=\<close> is false.
\<close>

definition flt :: "float64 \<Rightarrow> float64 \<Rightarrow> bool" where
  "flt a b =
     (case (a, b) of
        (Fin x, Fin y) \<Rightarrow> x < y
      | (NegInf, Fin _) \<Rightarrow> True
      | (NegInf, PosInf) \<Rightarrow> True
      | (Fin _, PosInf) \<Rightarrow> True
      | _ \<Rightarrow> False)"

definition feq :: "float64 \<Rightarrow> float64 \<Rightarrow> bool" where
  "feq a b \<longleftrightarrow> a = b \<and> a \<noteq> NaN"

section \<open>Observations\<close>

definition maxWindowMinutes :: int64 where
  "maxWindowMinutes = 525600"

definition sourceLocalJSONL :: string where "sourceLocalJSONL = ''local_jsonl''"
definition sourceWham :: string where "sourceWham = ''wham''"
definition sourceAppServer :: string where "sourceAppServer = ''app_server''"

datatype ObservationValidity = ValidityAccepted | ValiditySuspicious | ValidityRejected | ValidityOther string

datatype RejectionReason =
  ReasonMissingLimitID | ReasonMissingPrimaryWindow | ReasonResetNotFuture | ReasonUnknownPlanType
| ReasonInvalidUsedPercent | ReasonInvalidWindowMinutes | ReasonInvalidResetsAt | ReasonInvalidStructure
| ReasonUsedRegression | ReasonResetRegression | ReasonObservedRegression | ReasonSourceConflict
| ReasonDefaultFallback | ReasonOther string

record QuotaObservation =
  qob_ObservationID :: string
  qob_AccountScope :: string
  qob_Source :: string
  qob_LimitID :: "string option"
  qob_LimitName :: "string option"
  qob_WindowKind :: string
  qob_UsedPercent :: float64
  qob_WindowMinutes :: int64
  qob_ResetsAtMS :: int64
  qob_PlanType :: "string option"
  qob_Validity :: ObservationValidity
  qob_RejectionReason :: "RejectionReason option"
  qob_FirstObservedAtMS :: int64
  qob_LastObservedAtMS :: int64
  qob_SampleCount :: int64
  qob_RequestID :: "string option"
  qob_SessionID :: "string option"
  qob_SourceFileID :: "string option"
  qob_FirstSourceGeneration :: int64
  qob_FirstSourceOffset :: int64
  qob_SourceGeneration :: int64
  qob_SourceOffset :: int64

section \<open>The projection\<close>

datatype QuotaCurrentFreshness =
  QuotaCurrentNeverLoaded | QuotaCurrentFresh | QuotaCurrentStale | QuotaCurrentExpiredUnknown | QuotaCurrentSuspicious

datatype QuotaConflictState = QuotaConflictNone | QuotaConflictPresent

datatype QuotaExplanationCode =
  QuotaExplanationTrusted | QuotaExplanationStale | QuotaExplanationExpired | QuotaExplanationSuspicious
| QuotaExplanationSourceConflict | QuotaExplanationUnavailable

datatype QuotaEvidenceDisposition =
  QuotaEvidenceSelected | QuotaEvidenceEligible | QuotaEvidenceSuperseded | QuotaEvidenceSuspicious | QuotaEvidenceRejected

record QuotaArbitrationRule =
  qru_Version :: string
  qru_FreshForMS :: int64
  qru_MaxClockSkewMS :: int64

record QuotaCurrent =
  qcu_AccountScope :: string
  qcu_WindowKind :: string
  qcu_LimitID :: string
  qcu_ObservationID :: "string option"
  qcu_EffectiveUsedPercent :: "float64 option"
  qcu_WindowMinutes :: "int64 option"
  qcu_ResetsAtMS :: "int64 option"
  qcu_WindowGeneration :: "int64 option"
  qcu_SelectedSource :: "string option"
  qcu_FreshnessState :: QuotaCurrentFreshness
  qcu_ConflictState :: QuotaConflictState
  qcu_FreshUntilMS :: "int64 option"
  qcu_LastSuccessAtMS :: "int64 option"
  qcu_LastAttemptAtMS :: "int64 option"
  qcu_RuleVersion :: string
  qcu_ExplanationCode :: QuotaExplanationCode
  qcu_EvaluatedAtMS :: int64

record QuotaArbitrationEvidence =
  qev_AccountScope :: string
  qev_WindowKind :: string
  qev_LimitID :: string
  qev_ObservationID :: string
  qev_WindowGeneration :: "int64 option"
  qev_Disposition :: QuotaEvidenceDisposition
  qev_Reason :: "RejectionReason option"
  qev_ExplanationCode :: QuotaExplanationCode

section \<open>Sources\<close>

datatype SourceFailureCode =
  SourceFailureNetworkUnavailable | SourceFailureTimeout | SourceFailureAuthRequired | SourceFailureHTTP429
| SourceFailureServerError | SourceFailureSchemaIncompatible | SourceFailureCancelled | SourceFailureOther string

datatype SourceFreshness =
  SourceFreshnessUnknown | SourceFreshnessCurrent | SourceFreshnessStale | SourceFreshnessUnavailable

record SourceState =
  sst_SourceInstanceID :: string
  sst_SourceType :: string
  sst_ScopeKey :: string
  sst_LastAttemptAtMS :: "int64 option"
  sst_LastSuccessAtMS :: "int64 option"
  sst_NextDueAtMS :: "int64 option"
  sst_ConsecutiveFailures :: int64
  sst_LastErrorClass :: "string option"
  sst_LastFailureCode :: "SourceFailureCode option"
  sst_FreshnessState :: SourceFreshness
  sst_CursorVersion :: int64
  sst_UpdatedAtMS :: int64

datatype SourceRefreshReason =
  RefreshReasonStartup | RefreshReasonNormalInterval | RefreshReasonLowRemaining | RefreshReasonNearReset
| RefreshReasonResetGrace | RefreshReasonForeground | RefreshReasonWakeStale | RefreshReasonManual
| RefreshReasonNetworkBackoff | RefreshReasonRetryAfter | RefreshReasonAuthRequired
| RefreshReasonSchemaIncompatible | RefreshReasonCancelled | RefreshReasonDisabled
| RefreshReasonInactiveAccount | RefreshReasonRecovery

datatype SourceRefreshTrigger =
  RefreshTriggerScheduled | RefreshTriggerStartup | RefreshTriggerForeground | RefreshTriggerWake
| RefreshTriggerManual | RefreshTriggerRecovery | RefreshTriggerOther string

record SourceRefreshSchedule =
  srs_SourceInstanceID :: string
  srs_SourceType :: string
  srs_ScopeKey :: string
  srs_BindingGeneration :: int64
  srs_NextDueAtMS :: "int64 option"
  srs_Reason :: SourceRefreshReason
  srs_LastManualAtMS :: "int64 option"
  srs_ActiveClaimID :: "string option"
  srs_ActiveTrigger :: "SourceRefreshTrigger option"
  srs_ClaimStartedAtMS :: "int64 option"
  srs_ClaimExpiresAtMS :: "int64 option"
  srs_Revision :: int64
  srs_UpdatedAtMS :: int64

end
