(* ===== verification/Refresh_Schedule.thy ===== *)
theory Refresh_Schedule
  imports Quota_Types
begin

text \<open>
  The refresh policy of the online quota sources (\<open>src/internal/codex/quota/schedule.go\<close>): when a
  source is fetched next, given its schedule row, its last outcome, the quota windows and what
  triggered the planning. Each planning takes at most one jitter sample, which is the field
  \<open>rp_jitter\<close>; \<open>None\<close> is the nil function of a zero policy.
\<close>

section \<open>Constants and data\<close>

definition manualRefreshMinimumIntervalMS :: int64 where "manualRefreshMinimumIntervalMS = 60000"
definition foregroundRefreshAgeMS :: int64 where "foregroundRefreshAgeMS = 60000"
definition quotaFastIntervalMS :: int64 where "quotaFastIntervalMS = 120000"
definition quotaNearResetMS :: int64 where "quotaNearResetMS = 600000"
definition quotaResetGraceMS :: int64 where "quotaResetGraceMS = 3000"
definition maximumScheduleIntervalSeconds :: int64 where "maximumScheduleIntervalSeconds = 86400"

lemmas schedule_consts [pulse_defs] =
  manualRefreshMinimumIntervalMS_def foregroundRefreshAgeMS_def quotaFastIntervalMS_def quotaNearResetMS_def
  quotaResetGraceMS_def maximumScheduleIntervalSeconds_def

datatype refresh_error = ErrInvalidRefreshPolicy

datatype RefreshSource = RefreshSourceQuota | RefreshSourceResetCredits | RefreshSourceOther string

record RefreshPlanInput =
  rpi_Source :: RefreshSource
  rpi_Trigger :: SourceRefreshTrigger
  rpi_Enabled :: bool
  rpi_NowMS :: int64
  rpi_IntervalSeconds :: int64
  rpi_Schedule :: "SourceRefreshSchedule option"
  rpi_SourceState :: "SourceState option"
  rpi_Windows :: "QuotaCurrent list"
  rpi_BindingChanged :: bool

record RefreshDecision =
  rde_NextDueAtMS :: "int64 option"
  rde_Reason :: SourceRefreshReason
  rde_ShouldFetch :: bool

record QuotaResetSummary =
  qrs_NextResetAtMS :: "int64 option"
  qrs_RemainingMS :: "int64 option"
  qrs_TrustedWindowCount :: int64

record RefreshPolicy =
  rpo_jitter :: "float64 option"

definition NewRefreshPolicy :: "float64 option \<Rightarrow> refresh_error + RefreshPolicy" where
  "NewRefreshPolicy jitter = (if jitter = None then Inl ErrInvalidRefreshPolicy else Inr \<lparr>rpo_jitter = jitter\<rparr>)"

section \<open>Helpers\<close>

definition validRefreshSource :: "RefreshSource \<Rightarrow> bool" where
  "validRefreshSource s \<longleftrightarrow> s = RefreshSourceQuota \<or> s = RefreshSourceResetCredits"

definition validRefreshPlanTrigger :: "SourceRefreshTrigger \<Rightarrow> bool" where
  "validRefreshPlanTrigger t \<longleftrightarrow>
     t \<in> {RefreshTriggerScheduled, RefreshTriggerStartup, RefreshTriggerForeground, RefreshTriggerWake,
          RefreshTriggerManual, RefreshTriggerRecovery}"

definition addScheduleDurationChecked :: "int64 \<Rightarrow> int64 \<Rightarrow> int64 \<times> bool" where
  "addScheduleDurationChecked value delta =
     (if value < 0 \<or> delta < 0 \<or> value > MaxTimestampMS - delta then (0, False) else (value + delta, True))"

definition addScheduleDuration :: "int64 \<Rightarrow> int64 \<Rightarrow> int64" where
  "addScheduleDuration value delta =
     (let (result, ok) = addScheduleDurationChecked value delta in if \<not> ok then MaxTimestampMS else result)"

definition preservedRefreshDecision :: "SourceRefreshSchedule option \<Rightarrow> RefreshDecision" where
  "preservedRefreshDecision schedule =
     (case schedule of
        None \<Rightarrow> \<lparr>rde_NextDueAtMS = None, rde_Reason = RefreshReasonNormalInterval, rde_ShouldFetch = False\<rparr>
      | Some s \<Rightarrow> \<lparr>rde_NextDueAtMS = srs_NextDueAtMS s, rde_Reason = srs_Reason s, rde_ShouldFetch = False\<rparr>)"

definition immediateRefreshDecision :: "int64 \<Rightarrow> SourceRefreshReason \<Rightarrow> RefreshDecision" where
  "immediateRefreshDecision nowMS reason = \<lparr>rde_NextDueAtMS = Some nowMS, rde_Reason = reason, rde_ShouldFetch = True\<rparr>"

definition scheduledRefreshDecision :: "int64 \<Rightarrow> SourceRefreshReason \<Rightarrow> RefreshDecision" where
  "scheduledRefreshDecision dueAtMS reason = \<lparr>rde_NextDueAtMS = Some dueAtMS, rde_Reason = reason, rde_ShouldFetch = False\<rparr>"

definition dueAfter :: "int64 option \<Rightarrow> int64 \<Rightarrow> bool" where
  "dueAfter due nowMS = (case due of None \<Rightarrow> False | Some d \<Rightarrow> d > nowMS)"

text \<open>The instant of an active Retry-After, the later of the schedule's and the source state's.\<close>

definition retryFence :: "SourceRefreshSchedule option \<Rightarrow> SourceState option \<Rightarrow> int64 \<Rightarrow> int64 option" where
  "retryFence schedule state nowMS =
     (let fence = (case schedule of
            Some s \<Rightarrow> if srs_Reason s = RefreshReasonRetryAfter \<and> dueAfter (srs_NextDueAtMS s) nowMS
                      then srs_NextDueAtMS s else None
          | None \<Rightarrow> None)
      in case state of
           None \<Rightarrow> fence
         | Some st \<Rightarrow>
             if sst_LastFailureCode st = Some SourceFailureHTTP429 \<and> dueAfter (sst_NextDueAtMS st) nowMS \<and>
                (case fence of None \<Rightarrow> True | Some f \<Rightarrow> dueAfter (sst_NextDueAtMS st) f)
             then sst_NextDueAtMS st else fence)"

definition activeRetryAfterDecision ::
  "SourceRefreshSchedule option \<Rightarrow> SourceState option \<Rightarrow> int64 \<Rightarrow> RefreshDecision option" where
  "activeRetryAfterDecision schedule state nowMS =
     (case retryFence schedule state nowMS of
        None \<Rightarrow> None
      | Some fenceAtMS \<Rightarrow>
          if (case schedule of None \<Rightarrow> False
              | Some s \<Rightarrow> (case srs_NextDueAtMS s of None \<Rightarrow> False | Some d \<Rightarrow> d \<ge> fenceAtMS))
          then Some (preservedRefreshDecision schedule)
          else Some (scheduledRefreshDecision fenceAtMS RefreshReasonRetryAfter))"

definition durableFailureRestartDecision ::
  "SourceRefreshSchedule option \<Rightarrow> SourceState option \<Rightarrow> int64 \<Rightarrow> RefreshDecision option" where
  "durableFailureRestartDecision schedule state nowMS =
     (case activeRetryAfterDecision schedule state nowMS of
        Some d \<Rightarrow> Some d
      | None \<Rightarrow>
          (case schedule of
             None \<Rightarrow> None
           | Some s \<Rightarrow>
               if srs_NextDueAtMS s = None \<or>
                  (srs_Reason s \<noteq> RefreshReasonNetworkBackoff \<and> srs_Reason s \<noteq> RefreshReasonRetryAfter)
               then None
               else Some (preservedRefreshDecision schedule)))"

definition schedulePausesAutomaticRefresh :: "SourceRefreshSchedule option \<Rightarrow> int64 \<Rightarrow> bool" where
  "schedulePausesAutomaticRefresh schedule nowMS =
     (case schedule of
        None \<Rightarrow> False
      | Some s \<Rightarrow> srs_Reason s = RefreshReasonDisabled \<or>
          (srs_Reason s = RefreshReasonNetworkBackoff \<or> srs_Reason s = RefreshReasonRetryAfter) \<and>
          dueAfter (srs_NextDueAtMS s) nowMS)"

definition trustedScheduleWindow :: "int64 \<Rightarrow> QuotaCurrent \<Rightarrow> bool" where
  "trustedScheduleWindow nowMS window =
     (if qcu_ObservationID window = None \<or> qcu_EffectiveUsedPercent window = None \<or> qcu_ResetsAtMS window = None \<or>
         \<not> dueAfter (qcu_ResetsAtMS window) nowMS
      then False
      else qcu_FreshnessState window = QuotaCurrentFresh \<or> qcu_FreshnessState window = QuotaCurrentStale)"

section \<open>Cadence\<close>

definition resetStep :: "int64 \<Rightarrow> QuotaResetSummary \<Rightarrow> QuotaCurrent \<Rightarrow> QuotaResetSummary" where
  "resetStep nowMS result window =
     (if \<not> trustedScheduleWindow nowMS window then result
      else
        (let counted = result\<lparr>qrs_TrustedWindowCount := qrs_TrustedWindowCount result + 1\<rparr>
         in case (qrs_NextResetAtMS counted, qcu_ResetsAtMS window) of
              (Some n, Some r) \<Rightarrow> if r < n then counted\<lparr>qrs_NextResetAtMS := Some r\<rparr> else counted
            | (_, r) \<Rightarrow> counted\<lparr>qrs_NextResetAtMS := r\<rparr>))"

definition CalculateQuotaResetSummary :: "QuotaCurrent list \<Rightarrow> int64 \<Rightarrow> refresh_error + QuotaResetSummary" where
  "CalculateQuotaResetSummary windows nowMS =
     (if nowMS < 0 \<or> nowMS > MaxTimestampMS then Inl ErrInvalidRefreshPolicy
      else
        (let result = foldl (resetStep nowMS) \<lparr>qrs_NextResetAtMS = None, qrs_RemainingMS = None, qrs_TrustedWindowCount = 0\<rparr> windows
         in Inr (case qrs_NextResetAtMS result of
              None \<Rightarrow> result
            | Some r \<Rightarrow> result\<lparr>qrs_RemainingMS := Some (r - nowMS)\<rparr>)))"

definition lowRemainingWindow :: "QuotaCurrent \<Rightarrow> bool" where
  "lowRemainingWindow window =
     (case qcu_EffectiveUsedPercent window of None \<Rightarrow> False | Some u \<Rightarrow> flt (Fin 80) u \<or> feq u (Fin 80))"

definition planQuotaCadence :: "RefreshPlanInput \<Rightarrow> refresh_error + RefreshDecision" where
  "planQuotaCadence input =
     (let lowRemaining = list_ex (\<lambda>w. trustedScheduleWindow (rpi_NowMS input) w \<and> lowRemainingWindow w) (rpi_Windows input)
      in case CalculateQuotaResetSummary (rpi_Windows input) (rpi_NowMS input) of
           Inl e \<Rightarrow> Inl e
         | Inr summary \<Rightarrow>
             (let near = (case qrs_RemainingMS summary of None \<Rightarrow> False | Some r \<Rightarrow> r \<le> quotaNearResetMS);
                  intervalMS = (if lowRemaining \<or> near then quotaFastIntervalMS else rpi_IntervalSeconds input * 1000);
                  reason = (if lowRemaining then RefreshReasonLowRemaining else if near then RefreshReasonNearReset
                            else RefreshReasonNormalInterval);
                  (dueAtMS, ok) = addScheduleDurationChecked (rpi_NowMS input) intervalMS
              in if \<not> ok then Inl ErrInvalidRefreshPolicy
                 else Inr (case qrs_NextResetAtMS summary of
                   None \<Rightarrow> scheduledRefreshDecision dueAtMS reason
                 | Some r \<Rightarrow>
                     (let (resetGraceAtMS, valid) = addScheduleDurationChecked r quotaResetGraceMS
                      in if valid \<and> resetGraceAtMS < dueAtMS
                         then scheduledRefreshDecision resetGraceAtMS RefreshReasonResetGrace
                         else scheduledRefreshDecision dueAtMS reason))))"

definition networkBackoffAt :: "RefreshPolicy \<Rightarrow> int64 \<Rightarrow> int64 \<Rightarrow> refresh_error + int64" where
  "networkBackoffAt policy nowMS failures =
     (let f = (if failures < 1 then 1 else failures);
          minutes = (if f = 1 then 5 else if f = 2 then 10 else if f = 3 then 20 else 30 :: int64);
          delayMS = minutes * 60000
      in case rpo_jitter policy of
           Some (Fin sample) \<Rightarrow>
             if sample < 0 \<or> sample \<ge> 1 then Inl ErrInvalidRefreshPolicy
             else
               (let jittered = (if delayMS < 1800000
                      then (case int_of_float (fmul (fmul (float_of_int delayMS) (round64 (1 / 10))) (Fin sample)) of
                              None \<Rightarrow> delayMS
                            | Some j \<Rightarrow> if delayMS + j > 1800000 then 1800000 else delayMS + j)
                      else delayMS);
                    (dueAtMS, ok) = addScheduleDurationChecked nowMS jittered
                in if \<not> ok then Inl ErrInvalidRefreshPolicy else Inr dueAtMS)
         | _ \<Rightarrow> Inl ErrInvalidRefreshPolicy)"

definition intervalDecision :: "RefreshPlanInput \<Rightarrow> SourceRefreshReason \<Rightarrow> refresh_error + RefreshDecision" where
  "intervalDecision input reason =
     (let (dueAtMS, ok) = addScheduleDurationChecked (rpi_NowMS input) (rpi_IntervalSeconds input * 1000)
      in if \<not> ok then Inl ErrInvalidRefreshPolicy else Inr (scheduledRefreshDecision dueAtMS reason))"

definition backoffDecision :: "RefreshPolicy \<Rightarrow> RefreshPlanInput \<Rightarrow> SourceState \<Rightarrow> refresh_error + RefreshDecision" where
  "backoffDecision policy input state =
     (case networkBackoffAt policy (rpi_NowMS input) (sst_ConsecutiveFailures state) of
        Inl e \<Rightarrow> Inl e
      | Inr backoffAtMS \<Rightarrow>
          if sst_LastFailureCode state = Some SourceFailureHTTP429 \<and> dueAfter (sst_NextDueAtMS state) backoffAtMS
          then Inr (case sst_NextDueAtMS state of
                 None \<Rightarrow> scheduledRefreshDecision backoffAtMS RefreshReasonNetworkBackoff
               | Some d \<Rightarrow> scheduledRefreshDecision d RefreshReasonRetryAfter)
          else Inr (scheduledRefreshDecision backoffAtMS RefreshReasonNetworkBackoff))"

definition cadenceDecision :: "RefreshPlanInput \<Rightarrow> refresh_error + RefreshDecision" where
  "cadenceDecision input =
     (if rpi_Source input = RefreshSourceResetCredits then intervalDecision input RefreshReasonNormalInterval
      else planQuotaCadence input)"

definition nextDecision :: "RefreshPolicy \<Rightarrow> RefreshPlanInput \<Rightarrow> refresh_error + RefreshDecision" where
  "nextDecision policy input =
     (case rpi_SourceState input of
        None \<Rightarrow> cadenceDecision input
      | Some state \<Rightarrow>
          (case sst_LastFailureCode state of
             None \<Rightarrow> cadenceDecision input
           | Some SourceFailureSchemaIncompatible \<Rightarrow>
               Inr \<lparr>rde_NextDueAtMS = None, rde_Reason = RefreshReasonSchemaIncompatible, rde_ShouldFetch = False\<rparr>
           | Some SourceFailureCancelled \<Rightarrow> intervalDecision input RefreshReasonCancelled
           | Some (SourceFailureOther _) \<Rightarrow> cadenceDecision input
           | Some _ \<Rightarrow> backoffDecision policy input state))"

section \<open>Planning\<close>

definition fencedOr :: "RefreshPlanInput \<Rightarrow> RefreshDecision \<Rightarrow> RefreshDecision" where
  "fencedOr input otherwise =
     (case activeRetryAfterDecision (rpi_Schedule input) (rpi_SourceState input) (rpi_NowMS input) of
        Some d \<Rightarrow> d
      | None \<Rightarrow> otherwise)"

definition planManual :: "RefreshPlanInput \<Rightarrow> RefreshDecision" where
  "planManual input =
     (let now = rpi_NowMS input;
          recent = (case rpi_Schedule input of None \<Rightarrow> False
             | Some s \<Rightarrow> (case srs_LastManualAtMS s of None \<Rightarrow> False
                 | Some m \<Rightarrow> now < addScheduleDuration m manualRefreshMinimumIntervalMS))
      in if recent then preservedRefreshDecision (rpi_Schedule input)
         else fencedOr input (immediateRefreshDecision now RefreshReasonManual))"

definition planForeground :: "RefreshPlanInput \<Rightarrow> RefreshDecision" where
  "planForeground input =
     (let now = rpi_NowMS input
      in fencedOr input
        (if schedulePausesAutomaticRefresh (rpi_Schedule input) now then preservedRefreshDecision (rpi_Schedule input)
         else if (case rpi_SourceState input of None \<Rightarrow> False
             | Some st \<Rightarrow> (case sst_LastSuccessAtMS st of None \<Rightarrow> False
                 | Some t \<Rightarrow> now < addScheduleDuration t foregroundRefreshAgeMS))
         then preservedRefreshDecision (rpi_Schedule input)
         else immediateRefreshDecision now RefreshReasonForeground))"

definition planWake :: "RefreshPlanInput \<Rightarrow> RefreshDecision" where
  "planWake input =
     fencedOr input
       (if schedulePausesAutomaticRefresh (rpi_Schedule input) (rpi_NowMS input) \<or>
           (case rpi_SourceState input of None \<Rightarrow> True | Some st \<Rightarrow> sst_FreshnessState st \<noteq> SourceFreshnessStale)
        then preservedRefreshDecision (rpi_Schedule input)
        else immediateRefreshDecision (rpi_NowMS input) RefreshReasonWakeStale)"

text \<open>Take an earlier due time of the schedule, unless the schedule is paused.\<close>

definition earlierOfSchedule :: "RefreshPlanInput \<Rightarrow> RefreshDecision \<Rightarrow> RefreshDecision" where
  "earlierOfSchedule input d =
     (case (rpi_Schedule input, rde_NextDueAtMS d) of
        (Some s, Some due) \<Rightarrow>
          (case srs_NextDueAtMS s of
             Some sd \<Rightarrow>
               if sd < due \<and> \<not> schedulePausesAutomaticRefresh (Some s) (rpi_NowMS input)
               then d\<lparr>rde_NextDueAtMS := Some sd, rde_Reason := srs_Reason s\<rparr> else d
           | None \<Rightarrow> d)
      | _ \<Rightarrow> d)"

definition fetchIfDue :: "RefreshPlanInput \<Rightarrow> RefreshDecision \<Rightarrow> RefreshDecision" where
  "fetchIfDue input d =
     (case rde_NextDueAtMS d of
        None \<Rightarrow> d
      | Some due \<Rightarrow>
          if due \<le> rpi_NowMS input
          then d\<lparr>rde_NextDueAtMS := Some (rpi_NowMS input), rde_ShouldFetch := True,
                 rde_Reason := (if rpi_Trigger input = RefreshTriggerRecovery then RefreshReasonRecovery else rde_Reason d)\<rparr>
          else d)"

definition restartDecision :: "RefreshPolicy \<Rightarrow> RefreshPlanInput \<Rightarrow> refresh_error + RefreshDecision" where
  "restartDecision policy input =
     (case durableFailureRestartDecision (rpi_Schedule input) (rpi_SourceState input) (rpi_NowMS input) of
        Some d \<Rightarrow> Inr d
      | None \<Rightarrow> (case nextDecision policy input of Inl e \<Rightarrow> Inl e | Inr d \<Rightarrow> Inr (earlierOfSchedule input d)))"

definition planRestart :: "RefreshPolicy \<Rightarrow> RefreshPlanInput \<Rightarrow> refresh_error + RefreshDecision" where
  "planRestart policy input =
     (let now = rpi_NowMS input;
          first = immediateRefreshDecision now
            (if rpi_Trigger input = RefreshTriggerRecovery then RefreshReasonRecovery else RefreshReasonStartup)
      in case rpi_SourceState input of
           None \<Rightarrow> Inr first
         | Some st \<Rightarrow>
             if sst_LastAttemptAtMS st = None then Inr first
             else if rpi_Trigger input = RefreshTriggerStartup \<and>
               (sst_LastFailureCode st = Some SourceFailureAuthRequired \<or>
                sst_LastFailureCode st = Some SourceFailureSchemaIncompatible)
             then Inr (immediateRefreshDecision now RefreshReasonStartup)
             else (case restartDecision policy input of Inl e \<Rightarrow> Inl e | Inr d \<Rightarrow> Inr (fetchIfDue input d)))"

definition invalidPlanInput :: "RefreshPolicy \<Rightarrow> RefreshPlanInput \<Rightarrow> bool" where
  "invalidPlanInput policy input \<longleftrightarrow>
     rpo_jitter policy = None \<or> \<not> validRefreshSource (rpi_Source input) \<or> \<not> validRefreshPlanTrigger (rpi_Trigger input) \<or>
     rpi_NowMS input < 0 \<or> rpi_NowMS input > MaxTimestampMS \<or> rpi_IntervalSeconds input < 60 \<or>
     rpi_IntervalSeconds input > maximumScheduleIntervalSeconds"

definition Plan :: "RefreshPolicy \<Rightarrow> RefreshPlanInput \<Rightarrow> refresh_error + RefreshDecision" where
  "Plan policy input =
     (if invalidPlanInput policy input then Inl ErrInvalidRefreshPolicy
      else if \<not> rpi_Enabled input
      then Inr \<lparr>rde_NextDueAtMS = None, rde_Reason = RefreshReasonDisabled, rde_ShouldFetch = False\<rparr>
      else if (case rpi_Schedule input of None \<Rightarrow> False | Some s \<Rightarrow> srs_ActiveClaimID s \<noteq> None) \<and>
              rpi_Trigger input \<noteq> RefreshTriggerScheduled
      then Inr (preservedRefreshDecision (rpi_Schedule input))
      else if rpi_BindingChanged input
      then Inr (fencedOr input (immediateRefreshDecision (rpi_NowMS input) RefreshReasonRecovery))
      else
        (case rpi_Trigger input of
           RefreshTriggerManual \<Rightarrow> Inr (planManual input)
         | RefreshTriggerForeground \<Rightarrow> Inr (planForeground input)
         | RefreshTriggerWake \<Rightarrow> Inr (planWake input)
         | RefreshTriggerStartup \<Rightarrow> planRestart policy input
         | RefreshTriggerRecovery \<Rightarrow> planRestart policy input
         | RefreshTriggerScheduled \<Rightarrow> nextDecision policy input
         | RefreshTriggerOther _ \<Rightarrow> Inl ErrInvalidRefreshPolicy))"

section \<open>Lemmas: durations and backoff\<close>

lemma addScheduleDurationChecked_eq:
  "addScheduleDurationChecked v d = (if 0 \<le> v \<and> 0 \<le> d \<and> v + d \<le> MaxTimestampMS then (v + d, True) else (0, False))"
  by (auto simp: addScheduleDurationChecked_def)

text \<open>The jitter of a bounded delay, scaled by a factor of at most 2, converts to a non-negative integer.\<close>

lemma scaled_jitter:
  assumes "0 \<le> e" and "e \<le> 2 ^ 40" and "0 \<le> c" and "c \<le> 2" and "0 \<le> s" and "s < 1"
  shows "\<exists>j. int_of_float (fmul (fmul (float_of_int e) (Fin c)) (Fin s)) = Some j \<and> 0 \<le> j"
proof -
  have e: "rat_of_int e \<le> 2 ^ 40" using assms(2) by (metis of_int_le_iff of_int_numeral of_int_power)
  obtain a where a: "float_of_int e = Fin a" "0 \<le> a" "a \<le> of_int e + of_int e / 2 ^ 52 + 1"
    using round64_finite[of "of_int e"] assms(1) e by (auto simp: float_of_int_def)
  have a2: "a \<le> 2 ^ 41" using a(3) e by simp
  have "0 \<le> a * c" using a(2) assms(3) by simp
  moreover have "a * c \<le> 2 ^ 41 * 2" using a(2) a2 assms(3,4) by (intro mult_mono) simp_all
  ultimately obtain b where b: "round64 (a * c) = Fin b" "0 \<le> b" "b \<le> 2 ^ 43"
    using round64_finite[of "a * c"] by fastforce
  have bs: "0 \<le> b * s" "b * s \<le> b" using b(2) assms(5,6) by (simp_all add: mult_left_le)
  then obtain d where d: "round64 (b * s) = Fin d" "0 \<le> d" "d \<le> b * s + b * s / 2 ^ 52 + 1"
    using round64_finite[of "b * s"] b(3) by auto
  have "d \<le> 2 ^ 44" using d(3) bs(2) b(3) by simp
  then have "rat_of_int \<lfloor>d\<rfloor> \<le> of_int (2 ^ 44)" using of_int_floor_le[of d] by (simp del: of_int_floor_le)
  then have "\<lfloor>d\<rfloor> \<le> 2 ^ 44" by (simp only: of_int_le_iff)
  then have "int_of_float (Fin d) = Some \<lfloor>d\<rfloor>" using d(2) by (simp add: Let_def in64_def)
  with a(1) b(1) d(1,2) show ?thesis by (simp add: fmul_def)
qed

lemma networkBackoffAt_bounds:
  assumes "0 \<le> now" and "now + 1800000 \<le> MaxTimestampMS" and "0 \<le> s" and "s < 1" and "rpo_jitter policy = Some (Fin s)"
  shows "\<exists>due. networkBackoffAt policy now failures = Inr due \<and> now + 300000 \<le> due \<and> due \<le> now + 1800000"
proof -
  define minutes where "minutes = (if max failures 1 = 1 then 5 else if max failures 1 = 2 then 10 else if max failures 1 = 3 then 20 else 30 :: int64)"
  have m: "300000 \<le> minutes * 60000" "minutes * 60000 \<le> 1800000" by (auto simp: minutes_def)
  have mx: "(if failures < 1 then 1 else failures) = max failures 1" by auto
  obtain c where c: "round64 (1 / 10) = Fin c" "0 \<le> c" "c \<le> 1 / 10 + 1 / 10 / 2 ^ 52 + 1"
    using round64_finite[of "1 / 10"] by auto
  then have c2: "c \<le> 2" by simp
  obtain j where j: "int_of_float (fmul (fmul (float_of_int (minutes * 60000)) (Fin c)) (Fin s)) = Some j" "0 \<le> j"
    using scaled_jitter[of "minutes * 60000" c s] c(2) c2 m assms(3,4) by auto
  define jittered where "jittered = (if minutes * 60000 < 1800000
    then (if minutes * 60000 + j > 1800000 then 1800000 else minutes * 60000 + j) else minutes * 60000)"
  have jj: "300000 \<le> jittered" "jittered \<le> 1800000" using m j(2) by (auto simp: jittered_def)
  have "networkBackoffAt policy now failures = Inr (now + jittered)"
    using assms jj c(1) j(1) unfolding networkBackoffAt_def mx
    by (simp add: Let_def minutes_def[symmetric] addScheduleDurationChecked_eq) (use m j(2) in \<open>auto simp: jittered_def\<close>)
  with jj show ?thesis by simp
qed

section \<open>Lemmas: the Retry-After fence\<close>

text \<open>The source was rate limited and may not be asked again before \<open>f\<close>.\<close>

definition rateLimitedUntil :: "SourceState option \<Rightarrow> int64 \<Rightarrow> int64 \<Rightarrow> bool" where
  "rateLimitedUntil state nowMS f \<longleftrightarrow>
     (case state of None \<Rightarrow> False
      | Some st \<Rightarrow> sst_LastFailureCode st = Some SourceFailureHTTP429 \<and> sst_NextDueAtMS st = Some f \<and> nowMS < f \<and>
          sst_LastAttemptAtMS st \<noteq> None)"

definition heldUntil :: "int64 \<Rightarrow> RefreshDecision \<Rightarrow> bool" where
  "heldUntil f d \<longleftrightarrow> \<not> rde_ShouldFetch d \<and> (case rde_NextDueAtMS d of None \<Rightarrow> False | Some due \<Rightarrow> f \<le> due)"

lemma retryFence_ge:
  assumes "rateLimitedUntil state now f"
  shows "\<exists>g. retryFence schedule state now = Some g \<and> f \<le> g"
proof -
  obtain st where st: "state = Some st" "sst_LastFailureCode st = Some SourceFailureHTTP429" "sst_NextDueAtMS st = Some f" "now < f"
    using assms by (auto simp: rateLimitedUntil_def split: option.splits)
  show ?thesis
  proof (cases schedule)
    case (Some s)
    then show ?thesis using st by (cases "srs_NextDueAtMS s") (auto simp: retryFence_def Let_def dueAfter_def)
  qed (use st in \<open>simp add: retryFence_def dueAfter_def\<close>)
qed

lemma activeRetryAfter_held:
  assumes "rateLimitedUntil state now f"
  shows "\<exists>d. activeRetryAfterDecision schedule state now = Some d \<and> heldUntil f d"
proof -
  obtain g where g: "retryFence schedule state now = Some g" "f \<le> g" using retryFence_ge[OF assms] by blast
  show ?thesis
    using g by (auto simp: activeRetryAfterDecision_def heldUntil_def preservedRefreshDecision_def
        scheduledRefreshDecision_def split: option.splits)
qed

lemma fencedOr_held: "rateLimitedUntil (rpi_SourceState input) (rpi_NowMS input) f \<Longrightarrow> heldUntil f (fencedOr input d)"
  using activeRetryAfter_held[of "rpi_SourceState input" "rpi_NowMS input" f "rpi_Schedule input"]
  by (auto simp: fencedOr_def)

lemma planRestart_held:
  assumes "rateLimitedUntil (rpi_SourceState input) (rpi_NowMS input) f"
  shows "\<exists>d. planRestart policy input = Inr d \<and> heldUntil f d"
proof -
  obtain st where st: "rpi_SourceState input = Some st" "sst_LastFailureCode st = Some SourceFailureHTTP429"
    "sst_LastAttemptAtMS st \<noteq> None" "rpi_NowMS input < f"
    using assms by (auto simp: rateLimitedUntil_def split: option.splits)
  obtain d where d: "activeRetryAfterDecision (rpi_Schedule input) (rpi_SourceState input) (rpi_NowMS input) = Some d" "heldUntil f d"
    using activeRetryAfter_held[OF assms] by blast
  then have "fetchIfDue input d = d" using st(4) by (auto simp: fetchIfDue_def heldUntil_def split: option.splits)
  with d st show ?thesis
    by (auto simp: planRestart_def restartDecision_def durableFailureRestartDecision_def Let_def)
qed

lemma nextDecision_held:
  assumes "rateLimitedUntil (rpi_SourceState input) (rpi_NowMS input) f" and "nextDecision policy input = Inr d"
  shows "heldUntil f d"
proof -
  obtain st where st: "rpi_SourceState input = Some st" "sst_LastFailureCode st = Some SourceFailureHTTP429" "sst_NextDueAtMS st = Some f"
    using assms(1) by (auto simp: rateLimitedUntil_def split: option.splits)
  then have "backoffDecision policy input st = Inr d" using assms(2) by (simp add: nextDecision_def)
  with st show ?thesis
    by (auto simp: backoffDecision_def heldUntil_def scheduledRefreshDecision_def dueAfter_def split: sum.splits if_splits)
qed

lemma Plan_cases [consumes 1, case_names disabled claimed binding manual foreground wake restart scheduled]:
  assumes "Plan policy input = Inr d"
    and "\<not> rpi_Enabled input \<Longrightarrow> \<not> rde_ShouldFetch d \<Longrightarrow> thesis"
    and "d = preservedRefreshDecision (rpi_Schedule input) \<Longrightarrow> thesis"
    and "d = fencedOr input (immediateRefreshDecision (rpi_NowMS input) RefreshReasonRecovery) \<Longrightarrow> thesis"
    and "d = planManual input \<Longrightarrow> thesis" and "d = planForeground input \<Longrightarrow> thesis" and "d = planWake input \<Longrightarrow> thesis"
    and "planRestart policy input = Inr d \<Longrightarrow> thesis" and "nextDecision policy input = Inr d \<Longrightarrow> thesis"
  shows thesis
proof (cases "\<not> rpi_Enabled input")
  case True
  with assms(1) have "\<not> rde_ShouldFetch d" by (auto simp: Plan_def split: if_splits)
  with True show thesis by (rule assms(2))
next
  case False
  note run = assms(1)[unfolded Plan_def if_not_P[OF False]]
  show thesis
  proof (cases "(case rpi_Schedule input of None \<Rightarrow> False | Some s \<Rightarrow> srs_ActiveClaimID s \<noteq> None) \<and>
      rpi_Trigger input \<noteq> RefreshTriggerScheduled")
    case True
    with run have "d = preservedRefreshDecision (rpi_Schedule input)" by (simp split: if_splits)
    then show thesis by (rule assms(3))
  next
    case False
    note run2 = run[unfolded if_not_P[OF False]]
    show thesis
    proof (cases "rpi_BindingChanged input")
      case True
      with run2 show thesis by (intro assms(4)) (simp split: if_splits)
    next
      case False
      with run2 assms(5-9) show thesis by (cases "rpi_Trigger input") (simp_all split: if_splits)
    qed
  qed
qed

section \<open>Lemmas: the nearest reset\<close>

definition trustedResets :: "int64 \<Rightarrow> QuotaCurrent list \<Rightarrow> int64 set" where
  "trustedResets now ws = {r. \<exists>w \<in> set ws. trustedScheduleWindow now w \<and> qcu_ResetsAtMS w = Some r}"

definition nearest :: "int64 set \<Rightarrow> int64 option" where
  "nearest S = (if S = {} then None else Some (Min S))"

lemma trustedResets_snoc:
  "trustedResets now (ws @ [w]) = trustedResets now ws \<union> (if trustedScheduleWindow now w then set_option (qcu_ResetsAtMS w) else {})"
  by (auto simp: trustedResets_def)

lemma trustedResets_finite: "finite (trustedResets now ws)"
proof -
  have "trustedResets now ws \<subseteq> (\<Union>w \<in> set ws. set_option (qcu_ResetsAtMS w))" by (auto simp: trustedResets_def)
  then show ?thesis by (rule finite_subset) auto
qed

lemma trusted_reset: "trustedScheduleWindow now w \<Longrightarrow> \<exists>r. qcu_ResetsAtMS w = Some r \<and> now < r"
  by (auto simp: trustedScheduleWindow_def dueAfter_def split: if_splits option.splits)

lemma nearest_insert: "finite S \<Longrightarrow> nearest (insert r S) = Some (case nearest S of None \<Rightarrow> r | Some n \<Rightarrow> min r n)"
  by (simp add: nearest_def)

lemma resetStep_next:
  "trustedScheduleWindow now w \<Longrightarrow> qcu_ResetsAtMS w = Some r \<Longrightarrow>
    qrs_NextResetAtMS (resetStep now s w) = Some (case qrs_NextResetAtMS s of None \<Rightarrow> r | Some n \<Rightarrow> min r n)"
  by (cases "qrs_NextResetAtMS s") (simp_all add: resetStep_def Let_def)

lemma resetSteps_next:
  "qrs_NextResetAtMS (foldl (resetStep now) \<lparr>qrs_NextResetAtMS = None, qrs_RemainingMS = None, qrs_TrustedWindowCount = 0\<rparr> ws) =
     nearest (trustedResets now ws)"
proof (induction ws rule: rev_induct)
  case Nil
  then show ?case by (simp add: nearest_def trustedResets_def)
next
  case (snoc w ws)
  show ?case
  proof (cases "trustedScheduleWindow now w")
    case True
    then obtain r where r: "qcu_ResetsAtMS w = Some r" using trusted_reset by blast
    have "trustedResets now (ws @ [w]) = insert r (trustedResets now ws)" using True r by (simp add: trustedResets_snoc)
    with snoc resetStep_next[OF True r] nearest_insert[OF trustedResets_finite] show ?thesis by simp
  qed (use snoc in \<open>simp add: resetStep_def trustedResets_snoc\<close>)
qed

lemma resetSteps_remaining:
  "qrs_RemainingMS (foldl (resetStep now) s ws) = qrs_RemainingMS s"
  by (induction ws arbitrary: s) (auto simp: resetStep_def Let_def split: option.splits)

lemma CalculateQuotaResetSummary_ok:
  assumes "0 \<le> now" and "now \<le> MaxTimestampMS"
  shows "\<exists>q. CalculateQuotaResetSummary ws now = Inr q \<and> qrs_NextResetAtMS q = nearest (trustedResets now ws) \<and>
    qrs_RemainingMS q = map_option (\<lambda>r. r - now) (nearest (trustedResets now ws))"
  using assms resetSteps_next[of now ws] resetSteps_remaining[of now _ ws]
  by (auto simp: CalculateQuotaResetSummary_def Let_def split: option.split)

section \<open>Lemmas: the scheduled attempt\<close>

definition intervalOK :: "RefreshPlanInput \<Rightarrow> bool" where
  "intervalOK input \<longleftrightarrow> 60 \<le> rpi_IntervalSeconds input \<and> rpi_IntervalSeconds input \<le> 86400 \<and>
     0 \<le> rpi_NowMS input \<and> rpi_NowMS input + 86400000 \<le> MaxTimestampMS"

text \<open>A due time that follows the cadence of the quota windows.\<close>

definition promptFor :: "RefreshPlanInput \<Rightarrow> int64 \<Rightarrow> bool" where
  "promptFor input due \<longleftrightarrow>
     (let now = rpi_NowMS input
      in now < due \<and> due \<le> now + max 120000 (rpi_IntervalSeconds input * 1000) \<and>
         (\<forall>w \<in> set (rpi_Windows input). trustedScheduleWindow now w \<longrightarrow>
            (lowRemainingWindow w \<longrightarrow> due \<le> now + 120000) \<and>
            (case qcu_ResetsAtMS w of None \<Rightarrow> True
             | Some r \<Rightarrow> (r \<le> now + 600000 \<longrightarrow> due \<le> now + 120000) \<and> (r + 3000 \<le> MaxTimestampMS \<longrightarrow> due \<le> r + 3000))))"

lemma intervalDecision_ok:
  assumes "intervalOK input"
  shows "\<exists>f. (\<forall>r. intervalDecision input r = Inr (f r)) \<and> (\<forall>r. \<not> rde_ShouldFetch (f r))"
  using assms
  by (intro exI[of _ "scheduledRefreshDecision (rpi_NowMS input + rpi_IntervalSeconds input * 1000)"])
    (simp add: intervalDecision_def addScheduleDurationChecked_eq intervalOK_def scheduledRefreshDecision_def)

lemma backoffDecision_bounds:
  assumes "rpo_jitter policy = Some (Fin s)" and "0 \<le> s" and "s < 1" and "intervalOK input"
  shows "\<exists>d. backoffDecision policy input st = Inr d \<and> \<not> rde_ShouldFetch d \<and>
    (\<exists>due. rde_NextDueAtMS d = Some due \<and> rpi_NowMS input + 300000 \<le> due \<and>
      (due \<le> rpi_NowMS input + 1800000 \<or> sst_NextDueAtMS st = Some due))"
proof -
  obtain b where "networkBackoffAt policy (rpi_NowMS input) (sst_ConsecutiveFailures st) = Inr b"
    "rpi_NowMS input + 300000 \<le> b" "b \<le> rpi_NowMS input + 1800000"
    using networkBackoffAt_bounds[of "rpi_NowMS input" s policy "sst_ConsecutiveFailures st"] assms by (auto simp: intervalOK_def)
  then show ?thesis
    by (cases "sst_NextDueAtMS st") (auto simp: backoffDecision_def dueAfter_def scheduledRefreshDecision_def)
qed

lemma planQuotaCadence_prompt:
  assumes "intervalOK input"
  shows "\<exists>d. planQuotaCadence input = Inr d \<and> \<not> rde_ShouldFetch d \<and> (\<exists>due. rde_NextDueAtMS d = Some due \<and> promptFor input due)"
proof -
  let ?now = "rpi_NowMS input" and ?ws = "rpi_Windows input"
  let ?R = "trustedResets ?now ?ws"
  obtain q where q: "CalculateQuotaResetSummary ?ws ?now = Inr q" "qrs_NextResetAtMS q = nearest ?R"
    "qrs_RemainingMS q = map_option (\<lambda>r. r - ?now) (nearest ?R)"
    using CalculateQuotaResetSummary_ok[of ?now ?ws] assms by (auto simp: intervalOK_def)
  define low where "low = list_ex (\<lambda>w. trustedScheduleWindow ?now w \<and> lowRemainingWindow w) ?ws"
  define near where "near = (case nearest ?R of None \<Rightarrow> False | Some r \<Rightarrow> r \<le> ?now + 600000)"
  define interval where "interval = (if low \<or> near then 120000 else rpi_IntervalSeconds input * 1000)"
  define due where "due = (case nearest ?R of None \<Rightarrow> ?now + interval
     | Some r \<Rightarrow> if r + 3000 \<le> MaxTimestampMS then min (r + 3000) (?now + interval) else ?now + interval)"
  have min: "\<exists>n. nearest ?R = Some n \<and> n \<le> r \<and> ?now < n" if "r \<in> ?R" for r
  proof -
    have "Min ?R \<in> ?R" using that Min_in[OF trustedResets_finite] by blast
    then have "?now < Min ?R" using trusted_reset unfolding trustedResets_def by fastforce
    with that trustedResets_finite show ?thesis by (auto simp: nearest_def)
  qed
  have pos: "?now < n" if "nearest ?R = Some n" for n
  proof -
    from that obtain r where "r \<in> ?R" by (auto simp: nearest_def split: if_splits)
    from min[OF this] that show ?thesis by auto
  qed
  have "promptFor input due"
    unfolding promptFor_def Let_def
  proof (intro conjI ballI impI)
    show "?now < due" using assms pos by (auto simp: due_def interval_def intervalOK_def split: option.splits)
    show "due \<le> ?now + max 120000 (rpi_IntervalSeconds input * 1000)"
      by (auto simp: due_def interval_def split: option.splits)
    fix w assume w: "w \<in> set ?ws" "trustedScheduleWindow ?now w"
    have le: "due \<le> ?now + interval" by (auto simp: due_def split: option.splits)
    show "due \<le> ?now + 120000" if "lowRemainingWindow w"
      using le that w by (auto simp: interval_def low_def list_ex_iff split: if_splits)
    obtain r where r: "qcu_ResetsAtMS w = Some r" using trusted_reset[OF w(2)] by blast
    then have "r \<in> ?R" using w by (auto simp: trustedResets_def)
    from min[OF this] obtain n where n: "nearest ?R = Some n" "n \<le> r" by blast
    have "r \<le> ?now + 600000 \<longrightarrow> due \<le> ?now + 120000" using le n by (auto simp: interval_def near_def)
    moreover have "r + 3000 \<le> MaxTimestampMS \<longrightarrow> due \<le> r + 3000" using n by (auto simp: due_def)
    ultimately show "case qcu_ResetsAtMS w of None \<Rightarrow> True
       | Some r \<Rightarrow> (r \<le> ?now + 600000 \<longrightarrow> due \<le> ?now + 120000) \<and> (r + 3000 \<le> MaxTimestampMS \<longrightarrow> due \<le> r + 3000)"
      by (simp add: r)
  qed
  moreover have "\<exists>reason. planQuotaCadence input = Inr (scheduledRefreshDecision due reason)"
  proof -
    have n: "near = (case qrs_RemainingMS q of None \<Rightarrow> False | Some r \<Rightarrow> r \<le> quotaNearResetMS)"
      unfolding q(3) near_def by (auto simp: schedule_consts split: option.split)
    have i: "(if low \<or> near then quotaFastIntervalMS else rpi_IntervalSeconds input * 1000) = interval"
      by (simp add: interval_def schedule_consts)
    have ok: "0 \<le> ?now" "0 \<le> interval" "?now + interval \<le> MaxTimestampMS"
      using assms by (auto simp: interval_def intervalOK_def)
    show ?thesis
      unfolding planQuotaCadence_def Let_def q(1) sum.case low_def[symmetric] n[symmetric] i q(2)
      using ok pos by (auto simp: addScheduleDurationChecked_eq due_def schedule_consts split: option.split)
  qed
  ultimately show ?thesis by (auto simp: scheduledRefreshDecision_def)
qed

section \<open>Properties\<close>



definition ex_window :: QuotaCurrent where
  "ex_window = \<lparr>qcu_AccountScope = ''default'', qcu_WindowKind = ''primary'', qcu_LimitID = ''codex'', qcu_ObservationID = Some ''o'',
     qcu_EffectiveUsedPercent = Some (Fin 85), qcu_WindowMinutes = Some 300, qcu_ResetsAtMS = Some 50000, qcu_WindowGeneration = Some 50000,
     qcu_SelectedSource = Some ''wham'', qcu_FreshnessState = QuotaCurrentFresh, qcu_ConflictState = QuotaConflictNone,
     qcu_FreshUntilMS = Some 40000, qcu_LastSuccessAtMS = Some 9000, qcu_LastAttemptAtMS = Some 9000, qcu_RuleVersion = ''v'',
     qcu_ExplanationCode = QuotaExplanationTrusted, qcu_EvaluatedAtMS = 10000\<rparr>"

definition ex_source :: "SourceFailureCode option \<Rightarrow> SourceState" where
  "ex_source code = \<lparr>sst_SourceInstanceID = ''i'', sst_SourceType = ''t'', sst_ScopeKey = ''k'', sst_LastAttemptAtMS = Some 9000,
     sst_LastSuccessAtMS = None, sst_NextDueAtMS = Some 90000, sst_ConsecutiveFailures = 1, sst_LastErrorClass = None,
     sst_LastFailureCode = code, sst_FreshnessState = SourceFreshnessStale, sst_CursorVersion = 0, sst_UpdatedAtMS = 9000\<rparr>"

definition ex_input :: "SourceRefreshTrigger \<Rightarrow> SourceFailureCode option \<Rightarrow> RefreshPlanInput" where
  "ex_input trigger code = \<lparr>rpi_Source = RefreshSourceQuota, rpi_Trigger = trigger, rpi_Enabled = True, rpi_NowMS = 10000,
     rpi_IntervalSeconds = 300, rpi_Schedule = None, rpi_SourceState = Some (ex_source code), rpi_Windows = [ex_window],
     rpi_BindingChanged = False\<rparr>"



end
