(* ===== verification/Refresh_Store.thy ===== *)
theory Refresh_Store
  imports Quota_Types "HOL-Library.Option_ord"
begin

text \<open>
  The durable schedule of the quota sources (\<open>src/internal/store/source_refresh_schedule_repository.go\<close>):
  one row per source with its next due time, an append-only table of claims (leases on one fetch),
  and one fence row that holds back every source. Each write is one transaction of a single
  writer: it returns its result and the new tables, or an error and leaves the tables as they were.
  Rows are domain values, since the columns and the fields correspond one to one; the table's CHECK clauses are
  \<open>scheduleCheck\<close> and \<open>claimCheck\<close>. The table of source states belongs to another repository: its rows are
  read as they are.
\<close>

section \<open>Rows\<close>

datatype refresh_store_error =
  RefreshInvalidRecord | ErrSourceRefreshConflict | RefreshNotFound | RefreshConstraintFailed | RefreshInvalidRepository

datatype sourceRefreshClaimState = ClaimActive | ClaimCompleted | ClaimAbandoned

record sourceRefreshClaim =
  scl_ClaimID :: string
  scl_SourceInstanceID :: string
  scl_ScheduleRevision :: int64
  scl_BindingGeneration :: int64
  scl_Trigger :: SourceRefreshTrigger
  scl_StartedAtMS :: int64
  scl_ExpiresAtMS :: int64
  scl_State :: sourceRefreshClaimState
  scl_FinalizedAtMS :: "int64 option"

datatype globalFenceReason = FenceManual | FenceBackoff | FenceRateLimit | FenceOther string

record sourceRefreshGlobalFence =
  gfe_NotBeforeMS :: int64
  gfe_Reason :: globalFenceReason
  gfe_UpdatedAtMS :: int64

record SourceRefreshScheduleUpdate =
  sru_SourceInstanceID :: string
  sru_SourceType :: string
  sru_ScopeKey :: string
  sru_BindingGeneration :: int64
  sru_ExpectedRevision :: int64
  sru_NextDueAtMS :: "int64 option"
  sru_Reason :: SourceRefreshReason
  sru_AtMS :: int64

record SourceRefreshCompletion =
  src_SourceInstanceID :: string
  src_ClaimID :: string
  src_ExpectedRevision :: int64
  src_NextDueAtMS :: "int64 option"
  src_Reason :: SourceRefreshReason
  src_AtMS :: int64

record SourceRefreshClaimRecovery =
  srr_SourceInstanceID :: string
  srr_ClaimID :: string
  srr_ExpectedRevision :: int64
  srr_AtMS :: int64

text \<open>The tables; of the source attempts only the request identifiers matter here.\<close>

record refreshTables =
  rft_Schedules :: "SourceRefreshSchedule list"
  rft_Claims :: "sourceRefreshClaim list"
  rft_Fence :: "sourceRefreshGlobalFence option"
  rft_States :: "(string \<times> SourceState) list"
  rft_Attempts :: "string list"

section \<open>Validation\<close>

definition sourceRefreshManualMinimumIntervalMS :: int64 where "sourceRefreshManualMinimumIntervalMS = 60000"

definition QuotaAccountScopeDefault :: string where "QuotaAccountScopeDefault = ''default''"
definition QuotaSourceInstanceWhamDefault :: string where "QuotaSourceInstanceWhamDefault = ''quota:wham:default''"
definition QuotaSourceTypeWham :: string where "QuotaSourceTypeWham = ''wham_quota''"
definition QuotaSourceTypeAppServerRateLimits :: string where "QuotaSourceTypeAppServerRateLimits = ''app_server_rate_limits''"
definition ResetCreditsSourceInstanceWhamDefault :: string where "ResetCreditsSourceInstanceWhamDefault = ''reset_credits:wham:default''"
definition ResetCreditsSourceTypeWham :: string where "ResetCreditsSourceTypeWham = ''wham_reset_credits''"
definition ResetCreditsSourceTypeAppServer :: string where "ResetCreditsSourceTypeAppServer = ''app_server_reset_credits''"

definition QuotaSourceInstanceAppServer :: "string \<Rightarrow> string" where
  "QuotaSourceInstanceAppServer accountScope = ''quota:app_server:'' @ accountScope"

definition ResetCreditsSourceInstanceAppServer :: "string \<Rightarrow> string" where
  "ResetCreditsSourceInstanceAppServer accountScope = ''reset_credits:app_server:'' @ accountScope"

definition validDerivedCodexAccountScope :: "string \<Rightarrow> bool" where
  "validDerivedCodexAccountScope v \<longleftrightarrow>
     length v = 64 \<and> list_all (\<lambda>c. CHR ''0'' \<le> c \<and> c \<le> CHR ''9'' \<or> CHR ''a'' \<le> c \<and> c \<le> CHR ''f'') v"

definition validSourceRefreshIdentity :: "string \<Rightarrow> string \<Rightarrow> string \<Rightarrow> bool" where
  "validSourceRefreshIdentity sourceInstanceID sourceType scopeKey =
     (if validDerivedCodexAccountScope scopeKey
      then sourceInstanceID = QuotaSourceInstanceAppServer scopeKey \<and> sourceType = QuotaSourceTypeAppServerRateLimits \<or>
           sourceInstanceID = ResetCreditsSourceInstanceAppServer scopeKey \<and> sourceType = ResetCreditsSourceTypeAppServer
      else if scopeKey \<noteq> QuotaAccountScopeDefault then False
      else sourceInstanceID = QuotaSourceInstanceWhamDefault \<and> sourceType = QuotaSourceTypeWham \<or>
           sourceInstanceID = ResetCreditsSourceInstanceWhamDefault \<and> sourceType = ResetCreditsSourceTypeWham)"

definition validSourceRefreshTrigger :: "SourceRefreshTrigger \<Rightarrow> bool" where
  "validSourceRefreshTrigger t \<longleftrightarrow>
     t \<in> {RefreshTriggerScheduled, RefreshTriggerStartup, RefreshTriggerForeground, RefreshTriggerWake,
          RefreshTriggerManual, RefreshTriggerRecovery}"

definition pausedReason :: "SourceRefreshReason \<Rightarrow> bool" where
  "pausedReason r \<longleftrightarrow>
     r \<in> {RefreshReasonAuthRequired, RefreshReasonSchemaIncompatible, RefreshReasonDisabled, RefreshReasonInactiveAccount}"

definition inClock :: "int64 \<Rightarrow> bool" where
  "inClock t \<longleftrightarrow> 0 \<le> t \<and> t \<le> MaxTimestampMS"

definition validateSourceRefreshDecision :: "int64 option \<Rightarrow> SourceRefreshReason \<Rightarrow> bool" where
  "validateSourceRefreshDecision nextDueAtMS reason \<longleftrightarrow>
     (case nextDueAtMS of None \<Rightarrow> True | Some d \<Rightarrow> inClock d) \<and> pausedReason reason = (nextDueAtMS = None)"

definition validateSourceRefreshScheduleUpdate :: "SourceRefreshScheduleUpdate \<Rightarrow> bool" where
  "validateSourceRefreshScheduleUpdate u \<longleftrightarrow>
     sru_SourceInstanceID u \<noteq> [] \<and> length (sru_SourceInstanceID u) \<le> 512 \<and> sru_SourceType u \<noteq> [] \<and>
     length (sru_SourceType u) \<le> 128 \<and> sru_ScopeKey u \<noteq> [] \<and> length (sru_ScopeKey u) \<le> 128 \<and>
     0 \<le> sru_ExpectedRevision u \<and> 0 \<le> sru_BindingGeneration u \<and> inClock (sru_AtMS u) \<and>
     validSourceRefreshIdentity (sru_SourceInstanceID u) (sru_SourceType u) (sru_ScopeKey u) \<and>
     validateSourceRefreshDecision (sru_NextDueAtMS u) (sru_Reason u)"

definition storedClaimShape :: "SourceRefreshSchedule \<Rightarrow> bool" where
  "storedClaimShape v \<longleftrightarrow>
     (case srs_ActiveClaimID v of
        None \<Rightarrow> srs_ActiveTrigger v = None \<and> srs_ClaimStartedAtMS v = None \<and> srs_ClaimExpiresAtMS v = None
      | Some claimID \<Rightarrow>
          (case (srs_ActiveTrigger v, srs_ClaimStartedAtMS v, srs_ClaimExpiresAtMS v) of
             (Some trigger, Some startedAt, Some expiresAt) \<Rightarrow>
               claimID \<noteq> [] \<and> validSourceRefreshTrigger trigger \<and> 0 \<le> startedAt \<and> startedAt \<le> expiresAt
           | _ \<Rightarrow> False))"

definition validateStoredSourceRefreshSchedule :: "SourceRefreshSchedule \<Rightarrow> bool" where
  "validateStoredSourceRefreshSchedule v \<longleftrightarrow>
     validateSourceRefreshScheduleUpdate
       \<lparr>sru_SourceInstanceID = srs_SourceInstanceID v, sru_SourceType = srs_SourceType v, sru_ScopeKey = srs_ScopeKey v,
        sru_BindingGeneration = srs_BindingGeneration v, sru_ExpectedRevision = srs_Revision v,
        sru_NextDueAtMS = srs_NextDueAtMS v, sru_Reason = srs_Reason v, sru_AtMS = srs_UpdatedAtMS v\<rparr> \<and>
     0 < srs_Revision v \<and> (case srs_LastManualAtMS v of None \<Rightarrow> True | Some t \<Rightarrow> inClock t) \<and> storedClaimShape v"

definition validStoredClaim :: "sourceRefreshClaim \<Rightarrow> bool" where
  "validStoredClaim k \<longleftrightarrow>
     scl_ClaimID k \<noteq> [] \<and> scl_SourceInstanceID k \<noteq> [] \<and> 0 < scl_ScheduleRevision k \<and> validSourceRefreshTrigger (scl_Trigger k) \<and>
     0 \<le> scl_StartedAtMS k \<and> scl_StartedAtMS k \<le> scl_ExpiresAtMS k \<and>
     (scl_State k = ClaimActive) = (scl_FinalizedAtMS k = None) \<and>
     (case scl_FinalizedAtMS k of None \<Rightarrow> True | Some f \<Rightarrow> scl_StartedAtMS k \<le> f)"

text \<open>The CHECK clauses of the two tables.\<close>

definition scheduleCheck :: "SourceRefreshSchedule \<Rightarrow> bool" where
  "scheduleCheck v \<longleftrightarrow>
     srs_SourceInstanceID v \<noteq> [] \<and> length (srs_SourceInstanceID v) \<le> 512 \<and> srs_SourceType v \<noteq> [] \<and>
     length (srs_SourceType v) \<le> 128 \<and> srs_ScopeKey v \<noteq> [] \<and> length (srs_ScopeKey v) \<le> 128 \<and> 0 \<le> srs_BindingGeneration v \<and>
     (case srs_NextDueAtMS v of None \<Rightarrow> True | Some d \<Rightarrow> 0 \<le> d) \<and> (case srs_LastManualAtMS v of None \<Rightarrow> True | Some t \<Rightarrow> 0 \<le> t) \<and>
     (case srs_ActiveClaimID v of None \<Rightarrow> True | Some c \<Rightarrow> c \<noteq> [] \<and> length c \<le> 512) \<and> storedClaimShape v \<and>
     0 < srs_Revision v \<and> 0 \<le> srs_UpdatedAtMS v \<and> (pausedReason (srs_Reason v) \<longrightarrow> srs_NextDueAtMS v = None)"

definition claimCheck :: "sourceRefreshClaim \<Rightarrow> bool" where
  "claimCheck k \<longleftrightarrow> validStoredClaim k \<and> length (scl_ClaimID k) \<le> 512 \<and> 0 \<le> scl_BindingGeneration k"

section \<open>Reads\<close>

definition sourceRefreshScheduleByID ::
  "refreshTables \<Rightarrow> string \<Rightarrow> refresh_store_error + SourceRefreshSchedule option" where
  "sourceRefreshScheduleByID db sourceInstanceID =
     (case find (\<lambda>r. srs_SourceInstanceID r = sourceInstanceID) (rft_Schedules db) of
        None \<Rightarrow> Inr None
      | Some r \<Rightarrow> if validateStoredSourceRefreshSchedule r then Inr (Some r) else Inl RefreshInvalidRecord)"

definition sourceRefreshClaimByID :: "refreshTables \<Rightarrow> string \<Rightarrow> refresh_store_error + sourceRefreshClaim option" where
  "sourceRefreshClaimByID db claimID =
     (case find (\<lambda>k. scl_ClaimID k = claimID) (rft_Claims db) of
        None \<Rightarrow> Inr None
      | Some k \<Rightarrow> if validStoredClaim k then Inr (Some k) else Inl RefreshInvalidRecord)"

definition validateSourceRefreshClaimAttempt :: "refreshTables \<Rightarrow> string \<Rightarrow> string \<Rightarrow> refresh_store_error option" where
  "validateSourceRefreshClaimAttempt db requestID sourceInstanceID =
     (case sourceRefreshClaimByID db requestID of
        Inl e \<Rightarrow> Some e
      | Inr None \<Rightarrow> None
      | Inr (Some k) \<Rightarrow>
          if scl_SourceInstanceID k \<noteq> sourceInstanceID then Some RefreshInvalidRecord
          else if scl_State k \<noteq> ClaimActive then Some ErrSourceRefreshConflict
          else None)"

definition monotonicScheduleAt :: "int64 \<Rightarrow> int64 \<Rightarrow> int64" where
  "monotonicScheduleAt atMS previousMS =
     (if atMS > previousMS then atMS else if previousMS = max_int64 then previousMS else previousMS + 1)"

definition addSourceRefreshTimestamp :: "int64 \<Rightarrow> int64 \<Rightarrow> int64" where
  "addSourceRefreshTimestamp value delta = (if value > MaxTimestampMS - delta then MaxTimestampMS else value + delta)"

section \<open>Writes of one row\<close>

text \<open>The columns an update sets; the identity of the row stays.\<close>

definition sourceRefreshScheduleUpdates :: "SourceRefreshSchedule \<Rightarrow> SourceRefreshSchedule \<Rightarrow> SourceRefreshSchedule" where
  "sourceRefreshScheduleUpdates v r =
     r\<lparr>srs_BindingGeneration := srs_BindingGeneration v, srs_NextDueAtMS := srs_NextDueAtMS v, srs_Reason := srs_Reason v,
       srs_LastManualAtMS := srs_LastManualAtMS v, srs_ActiveClaimID := srs_ActiveClaimID v,
       srs_ActiveTrigger := srs_ActiveTrigger v, srs_ClaimStartedAtMS := srs_ClaimStartedAtMS v,
       srs_ClaimExpiresAtMS := srs_ClaimExpiresAtMS v, srs_Revision := srs_Revision v, srs_UpdatedAtMS := srs_UpdatedAtMS v\<rparr>"

definition updateScheduleRow ::
  "(SourceRefreshSchedule \<Rightarrow> bool) \<Rightarrow> SourceRefreshSchedule \<Rightarrow> refreshTables \<Rightarrow> refresh_store_error + refreshTables" where
  "updateScheduleRow P v db =
     (if \<not> list_all (\<lambda>r. P r \<longrightarrow> scheduleCheck (sourceRefreshScheduleUpdates v r)) (rft_Schedules db) then Inl RefreshConstraintFailed
      else if length (filter P (rft_Schedules db)) \<noteq> 1 then Inl ErrSourceRefreshConflict
      else Inr (db\<lparr>rft_Schedules := map (\<lambda>r. if P r then sourceRefreshScheduleUpdates v r else r) (rft_Schedules db)\<rparr>))"

definition finalizeClaimRow ::
  "string \<Rightarrow> int64 \<Rightarrow> sourceRefreshClaimState \<Rightarrow> int64 \<Rightarrow> refreshTables \<Rightarrow> refresh_store_error + refreshTables" where
  "finalizeClaimRow claimID revision state atMS db =
     (let P = (\<lambda>k. scl_ClaimID k = claimID \<and> scl_State k = ClaimActive \<and> scl_ScheduleRevision k = revision);
          f = (\<lambda>k. k\<lparr>scl_State := state, scl_FinalizedAtMS := Some atMS\<rparr>)
      in if \<not> list_all (\<lambda>k. P k \<longrightarrow> claimCheck (f k)) (rft_Claims db) then Inl RefreshConstraintFailed
         else if length (filter P (rft_Claims db)) \<noteq> 1 then Inl ErrSourceRefreshConflict
         else Inr (db\<lparr>rft_Claims := map (\<lambda>k. if P k then f k else k) (rft_Claims db)\<rparr>))"

section \<open>The global fence\<close>

definition sourceRefreshGlobalFenceState :: "refreshTables \<Rightarrow> int64 \<Rightarrow> int64 \<times> globalFenceReason option" where
  "sourceRefreshGlobalFenceState db atMS =
     (case rft_Fence db of
        None \<Rightarrow> (0, None)
      | Some f \<Rightarrow> if gfe_NotBeforeMS f \<le> atMS \<or> gfe_Reason f = FenceBackoff then (0, Some (gfe_Reason f))
                  else (gfe_NotBeforeMS f, Some (gfe_Reason f)))"

definition sourceRefreshSameAccountManualCompanion :: "refreshTables \<Rightarrow> string \<Rightarrow> string \<Rightarrow> int64 \<Rightarrow> bool" where
  "sourceRefreshSameAccountManualCompanion db scopeKey sourceInstanceID atMS =
     (if scopeKey = [] \<or> sourceInstanceID = [] then False
      else list_ex (\<lambda>r. srs_ScopeKey r = scopeKey \<and> srs_SourceInstanceID r \<noteq> sourceInstanceID \<and>
             (srs_SourceType r = QuotaSourceTypeAppServerRateLimits \<or> srs_SourceType r = ResetCreditsSourceTypeAppServer) \<and>
             (case srs_LastManualAtMS r of None \<Rightarrow> False
              | Some t \<Rightarrow> atMS < addSourceRefreshTimestamp t sourceRefreshManualMinimumIntervalMS)) (rft_Schedules db))"

definition raiseSourceRefreshGlobalFence ::
  "int64 \<Rightarrow> globalFenceReason \<Rightarrow> int64 \<Rightarrow> refreshTables \<Rightarrow> refresh_store_error + refreshTables" where
  "raiseSourceRefreshGlobalFence notBeforeMS reason atMS db =
     (if \<not> inClock notBeforeMS \<or> \<not> inClock atMS \<or> reason \<notin> {FenceManual, FenceBackoff, FenceRateLimit} then Inl RefreshInvalidRecord
      else case rft_Fence db of
        Some f \<Rightarrow>
          if gfe_Reason f \<noteq> FenceBackoff
          then (let nb = max (gfe_NotBeforeMS f) notBeforeMS;
                    rs = (if gfe_NotBeforeMS f > atMS \<and> gfe_Reason f = FenceRateLimit then FenceRateLimit else reason)
                in if nb = gfe_NotBeforeMS f \<and> rs = gfe_Reason f then Inr db
                   else Inr (db\<lparr>rft_Fence := Some \<lparr>gfe_NotBeforeMS = nb, gfe_Reason = rs, gfe_UpdatedAtMS = atMS\<rparr>\<rparr>))
          else Inr (db\<lparr>rft_Fence := Some \<lparr>gfe_NotBeforeMS = notBeforeMS, gfe_Reason = reason, gfe_UpdatedAtMS = atMS\<rparr>\<rparr>)
      | None \<Rightarrow> Inr (db\<lparr>rft_Fence := Some \<lparr>gfe_NotBeforeMS = notBeforeMS, gfe_Reason = reason, gfe_UpdatedAtMS = atMS\<rparr>\<rparr>))"

definition ClearSourceRefreshGlobalFence :: "refreshTables \<Rightarrow> refreshTables" where
  "ClearSourceRefreshGlobalFence db = db\<lparr>rft_Fence := None\<rparr>"

section \<open>Transactions\<close>

definition UpsertSourceRefreshSchedule ::
  "SourceRefreshScheduleUpdate \<Rightarrow> refreshTables \<Rightarrow> refresh_store_error + SourceRefreshSchedule \<times> refreshTables" where
  "UpsertSourceRefreshSchedule update db =
     (if \<not> validateSourceRefreshScheduleUpdate update then Inl RefreshInvalidRecord
      else case sourceRefreshScheduleByID db (sru_SourceInstanceID update) of
        Inl e \<Rightarrow> Inl e
      | Inr None \<Rightarrow>
          if sru_ExpectedRevision update \<noteq> 0 then Inl RefreshInvalidRecord
          else
            (let stored = \<lparr>srs_SourceInstanceID = sru_SourceInstanceID update, srs_SourceType = sru_SourceType update,
                   srs_ScopeKey = sru_ScopeKey update, srs_BindingGeneration = sru_BindingGeneration update,
                   srs_NextDueAtMS = sru_NextDueAtMS update, srs_Reason = sru_Reason update, srs_LastManualAtMS = None,
                   srs_ActiveClaimID = None, srs_ActiveTrigger = None, srs_ClaimStartedAtMS = None, srs_ClaimExpiresAtMS = None,
                   srs_Revision = 1, srs_UpdatedAtMS = sru_AtMS update\<rparr>
             in if \<not> scheduleCheck stored \<or>
                   list_ex (\<lambda>r. srs_SourceType r = srs_SourceType stored \<and> srs_ScopeKey r = srs_ScopeKey stored) (rft_Schedules db)
                then Inl RefreshConstraintFailed
                else Inr (stored, db\<lparr>rft_Schedules := rft_Schedules db @ [stored]\<rparr>))
      | Inr (Some existing) \<Rightarrow>
          if srs_SourceType existing \<noteq> sru_SourceType update \<or> srs_ScopeKey existing \<noteq> sru_ScopeKey update
          then Inl RefreshInvalidRecord
          else if srs_Revision existing \<noteq> sru_ExpectedRevision update then Inl ErrSourceRefreshConflict
          else if srs_ActiveClaimID existing \<noteq> None then Inl RefreshInvalidRecord
          else if srs_Revision existing = max_int64 then Inl RefreshInvalidRecord
          else
            (let stored = existing\<lparr>srs_NextDueAtMS := sru_NextDueAtMS update, srs_Reason := sru_Reason update,
                   srs_BindingGeneration := sru_BindingGeneration update, srs_Revision := srs_Revision existing + 1,
                   srs_UpdatedAtMS := monotonicScheduleAt (sru_AtMS update) (srs_UpdatedAtMS existing)\<rparr>
             in case updateScheduleRow (\<lambda>r. srs_SourceInstanceID r = srs_SourceInstanceID existing \<and> srs_Revision r = srs_Revision existing)
                       stored db of
                  Inl e \<Rightarrow> Inl e
                | Inr db1 \<Rightarrow> Inr (stored, db1)))"

text \<open>The claim is granted: the schedule row, a manual fence and the new claim row.\<close>

definition grantClaim ::
  "SourceRefreshSchedule \<Rightarrow> string \<Rightarrow> SourceRefreshTrigger \<Rightarrow> int64 \<Rightarrow> int64 \<Rightarrow> int64 \<Rightarrow> refreshTables \<Rightarrow>
   refresh_store_error + SourceRefreshSchedule \<times> refreshTables" where
  "grantClaim existing claimID trigger atMS leaseMS bindingGeneration db =
     (let stored = existing\<lparr>srs_ActiveClaimID := Some claimID, srs_ActiveTrigger := Some trigger,
            srs_ClaimStartedAtMS := Some atMS, srs_ClaimExpiresAtMS := Some (atMS + leaseMS),
            srs_LastManualAtMS := (if trigger = RefreshTriggerManual then Some atMS else srs_LastManualAtMS existing),
            srs_Revision := srs_Revision existing + 1, srs_UpdatedAtMS := monotonicScheduleAt atMS (srs_UpdatedAtMS existing)\<rparr>;
          claim = \<lparr>scl_ClaimID = claimID, scl_SourceInstanceID = srs_SourceInstanceID existing, scl_ScheduleRevision = srs_Revision stored,
            scl_BindingGeneration = bindingGeneration, scl_Trigger = trigger, scl_StartedAtMS = atMS, scl_ExpiresAtMS = atMS + leaseMS,
            scl_State = ClaimActive, scl_FinalizedAtMS = None\<rparr>
      in case (if trigger = RefreshTriggerManual
               then raiseSourceRefreshGlobalFence (addSourceRefreshTimestamp atMS sourceRefreshManualMinimumIntervalMS) FenceManual atMS db
               else Inr db) of
           Inl e \<Rightarrow> Inl e
         | Inr db1 \<Rightarrow>
             (case updateScheduleRow (\<lambda>r. srs_SourceInstanceID r = srs_SourceInstanceID existing \<and> srs_Revision r = srs_Revision existing \<and>
                     srs_ActiveClaimID r = None \<and> srs_BindingGeneration r = bindingGeneration) stored db1 of
                Inl e \<Rightarrow> Inl e
              | Inr db2 \<Rightarrow>
                  if \<not> claimCheck claim then Inl RefreshConstraintFailed
                  else Inr (stored, db2\<lparr>rft_Claims := rft_Claims db2 @ [claim]\<rparr>)))"

text \<open>The fence holds the claim back, unless it is a manual request beside one of the same account.\<close>

definition fencedOff :: "SourceRefreshSchedule \<Rightarrow> SourceRefreshTrigger \<Rightarrow> int64 \<Rightarrow> refreshTables \<Rightarrow> bool" where
  "fencedOff existing trigger atMS db =
     (let (notBeforeMS, reason) = sourceRefreshGlobalFenceState db atMS
      in notBeforeMS > atMS \<and>
         \<not> (reason = Some FenceManual \<and> trigger = RefreshTriggerManual \<and>
            sourceRefreshSameAccountManualCompanion db (srs_ScopeKey existing) (srs_SourceInstanceID existing) atMS))"

definition ClaimSourceRefresh ::
  "string \<Rightarrow> int64 \<Rightarrow> string \<Rightarrow> SourceRefreshTrigger \<Rightarrow> int64 \<Rightarrow> int64 \<Rightarrow> int64 \<Rightarrow> refreshTables \<Rightarrow>
   refresh_store_error + (SourceRefreshSchedule \<times> bool) \<times> refreshTables" where
  "ClaimSourceRefresh sourceInstanceID expectedRevision claimID trigger atMS leaseMS bindingGeneration db =
     (if sourceInstanceID = [] \<or> claimID = [] \<or> length claimID > 512 \<or> \<not> validSourceRefreshTrigger trigger \<or>
         expectedRevision \<le> 0 \<or> bindingGeneration < 0 \<or> \<not> inClock atMS \<or> leaseMS \<le> 0 \<or> atMS > MaxTimestampMS - leaseMS
      then Inl RefreshInvalidRecord
      else case sourceRefreshScheduleByID db sourceInstanceID of
        Inl e \<Rightarrow> Inl e
      | Inr None \<Rightarrow> Inl RefreshNotFound
      | Inr (Some existing) \<Rightarrow>
          if srs_Revision existing \<noteq> expectedRevision then Inl ErrSourceRefreshConflict
          else if srs_BindingGeneration existing \<noteq> bindingGeneration then Inr ((existing, False), db)
          else if srs_ActiveClaimID existing \<noteq> None \<or> (case srs_NextDueAtMS existing of None \<Rightarrow> True | Some d \<Rightarrow> d > atMS)
          then Inr ((existing, False), db)
          else if fencedOff existing trigger atMS db
          then (let (notBeforeMS, reason) = sourceRefreshGlobalFenceState db atMS
                in Inr ((existing\<lparr>srs_NextDueAtMS := Some notBeforeMS,
                     srs_Reason := (if reason = Some FenceManual then RefreshReasonManual else RefreshReasonRetryAfter)\<rparr>, False), db))
          else if trigger = RefreshTriggerManual \<and>
                  (case srs_LastManualAtMS existing of None \<Rightarrow> False
                   | Some t \<Rightarrow> atMS < addSourceRefreshTimestamp t sourceRefreshManualMinimumIntervalMS)
          then Inr ((existing, False), db)
          else case sourceRefreshClaimByID db claimID of
            Inl e \<Rightarrow> Inl e
          | Inr (Some _) \<Rightarrow> Inl RefreshInvalidRecord
          | Inr None \<Rightarrow>
              if srs_Revision existing = max_int64 then Inl RefreshInvalidRecord
              else case grantClaim existing claimID trigger atMS leaseMS bindingGeneration db of
                Inl e \<Rightarrow> Inl e
              | Inr (stored, db1) \<Rightarrow> Inr ((stored, True), db1))"

text \<open>What completion, release and abandonment of a claim share: the row it is held by, the claim itself, and the closing writes.\<close>

definition heldSchedule :: "refreshTables \<Rightarrow> string \<Rightarrow> string \<Rightarrow> int64 \<Rightarrow> refresh_store_error + SourceRefreshSchedule" where
  "heldSchedule db sourceInstanceID claimID expectedRevision =
     (case sourceRefreshScheduleByID db sourceInstanceID of
        Inl e \<Rightarrow> Inl e
      | Inr None \<Rightarrow> Inl RefreshNotFound
      | Inr (Some existing) \<Rightarrow>
          if srs_Revision existing \<noteq> expectedRevision \<or> srs_ActiveClaimID existing \<noteq> Some claimID then Inl ErrSourceRefreshConflict
          else Inr existing)"

definition activeClaim :: "refreshTables \<Rightarrow> string \<Rightarrow> string \<Rightarrow> int64 \<Rightarrow> refresh_store_error + sourceRefreshClaim" where
  "activeClaim db sourceInstanceID claimID expectedRevision =
     (case sourceRefreshClaimByID db claimID of
        Inl e \<Rightarrow> Inl e
      | Inr None \<Rightarrow> Inl RefreshInvalidRecord
      | Inr (Some claim) \<Rightarrow>
          if scl_SourceInstanceID claim \<noteq> sourceInstanceID \<or> scl_ScheduleRevision claim \<noteq> expectedRevision then Inl RefreshInvalidRecord
          else if scl_State claim \<noteq> ClaimActive then Inl ErrSourceRefreshConflict
          else Inr claim)"

definition closeClaim ::
  "SourceRefreshSchedule \<Rightarrow> string \<Rightarrow> int64 option \<Rightarrow> SourceRefreshReason \<Rightarrow> sourceRefreshClaimState \<Rightarrow> int64 \<Rightarrow> refreshTables \<Rightarrow>
   refresh_store_error + SourceRefreshSchedule \<times> refreshTables" where
  "closeClaim existing claimID nextDueAtMS reason state atMS db =
     (if srs_Revision existing = max_int64 then Inl RefreshInvalidRecord
      else
        (let stored = existing\<lparr>srs_NextDueAtMS := nextDueAtMS, srs_Reason := reason, srs_ActiveClaimID := None, srs_ActiveTrigger := None,
               srs_ClaimStartedAtMS := None, srs_ClaimExpiresAtMS := None, srs_Revision := srs_Revision existing + 1,
               srs_UpdatedAtMS := monotonicScheduleAt atMS (srs_UpdatedAtMS existing)\<rparr>
         in case updateScheduleRow (\<lambda>r. srs_SourceInstanceID r = srs_SourceInstanceID existing \<and> srs_Revision r = srs_Revision existing \<and>
                   srs_ActiveClaimID r = Some claimID) stored db of
              Inl e \<Rightarrow> Inl e
            | Inr db1 \<Rightarrow>
                (case finalizeClaimRow claimID (srs_Revision existing) state atMS db1 of
                   Inl e \<Rightarrow> Inl e
                 | Inr db2 \<Rightarrow> Inr (stored, db2))))"

definition invalidClaimRequest :: "string \<Rightarrow> string \<Rightarrow> int64 \<Rightarrow> int64 \<Rightarrow> bool" where
  "invalidClaimRequest sourceInstanceID claimID expectedRevision atMS \<longleftrightarrow>
     sourceInstanceID = [] \<or> claimID = [] \<or> length claimID > 512 \<or> expectedRevision \<le> 0 \<or> \<not> inClock atMS"

text \<open>A completion after HTTP 429 raises the fence in the same transaction.\<close>

definition fenceAfterRateLimit :: "string \<Rightarrow> int64 option \<Rightarrow> int64 \<Rightarrow> refreshTables \<Rightarrow> refresh_store_error + refreshTables" where
  "fenceAfterRateLimit sourceInstanceID nextDueAtMS atMS db =
     (case (map_of (rft_States db) sourceInstanceID, nextDueAtMS) of
        (Some state, Some due) \<Rightarrow>
          if sst_LastFailureCode state = Some SourceFailureHTTP429 then raiseSourceRefreshGlobalFence due FenceRateLimit atMS db
          else Inr db
      | _ \<Rightarrow> Inr db)"

definition CompleteSourceRefresh ::
  "SourceRefreshCompletion \<Rightarrow> refreshTables \<Rightarrow> refresh_store_error + SourceRefreshSchedule \<times> refreshTables" where
  "CompleteSourceRefresh c db =
     (if invalidClaimRequest (src_SourceInstanceID c) (src_ClaimID c) (src_ExpectedRevision c) (src_AtMS c) \<or>
         \<not> validateSourceRefreshDecision (src_NextDueAtMS c) (src_Reason c)
      then Inl RefreshInvalidRecord
      else case heldSchedule db (src_SourceInstanceID c) (src_ClaimID c) (src_ExpectedRevision c) of
        Inl e \<Rightarrow> Inl e
      | Inr existing \<Rightarrow>
          (case activeClaim db (src_SourceInstanceID c) (src_ClaimID c) (src_ExpectedRevision c) of
             Inl e \<Rightarrow> Inl e
           | Inr _ \<Rightarrow>
               (case fenceAfterRateLimit (src_SourceInstanceID c) (src_NextDueAtMS c) (src_AtMS c) db of
                  Inl e \<Rightarrow> Inl e
                | Inr db1 \<Rightarrow> closeClaim existing (src_ClaimID c) (src_NextDueAtMS c) (src_Reason c) ClaimCompleted (src_AtMS c) db1)))"

definition ReleaseExpiredSourceRefreshClaim ::
  "SourceRefreshClaimRecovery \<Rightarrow> refreshTables \<Rightarrow> refresh_store_error + (SourceRefreshSchedule \<times> bool) \<times> refreshTables" where
  "ReleaseExpiredSourceRefreshClaim r db =
     (if invalidClaimRequest (srr_SourceInstanceID r) (srr_ClaimID r) (srr_ExpectedRevision r) (srr_AtMS r) then Inl RefreshInvalidRecord
      else case heldSchedule db (srr_SourceInstanceID r) (srr_ClaimID r) (srr_ExpectedRevision r) of
        Inl e \<Rightarrow> Inl e
      | Inr existing \<Rightarrow>
          if (case srs_ClaimExpiresAtMS existing of None \<Rightarrow> True | Some t \<Rightarrow> t > srr_AtMS r) then Inl RefreshInvalidRecord
          else case activeClaim db (srr_SourceInstanceID r) (srr_ClaimID r) (srr_ExpectedRevision r) of
            Inl e \<Rightarrow> Inl e
          | Inr _ \<Rightarrow>
              if srr_ClaimID r \<in> set (rft_Attempts db) then Inr ((existing, False), db)
              else case closeClaim existing (srr_ClaimID r) (Some (srr_AtMS r)) RefreshReasonRecovery ClaimAbandoned (srr_AtMS r) db of
                Inl e \<Rightarrow> Inl e
              | Inr (stored, db1) \<Rightarrow> Inr ((stored, True), db1))"

definition AbandonSourceRefreshClaim ::
  "SourceRefreshClaimRecovery \<Rightarrow> refreshTables \<Rightarrow> refresh_store_error + SourceRefreshSchedule \<times> refreshTables" where
  "AbandonSourceRefreshClaim r db =
     (if invalidClaimRequest (srr_SourceInstanceID r) (srr_ClaimID r) (srr_ExpectedRevision r) (srr_AtMS r) then Inl RefreshInvalidRecord
      else case heldSchedule db (srr_SourceInstanceID r) (srr_ClaimID r) (srr_ExpectedRevision r) of
        Inl e \<Rightarrow> Inl e
      | Inr existing \<Rightarrow>
          (case activeClaim db (srr_SourceInstanceID r) (srr_ClaimID r) (srr_ExpectedRevision r) of
             Inl e \<Rightarrow> Inl e
           | Inr _ \<Rightarrow> closeClaim existing (srr_ClaimID r) None RefreshReasonInactiveAccount ClaimAbandoned (srr_AtMS r) db))"

section \<open>Queries\<close>

definition dueLess :: "SourceRefreshSchedule \<Rightarrow> SourceRefreshSchedule \<Rightarrow> bool" where
  "dueLess a b \<longleftrightarrow> (srs_NextDueAtMS a, srs_SourceInstanceID a) < (srs_NextDueAtMS b, srs_SourceInstanceID b)"

definition schedulesFromModels :: "SourceRefreshSchedule list \<Rightarrow> refresh_store_error + SourceRefreshSchedule list" where
  "schedulesFromModels rows = (if list_all validateStoredSourceRefreshSchedule rows then Inr rows else Inl RefreshInvalidRecord)"

definition ListDueSourceRefreshSchedules ::
  "int64 \<Rightarrow> int \<Rightarrow> refreshTables \<Rightarrow> refresh_store_error + SourceRefreshSchedule list" where
  "ListDueSourceRefreshSchedules atMS limit db =
     (if \<not> inClock atMS \<or> limit < 1 \<or> limit > 100 then Inl RefreshInvalidRecord
      else schedulesFromModels (take (nat limit) (sort_by dueLess (filter (\<lambda>r.
        (case srs_NextDueAtMS r of None \<Rightarrow> False | Some d \<Rightarrow> d \<le> atMS) \<and> srs_ActiveClaimID r = None) (rft_Schedules db)))))"

definition expiryLess :: "SourceRefreshSchedule \<Rightarrow> SourceRefreshSchedule \<Rightarrow> bool" where
  "expiryLess a b \<longleftrightarrow> (srs_ClaimExpiresAtMS a, srs_SourceInstanceID a) < (srs_ClaimExpiresAtMS b, srs_SourceInstanceID b)"

definition ListExpiredSourceRefreshClaims ::
  "int64 \<Rightarrow> int \<Rightarrow> refreshTables \<Rightarrow> refresh_store_error + SourceRefreshSchedule list" where
  "ListExpiredSourceRefreshClaims atMS limit db =
     (if \<not> inClock atMS \<or> limit < 1 \<or> limit > 100 then Inl RefreshInvalidRecord
      else schedulesFromModels (take (nat limit) (sort_by expiryLess (filter (\<lambda>r.
        srs_ActiveClaimID r \<noteq> None \<and> (case srs_ClaimExpiresAtMS r of None \<Rightarrow> False | Some t \<Rightarrow> t \<le> atMS)) (rft_Schedules db)))))"

definition sourceLess :: "SourceRefreshSchedule \<Rightarrow> SourceRefreshSchedule \<Rightarrow> bool" where
  "sourceLess a b \<longleftrightarrow> srs_SourceInstanceID a < srs_SourceInstanceID b"

definition ListSourceRefreshSchedules :: "refreshTables \<Rightarrow> refresh_store_error + SourceRefreshSchedule list" where
  "ListSourceRefreshSchedules db = schedulesFromModels (sort_by sourceLess (rft_Schedules db))"

definition loadSourceRefreshSchedule :: "string \<Rightarrow> refreshTables \<Rightarrow> refresh_store_error + SourceRefreshSchedule" where
  "loadSourceRefreshSchedule sourceInstanceID db =
     (if sourceInstanceID = [] then Inl RefreshInvalidRepository
      else case sourceRefreshScheduleByID db sourceInstanceID of
        Inl e \<Rightarrow> Inl e | Inr None \<Rightarrow> Inl RefreshNotFound | Inr (Some v) \<Rightarrow> Inr v)"

end
