(* ===== verification/Refresh_Machine.thy ===== *)
theory Refresh_Machine
  imports Refresh_Store
begin

text \<open>
  The schedule store as a machine: a run is any sequence of its transactions, with the attempts and the
  source states that other writers record in between. In every run the schedule rows and the claim rows
  agree on who holds which claim, and a rate limit holds back every source until it has passed.
\<close>

section \<open>Invariant\<close>

definition holds :: "SourceRefreshSchedule \<Rightarrow> sourceRefreshClaim \<Rightarrow> bool" where
  "holds r k \<longleftrightarrow>
     srs_ActiveClaimID r = Some (scl_ClaimID k) \<and> scl_SourceInstanceID k = srs_SourceInstanceID r \<and>
     scl_ScheduleRevision k = srs_Revision r \<and> scl_State k = ClaimActive \<and>
     srs_ClaimStartedAtMS r = Some (scl_StartedAtMS k) \<and> srs_ClaimExpiresAtMS r = Some (scl_ExpiresAtMS k)"

text \<open>Everything a reader checks of a stored row but the upper bound of its update time.\<close>

definition readable :: "SourceRefreshSchedule \<Rightarrow> bool" where
  "readable r \<longleftrightarrow> validateStoredSourceRefreshSchedule (r\<lparr>srs_UpdatedAtMS := 0\<rparr>) \<and> scheduleCheck r"

definition refreshInv :: "refreshTables \<Rightarrow> bool" where
  "refreshInv db \<longleftrightarrow>
     distinct (map srs_SourceInstanceID (rft_Schedules db)) \<and> list_all readable (rft_Schedules db) \<and>
     distinct (map scl_ClaimID (rft_Claims db)) \<and> list_all claimCheck (rft_Claims db) \<and>
     (\<forall>r \<in> set (rft_Schedules db). srs_ActiveClaimID r \<noteq> None \<longrightarrow> (\<exists>k \<in> set (rft_Claims db). holds r k)) \<and>
     (\<forall>k \<in> set (rft_Claims db). scl_State k = ClaimActive \<longrightarrow> (\<exists>r \<in> set (rft_Schedules db). holds r k))"

section \<open>Writes of one row\<close>

lemma updateScheduleRow_ok:
  assumes "updateScheduleRow P v db = Inr db'"
  obtains pre r suf where "rft_Schedules db = pre @ r # suf" "P r" "\<forall>y \<in> set (pre @ suf). \<not> P y"
    "scheduleCheck (sourceRefreshScheduleUpdates v r)"
    "db' = db\<lparr>rft_Schedules := pre @ sourceRefreshScheduleUpdates v r # suf\<rparr>"
proof -
  from assms have a: "list_all (\<lambda>r. P r \<longrightarrow> scheduleCheck (sourceRefreshScheduleUpdates v r)) (rft_Schedules db)"
    "length (filter P (rft_Schedules db)) = 1"
    "db' = db\<lparr>rft_Schedules := map (\<lambda>r. if P r then sourceRefreshScheduleUpdates v r else r) (rft_Schedules db)\<rparr>"
    by (auto simp: updateScheduleRow_def split: if_splits)
  from a(2) obtain pre r suf where s: "rft_Schedules db = pre @ r # suf" "P r" "\<forall>y \<in> set (pre @ suf). \<not> P y"
    by (rule filter_length_1_split)
  have "scheduleCheck (sourceRefreshScheduleUpdates v r)" using a(1) s(1,2) by simp
  moreover have "db' = db\<lparr>rft_Schedules := pre @ sourceRefreshScheduleUpdates v r # suf\<rparr>"
    unfolding a(3) s(1) using map_if_unique[OF s(2,3), of "sourceRefreshScheduleUpdates v"] by simp
  ultimately show thesis using that s by blast
qed

lemma finalizeClaimRow_ok:
  assumes "finalizeClaimRow claimID revision state atMS db = Inr db'"
  obtains pre k suf where "rft_Claims db = pre @ k # suf" "scl_ClaimID k = claimID" "scl_State k = ClaimActive"
    "claimCheck (k\<lparr>scl_State := state, scl_FinalizedAtMS := Some atMS\<rparr>)"
    "db' = db\<lparr>rft_Claims := pre @ k\<lparr>scl_State := state, scl_FinalizedAtMS := Some atMS\<rparr> # suf\<rparr>"
proof -
  let ?P = "\<lambda>k. scl_ClaimID k = claimID \<and> scl_State k = ClaimActive \<and> scl_ScheduleRevision k = revision"
  let ?f = "\<lambda>k. k\<lparr>scl_State := state, scl_FinalizedAtMS := Some atMS\<rparr>"
  from assms have a: "list_all (\<lambda>k. ?P k \<longrightarrow> claimCheck (?f k)) (rft_Claims db)" "length (filter ?P (rft_Claims db)) = 1"
    "db' = db\<lparr>rft_Claims := map (\<lambda>k. if ?P k then ?f k else k) (rft_Claims db)\<rparr>"
    by (auto simp: finalizeClaimRow_def Let_def split: if_splits)
  from a(2) obtain pre k suf where s: "rft_Claims db = pre @ k # suf" "?P k" "\<forall>y \<in> set (pre @ suf). \<not> ?P y"
    by (rule filter_length_1_split)
  have "claimCheck (?f k)" using a(1) s(1,2) by simp
  moreover have "db' = db\<lparr>rft_Claims := pre @ ?f k # suf\<rparr>"
    unfolding a(3) s(1) using map_if_unique[where P = ?P and f = ?f, OF s(2,3)] by simp
  ultimately show thesis using that s by blast
qed

lemma scheduleByID_ok:
  assumes "sourceRefreshScheduleByID db i = Inr (Some r)"
  shows "r \<in> set (rft_Schedules db)" "srs_SourceInstanceID r = i" "validateStoredSourceRefreshSchedule r"
  using assms by (auto simp: sourceRefreshScheduleByID_def find_Some_iff split: option.splits if_splits)

lemma scheduleByID_none: "sourceRefreshScheduleByID db i = Inr None \<Longrightarrow> i \<notin> srs_SourceInstanceID ` set (rft_Schedules db)"
  by (auto simp: sourceRefreshScheduleByID_def find_None_iff split: option.splits if_splits)

lemma claimByID_none: "sourceRefreshClaimByID db c = Inr None \<Longrightarrow> c \<notin> scl_ClaimID ` set (rft_Claims db)"
  by (auto simp: sourceRefreshClaimByID_def find_None_iff split: option.splits if_splits)

text \<open>The columns an update writes leave the identity of its row.\<close>

lemma updates_same_identity:
  "srs_SourceInstanceID v = srs_SourceInstanceID r \<Longrightarrow> srs_SourceType v = srs_SourceType r \<Longrightarrow> srs_ScopeKey v = srs_ScopeKey r \<Longrightarrow>
   sourceRefreshScheduleUpdates v r = v"
  by (simp add: sourceRefreshScheduleUpdates_def)

section \<open>The four ways the tables change\<close>

lemma refreshInv_cong:
  "rft_Schedules db' = rft_Schedules db \<Longrightarrow> rft_Claims db' = rft_Claims db \<Longrightarrow> refreshInv db' = refreshInv db"
  by (simp add: refreshInv_def)

lemma refreshInv_frame [simp]:
  "refreshInv (db\<lparr>rft_Fence := f\<rparr>) = refreshInv db" "refreshInv (db\<lparr>rft_States := st\<rparr>) = refreshInv db"
  "refreshInv (db\<lparr>rft_Attempts := a\<rparr>) = refreshInv db"
  by (simp_all add: refreshInv_def)

lemma refreshInvD:
  assumes "refreshInv db"
  shows "distinct (map srs_SourceInstanceID (rft_Schedules db))" "\<And>r. r \<in> set (rft_Schedules db) \<Longrightarrow> readable r"
    "distinct (map scl_ClaimID (rft_Claims db))" "\<And>k. k \<in> set (rft_Claims db) \<Longrightarrow> claimCheck k"
    "\<And>r. r \<in> set (rft_Schedules db) \<Longrightarrow> srs_ActiveClaimID r \<noteq> None \<Longrightarrow> \<exists>k \<in> set (rft_Claims db). holds r k"
    "\<And>k. k \<in> set (rft_Claims db) \<Longrightarrow> scl_State k = ClaimActive \<Longrightarrow> \<exists>r \<in> set (rft_Schedules db). holds r k"
  using assms by (auto simp: refreshInv_def list_all_iff)

lemma inv_create:
  assumes "refreshInv db" and "srs_SourceInstanceID v \<notin> srs_SourceInstanceID ` set (rft_Schedules db)" and "readable v"
    and "srs_ActiveClaimID v = None"
  shows "refreshInv (db\<lparr>rft_Schedules := rft_Schedules db @ [v]\<rparr>)"
  using assms by (auto simp: refreshInv_def)

lemma inv_update:
  assumes i: "refreshInv db" and s: "rft_Schedules db = pre @ r # suf" and "srs_SourceInstanceID v = srs_SourceInstanceID r"
    and "readable v" and n: "srs_ActiveClaimID r = None" "srs_ActiveClaimID v = None"
  shows "refreshInv (db\<lparr>rft_Schedules := pre @ v # suf\<rparr>)"
proof -
  have "\<exists>r' \<in> set (pre @ suf). holds r' k" if "k \<in> set (rft_Claims db)" "scl_State k = ClaimActive" for k
    using refreshInvD(6)[OF i that] n(1) by (auto simp: s holds_def)
  then show ?thesis using refreshInvD(1-5)[OF i] assms(3,4) n(2) unfolding refreshInv_def by (auto simp: s list_all_iff)
qed

lemma inv_grant:
  assumes i: "refreshInv db" and s: "rft_Schedules db = pre @ r # suf" and "srs_SourceInstanceID v = srs_SourceInstanceID r"
    and "readable v" and n: "srs_ActiveClaimID r = None" and k: "claimCheck k" "holds v k"
    and new: "scl_ClaimID k \<notin> scl_ClaimID ` set (rft_Claims db)"
  shows "refreshInv (db\<lparr>rft_Schedules := pre @ v # suf, rft_Claims := rft_Claims db @ [k]\<rparr>)"
proof -
  have 1: "\<exists>r' \<in> set (pre @ suf). holds r' k'" if "k' \<in> set (rft_Claims db)" "scl_State k' = ClaimActive" for k'
    using refreshInvD(6)[OF i that] n by (auto simp: s holds_def)
  have 2: "\<exists>k' \<in> set (rft_Claims db). holds r' k'" if "r' \<in> set (pre @ suf)" "srs_ActiveClaimID r' \<noteq> None" for r'
    using refreshInvD(5)[OF i _ that(2)] that(1) by (auto simp: s)
  show ?thesis using refreshInvD(1-4)[OF i] assms(3,4) k new 1 2 unfolding refreshInv_def by (auto simp: s list_all_iff)
qed

lemma inv_close:
  assumes i: "refreshInv db" and s: "rft_Schedules db = pre @ r # suf" and "srs_SourceInstanceID v = srs_SourceInstanceID r"
    and "readable v" and h: "srs_ActiveClaimID r = Some (scl_ClaimID k)" and v: "srs_ActiveClaimID v = None"
    and c: "rft_Claims db = cpre @ k # csuf" and f: "claimCheck k'" "scl_ClaimID k' = scl_ClaimID k" "scl_State k' \<noteq> ClaimActive"
  shows "refreshInv (db\<lparr>rft_Schedules := pre @ v # suf, rft_Claims := cpre @ k' # csuf\<rparr>)"
proof -
  have k1: "k'' = k" if "k'' \<in> set (rft_Claims db)" "scl_ClaimID k'' = scl_ClaimID k" for k''
    using distinct_row_unique[OF refreshInvD(3)[OF i] that(1), of k] that(2) by (simp add: c)
  have "holds r k" using refreshInvD(5)[OF i, of r] h k1 by (auto simp: s holds_def)
  then have src: "scl_SourceInstanceID k = srs_SourceInstanceID r" by (simp add: holds_def)
  have 1: "\<exists>r' \<in> set (pre @ suf). holds r' k''" if a: "k'' \<in> set (cpre @ csuf)" "scl_State k'' = ClaimActive" for k''
  proof -
    have "scl_ClaimID k'' \<noteq> scl_ClaimID k" by (rule distinct_middle_neq[OF refreshInvD(3)[OF i, unfolded c] a(1)])
    moreover obtain r' where "r' \<in> set (pre @ r # suf)" "holds r' k''" using refreshInvD(6)[OF i, of k''] a by (auto simp: s c)
    ultimately show ?thesis using h by (auto simp: holds_def)
  qed
  have 2: "\<exists>k'' \<in> set (cpre @ csuf). holds r' k''" if a: "r' \<in> set (pre @ suf)" "srs_ActiveClaimID r' \<noteq> None" for r'
  proof -
    have "srs_SourceInstanceID r' \<noteq> srs_SourceInstanceID r" by (rule distinct_middle_neq[OF refreshInvD(1)[OF i, unfolded s] a(1)])
    moreover obtain k'' where "k'' \<in> set (cpre @ k # csuf)" "holds r' k''" using refreshInvD(5)[OF i, of r'] a by (auto simp: s c)
    ultimately show ?thesis using src by (auto simp: holds_def)
  qed
  show ?thesis using refreshInvD(1-4)[OF i] assms(3,4) v f 1 2 unfolding refreshInv_def by (auto simp: s c list_all_iff)
qed

section \<open>Every transaction keeps the invariant\<close>

lemma fence_tables:
  "raiseSourceRefreshGlobalFence nb rs t db = Inr db' \<Longrightarrow>
   rft_Schedules db' = rft_Schedules db \<and> rft_Claims db' = rft_Claims db \<and> rft_States db' = rft_States db \<and> rft_Attempts db' = rft_Attempts db"
  by (auto simp: raiseSourceRefreshGlobalFence_def Let_def split: if_splits option.splits)

text \<open>What a reader accepted stays readable under a valid decision and a valid claim.\<close>

lemma storedClaimShape_time [simp]: "storedClaimShape (v\<lparr>srs_UpdatedAtMS := t\<rparr>) = storedClaimShape v"
  by (cases "srs_ActiveClaimID v") (simp_all add: storedClaimShape_def)

lemma readable_update:
  assumes "validateStoredSourceRefreshSchedule r" and "validateSourceRefreshDecision (srs_NextDueAtMS v) (srs_Reason v)"
    and "srs_SourceInstanceID v = srs_SourceInstanceID r" "srs_SourceType v = srs_SourceType r" "srs_ScopeKey v = srs_ScopeKey r"
    and "0 \<le> srs_BindingGeneration v" and "srs_Revision v = srs_Revision r + 1"
    and "case srs_LastManualAtMS v of None \<Rightarrow> True | Some t \<Rightarrow> inClock t" and "scheduleCheck v"
  shows "readable v"
  using assms
  by (simp add: readable_def validateStoredSourceRefreshSchedule_def validateSourceRefreshScheduleUpdate_def scheduleCheck_def
      inClock_def MaxTimestampMS_def)

lemma stored_valid:
  assumes "validateStoredSourceRefreshSchedule r"
  shows "validateSourceRefreshDecision (srs_NextDueAtMS r) (srs_Reason r)" "0 \<le> srs_BindingGeneration r" "0 < srs_Revision r"
    "case srs_LastManualAtMS r of None \<Rightarrow> True | Some t \<Rightarrow> inClock t" "storedClaimShape r"
  using assms by (simp_all add: validateStoredSourceRefreshSchedule_def validateSourceRefreshScheduleUpdate_def)

text \<open>An update that names its row by its identity changes exactly the row that was read.\<close>

lemma update_read_row:
  assumes i: "refreshInv db" and e: "e \<in> set (rft_Schedules db)" and u: "updateScheduleRow P v db = Inr db'"
    and P: "\<And>r. P r \<Longrightarrow> srs_SourceInstanceID r = srs_SourceInstanceID e"
    and same: "srs_SourceInstanceID v = srs_SourceInstanceID e" "srs_SourceType v = srs_SourceType e" "srs_ScopeKey v = srs_ScopeKey e"
  obtains pre suf where "rft_Schedules db = pre @ e # suf" "db' = db\<lparr>rft_Schedules := pre @ v # suf\<rparr>" "scheduleCheck v" "P e"
proof -
  from u obtain pre r suf where s: "rft_Schedules db = pre @ r # suf" "P r"
    "scheduleCheck (sourceRefreshScheduleUpdates v r)" "db' = db\<lparr>rft_Schedules := pre @ sourceRefreshScheduleUpdates v r # suf\<rparr>"
    by (rule updateScheduleRow_ok)
  have "r = e" using distinct_row_unique[OF refreshInvD(1)[OF i], of r e] P[OF s(2)] e by (simp add: s(1))
  then show thesis using that[of pre suf] s updates_same_identity[of v r] same by simp
qed

lemma upsert_inv:
  assumes i: "refreshInv db" and u: "UpsertSourceRefreshSchedule u db = Inr (v, db')"
  shows "refreshInv db'"
proof -
  have vu: "validateSourceRefreshScheduleUpdate u" using u by (auto simp: UpsertSourceRefreshSchedule_def split: if_splits)
  have dec: "validateSourceRefreshDecision (sru_NextDueAtMS u) (sru_Reason u)" "0 \<le> sru_BindingGeneration u"
    using vu by (simp_all add: validateSourceRefreshScheduleUpdate_def)
  consider (new) "sourceRefreshScheduleByID db (sru_SourceInstanceID u) = Inr None"
    | (old) e where "sourceRefreshScheduleByID db (sru_SourceInstanceID u) = Inr (Some e)"
    using u by (auto simp: UpsertSourceRefreshSchedule_def split: if_splits sum.splits option.splits)
  then show ?thesis
  proof cases
    case new
    from u vu new have v: "db' = db\<lparr>rft_Schedules := rft_Schedules db @ [v]\<rparr>" "scheduleCheck v" "srs_ActiveClaimID v = None"
      "srs_SourceInstanceID v = sru_SourceInstanceID u" "srs_Revision v = 1"
      by (auto simp: UpsertSourceRefreshSchedule_def Let_def split: if_splits)
    from u vu new have "readable v"
      by (auto simp: UpsertSourceRefreshSchedule_def Let_def readable_def validateStoredSourceRefreshSchedule_def
          validateSourceRefreshScheduleUpdate_def scheduleCheck_def inClock_def MaxTimestampMS_def split: if_splits)
    then show ?thesis unfolding v(1) using inv_create[OF i] scheduleByID_none[OF new] v(3,4) by simp
  next
    case old
    note e = scheduleByID_ok[OF old]
    define w where "w = e\<lparr>srs_NextDueAtMS := sru_NextDueAtMS u, srs_Reason := sru_Reason u,
        srs_BindingGeneration := sru_BindingGeneration u, srs_Revision := srs_Revision e + 1,
        srs_UpdatedAtMS := monotonicScheduleAt (sru_AtMS u) (srs_UpdatedAtMS e)\<rparr>"
    let ?P = "\<lambda>r. srs_SourceInstanceID r = srs_SourceInstanceID e \<and> srs_Revision r = srs_Revision e"
    from u vu old have n: "srs_ActiveClaimID e = None" and up: "updateScheduleRow ?P w db = Inr db'"
      by (auto simp: UpsertSourceRefreshSchedule_def Let_def w_def split: if_splits sum.splits)
    obtain pre suf where p: "rft_Schedules db = pre @ e # suf" "db' = db\<lparr>rft_Schedules := pre @ w # suf\<rparr>" "scheduleCheck w"
      by (rule update_read_row[OF i e(1) up]) (simp_all add: w_def)
    have "readable w" using stored_valid[OF e(3)] dec p(3) by (intro readable_update[OF e(3)]) (simp_all add: w_def)
    then show ?thesis unfolding p(2) using inv_update[OF i p(1), of w] n by (simp add: w_def)
  qed
qed

lemma claim_cases:
  assumes "ClaimSourceRefresh i revn c trig t lease gen db = Inr ((v, granted), db')"
  shows "inClock t" "0 < lease" "t \<le> MaxTimestampMS - lease" "c \<noteq> []" "length c \<le> 512" "validSourceRefreshTrigger trig" "0 \<le> gen"
    "\<exists>e. sourceRefreshScheduleByID db i = Inr (Some e) \<and> srs_Revision e = revn \<and>
      (if granted then \<not> fencedOff e trig t db \<and> (\<exists>d. srs_NextDueAtMS e = Some d \<and> d \<le> t) \<and>
         sourceRefreshClaimByID db c = Inr None \<and> grantClaim e c trig t lease gen db = Inr (v, db')
       else db' = db)"
proof -
  show "inClock t" "0 < lease" "t \<le> MaxTimestampMS - lease" "c \<noteq> []" "length c \<le> 512" "validSourceRefreshTrigger trig" "0 \<le> gen"
    using assms by (auto simp: ClaimSourceRefresh_def split: if_splits)
  obtain e where e: "sourceRefreshScheduleByID db i = Inr (Some e)"
    using assms by (auto simp: ClaimSourceRefresh_def split: if_splits sum.splits option.splits)
  show "\<exists>e. sourceRefreshScheduleByID db i = Inr (Some e) \<and> srs_Revision e = revn \<and>
      (if granted then \<not> fencedOff e trig t db \<and> (\<exists>d. srs_NextDueAtMS e = Some d \<and> d \<le> t) \<and>
         sourceRefreshClaimByID db c = Inr None \<and> grantClaim e c trig t lease gen db = Inr (v, db')
       else db' = db)"
    using assms e
    by (intro exI[of _ e]) (auto simp: ClaimSourceRefresh_def split: if_splits sum.splits option.splits prod.splits)
qed

lemma grant_inv:
  assumes i: "refreshInv db" and e: "sourceRefreshScheduleByID db x = Inr (Some e)" and new: "sourceRefreshClaimByID db c = Inr None"
    and t: "inClock t" and g: "grantClaim e c trig t lease gen db = Inr (v, db')"
  shows "refreshInv db'"
proof -
  note er = scheduleByID_ok[OF e]
  define w where "w = e\<lparr>srs_ActiveClaimID := Some c, srs_ActiveTrigger := Some trig, srs_ClaimStartedAtMS := Some t,
      srs_ClaimExpiresAtMS := Some (t + lease),
      srs_LastManualAtMS := (if trig = RefreshTriggerManual then Some t else srs_LastManualAtMS e),
      srs_Revision := srs_Revision e + 1, srs_UpdatedAtMS := monotonicScheduleAt t (srs_UpdatedAtMS e)\<rparr>"
  define k where "k = \<lparr>scl_ClaimID = c, scl_SourceInstanceID = srs_SourceInstanceID e, scl_ScheduleRevision = srs_Revision w,
      scl_BindingGeneration = gen, scl_Trigger = trig, scl_StartedAtMS = t, scl_ExpiresAtMS = t + lease,
      scl_State = ClaimActive, scl_FinalizedAtMS = None\<rparr>"
  let ?P = "\<lambda>r. srs_SourceInstanceID r = srs_SourceInstanceID e \<and> srs_Revision r = srs_Revision e \<and>
      srs_ActiveClaimID r = None \<and> srs_BindingGeneration r = gen"
  obtain db1 db2 where f: "db1 = db \<or> (\<exists>nb. raiseSourceRefreshGlobalFence nb FenceManual t db = Inr db1)"
    and u: "updateScheduleRow ?P w db1 = Inr db2" and k: "claimCheck k" "db' = db2\<lparr>rft_Claims := rft_Claims db2 @ [k]\<rparr>"
    using g unfolding grantClaim_def Let_def w_def[symmetric] k_def[symmetric]
    by (auto split: sum.splits if_splits)
  have d1: "rft_Schedules db1 = rft_Schedules db" "rft_Claims db1 = rft_Claims db" using f fence_tables by blast+
  then have i1: "refreshInv db1" using i refreshInv_cong by blast
  obtain pre suf where p: "rft_Schedules db1 = pre @ e # suf" "db2 = db1\<lparr>rft_Schedules := pre @ w # suf\<rparr>" "scheduleCheck w" "?P e"
  proof (rule update_read_row[OF i1 _ u])
    show "e \<in> set (rft_Schedules db1)" using er(1) d1 by simp
  qed (use that in \<open>simp_all add: w_def\<close>)
  have "readable w" using stored_valid[OF er(3)] t p(3) by (intro readable_update[OF er(3)]) (simp_all add: w_def)
  moreover have "holds w k" by (simp add: holds_def w_def k_def)
  moreover have "scl_ClaimID k \<notin> scl_ClaimID ` set (rft_Claims db1)" using claimByID_none[OF new] d1 by (simp add: k_def)
  ultimately show ?thesis using inv_grant[OF i1 p(1) _ _ _ k(1)] p(4) k(2) by (simp add: p(2) w_def)
qed

lemma held_ok:
  assumes "heldSchedule db x c revn = Inr e"
  shows "sourceRefreshScheduleByID db x = Inr (Some e)" "srs_Revision e = revn" "srs_ActiveClaimID e = Some c"
  using assms by (auto simp: heldSchedule_def split: sum.splits option.splits if_splits)

lemma close_inv:
  assumes i: "refreshInv db" and e: "sourceRefreshScheduleByID db x = Inr (Some e)"
    and dec: "validateSourceRefreshDecision due reason" and st: "state \<noteq> ClaimActive"
    and c: "closeClaim e c due reason state t db = Inr (v, db')"
  shows "refreshInv db'"
proof -
  note er = scheduleByID_ok[OF e]
  define w where "w = e\<lparr>srs_NextDueAtMS := due, srs_Reason := reason, srs_ActiveClaimID := None, srs_ActiveTrigger := None,
      srs_ClaimStartedAtMS := None, srs_ClaimExpiresAtMS := None, srs_Revision := srs_Revision e + 1,
      srs_UpdatedAtMS := monotonicScheduleAt t (srs_UpdatedAtMS e)\<rparr>"
  let ?P = "\<lambda>r. srs_SourceInstanceID r = srs_SourceInstanceID e \<and> srs_Revision r = srs_Revision e \<and> srs_ActiveClaimID r = Some c"
  obtain db1 where u: "updateScheduleRow ?P w db = Inr db1" and f: "finalizeClaimRow c (srs_Revision e) state t db1 = Inr db'"
    using c unfolding closeClaim_def Let_def w_def[symmetric] by (auto split: sum.splits if_splits)
  obtain pre suf where p: "rft_Schedules db = pre @ e # suf" "db1 = db\<lparr>rft_Schedules := pre @ w # suf\<rparr>" "scheduleCheck w" "?P e"
    by (rule update_read_row[OF i er(1) u]) (simp_all add: w_def)
  obtain cpre k csuf where k: "rft_Claims db1 = cpre @ k # csuf" "scl_ClaimID k = c"
    "claimCheck (k\<lparr>scl_State := state, scl_FinalizedAtMS := Some t\<rparr>)"
    "db' = db1\<lparr>rft_Claims := cpre @ k\<lparr>scl_State := state, scl_FinalizedAtMS := Some t\<rparr> # csuf\<rparr>"
    using f by (rule finalizeClaimRow_ok)
  have "readable w" using stored_valid[OF er(3)] dec p(3) by (intro readable_update[OF er(3)]) (simp_all add: w_def)
  from inv_close[OF i p(1) _ this _ _ _ k(3), where k = k and cpre = cpre and csuf = csuf] show ?thesis
    using p(4) k st by (simp add: p(2) w_def)
qed

lemma complete_inv:
  assumes i: "refreshInv db" and c: "CompleteSourceRefresh c db = Inr (v, db')"
  shows "refreshInv db'"
proof -
  obtain e db1 where e: "heldSchedule db (src_SourceInstanceID c) (src_ClaimID c) (src_ExpectedRevision c) = Inr e"
    and f: "fenceAfterRateLimit (src_SourceInstanceID c) (src_NextDueAtMS c) (src_AtMS c) db = Inr db1"
    and cl: "closeClaim e (src_ClaimID c) (src_NextDueAtMS c) (src_Reason c) ClaimCompleted (src_AtMS c) db1 = Inr (v, db')"
    and d: "validateSourceRefreshDecision (src_NextDueAtMS c) (src_Reason c)"
    using c by (auto simp: CompleteSourceRefresh_def split: if_splits sum.splits)
  have d1: "rft_Schedules db1 = rft_Schedules db" "rft_Claims db1 = rft_Claims db"
    using f by (auto simp: fenceAfterRateLimit_def dest: fence_tables split: option.splits if_splits)
  have "sourceRefreshScheduleByID db1 (src_SourceInstanceID c) = Inr (Some e)"
    using held_ok(1)[OF e] d1 by (simp add: sourceRefreshScheduleByID_def)
  from close_inv[OF _ this d _ cl] show ?thesis using i refreshInv_cong[OF d1] by simp
qed

lemma recovery_decision: "inClock t \<Longrightarrow> validateSourceRefreshDecision (Some t) RefreshReasonRecovery"
  "validateSourceRefreshDecision None RefreshReasonInactiveAccount"
  by (simp_all add: validateSourceRefreshDecision_def pausedReason_def)

lemma release_cases:
  assumes "ReleaseExpiredSourceRefreshClaim r db = Inr ((v, released), db')"
  shows "if released
    then inClock (srr_AtMS r) \<and> srr_ClaimID r \<notin> set (rft_Attempts db) \<and>
      (\<exists>e. heldSchedule db (srr_SourceInstanceID r) (srr_ClaimID r) (srr_ExpectedRevision r) = Inr e \<and>
         closeClaim e (srr_ClaimID r) (Some (srr_AtMS r)) RefreshReasonRecovery ClaimAbandoned (srr_AtMS r) db = Inr (v, db'))
    else db' = db"
  using assms by (auto simp: ReleaseExpiredSourceRefreshClaim_def invalidClaimRequest_def split: if_splits sum.splits)

lemma abandon_cases:
  assumes "AbandonSourceRefreshClaim r db = Inr (v, db')"
  shows "\<exists>e. heldSchedule db (srr_SourceInstanceID r) (srr_ClaimID r) (srr_ExpectedRevision r) = Inr e \<and>
     closeClaim e (srr_ClaimID r) None RefreshReasonInactiveAccount ClaimAbandoned (srr_AtMS r) db = Inr (v, db')"
  using assms by (auto simp: AbandonSourceRefreshClaim_def split: if_splits sum.splits)

section \<open>Runs\<close>

datatype refresh_event =
  UpsertEvent SourceRefreshScheduleUpdate
| ClaimEvent string int64 string SourceRefreshTrigger int64 int64 int64
| CompleteEvent SourceRefreshCompletion
| ReleaseEvent SourceRefreshClaimRecovery
| AbandonEvent SourceRefreshClaimRecovery
| RaiseEvent int64 globalFenceReason int64
| ClearEvent
| AttemptEvent string string
| StatesEvent "(string \<times> SourceState) list"

definition committed_or :: "refreshTables \<Rightarrow> refresh_store_error + 'a \<times> refreshTables \<Rightarrow> refreshTables" where
  "committed_or db res = (case res of Inl _ \<Rightarrow> db | Inr (_, db') \<Rightarrow> db')"

text \<open>An attempt is recorded under its request identifier only if the claim of that identifier admits it.\<close>

fun refresh_apply :: "refreshTables \<Rightarrow> refresh_event \<Rightarrow> refreshTables" where
  "refresh_apply db (UpsertEvent u) = committed_or db (UpsertSourceRefreshSchedule u db)"
| "refresh_apply db (ClaimEvent i revn c trig t lease gen) = committed_or db (ClaimSourceRefresh i revn c trig t lease gen db)"
| "refresh_apply db (CompleteEvent c) = committed_or db (CompleteSourceRefresh c db)"
| "refresh_apply db (ReleaseEvent r) = committed_or db (ReleaseExpiredSourceRefreshClaim r db)"
| "refresh_apply db (AbandonEvent r) = committed_or db (AbandonSourceRefreshClaim r db)"
| "refresh_apply db (RaiseEvent nb rs t) = (case raiseSourceRefreshGlobalFence nb rs t db of Inl _ \<Rightarrow> db | Inr db' \<Rightarrow> db')"
| "refresh_apply db ClearEvent = ClearSourceRefreshGlobalFence db"
| "refresh_apply db (AttemptEvent requestID source) =
     (if requestID \<notin> set (rft_Attempts db) \<and> validateSourceRefreshClaimAttempt db requestID source = None
      then db\<lparr>rft_Attempts := rft_Attempts db @ [requestID]\<rparr> else db)"
| "refresh_apply db (StatesEvent states) = db\<lparr>rft_States := states\<rparr>"

definition emptyTables :: refreshTables where
  "emptyTables = \<lparr>rft_Schedules = [], rft_Claims = [], rft_Fence = None, rft_States = [], rft_Attempts = []\<rparr>"

lemma committed_or_inv:
  "refreshInv db \<Longrightarrow> (\<And>x db'. res = Inr (x, db') \<Longrightarrow> refreshInv db') \<Longrightarrow> refreshInv (committed_or db res)"
  by (auto simp: committed_or_def split: sum.split)

lemma claim_inv:
  assumes "refreshInv db" and "ClaimSourceRefresh i revn c trig t lease gen db = Inr (x, db')"
  shows "refreshInv db'"
proof -
  obtain v granted where x: "x = (v, granted)" by (cases x)
  note c = claim_cases[OF assms(2)[unfolded x]]
  show ?thesis using c(8) grant_inv[OF assms(1) _ _ c(1)] assms(1) by (auto split: if_splits)
qed

lemma release_inv:
  assumes "refreshInv db" and "ReleaseExpiredSourceRefreshClaim r db = Inr (x, db')"
  shows "refreshInv db'"
proof -
  obtain v released where x: "x = (v, released)" by (cases x)
  note c = release_cases[OF assms(2)[unfolded x]]
  show ?thesis
  proof (cases released)
    case True
    with c obtain e where e: "inClock (srr_AtMS r)" "heldSchedule db (srr_SourceInstanceID r) (srr_ClaimID r) (srr_ExpectedRevision r) = Inr e"
      "closeClaim e (srr_ClaimID r) (Some (srr_AtMS r)) RefreshReasonRecovery ClaimAbandoned (srr_AtMS r) db = Inr (v, db')" by auto
    show ?thesis by (rule close_inv[OF assms(1) held_ok(1)[OF e(2)] recovery_decision(1)[OF e(1)] _ e(3)]) simp
  qed (use c assms(1) in simp)
qed

lemma abandon_inv:
  assumes "refreshInv db" and "AbandonSourceRefreshClaim r db = Inr (v, db')"
  shows "refreshInv db'"
proof -
  obtain e where e: "heldSchedule db (srr_SourceInstanceID r) (srr_ClaimID r) (srr_ExpectedRevision r) = Inr e"
    "closeClaim e (srr_ClaimID r) None RefreshReasonInactiveAccount ClaimAbandoned (srr_AtMS r) db = Inr (v, db')"
    using abandon_cases[OF assms(2)] by blast
  show ?thesis by (rule close_inv[OF assms(1) held_ok(1)[OF e(1)] recovery_decision(2) _ e(2)]) simp
qed

lemma raise_inv: "refreshInv db \<Longrightarrow> raiseSourceRefreshGlobalFence nb rs t db = Inr db' \<Longrightarrow> refreshInv db'"
  using fence_tables refreshInv_cong by blast

lemma refresh_apply_inv: assumes "refreshInv db" shows "refreshInv (refresh_apply db ev)"
proof (cases ev)
  case (UpsertEvent u)
  then show ?thesis using assms by (simp add: committed_or_inv upsert_inv)
next
  case (ClaimEvent i revn c trig t lease gen)
  show ?thesis unfolding ClaimEvent refresh_apply.simps by (rule committed_or_inv[OF assms claim_inv[OF assms]])
next
  case (CompleteEvent c)
  then show ?thesis using assms by (simp add: committed_or_inv complete_inv)
next
  case (ReleaseEvent r)
  show ?thesis unfolding ReleaseEvent refresh_apply.simps by (rule committed_or_inv[OF assms release_inv[OF assms]])
next
  case (AbandonEvent r)
  then show ?thesis using assms by (simp add: committed_or_inv abandon_inv)
next
  case (RaiseEvent nb rs t)
  then show ?thesis using assms raise_inv by (simp split: sum.split)
qed (simp_all add: assms ClearSourceRefreshGlobalFence_def)

interpretation refresh: event_machine refresh_apply "\<lambda>_. True" refreshInv
  by unfold_locales (rule refresh_apply_inv)

lemma emptyTables_inv: "refreshInv emptyTables"
  by (simp add: refreshInv_def emptyTables_def)

section \<open>A held claim can be completed\<close>

definition completes :: "refreshTables \<Rightarrow> SourceRefreshSchedule \<Rightarrow> bool" where
  "completes db r \<longleftrightarrow>
     (\<forall>c startedAt due reason t.
        srs_ActiveClaimID r = Some c \<longrightarrow> srs_ClaimStartedAtMS r = Some startedAt \<longrightarrow> srs_UpdatedAtMS r \<le> MaxTimestampMS \<longrightarrow>
        srs_Revision r < max_int64 \<longrightarrow> validateSourceRefreshDecision due reason \<longrightarrow> startedAt \<le> t \<longrightarrow> t \<le> MaxTimestampMS \<longrightarrow>
        (\<exists>v db'. CompleteSourceRefresh \<lparr>src_SourceInstanceID = srs_SourceInstanceID r, src_ClaimID = c, src_ExpectedRevision = srs_Revision r,
             src_NextDueAtMS = due, src_Reason = reason, src_AtMS = t\<rparr> db = Inr (v, db') \<and>
           srs_ActiveClaimID v = None \<and> srs_NextDueAtMS v = due \<and> srs_Revision v = srs_Revision r + 1))"

lemma readable_stored: "readable r \<Longrightarrow> srs_UpdatedAtMS r \<le> MaxTimestampMS \<Longrightarrow> validateStoredSourceRefreshSchedule r"
  by (simp add: readable_def validateStoredSourceRefreshSchedule_def validateSourceRefreshScheduleUpdate_def scheduleCheck_def inClock_def)

lemma schedule_found:
  assumes "refreshInv db" and "r \<in> set (rft_Schedules db)" and "srs_UpdatedAtMS r \<le> MaxTimestampMS"
  shows "sourceRefreshScheduleByID db (srs_SourceInstanceID r) = Inr (Some r)"
  using find_unique_id[OF refreshInvD(1)[OF assms(1)] assms(2)] readable_stored[OF refreshInvD(2)[OF assms(1,2)] assms(3)]
  by (simp add: sourceRefreshScheduleByID_def)

lemma claim_found:
  assumes "refreshInv db" and "k \<in> set (rft_Claims db)"
  shows "sourceRefreshClaimByID db (scl_ClaimID k) = Inr (Some k)"
  using find_unique_id[OF refreshInvD(3)[OF assms(1)] assms(2)] refreshInvD(4)[OF assms] by (simp add: sourceRefreshClaimByID_def claimCheck_def)

lemma updateScheduleRow_one:
  assumes i: "refreshInv db" and r: "r \<in> set (rft_Schedules db)" "P r" and P: "\<And>y. P y \<Longrightarrow> srs_SourceInstanceID y = srs_SourceInstanceID r"
    and v: "sourceRefreshScheduleUpdates v r = v" "scheduleCheck v"
  shows "\<exists>db'. updateScheduleRow P v db = Inr db' \<and> rft_Claims db' = rft_Claims db"
proof -
  have u: "P y \<longleftrightarrow> y = r" if "y \<in> set (rft_Schedules db)" for y
    using distinct_row_unique[OF refreshInvD(1)[OF i] that r(1)] P r(2) by blast
  have "filter P (rft_Schedules db) = [r]" using filter_single[OF _ r(1) u] refreshInvD(1)[OF i] by (simp add: distinct_map)
  moreover have "list_all (\<lambda>y. P y \<longrightarrow> scheduleCheck (sourceRefreshScheduleUpdates v y)) (rft_Schedules db)" using u v by (auto simp: list_all_iff)
  ultimately show ?thesis by (simp add: updateScheduleRow_def)
qed

lemma finalizeClaimRow_one:
  assumes d: "distinct (map scl_ClaimID (rft_Claims db))" and k: "k \<in> set (rft_Claims db)" "scl_State k = ClaimActive"
    and c: "claimCheck (k\<lparr>scl_State := state, scl_FinalizedAtMS := Some t\<rparr>)"
  shows "\<exists>db'. finalizeClaimRow (scl_ClaimID k) (scl_ScheduleRevision k) state t db = Inr db'"
proof -
  let ?P = "\<lambda>y. scl_ClaimID y = scl_ClaimID k \<and> scl_State y = ClaimActive \<and> scl_ScheduleRevision y = scl_ScheduleRevision k"
  have u: "?P y \<longleftrightarrow> y = k" if "y \<in> set (rft_Claims db)" for y using distinct_row_unique[OF d that k(1)] k(2) by blast
  have "filter ?P (rft_Claims db) = [k]" using filter_single[OF _ k(1) u] d by (simp add: distinct_map)
  moreover have "list_all (\<lambda>y. ?P y \<longrightarrow> claimCheck (y\<lparr>scl_State := state, scl_FinalizedAtMS := Some t\<rparr>)) (rft_Claims db)"
    using u c by (auto simp: list_all_iff)
  ultimately show ?thesis by (simp add: finalizeClaimRow_def Let_def)
qed

lemma fenceAfterRateLimit_ok:
  assumes "validateSourceRefreshDecision due reason" and "inClock t"
  shows "\<exists>db'. fenceAfterRateLimit i due t db = Inr db' \<and> rft_Schedules db' = rft_Schedules db \<and> rft_Claims db' = rft_Claims db"
proof -
  have "\<exists>db'. raiseSourceRefreshGlobalFence d FenceRateLimit t db = Inr db' \<and> rft_Schedules db' = rft_Schedules db \<and> rft_Claims db' = rft_Claims db"
    if "due = Some d" for d
    using assms that by (auto simp: raiseSourceRefreshGlobalFence_def validateSourceRefreshDecision_def Let_def split: option.split)
  then show ?thesis by (auto simp: fenceAfterRateLimit_def split: option.split)
qed

lemma closeClaim_succeeds:
  assumes i: "refreshInv db" and r: "r \<in> set (rft_Schedules db)" "srs_Revision r < max_int64" and h: "k \<in> set (rft_Claims db)" "holds r k"
    and dec: "validateSourceRefreshDecision due reason" and st: "state \<noteq> ClaimActive" and t: "scl_StartedAtMS k \<le> t"
  shows "\<exists>v db'. closeClaim r (scl_ClaimID k) due reason state t db = Inr (v, db') \<and>
    srs_ActiveClaimID v = None \<and> srs_NextDueAtMS v = due \<and> srs_Revision v = srs_Revision r + 1"
proof -
  define w where "w = r\<lparr>srs_NextDueAtMS := due, srs_Reason := reason, srs_ActiveClaimID := None, srs_ActiveTrigger := None,
      srs_ClaimStartedAtMS := None, srs_ClaimExpiresAtMS := None, srs_Revision := srs_Revision r + 1,
      srs_UpdatedAtMS := monotonicScheduleAt t (srs_UpdatedAtMS r)\<rparr>"
  let ?P = "\<lambda>y. srs_SourceInstanceID y = srs_SourceInstanceID r \<and> srs_Revision y = srs_Revision r \<and> srs_ActiveClaimID y = Some (scl_ClaimID k)"
  have k: "claimCheck k" by (rule refreshInvD(4)[OF i h(1)])
  have "scheduleCheck r" using refreshInvD(2)[OF i r(1)] by (simp add: readable_def)
  then have "scheduleCheck w" using dec t k
    by (auto simp: scheduleCheck_def w_def storedClaimShape_def validateSourceRefreshDecision_def inClock_def monotonicScheduleAt_def
        claimCheck_def validStoredClaim_def split: option.splits)
  then obtain db1 where u: "updateScheduleRow ?P w db = Inr db1" "rft_Claims db1 = rft_Claims db"
    using updateScheduleRow_one[OF i r(1), of ?P w] h(2) by (auto simp: holds_def sourceRefreshScheduleUpdates_def w_def)
  have "claimCheck (k\<lparr>scl_State := state, scl_FinalizedAtMS := Some t\<rparr>)"
    using k st t by (simp add: claimCheck_def validStoredClaim_def)
  then obtain db2 where "finalizeClaimRow (scl_ClaimID k) (srs_Revision r) state t db1 = Inr db2"
    using finalizeClaimRow_one[where db = db1 and k = k and state = state and t = t] refreshInvD(3)[OF i] h u(2) by (auto simp: holds_def)
  then show ?thesis using r(2) u(1) unfolding closeClaim_def Let_def w_def[symmetric] by (auto simp: w_def)
qed

lemma claim_completes:
  assumes i: "refreshInv db" and r: "r \<in> set (rft_Schedules db)"
  shows "completes db r"
  unfolding completes_def
proof (intro allI impI)
  fix c startedAt due reason t
  assume a: "srs_ActiveClaimID r = Some c" "srs_ClaimStartedAtMS r = Some startedAt" "srs_UpdatedAtMS r \<le> MaxTimestampMS"
    "srs_Revision r < max_int64" "validateSourceRefreshDecision due reason" "startedAt \<le> t" "t \<le> MaxTimestampMS"
  obtain k where k: "k \<in> set (rft_Claims db)" "holds r k" using refreshInvD(5)[OF i r] a(1) by auto
  then have kc: "scl_ClaimID k = c" "scl_StartedAtMS k = startedAt" "scl_SourceInstanceID k = srs_SourceInstanceID r"
    "scl_ScheduleRevision k = srs_Revision r" "scl_State k = ClaimActive" using a by (simp_all add: holds_def)
  have ck: "claimCheck k" by (rule refreshInvD(4)[OF i k(1)])
  have t: "inClock t" using ck kc(2) a(6,7) by (simp add: inClock_def claimCheck_def validStoredClaim_def)
  have rd: "srs_SourceInstanceID r \<noteq> []" "0 < srs_Revision r" "c \<noteq> []" "length c \<le> 512"
    using refreshInvD(2)[OF i r] a(1) by (auto simp: readable_def scheduleCheck_def)
  obtain db1 where d: "fenceAfterRateLimit (srs_SourceInstanceID r) due t db = Inr db1" "rft_Schedules db1 = rft_Schedules db"
    "rft_Claims db1 = rft_Claims db" using fenceAfterRateLimit_ok[OF a(5) t] by blast
  have i1: "refreshInv db1" using i refreshInv_cong[OF d(2,3)] by simp
  have held: "heldSchedule db (srs_SourceInstanceID r) c (srs_Revision r) = Inr r"
    using schedule_found[OF i r a(3)] a(1) by (simp add: heldSchedule_def)
  have act: "activeClaim db (srs_SourceInstanceID r) c (srs_Revision r) = Inr k"
    using claim_found[OF i k(1)] kc by (simp add: activeClaim_def)
  from closeClaim_succeeds[OF i1, of r k due reason ClaimCompleted t] d r k a kc
  obtain v db' where "closeClaim r c due reason ClaimCompleted t db1 = Inr (v, db')"
    "srs_ActiveClaimID v = None" "srs_NextDueAtMS v = due" "srs_Revision v = srs_Revision r + 1" by auto
  then show "\<exists>v db'. CompleteSourceRefresh \<lparr>src_SourceInstanceID = srs_SourceInstanceID r, src_ClaimID = c, src_ExpectedRevision = srs_Revision r,
      src_NextDueAtMS = due, src_Reason = reason, src_AtMS = t\<rparr> db = Inr (v, db') \<and>
      srs_ActiveClaimID v = None \<and> srs_NextDueAtMS v = due \<and> srs_Revision v = srs_Revision r + 1"
    using held act d(1) a(5) t rd by (simp add: CompleteSourceRefresh_def invalidClaimRequest_def)
qed

section \<open>The rate limit\<close>

definition limitedUntil :: "int64 \<Rightarrow> refreshTables \<Rightarrow> bool" where
  "limitedUntil T db \<longleftrightarrow> (\<exists>f. rft_Fence db = Some f \<and> gfe_Reason f = FenceRateLimit \<and> T \<le> gfe_NotBeforeMS f)"

text \<open>Events whose clock has not reached \<open>T\<close>, and that do not clear the fence.\<close>

fun beforeLimit :: "int64 \<Rightarrow> refresh_event \<Rightarrow> bool" where
  "beforeLimit T (ClaimEvent i revn c trig t lease gen) = (t < T)"
| "beforeLimit T (CompleteEvent c) = (src_AtMS c < T)"
| "beforeLimit T (RaiseEvent nb rs t) = (t < T)"
| "beforeLimit T ClearEvent = False"
| "beforeLimit T ev = True"

lemma raise_limited:
  "limitedUntil T db \<Longrightarrow> t < T \<Longrightarrow> raiseSourceRefreshGlobalFence nb rs t db = Inr db' \<Longrightarrow> limitedUntil T db'"
  by (auto simp: limitedUntil_def raiseSourceRefreshGlobalFence_def Let_def max_def split: if_splits)

lemma limited_fencedOff: "limitedUntil T db \<Longrightarrow> t < T \<Longrightarrow> fencedOff e trig t db"
  by (auto simp: limitedUntil_def fencedOff_def sourceRefreshGlobalFenceState_def)

lemma updateScheduleRow_fence: "updateScheduleRow P v db = Inr db' \<Longrightarrow> rft_Fence db' = rft_Fence db"
  by (auto simp: updateScheduleRow_def split: if_splits)

lemma closeClaim_fence:
  assumes "closeClaim e c due reason state t db = Inr (v, db')" shows "rft_Fence db' = rft_Fence db"
proof -
  have "finalizeClaimRow a b state t db1 = Inr db' \<Longrightarrow> rft_Fence db' = rft_Fence db1" for a b db1
    by (auto simp: finalizeClaimRow_def Let_def split: if_splits)
  with assms show ?thesis by (auto simp: closeClaim_def Let_def dest!: updateScheduleRow_fence split: if_splits sum.splits)
qed

lemma limited_cong: "rft_Fence db' = rft_Fence db \<Longrightarrow> limitedUntil T db' = limitedUntil T db"
  by (simp add: limitedUntil_def)

lemma claim_limited:
  assumes "limitedUntil T db" and "t < T" and "ClaimSourceRefresh i revn c trig t lease gen db = Inr ((v, granted), db')"
  shows "\<not> granted \<and> db' = db"
  using claim_cases(8)[OF assms(3)] limited_fencedOff[OF assms(1,2)] by (auto split: if_splits)

lemma complete_fence:
  assumes "CompleteSourceRefresh c db = Inr (v, db')"
  shows "\<exists>db1. fenceAfterRateLimit (src_SourceInstanceID c) (src_NextDueAtMS c) (src_AtMS c) db = Inr db1 \<and> rft_Fence db' = rft_Fence db1"
  using assms by (auto simp: CompleteSourceRefresh_def dest!: closeClaim_fence split: if_splits sum.splits)

lemma complete_limited:
  assumes "limitedUntil T db" and "src_AtMS c < T" and "CompleteSourceRefresh c db = Inr (v, db')"
  shows "limitedUntil T db'"
proof -
  obtain db1 where d: "fenceAfterRateLimit (src_SourceInstanceID c) (src_NextDueAtMS c) (src_AtMS c) db = Inr db1" "rft_Fence db' = rft_Fence db1"
    using complete_fence[OF assms(3)] by blast
  have "limitedUntil T db1" using d(1) assms(1) raise_limited[OF assms(1,2)] by (auto simp: fenceAfterRateLimit_def split: option.splits if_splits)
  then show ?thesis using limited_cong[OF d(2)] by blast
qed

lemma upsert_fence: "UpsertSourceRefreshSchedule u db = Inr (v, db') \<Longrightarrow> rft_Fence db' = rft_Fence db"
  by (auto simp: UpsertSourceRefreshSchedule_def Let_def dest: updateScheduleRow_fence split: if_splits sum.splits option.splits)

lemma release_fence:
  assumes "ReleaseExpiredSourceRefreshClaim r db = Inr (x, db')" shows "rft_Fence db' = rft_Fence db"
proof -
  obtain v released where x: "x = (v, released)" by (cases x)
  show ?thesis using release_cases[OF assms[unfolded x]] closeClaim_fence by (auto split: if_splits)
qed

lemma abandon_fence: "AbandonSourceRefreshClaim r db = Inr (v, db') \<Longrightarrow> rft_Fence db' = rft_Fence db"
  by (drule abandon_cases) (auto dest: closeClaim_fence)

lemma committed_or_limited:
  "limitedUntil T db \<Longrightarrow> (\<And>x db'. res = Inr (x, db') \<Longrightarrow> limitedUntil T db') \<Longrightarrow> limitedUntil T (committed_or db res)"
  by (auto simp: committed_or_def split: sum.split)

lemma refresh_apply_limited:
  assumes l: "limitedUntil T db" and b: "beforeLimit T ev"
  shows "limitedUntil T (refresh_apply db ev)"
proof (cases ev)
  case (UpsertEvent u)
  then show ?thesis using committed_or_limited[OF l] upsert_fence limited_cong l by (metis refresh_apply.simps(1))
next
  case (ClaimEvent i revn c trig t lease gen)
  have "limitedUntil T db'" if "ClaimSourceRefresh i revn c trig t lease gen db = Inr (x, db')" for x db'
    using claim_limited[OF l, of t i revn c trig lease gen "fst x" "snd x" db'] that b l ClaimEvent by simp
  then show ?thesis unfolding ClaimEvent refresh_apply.simps by (rule committed_or_limited[OF l])
next
  case (CompleteEvent c)
  have "src_AtMS c < T" using b CompleteEvent by simp
  then show ?thesis unfolding CompleteEvent refresh_apply.simps
    by (intro committed_or_limited[OF l]) (rule complete_limited[OF l])
next
  case (ReleaseEvent r)
  then show ?thesis using committed_or_limited[OF l] release_fence limited_cong l by (metis refresh_apply.simps(4))
next
  case (AbandonEvent r)
  then show ?thesis using committed_or_limited[OF l] abandon_fence limited_cong l by (metis refresh_apply.simps(5))
next
  case (RaiseEvent nb rs t)
  then show ?thesis using raise_limited[OF l] b l by (simp split: sum.split)
qed (use b l in \<open>simp_all add: limitedUntil_def\<close>)

interpretation rate_limit: event_machine refresh_apply "beforeLimit T" "limitedUntil T" for T
  by unfold_locales (rule refresh_apply_limited)

lemma complete_sets_limit:
  assumes c: "CompleteSourceRefresh c db = Inr (v, db')" and st: "map_of (rft_States db) (src_SourceInstanceID c) = Some st"
    "sst_LastFailureCode st = Some SourceFailureHTTP429" and d: "src_NextDueAtMS c = Some T"
  shows "limitedUntil T db'"
proof -
  obtain db1 where r: "raiseSourceRefreshGlobalFence T FenceRateLimit (src_AtMS c) db = Inr db1" "rft_Fence db' = rft_Fence db1"
    using complete_fence[OF c] st d by (auto simp: fenceAfterRateLimit_def)
  have "limitedUntil T db1"
    using r(1) by (auto simp: limitedUntil_def raiseSourceRefreshGlobalFence_def Let_def max_def split: if_splits option.splits)
  then show ?thesis using limited_cong[OF r(2)] by blast
qed

section \<open>Properties\<close>



text \<open>The default quota source is fetched, meets HTTP 429, and a manual request follows.\<close>

definition demoUpdate :: "string \<Rightarrow> string \<Rightarrow> int64 \<Rightarrow> int64 \<Rightarrow> SourceRefreshScheduleUpdate" where
  "demoUpdate i ty revn t =
     \<lparr>sru_SourceInstanceID = i, sru_SourceType = ty, sru_ScopeKey = QuotaAccountScopeDefault, sru_BindingGeneration = 0,
      sru_ExpectedRevision = revn, sru_NextDueAtMS = Some 0, sru_Reason = RefreshReasonStartup, sru_AtMS = t\<rparr>"

definition demoState :: SourceState where
  "demoState =
     \<lparr>sst_SourceInstanceID = QuotaSourceInstanceWhamDefault, sst_SourceType = QuotaSourceTypeWham, sst_ScopeKey = QuotaAccountScopeDefault,
      sst_LastAttemptAtMS = Some 20, sst_LastSuccessAtMS = None, sst_NextDueAtMS = Some 5000, sst_ConsecutiveFailures = 1,
      sst_LastErrorClass = None, sst_LastFailureCode = Some SourceFailureHTTP429, sst_FreshnessState = SourceFreshnessUnavailable,
      sst_CursorVersion = 1, sst_UpdatedAtMS = 20\<rparr>"

definition demoTables :: refreshTables where
  "demoTables = foldl refresh_apply emptyTables
     [UpsertEvent (demoUpdate QuotaSourceInstanceWhamDefault QuotaSourceTypeWham 0 1),
      UpsertEvent (demoUpdate ResetCreditsSourceInstanceWhamDefault ResetCreditsSourceTypeWham 0 1),
      ClaimEvent QuotaSourceInstanceWhamDefault 1 ''c1'' RefreshTriggerScheduled 10 1000 0,
      AttemptEvent ''c1'' QuotaSourceInstanceWhamDefault, StatesEvent [(QuotaSourceInstanceWhamDefault, demoState)]]"

definition demoCompletion :: SourceRefreshCompletion where
  "demoCompletion =
     \<lparr>src_SourceInstanceID = QuotaSourceInstanceWhamDefault, src_ClaimID = ''c1'', src_ExpectedRevision = 2, src_NextDueAtMS = Some 5000,
      src_Reason = RefreshReasonRetryAfter, src_AtMS = 30\<rparr>"

definition demoResult :: "SourceRefreshSchedule \<times> refreshTables" where
  "demoResult = (case CompleteSourceRefresh demoCompletion demoTables of Inr r \<Rightarrow> r | Inl _ \<Rightarrow> (hd (rft_Schedules demoTables), demoTables))"

definition demoClaim :: "(SourceRefreshSchedule \<times> bool) \<times> refreshTables" where
  "demoClaim =
     (case ClaimSourceRefresh ResetCreditsSourceInstanceWhamDefault 1 ''c2'' RefreshTriggerManual 40 1000 0 (snd demoResult) of
        Inr r \<Rightarrow> r | Inl _ \<Rightarrow> ((fst demoResult, True), demoTables))"

lemma demo_completed:
  "CompleteSourceRefresh demoCompletion demoTables = Inr (fst demoResult, snd demoResult)"
  "ClaimSourceRefresh ResetCreditsSourceInstanceWhamDefault 1 ''c2'' RefreshTriggerManual 40 1000 0 (snd demoResult) =
   Inr ((fst (fst demoClaim), snd (fst demoClaim)), snd demoClaim)"
  "map_of (rft_States demoTables) (src_SourceInstanceID demoCompletion) = Some demoState"
  by code_simp+


text \<open>
  The bound of the update time is not kept: two updates at the last timestamp store a row that no reader accepts.
\<close>

lemma update_time_leaves_clock:
  "sourceRefreshScheduleByID (foldl refresh_apply emptyTables
     [UpsertEvent (demoUpdate QuotaSourceInstanceWhamDefault QuotaSourceTypeWham 0 MaxTimestampMS),
      UpsertEvent (demoUpdate QuotaSourceInstanceWhamDefault QuotaSourceTypeWham 1 MaxTimestampMS)])
     QuotaSourceInstanceWhamDefault = Inl RefreshInvalidRecord"
  by code_simp

end
