(* ===== verification/Quota_Arbiter.thy ===== *)
theory Quota_Arbiter
  imports Quota_Types "HOL-Library.AList"
begin

text \<open>
  The quota arbiter (\<open>src/internal/store/quota_arbiter.go\<close>): from all stored observations of one
  logical quota window it computes the current value, its freshness and, for every observation, the
  evidence of how it took part. Candidates are a list indexed as in the code. Sums and differences of
  timestamps are taken in \<open>int\<close>; the two places where the code guards against overflow keep their guard.
  The order in which Go iterates over the map of sources is the parameter \<open>sourceOrder\<close>.
\<close>

section \<open>Constants and data\<close>

definition quotaArbitrationRuleV8 :: string where "quotaArbitrationRuleV8 = ''quota-arbiter-v8''"
definition quotaFreshForMS :: int64 where "quotaFreshForMS = 10 * 60 * 1000"
definition quotaMaxClockSkewMS :: int64 where "quotaMaxClockSkewMS = 2 * 60 * 1000"
definition quotaMaxRuleClockSkewMS :: int64 where "quotaMaxRuleClockSkewMS = 24 * 60 * 60 * 1000"
definition quotaResetJitterMS :: int64 where "quotaResetJitterMS = 5000"
definition quotaWhamWeeklyResetJitterMS :: int64 where "quotaWhamWeeklyResetJitterMS = 2 * 60 * 1000"
definition quotaWeeklyWindowMinutes :: int64 where "quotaWeeklyWindowMinutes = 7 * 24 * 60"
definition quotaMinuteMS :: int64 where "quotaMinuteMS = 60 * 1000"

datatype quota_error = QuotaInvalidRecord

record quotaArbiterCandidate =
  qca_observation :: QuotaObservation
  qca_rawResetsAtMS :: int64
  qca_disposition :: QuotaEvidenceDisposition
  qca_reason :: "RejectionReason option"
  qca_basicValid :: bool
  qca_eligible :: bool

record quotaResetGeneration =
  qge_anchorReset :: int64
  qge_canonicalReset :: int64
  qge_provisionalAliasReset :: int64

record quotaWindowProjection =
  qwp_Current :: QuotaCurrent
  qwp_Evidence :: "QuotaArbitrationEvidence list"

definition DefaultQuotaArbitrationRule :: QuotaArbitrationRule where
  "DefaultQuotaArbitrationRule =
     \<lparr>qru_Version = quotaArbitrationRuleV8, qru_FreshForMS = quotaFreshForMS, qru_MaxClockSkewMS = quotaMaxClockSkewMS\<rparr>"

section \<open>Comparisons\<close>

definition isCodexOnlineQuotaSource :: "string \<Rightarrow> bool" where
  "isCodexOnlineQuotaSource s \<longleftrightarrow> s = sourceWham \<or> s = sourceAppServer"

definition quotaResetsEquivalentWithin :: "int64 \<Rightarrow> int64 \<Rightarrow> int64 \<Rightarrow> bool" where
  "quotaResetsEquivalentWithin left right jitterMS =
     (if left < 0 \<or> right < 0 then False
      else if left < right then right - left \<le> jitterMS else left - right \<le> jitterMS)"

definition QuotaResetsEquivalent :: "int64 \<Rightarrow> int64 \<Rightarrow> bool" where
  "QuotaResetsEquivalent left right = quotaResetsEquivalentWithin left right quotaResetJitterMS"

definition QuotaResetsEquivalentForWindow :: "string \<Rightarrow> int64 \<Rightarrow> int64 \<Rightarrow> int64 \<Rightarrow> bool" where
  "QuotaResetsEquivalentForWindow source windowMinutes left right =
     quotaResetsEquivalentWithin left right
       (if isCodexOnlineQuotaSource source \<and> windowMinutes = quotaWeeklyWindowMinutes
        then quotaWhamWeeklyResetJitterMS else quotaResetJitterMS)"

definition quotaObservationLess :: "QuotaObservation \<Rightarrow> QuotaObservation \<Rightarrow> bool" where
  "quotaObservationLess l r =
     (if qob_LastObservedAtMS l \<noteq> qob_LastObservedAtMS r then qob_LastObservedAtMS l < qob_LastObservedAtMS r
      else if qob_FirstObservedAtMS l \<noteq> qob_FirstObservedAtMS r then qob_FirstObservedAtMS l < qob_FirstObservedAtMS r
      else if qob_Source l \<noteq> qob_Source r then qob_Source l < qob_Source r
      else if qob_SourceGeneration l \<noteq> qob_SourceGeneration r then qob_SourceGeneration l < qob_SourceGeneration r
      else if qob_SourceOffset l \<noteq> qob_SourceOffset r then qob_SourceOffset l < qob_SourceOffset r
      else qob_ObservationID l < qob_ObservationID r)"

definition quotaCandidateMoreCurrent :: "QuotaObservation \<Rightarrow> QuotaObservation \<Rightarrow> bool" where
  "quotaCandidateMoreCurrent l r = quotaObservationLess r l"

definition quotaGenerationObservationLess :: "QuotaObservation \<Rightarrow> QuotaObservation \<Rightarrow> bool" where
  "quotaGenerationObservationLess l r =
     (if qob_FirstObservedAtMS l \<noteq> qob_FirstObservedAtMS r then qob_FirstObservedAtMS l < qob_FirstObservedAtMS r
      else quotaObservationLess l r)"

section \<open>Basic validity\<close>

definition quotaWindowDurationMS :: "int64 \<Rightarrow> int64 option" where
  "quotaWindowDurationMS minutes =
     (if minutes \<le> 0 \<or> minutes > maxWindowMinutes \<or> minutes > max_int64 div quotaMinuteMS then None
      else Some (minutes * quotaMinuteMS))"

definition quotaTimestampBeyondSkew :: "int64 \<Rightarrow> int64 \<Rightarrow> int64 \<Rightarrow> bool" where
  "quotaTimestampBeyondSkew observedAtMS evaluatedAtMS skewMS =
     (if evaluatedAtMS > max_int64 - skewMS then False else observedAtMS > evaluatedAtMS + skewMS)"

definition quotaFreshUntil :: "int64 \<Rightarrow> int64 \<Rightarrow> int64 \<Rightarrow> int64" where
  "quotaFreshUntil observedAtMS resetAtMS freshForMS =
     (if observedAtMS \<le> max_int64 - freshForMS \<and> observedAtMS + freshForMS < resetAtMS
      then observedAtMS + freshForMS else resetAtMS)"

definition setQuotaCandidateFinding ::
  "QuotaEvidenceDisposition \<Rightarrow> RejectionReason option \<Rightarrow> quotaArbiterCandidate \<Rightarrow> quotaArbiterCandidate" where
  "setQuotaCandidateFinding disposition reason c = c\<lparr>qca_disposition := disposition, qca_reason := reason\<rparr>"

definition setQuotaCandidateReason ::
  "QuotaEvidenceDisposition \<Rightarrow> RejectionReason \<Rightarrow> quotaArbiterCandidate \<Rightarrow> quotaArbiterCandidate" where
  "setQuotaCandidateReason disposition reason c = setQuotaCandidateFinding disposition (Some reason) c"

text \<open>The candidate of one observation. Every branch sets the disposition; the initial one is not read.\<close>

definition basicCandidate :: "QuotaArbitrationRule \<Rightarrow> int64 \<Rightarrow> QuotaObservation \<Rightarrow> quotaArbiterCandidate" where
  "basicCandidate rule evaluatedAtMS ob =
     (let c = \<lparr>qca_observation = ob, qca_rawResetsAtMS = qob_ResetsAtMS ob, qca_disposition = QuotaEvidenceSuspicious,
               qca_reason = None, qca_basicValid = False, qca_eligible = False\<rparr>
      in if qob_Validity ob \<noteq> ValidityAccepted
         then setQuotaCandidateFinding
                (if qob_Validity ob = ValidityRejected then QuotaEvidenceRejected else QuotaEvidenceSuspicious)
                (qob_RejectionReason ob) c
         else if quotaTimestampBeyondSkew (qob_LastObservedAtMS ob) evaluatedAtMS (qru_MaxClockSkewMS rule)
         then setQuotaCandidateReason QuotaEvidenceSuspicious ReasonObservedRegression c
         else if qob_ResetsAtMS ob \<le> qob_LastObservedAtMS ob
         then setQuotaCandidateReason QuotaEvidenceSuspicious ReasonResetNotFuture c
         else if (case quotaWindowDurationMS (qob_WindowMinutes ob) of
                None \<Rightarrow> True
              | Some windowMS \<Rightarrow> qob_ResetsAtMS ob - qob_LastObservedAtMS ob > windowMS + qru_MaxClockSkewMS rule)
         then setQuotaCandidateReason QuotaEvidenceSuspicious ReasonInvalidResetsAt c
         else c\<lparr>qca_basicValid := True, qca_eligible := True, qca_disposition := QuotaEvidenceSuperseded\<rparr>)"

section \<open>Generations\<close>

definition quotaWeeklyResetLooksObservationAnchored :: "QuotaArbitrationRule \<Rightarrow> QuotaObservation \<Rightarrow> bool" where
  "quotaWeeklyResetLooksObservationAnchored rule ob =
     (if \<not> isCodexOnlineQuotaSource (qob_Source ob) \<or> qob_WindowMinutes ob \<noteq> quotaWeeklyWindowMinutes \<or>
         \<not> feq (qob_UsedPercent ob) (Fin 0)
      then False
      else case quotaWindowDurationMS (qob_WindowMinutes ob) of
        None \<Rightarrow> False
      | Some windowMS \<Rightarrow>
          if qob_LastObservedAtMS ob > max_int64 - windowMS then False
          else quotaResetsEquivalentWithin (qob_LastObservedAtMS ob + windowMS) (qob_ResetsAtMS ob) (qru_MaxClockSkewMS rule))"

definition quotaWeeklyUsageAnchorsProvisionalPhase :: "QuotaObservation \<Rightarrow> bool" where
  "quotaWeeklyUsageAnchorsProvisionalPhase ob \<longleftrightarrow>
     isCodexOnlineQuotaSource (qob_Source ob) \<and> qob_WindowMinutes ob = quotaWeeklyWindowMinutes \<and>
     flt (Fin 0) (qob_UsedPercent ob)"

text \<open>The loop over the remaining candidates; \<open>n\<close> confirmations were seen.\<close>

fun correctionConfirmed ::
  "quotaArbiterCandidate list \<Rightarrow> nat list \<Rightarrow> QuotaObservation \<Rightarrow> int64 \<Rightarrow> int \<Rightarrow> bool" where
  "correctionConfirmed cs [] correction previousReset n = False"
| "correctionConfirmed cs (i # is) correction previousReset n =
     (let c = cs ! i; ob = qca_observation c;
          equivalent = QuotaResetsEquivalentForWindow (qob_Source ob) (qob_WindowMinutes ob)
      in if \<not> qca_basicValid c \<or> qob_Source ob \<noteq> qob_Source correction \<or>
            qob_WindowMinutes ob \<noteq> qob_WindowMinutes correction \<or>
            qob_FirstObservedAtMS ob < qob_FirstObservedAtMS correction
         then correctionConfirmed cs is correction previousReset n
         else if qob_ResetsAtMS ob \<le> previousReset \<or> equivalent previousReset (qob_ResetsAtMS ob) \<or>
                 \<not> equivalent (qob_ResetsAtMS ob) (qob_ResetsAtMS correction)
         then False
         else if n + 1 = 2 then True
         else correctionConfirmed cs is correction previousReset (n + 1))"

definition quotaWeeklyResetCorrectionIsConfirmed ::
  "quotaArbiterCandidate list \<Rightarrow> nat list \<Rightarrow> QuotaObservation \<Rightarrow> int64 \<Rightarrow> bool" where
  "quotaWeeklyResetCorrectionIsConfirmed cs remaining correction previousReset =
     correctionConfirmed cs remaining correction previousReset 0"

text \<open>
  The known generations, newest first. Each entry carries the window length under which the code files
  it; the active generation, to which the code keeps a pointer, is always the newest one.
\<close>

type_synonym knownGenerations = "(int64 \<times> quotaResetGeneration) list"

definition generationsOf :: "int64 \<Rightarrow> knownGenerations \<Rightarrow> quotaResetGeneration list" where
  "generationsOf minutes known = map snd (filter (\<lambda>k. fst k = minutes) known)"

definition maxReset :: "int64 list \<Rightarrow> int64 option" where
  "maxReset rs = (let m = fold (\<lambda>r acc. if r > acc then r else acc) rs (- 1) in if m \<ge> 0 then Some m else None)"

definition quotaKnownGenerationResetForWindow :: "knownGenerations \<Rightarrow> string \<Rightarrow> int64 \<Rightarrow> int64 \<Rightarrow> int64 option" where
  "quotaKnownGenerationResetForWindow known source windowMinutes resetAtMS =
     (let equivalent = QuotaResetsEquivalentForWindow source windowMinutes
      in maxReset (map qge_canonicalReset (filter (\<lambda>g.
           equivalent (qge_anchorReset g) resetAtMS \<or>
           qge_provisionalAliasReset g \<ge> 0 \<and> equivalent (qge_provisionalAliasReset g) resetAtMS)
           (generationsOf windowMinutes known))))"

definition quotaLatestKnownGenerationReset :: "knownGenerations \<Rightarrow> int64 \<Rightarrow> int64 option" where
  "quotaLatestKnownGenerationReset known windowMinutes =
     maxReset (map qge_canonicalReset (generationsOf windowMinutes known))"

record classifyState =
  qcl_candidates :: "quotaArbiterCandidate list"
  qcl_anchorReset :: int64
  qcl_reset :: int64
  qcl_minutes :: int64
  qcl_firstObserved :: int64
  qcl_latestFirstObserved :: int64
  qcl_previousReset :: int64
  qcl_source :: string
  qcl_provisional :: bool
  qcl_known :: knownGenerations
  qcl_activeIndexes :: "nat list"
  qcl_validIndexes :: "nat list"

definition updateCandidate ::
  "nat \<Rightarrow> (quotaArbiterCandidate \<Rightarrow> quotaArbiterCandidate) \<Rightarrow> quotaArbiterCandidate list \<Rightarrow> quotaArbiterCandidate list" where
  "updateCandidate i f cs = cs[i := f (cs ! i)]"

definition withReset :: "int64 \<Rightarrow> quotaArbiterCandidate \<Rightarrow> quotaArbiterCandidate" where
  "withReset r c = c\<lparr>qca_observation := (qca_observation c)\<lparr>qob_ResetsAtMS := r\<rparr>\<rparr>"

definition setResets :: "int64 \<Rightarrow> nat list \<Rightarrow> quotaArbiterCandidate list \<Rightarrow> quotaArbiterCandidate list" where
  "setResets r is cs = fold (\<lambda>i. updateCandidate i (withReset r)) is cs"

definition updateActive :: "(quotaResetGeneration \<Rightarrow> quotaResetGeneration) \<Rightarrow> knownGenerations \<Rightarrow> knownGenerations" where
  "updateActive f known = (case known of [] \<Rightarrow> [] | (m, g) # rest \<Rightarrow> (m, f g) # rest)"

definition activeAlias :: "knownGenerations \<Rightarrow> int64" where
  "activeAlias known = (case known of [] \<Rightarrow> - 1 | (_, g) # _ \<Rightarrow> qge_provisionalAliasReset g)"

text \<open>A candidate is set aside: the state keeps everything else.\<close>

definition setAside :: "nat \<Rightarrow> (quotaArbiterCandidate \<Rightarrow> quotaArbiterCandidate) \<Rightarrow> classifyState \<Rightarrow> classifyState" where
  "setAside i f s = s\<lparr>qcl_candidates := updateCandidate i (\<lambda>c. (f c)\<lparr>qca_eligible := False\<rparr>) (qcl_candidates s)\<rparr>"

definition appendValid :: "nat \<Rightarrow> bool \<Rightarrow> classifyState \<Rightarrow> classifyState" where
  "appendValid i belongs s =
     s\<lparr>qcl_validIndexes := qcl_validIndexes s @ [i],
       qcl_activeIndexes := (if belongs then qcl_activeIndexes s @ [i] else qcl_activeIndexes s)\<rparr>"

text \<open>The observation opens a new generation.\<close>

definition openGeneration :: "QuotaArbitrationRule \<Rightarrow> QuotaObservation \<Rightarrow> int64 \<Rightarrow> classifyState \<Rightarrow> classifyState" where
  "openGeneration rule ob previousReset s =
     s\<lparr>qcl_anchorReset := qob_ResetsAtMS ob, qcl_reset := qob_ResetsAtMS ob, qcl_minutes := qob_WindowMinutes ob,
       qcl_firstObserved := qob_FirstObservedAtMS ob, qcl_latestFirstObserved := qob_FirstObservedAtMS ob,
       qcl_previousReset := previousReset, qcl_source := qob_Source ob,
       qcl_provisional := quotaWeeklyResetLooksObservationAnchored rule ob,
       qcl_known := (qob_WindowMinutes ob, \<lparr>qge_anchorReset = qob_ResetsAtMS ob, qge_canonicalReset = qob_ResetsAtMS ob,
                     qge_provisionalAliasReset = - 1\<rparr>) # qcl_known s,
       qcl_activeIndexes := []\<rparr>"

definition noteFirstObserved :: "QuotaObservation \<Rightarrow> classifyState \<Rightarrow> classifyState" where
  "noteFirstObserved ob s =
     (if qob_FirstObservedAtMS ob > qcl_latestFirstObserved s
      then s\<lparr>qcl_latestFirstObserved := qob_FirstObservedAtMS ob\<rparr> else s)"

text \<open>The active generation moves to the reset of the observation, with all its members.\<close>

definition moveAnchor :: "nat \<Rightarrow> QuotaObservation \<Rightarrow> classifyState \<Rightarrow> classifyState" where
  "moveAnchor i ob s =
     (let r = qob_ResetsAtMS ob
      in noteFirstObserved ob (s\<lparr>qcl_anchorReset := r, qcl_reset := r,
           qcl_known := updateActive (\<lambda>g. g\<lparr>qge_anchorReset := r, qge_canonicalReset := r\<rparr>) (qcl_known s),
           qcl_candidates := updateCandidate i (withReset r) (setResets r (qcl_activeIndexes s) (qcl_candidates s))\<rparr>))"

definition otherWindow :: "QuotaArbitrationRule \<Rightarrow> nat \<Rightarrow> QuotaObservation \<Rightarrow> classifyState \<Rightarrow> classifyState" where
  "otherWindow rule i ob s =
     (case quotaKnownGenerationResetForWindow (qcl_known s) (qob_Source ob) (qob_WindowMinutes ob) (qob_ResetsAtMS ob) of
        Some knownReset \<Rightarrow> setAside i (withReset knownReset) s
      | None \<Rightarrow>
          (let latest = quotaLatestKnownGenerationReset (qcl_known s) (qob_WindowMinutes ob)
           in if (case latest of None \<Rightarrow> False | Some l \<Rightarrow> qob_ResetsAtMS ob < l)
              then setAside i (setQuotaCandidateReason QuotaEvidenceSuspicious ReasonResetRegression) s
              else if qob_FirstObservedAtMS ob \<le> qcl_latestFirstObserved s
              then setAside i (setQuotaCandidateReason QuotaEvidenceSuspicious ReasonInvalidWindowMinutes) s
              else appendValid i True
                ((openGeneration rule ob (case latest of None \<Rightarrow> - 1 | Some l \<Rightarrow> l) s)\<lparr>qcl_validIndexes := []\<rparr>)))"

definition sameGeneration :: "nat \<Rightarrow> QuotaObservation \<Rightarrow> classifyState \<Rightarrow> classifyState" where
  "sameGeneration i ob s =
     (let s1 = (if qob_ResetsAtMS ob > qcl_reset s
            then s\<lparr>qcl_reset := qob_ResetsAtMS ob,
                   qcl_known := updateActive (\<lambda>g. g\<lparr>qge_canonicalReset := qob_ResetsAtMS ob\<rparr>) (qcl_known s),
                   qcl_candidates := setResets (qob_ResetsAtMS ob) (qcl_activeIndexes s) (qcl_candidates s)\<rparr>
            else s);
          s2 = noteFirstObserved ob (s1\<lparr>qcl_candidates := updateCandidate i (withReset (qcl_reset s1)) (qcl_candidates s1)\<rparr>);
          s3 = (if qcl_provisional s2 \<and> qob_Source ob = qcl_source s2 \<and> quotaWeeklyUsageAnchorsProvisionalPhase ob
                then s2\<lparr>qcl_provisional := False\<rparr> else s2)
      in appendValid i True s3)"

text \<open>One candidate of the walk; \<open>remaining\<close> are the indexes from this one on.\<close>

definition classifyStep :: "QuotaArbitrationRule \<Rightarrow> nat \<Rightarrow> nat list \<Rightarrow> classifyState \<Rightarrow> classifyState" where
  "classifyStep rule i remaining s0 =
     (let s = s0\<lparr>qcl_candidates := updateCandidate i
            (\<lambda>c. c\<lparr>qca_eligible := True, qca_disposition := QuotaEvidenceSuperseded, qca_reason := None\<rparr>) (qcl_candidates s0)\<rparr>;
          ob = qca_observation (qcl_candidates s ! i); r = qob_ResetsAtMS ob;
          equivalent = QuotaResetsEquivalentForWindow (qob_Source ob) (qob_WindowMinutes ob);
          regression = setAside i (setQuotaCandidateReason QuotaEvidenceSuspicious ReasonResetRegression) s
      in if qcl_reset s < 0 then appendValid i True (openGeneration rule ob (- 1) s)
         else if qob_WindowMinutes ob \<noteq> qcl_minutes s then otherWindow rule i ob s
         else if equivalent (qcl_anchorReset s) r then sameGeneration i ob s
         else if r > qcl_reset s \<and> activeAlias (qcl_known s) \<ge> 0 \<and> equivalent (activeAlias (qcl_known s)) r then regression
         else if r > qcl_reset s \<and> qcl_provisional s \<and> qob_Source ob = qcl_source s \<and>
              (quotaWeeklyResetLooksObservationAnchored rule ob \<or> quotaWeeklyUsageAnchorsProvisionalPhase ob)
         then appendValid i True
           ((\<lambda>s'. if flt (Fin 0) (qob_UsedPercent ob) then s'\<lparr>qcl_provisional := False\<rparr> else s') (moveAnchor i ob s))
         else if r > qcl_reset s then appendValid i True (openGeneration rule ob (qcl_reset s) s)
         else if r < qcl_reset s \<and> qcl_provisional s \<and> qob_Source ob = qcl_source s \<and> r > qcl_previousReset s \<and>
              \<not> equivalent (qcl_previousReset s) r \<and>
              quotaWeeklyResetCorrectionIsConfirmed (qcl_candidates s) remaining ob (qcl_previousReset s)
         then appendValid i True
           ((moveAnchor i ob (s\<lparr>qcl_known := updateActive (\<lambda>g. g\<lparr>qge_provisionalAliasReset := qcl_reset s\<rparr>) (qcl_known s)\<rparr>))
             \<lparr>qcl_provisional := False\<rparr>)
         else if r < qcl_reset s \<and> qob_FirstObservedAtMS ob \<ge> qcl_firstObserved s then regression
         else appendValid i False s)"

fun classifyWalk :: "QuotaArbitrationRule \<Rightarrow> nat list \<Rightarrow> classifyState \<Rightarrow> classifyState" where
  "classifyWalk rule [] s = s"
| "classifyWalk rule (i # is) s = classifyWalk rule is (classifyStep rule i (i # is) s)"

definition classifyStart :: "quotaArbiterCandidate list \<Rightarrow> classifyState" where
  "classifyStart cs =
     \<lparr>qcl_candidates = map (\<lambda>c. withReset (qca_rawResetsAtMS c) c) cs, qcl_anchorReset = - 1, qcl_reset = - 1, qcl_minutes = 0,
      qcl_firstObserved = 0, qcl_latestFirstObserved = 0, qcl_previousReset = - 1, qcl_source = [], qcl_provisional = False,
      qcl_known = [], qcl_activeIndexes = [], qcl_validIndexes = []\<rparr>"

definition orderedIndexes :: "quotaArbiterCandidate list \<Rightarrow> nat list \<Rightarrow> nat list" where
  "orderedIndexes cs excluded =
     sort_by (\<lambda>i j. quotaGenerationObservationLess (qca_observation (cs ! i)) (qca_observation (cs ! j)))
       (filter (\<lambda>i. qca_basicValid (cs ! i) \<and> i \<notin> set excluded) [0..<length cs])"

text \<open>The walk's candidates, the members of a reset and the distinct resets in ascending order.\<close>

definition classifyQuotaGenerations ::
  "QuotaArbitrationRule \<Rightarrow> quotaArbiterCandidate list \<Rightarrow> nat list \<Rightarrow>
   quotaArbiterCandidate list \<times> (int64 \<Rightarrow> nat list) \<times> int64 list" where
  "classifyQuotaGenerations rule cs excluded =
     (let s0 = classifyStart cs;
          s = classifyWalk rule (orderedIndexes (qcl_candidates s0) excluded) s0;
          reset = (\<lambda>i. qob_ResetsAtMS (qca_observation (qcl_candidates s ! i)))
      in (qcl_candidates s, \<lambda>r. filter (\<lambda>i. reset i = r) (qcl_validIndexes s), sort (remdups (map reset (qcl_validIndexes s)))))"

definition latestQuotaGeneration :: "(int64 \<Rightarrow> nat list) \<Rightarrow> int64 list \<Rightarrow> int64 \<times> nat list" where
  "latestQuotaGeneration validByReset validResets = (last validResets, validByReset (last validResets))"

section \<open>Selection\<close>

definition quotaGenerationIsBlockedZero :: "quotaArbiterCandidate list \<Rightarrow> nat list \<Rightarrow> int64 \<Rightarrow> bool" where
  "quotaGenerationIsBlockedZero cs selectedIndexes selectedReset =
     (let obs = map (\<lambda>i. qca_observation (cs ! i)) (filter (\<lambda>i. qca_eligible (cs ! i)) selectedIndexes);
          maxUsed = fold (\<lambda>ob m. if flt m (qob_UsedPercent ob) then qob_UsedPercent ob else m) obs (Fin 0);
          latestSelected = fold (\<lambda>ob m. if qob_LastObservedAtMS ob > m then qob_LastObservedAtMS ob else m) obs 0
      in if \<not> feq maxUsed (Fin 0) then False
         else list_ex (\<lambda>c. qca_basicValid c \<and> qob_Source (qca_observation c) = sourceLocalJSONL \<and>
           qob_ResetsAtMS (qca_observation c) < selectedReset \<and> qob_LastObservedAtMS (qca_observation c) > latestSelected) cs)"

definition blockCandidates :: "nat list \<Rightarrow> quotaArbiterCandidate list \<Rightarrow> quotaArbiterCandidate list" where
  "blockCandidates is cs =
     fold (\<lambda>i. updateCandidate i (\<lambda>c. (setQuotaCandidateReason QuotaEvidenceSuspicious ReasonDefaultFallback c)
       \<lparr>qca_eligible := False\<rparr>)) is cs"

record chosenGeneration =
  qch_candidates :: "quotaArbiterCandidate list"
  qch_selected :: "nat list"
  qch_blocked :: bool

text \<open>
  The loop that discards zero generations a newer local log contradicts. The result is
  \<open>None\<close> when the fuel is spent, \<open>Some (Inl cs)\<close> when no generation is left.
\<close>

fun chooseGeneration ::
  "nat \<Rightarrow> QuotaArbitrationRule \<Rightarrow> quotaArbiterCandidate list \<Rightarrow> nat list \<Rightarrow> bool \<Rightarrow>
   (quotaArbiterCandidate list + chosenGeneration) option" where
  "chooseGeneration 0 rule cs excluded blocked = None"
| "chooseGeneration (Suc n) rule cs excluded blocked =
     (let (cs1, byReset, resets) = classifyQuotaGenerations rule cs excluded
      in if resets = [] then Some (Inl cs1)
         else
           (let (reset, selected) = latestQuotaGeneration byReset resets
            in if quotaGenerationIsBlockedZero cs1 selected reset
               then chooseGeneration n rule (blockCandidates selected cs1) (excluded @ selected) True
               else Some (Inr \<lparr>qch_candidates = cs1, qch_selected = selected, qch_blocked = blocked\<rparr>)))"

definition latestBySource :: "quotaArbiterCandidate list \<Rightarrow> nat list \<Rightarrow> (string \<times> nat) list" where
  "latestBySource cs selected =
     foldl (\<lambda>m i. let ob = qca_observation (cs ! i)
       in if \<not> qca_eligible (cs ! i) then m
          else case map_of m (qob_Source ob) of
            None \<Rightarrow> m @ [(qob_Source ob, i)]
          | Some p \<Rightarrow> if quotaCandidateMoreCurrent ob (qca_observation (cs ! p)) then AList.update (qob_Source ob) i m else m)
       [] selected"

definition perSource :: "(nat list \<Rightarrow> nat list) \<Rightarrow> quotaArbiterCandidate list \<Rightarrow> nat list \<Rightarrow> nat list" where
  "perSource sourceOrder cs selected =
     sort_by (\<lambda>i j. quotaObservationLess (qca_observation (cs ! i)) (qca_observation (cs ! j)))
       (sourceOrder (map snd (latestBySource cs selected)))"

definition pickSelected :: "quotaArbiterCandidate list \<Rightarrow> nat list \<Rightarrow> nat \<Rightarrow> nat" where
  "pickSelected cs is start =
     foldl (\<lambda>sel i. let ob = qca_observation (cs ! i); cur = qca_observation (cs ! sel)
       in if flt (qob_UsedPercent cur) (qob_UsedPercent ob) \<or>
             feq (qob_UsedPercent ob) (qob_UsedPercent cur) \<and> quotaCandidateMoreCurrent ob cur
          then i else sel) start is"

definition hasConflict :: "quotaArbiterCandidate list \<Rightarrow> nat list \<Rightarrow> nat \<Rightarrow> bool" where
  "hasConflict cs is start =
     list_ex (\<lambda>i. \<not> feq (qob_UsedPercent (qca_observation (cs ! i))) (qob_UsedPercent (qca_observation (cs ! start)))) is"

definition markEligible :: "bool \<Rightarrow> nat list \<Rightarrow> quotaArbiterCandidate list \<Rightarrow> quotaArbiterCandidate list" where
  "markEligible conflict is cs =
     fold (\<lambda>i. updateCandidate i (\<lambda>c. if \<not> qca_eligible c then c
       else c\<lparr>qca_disposition := QuotaEvidenceEligible, qca_reason := (if conflict then Some ReasonSourceConflict else qca_reason c)\<rparr>)) is cs"

section \<open>The projection\<close>

definition quotaHasNewerSuspiciousCandidate :: "quotaArbiterCandidate list \<Rightarrow> int64 \<Rightarrow> bool" where
  "quotaHasNewerSuspiciousCandidate cs selectedAtMS =
     list_ex (\<lambda>c. qca_disposition c = QuotaEvidenceSuspicious \<and> qob_LastObservedAtMS (qca_observation c) \<ge> selectedAtMS) cs"

definition quotaLastObservationTime :: "quotaArbiterCandidate list \<Rightarrow> int64" where
  "quotaLastObservationTime cs =
     fold (\<lambda>c m. if qob_LastObservedAtMS (qca_observation c) > m then qob_LastObservedAtMS (qca_observation c) else m) cs 0"

definition quotaCurrentExplanation :: "QuotaCurrentFreshness \<Rightarrow> QuotaConflictState \<Rightarrow> QuotaExplanationCode" where
  "quotaCurrentExplanation freshness conflict =
     (if conflict = QuotaConflictPresent then QuotaExplanationSourceConflict
      else case freshness of
        QuotaCurrentFresh \<Rightarrow> QuotaExplanationTrusted
      | QuotaCurrentStale \<Rightarrow> QuotaExplanationStale
      | QuotaCurrentExpiredUnknown \<Rightarrow> QuotaExplanationExpired
      | QuotaCurrentSuspicious \<Rightarrow> QuotaExplanationSuspicious
      | QuotaCurrentNeverLoaded \<Rightarrow> QuotaExplanationUnavailable)"

definition quotaEvidenceExplanation :: "quotaArbiterCandidate \<Rightarrow> QuotaExplanationCode" where
  "quotaEvidenceExplanation c =
     (if qca_reason c = Some ReasonSourceConflict then QuotaExplanationSourceConflict
      else case qca_disposition c of
        QuotaEvidenceSuspicious \<Rightarrow> QuotaExplanationSuspicious
      | QuotaEvidenceRejected \<Rightarrow> QuotaExplanationUnavailable
      | _ \<Rightarrow> QuotaExplanationTrusted)"

definition evidenceLess :: "QuotaArbitrationEvidence \<Rightarrow> QuotaArbitrationEvidence \<Rightarrow> bool" where
  "evidenceLess a b \<longleftrightarrow> qev_ObservationID a < qev_ObservationID b"

definition candidateEvidence :: "QuotaObservation \<Rightarrow> string \<Rightarrow> quotaArbiterCandidate \<Rightarrow> QuotaArbitrationEvidence" where
  "candidateEvidence first limitID c =
     \<lparr>qev_AccountScope = qob_AccountScope first, qev_WindowKind = qob_WindowKind first, qev_LimitID = limitID,
      qev_ObservationID = qob_ObservationID (qca_observation c),
      qev_WindowGeneration = Some (qob_ResetsAtMS (qca_observation c)), qev_Disposition = qca_disposition c,
      qev_Reason = qca_reason c, qev_ExplanationCode = quotaEvidenceExplanation c\<rparr>"

definition quotaEvidenceFromCandidates ::
  "quotaArbiterCandidate list \<Rightarrow> QuotaObservation \<Rightarrow> string \<Rightarrow> QuotaArbitrationEvidence list" where
  "quotaEvidenceFromCandidates cs first limitID = sort_by evidenceLess (map (candidateEvidence first limitID) cs)"

definition quotaNeverLoadedProjection ::
  "quotaArbiterCandidate list \<Rightarrow> QuotaObservation \<Rightarrow> string \<Rightarrow> int64 \<Rightarrow> QuotaArbitrationRule \<Rightarrow> quotaWindowProjection" where
  "quotaNeverLoadedProjection cs first limitID evaluatedAtMS rule =
     \<lparr>qwp_Current =
        \<lparr>qcu_AccountScope = qob_AccountScope first, qcu_WindowKind = qob_WindowKind first, qcu_LimitID = limitID,
         qcu_ObservationID = None, qcu_EffectiveUsedPercent = None, qcu_WindowMinutes = None, qcu_ResetsAtMS = None,
         qcu_WindowGeneration = None, qcu_SelectedSource = None, qcu_FreshnessState = QuotaCurrentNeverLoaded,
         qcu_ConflictState = QuotaConflictNone, qcu_FreshUntilMS = None, qcu_LastSuccessAtMS = None,
         qcu_LastAttemptAtMS = Some (quotaLastObservationTime cs), qcu_RuleVersion = qru_Version rule,
         qcu_ExplanationCode = QuotaExplanationUnavailable, qcu_EvaluatedAtMS = evaluatedAtMS\<rparr>,
      qwp_Evidence = quotaEvidenceFromCandidates cs first limitID\<rparr>"

definition freshnessOf ::
  "QuotaArbitrationRule \<Rightarrow> int64 \<Rightarrow> bool \<Rightarrow> quotaArbiterCandidate list \<Rightarrow> QuotaObservation \<Rightarrow> QuotaCurrentFreshness" where
  "freshnessOf rule evaluatedAtMS blocked cs selected =
     (if evaluatedAtMS \<ge> qob_ResetsAtMS selected then QuotaCurrentExpiredUnknown
      else if blocked \<or> quotaHasNewerSuspiciousCandidate cs (qob_LastObservedAtMS selected) then QuotaCurrentSuspicious
      else if evaluatedAtMS > quotaFreshUntil (qob_LastObservedAtMS selected) (qob_ResetsAtMS selected) (qru_FreshForMS rule)
      then QuotaCurrentStale else QuotaCurrentFresh)"

definition selectedProjection ::
  "quotaArbiterCandidate list \<Rightarrow> QuotaObservation \<Rightarrow> bool \<Rightarrow> bool \<Rightarrow> QuotaObservation \<Rightarrow> string \<Rightarrow> int64 \<Rightarrow>
   QuotaArbitrationRule \<Rightarrow> quotaWindowProjection" where
  "selectedProjection cs selected conflict blocked first limitID evaluatedAtMS rule =
     (let freshness = freshnessOf rule evaluatedAtMS blocked cs selected;
          conflictState = (if conflict then QuotaConflictPresent else QuotaConflictNone)
      in \<lparr>qwp_Current =
        \<lparr>qcu_AccountScope = qob_AccountScope first, qcu_WindowKind = qob_WindowKind first, qcu_LimitID = limitID,
         qcu_ObservationID = Some (qob_ObservationID selected), qcu_EffectiveUsedPercent = Some (qob_UsedPercent selected),
         qcu_WindowMinutes = Some (qob_WindowMinutes selected), qcu_ResetsAtMS = Some (qob_ResetsAtMS selected),
         qcu_WindowGeneration = Some (qob_ResetsAtMS selected), qcu_SelectedSource = Some (qob_Source selected),
         qcu_FreshnessState = freshness, qcu_ConflictState = conflictState,
         qcu_FreshUntilMS = Some (quotaFreshUntil (qob_LastObservedAtMS selected) (qob_ResetsAtMS selected) (qru_FreshForMS rule)),
         qcu_LastSuccessAtMS = Some (qob_LastObservedAtMS selected), qcu_LastAttemptAtMS = Some (quotaLastObservationTime cs),
         qcu_RuleVersion = qru_Version rule, qcu_ExplanationCode = quotaCurrentExplanation freshness conflictState,
         qcu_EvaluatedAtMS = evaluatedAtMS\<rparr>,
      qwp_Evidence = quotaEvidenceFromCandidates cs first limitID\<rparr>)"

definition invalidRule :: "int64 \<Rightarrow> QuotaArbitrationRule \<Rightarrow> bool" where
  "invalidRule evaluatedAtMS rule \<longleftrightarrow>
     evaluatedAtMS < 0 \<or> qru_Version rule = [] \<or> length (qru_Version rule) > 128 \<or> qru_FreshForMS rule \<le> 0 \<or>
     qru_FreshForMS rule > maxWindowMinutes * quotaMinuteMS \<or> qru_MaxClockSkewMS rule < 0 \<or>
     qru_MaxClockSkewMS rule > quotaMaxRuleClockSkewMS"

definition finishArbitration ::
  "(nat list \<Rightarrow> nat list) \<Rightarrow> chosenGeneration \<Rightarrow> QuotaObservation \<Rightarrow> string \<Rightarrow> int64 \<Rightarrow> QuotaArbitrationRule \<Rightarrow> quotaWindowProjection" where
  "finishArbitration sourceOrder ch first limitID evaluatedAtMS rule =
     (let cs = qch_candidates ch; sources = perSource sourceOrder cs (qch_selected ch)
      in case sources of
           [] \<Rightarrow> quotaNeverLoadedProjection cs first limitID evaluatedAtMS rule
         | i0 # _ \<Rightarrow>
             (let sel = pickSelected cs sources i0; conflict = hasConflict cs sources i0;
                  cs1 = updateCandidate sel (\<lambda>c. c\<lparr>qca_disposition := QuotaEvidenceSelected\<rparr>)
                    (markEligible conflict (qch_selected ch) cs)
              in selectedProjection cs1 (qca_observation (cs1 ! sel)) conflict (qch_blocked ch) first limitID evaluatedAtMS rule))"

text \<open>\<open>None\<close> is a loop that ran out of fuel; the length of the window suffices.\<close>

definition arbitrateQuotaWindow ::
  "(nat list \<Rightarrow> nat list) \<Rightarrow> QuotaObservation list \<Rightarrow> int64 \<Rightarrow> QuotaArbitrationRule \<Rightarrow> (quota_error + quotaWindowProjection) option" where
  "arbitrateQuotaWindow sourceOrder observations evaluatedAtMS rule =
     (if invalidRule evaluatedAtMS rule then Some (Inl QuotaInvalidRecord)
      else case sort_by quotaObservationLess observations of
        [] \<Rightarrow> Some (Inl QuotaInvalidRecord)
      | first # rest \<Rightarrow>
          (case qob_LimitID first of
             None \<Rightarrow> Some (Inl QuotaInvalidRecord)
           | Some limitID \<Rightarrow>
               if limitID = [] then Some (Inl QuotaInvalidRecord)
               else if \<not> list_all (\<lambda>ob. qob_AccountScope ob = qob_AccountScope first \<and> qob_WindowKind ob = qob_WindowKind first \<and>
                 qob_LimitID ob = Some limitID) (first # rest)
               then Some (Inl QuotaInvalidRecord)
               else case chooseGeneration (Suc (length observations)) rule
                   (map (basicCandidate rule evaluatedAtMS) (first # rest)) [] False of
                 None \<Rightarrow> None
               | Some (Inl cs) \<Rightarrow> Some (Inr (quotaNeverLoadedProjection cs first limitID evaluatedAtMS rule))
               | Some (Inr ch) \<Rightarrow> Some (Inr (finishArbitration sourceOrder ch first limitID evaluatedAtMS rule))))"

text \<open>The state of the sources can only make the projection older: a failed later attempt turns a fresh value stale.\<close>

definition laterAttempt :: "int64 option \<Rightarrow> int64 option \<Rightarrow> bool" where
  "laterAttempt a b = (case a of None \<Rightarrow> False | Some x \<Rightarrow> (case b of None \<Rightarrow> True | Some y \<Rightarrow> x > y))"

definition arbitrateQuotaWindowWithSourceStates ::
  "(nat list \<Rightarrow> nat list) \<Rightarrow> QuotaObservation list \<Rightarrow> int64 \<Rightarrow> QuotaArbitrationRule \<Rightarrow> (string \<times> SourceState) list \<Rightarrow>
   (quota_error + quotaWindowProjection) option" where
  "arbitrateQuotaWindowWithSourceStates sourceOrder observations evaluatedAtMS rule sourceStates =
     (case arbitrateQuotaWindow sourceOrder observations evaluatedAtMS rule of
        Some (Inr p) \<Rightarrow>
          (let c0 = qwp_Current p;
               c1 = foldl (\<lambda>c st. if laterAttempt (sst_LastAttemptAtMS (snd st)) (qcu_LastAttemptAtMS c)
                      then c\<lparr>qcu_LastAttemptAtMS := sst_LastAttemptAtMS (snd st)\<rparr> else c) c0 sourceStates;
               c2 = (case Option.bind (qcu_SelectedSource c1) (map_of sourceStates) of
                   None \<Rightarrow> c1
                 | Some st \<Rightarrow>
                     if sst_LastAttemptAtMS st \<noteq> None \<and> qcu_LastSuccessAtMS c1 \<noteq> None \<and>
                        laterAttempt (sst_LastAttemptAtMS st) (qcu_LastSuccessAtMS c1) \<and>
                        (sst_FreshnessState st = SourceFreshnessStale \<or> sst_FreshnessState st = SourceFreshnessUnavailable) \<and>
                        qcu_FreshnessState c1 = QuotaCurrentFresh
                     then c1\<lparr>qcu_FreshnessState := QuotaCurrentStale\<rparr> else c1)
           in Some (Inr (p\<lparr>qwp_Current := c2\<lparr>qcu_ExplanationCode :=
                quotaCurrentExplanation (qcu_FreshnessState c2) (qcu_ConflictState c2)\<rparr>\<rparr>)))
      | other \<Rightarrow> other)"

text \<open>The entry point of the read adapters; the associated history stays unset.\<close>

record QuotaCurrentWindowSnapshot =
  qcs_Current :: QuotaCurrent
  qcs_Observations :: "QuotaObservation list"
  qcs_Evidence :: "QuotaArbitrationEvidence list"
  qcs_AssociatedHistoryScope :: "string option"
  qcs_AssociatedHistoryObservations :: "QuotaObservation list"
  qcs_AssociatedHistoryEvidence :: "QuotaArbitrationEvidence list"

definition ComputeQuotaWindow ::
  "(nat list \<Rightarrow> nat list) \<Rightarrow> QuotaObservation list \<Rightarrow> int64 \<Rightarrow> QuotaArbitrationRule \<Rightarrow> (quota_error + QuotaCurrentWindowSnapshot) option" where
  "ComputeQuotaWindow sourceOrder observations evaluatedAtMS rule =
     (case arbitrateQuotaWindow sourceOrder observations evaluatedAtMS rule of
        None \<Rightarrow> None
      | Some (Inl e) \<Rightarrow> Some (Inl e)
      | Some (Inr projection) \<Rightarrow> Some (Inr
          \<lparr>qcs_Current = qwp_Current projection, qcs_Observations = observations, qcs_Evidence = qwp_Evidence projection,
           qcs_AssociatedHistoryScope = None, qcs_AssociatedHistoryObservations = [], qcs_AssociatedHistoryEvidence = []\<rparr>))"

end
