(* ===== verification/Arbiter_Invariants.thy ===== *)
theory Arbiter_Invariants
  imports Quota_Arbiter
begin

text \<open>
  What the walk over the candidates keeps: the facts of every observation but its reset, which only ever
  takes a value some valid observation reported; the eligibility of the members of a generation; and
  that a round of the choice loop consumes candidates.
\<close>

section \<open>Facts of a candidate\<close>

definition factsOf :: "quotaArbiterCandidate \<Rightarrow> QuotaObservation \<times> int64 \<times> bool" where
  "factsOf c = ((qca_observation c)\<lparr>qob_ResetsAtMS := qca_rawResetsAtMS c\<rparr>, qca_rawResetsAtMS c, qca_basicValid c)"

abbreviation resetOf :: "quotaArbiterCandidate \<Rightarrow> int64" where
  "resetOf c \<equiv> qob_ResetsAtMS (qca_observation c)"

lemma factsOf_withReset [simp]: "factsOf (withReset r c) = factsOf c"
  by (simp add: factsOf_def withReset_def)

lemma factsOf_update [simp]:
  "factsOf (c\<lparr>qca_eligible := e\<rparr>) = factsOf c" "factsOf (c\<lparr>qca_disposition := d\<rparr>) = factsOf c"
  "factsOf (c\<lparr>qca_reason := r\<rparr>) = factsOf c" "factsOf (setQuotaCandidateReason d x c) = factsOf c"
  by (simp_all add: factsOf_def setQuotaCandidateReason_def setQuotaCandidateFinding_def)

lemma factsOf_eqD:
  assumes "factsOf c = factsOf c'"
  shows "qob_ObservationID (qca_observation c) = qob_ObservationID (qca_observation c')"
    "qob_Source (qca_observation c) = qob_Source (qca_observation c')"
    "qob_UsedPercent (qca_observation c) = qob_UsedPercent (qca_observation c')"
    "qob_LastObservedAtMS (qca_observation c) = qob_LastObservedAtMS (qca_observation c')"
    "qob_WindowMinutes (qca_observation c) = qob_WindowMinutes (qca_observation c')"
    "qob_Validity (qca_observation c) = qob_Validity (qca_observation c')"
    "qca_basicValid c = qca_basicValid c'" "qca_rawResetsAtMS c = qca_rawResetsAtMS c'"
proof -
  have eq: "(qca_observation c)\<lparr>qob_ResetsAtMS := 0\<rparr> = (qca_observation c')\<lparr>qob_ResetsAtMS := 0\<rparr>"
    using arg_cong[OF assms[unfolded factsOf_def prod.inject, THEN conjunct1], of "\<lambda>ob. ob\<lparr>qob_ResetsAtMS := 0\<rparr>"] by simp
  have field: "f (qca_observation c) = f (qca_observation c')" if "\<And>ob r. f (ob\<lparr>qob_ResetsAtMS := r\<rparr>) = f ob" for f :: "QuotaObservation \<Rightarrow> 'z"
    using arg_cong[OF eq, of f] that by simp
  show "qob_ObservationID (qca_observation c) = qob_ObservationID (qca_observation c')"
    "qob_Source (qca_observation c) = qob_Source (qca_observation c')"
    "qob_UsedPercent (qca_observation c) = qob_UsedPercent (qca_observation c')"
    "qob_LastObservedAtMS (qca_observation c) = qob_LastObservedAtMS (qca_observation c')"
    "qob_WindowMinutes (qca_observation c) = qob_WindowMinutes (qca_observation c')"
    "qob_Validity (qca_observation c) = qob_Validity (qca_observation c')"
    by (rule field, simp)+
  show "qca_basicValid c = qca_basicValid c'" "qca_rawResetsAtMS c = qca_rawResetsAtMS c'"
    using assms by (simp_all add: factsOf_def)
qed

section \<open>Updates of the candidate list\<close>

lemma updateCandidate_length [simp]: "length (updateCandidate i f cs) = length cs"
  by (simp add: updateCandidate_def)

lemma updateCandidate_nth: "j < length cs \<Longrightarrow> updateCandidate i f cs ! j = (if i = j then f (cs ! j) else cs ! j)"
  by (simp add: updateCandidate_def nth_list_update)

lemma updateCandidate_facts [simp]: "(\<And>c. factsOf (f c) = factsOf c) \<Longrightarrow> map factsOf (updateCandidate i f cs) = map factsOf cs"
  by (intro nth_equalityI) (simp_all add: updateCandidate_nth)

lemma setResets_length [simp]: "length (setResets r is cs) = length cs"
  by (induction "is" arbitrary: cs) (simp_all add: setResets_def)

lemma setResets_facts [simp]: "map factsOf (setResets r is cs) = map factsOf cs"
  by (induction "is" arbitrary: cs) (simp_all add: setResets_def)

lemma setResets_nth:
  "j < length cs \<Longrightarrow> setResets r is cs ! j = (if j \<in> set is then withReset r (cs ! j) else cs ! j)"
proof (induction "is" arbitrary: cs)
  case (Cons i "is")
  have "setResets r (i # is) cs = setResets r is (updateCandidate i (withReset r) cs)" by (simp add: setResets_def)
  moreover have "withReset r (withReset r c) = withReset r c" for c by (simp add: withReset_def)
  ultimately show ?case using Cons by (simp add: updateCandidate_nth)
qed (simp add: setResets_def)

text \<open>The classification marks a candidate superseded or suspicious, or leaves its mark.\<close>

definition mildly :: "quotaArbiterCandidate \<Rightarrow> quotaArbiterCandidate \<Rightarrow> bool" where
  "mildly c c' \<longleftrightarrow> qca_disposition c' \<in> {qca_disposition c, QuotaEvidenceSuperseded, QuotaEvidenceSuspicious}"

lemma mildly_refl [simp]: "mildly c c" by (simp add: mildly_def)

lemma mildly_trans: "mildly a b \<Longrightarrow> mildly b c \<Longrightarrow> mildly a c" by (auto simp: mildly_def)

lemma mildly_update [simp]:
  "mildly c (withReset r c)" "mildly c (c'\<lparr>qca_eligible := e\<rparr>) = mildly c c'" "mildly c (c'\<lparr>qca_reason := x\<rparr>) = mildly c c'"
  "mildly c (c'\<lparr>qca_disposition := QuotaEvidenceSuperseded\<rparr>)" "mildly c (setQuotaCandidateReason QuotaEvidenceSuspicious y c')"
  by (simp_all add: mildly_def withReset_def setQuotaCandidateReason_def setQuotaCandidateFinding_def)

text \<open>The walk's state, split into its candidates and the rest: every step changes them as follows.\<close>

definition touches :: "nat list \<Rightarrow> int64 set \<Rightarrow> quotaArbiterCandidate list \<Rightarrow> quotaArbiterCandidate list \<Rightarrow> bool" where
  "touches is R cs cs' \<longleftrightarrow>
     map factsOf cs' = map factsOf cs \<and>
     (\<forall>j < length cs. resetOf (cs' ! j) = resetOf (cs ! j) \<or> resetOf (cs' ! j) \<in> R) \<and>
     (\<forall>j < length cs. mildly (cs ! j) (cs' ! j)) \<and>
     (\<forall>j < length cs. j \<notin> set is \<longrightarrow> qca_eligible (cs' ! j) = qca_eligible (cs ! j) \<and>
        qca_disposition (cs' ! j) = qca_disposition (cs ! j) \<and> qca_reason (cs' ! j) = qca_reason (cs ! j))"

lemma touches_refl: "touches is R cs cs"
  by (simp add: touches_def)

lemma touches_length: "touches is R cs cs' \<Longrightarrow> length cs' = length cs"
  by (metis touches_def length_map)

lemma touches_trans: "touches is R cs cs1 \<Longrightarrow> touches js R cs1 cs2 \<Longrightarrow> touches (is @ js) R cs cs2"
  using touches_length[of "is" R cs cs1] mildly_trans unfolding touches_def by (auto; metis)

lemma touches_mono: "touches is R cs cs' \<Longrightarrow> set is \<subseteq> set js \<Longrightarrow> touches js R cs cs'"
  unfolding touches_def by blast

lemma withReset_fields [simp]:
  "resetOf (withReset r c) = r" "qca_eligible (withReset r c) = qca_eligible c"
  "qca_disposition (withReset r c) = qca_disposition c" "qca_reason (withReset r c) = qca_reason c"
  by (simp_all add: withReset_def)

lemma touches_setResets: "r \<in> R \<Longrightarrow> touches [] R cs (setResets r is cs)"
  by (simp add: touches_def setResets_nth)

lemma touches_update:
  assumes "\<And>c. factsOf (f c) = factsOf c" and "\<And>c. resetOf (f c) = resetOf c \<or> resetOf (f c) \<in> R" and "\<And>c. mildly c (f c)"
  shows "touches [i] R cs (updateCandidate i f cs)"
  using assms by (auto simp: touches_def updateCandidate_nth)

section \<open>The invariant of the walk\<close>

definition candOK :: "int64 set \<Rightarrow> nat list \<Rightarrow> quotaArbiterCandidate list \<Rightarrow> bool" where
  "candOK R valid cs \<longleftrightarrow>
     (\<forall>j < length cs. qca_basicValid (cs ! j) \<longrightarrow> resetOf (cs ! j) \<in> R) \<and>
     (\<forall>i \<in> set valid. i < length cs \<and> qca_eligible (cs ! i) \<and> qca_disposition (cs ! i) = QuotaEvidenceSuperseded)"

lemma factsOf_nth: "map factsOf cs' = map factsOf cs \<Longrightarrow> j < length cs \<Longrightarrow> factsOf (cs' ! j) = factsOf (cs ! j)"
  by (metis length_map nth_map)

lemma candOK_touch:
  assumes "candOK R valid cs" and "touches is R cs cs'" and "set is \<inter> set valid = {}"
  shows "candOK R valid cs'"
proof -
  note len = touches_length[OF assms(2)]
  have f: "map factsOf cs' = map factsOf cs" using assms(2) by (simp add: touches_def)
  have "qca_basicValid (cs' ! j) = qca_basicValid (cs ! j)" if "j < length cs" for j
    using factsOf_eqD(7)[OF factsOf_nth[OF f that]] .
  then show ?thesis using assms len unfolding candOK_def touches_def by (metis disjoint_iff)
qed

definition walkOK :: "int64 set \<Rightarrow> nat list \<Rightarrow> classifyState \<Rightarrow> bool" where
  "walkOK R seen s \<longleftrightarrow>
     candOK R (qcl_validIndexes s) (qcl_candidates s) \<and> (qcl_reset s < 0 \<or> qcl_reset s \<in> R) \<and>
     (\<forall>k \<in> set (qcl_known s). qge_canonicalReset (snd k) \<in> R) \<and>
     set (qcl_validIndexes s) \<subseteq> set seen \<and> distinct (qcl_validIndexes s)"

text \<open>A change of the candidates outside the valid ones.\<close>

lemma walkOK_candidates:
  assumes "walkOK R seen s" and "touches is R (qcl_candidates s) cs'" and "set is \<inter> set seen = {}"
  shows "walkOK R seen (s\<lparr>qcl_candidates := cs'\<rparr>)"
  using assms candOK_touch[OF _ assms(2)] unfolding walkOK_def by (simp; blast)

lemma walkOK_appendValid:
  assumes "walkOK R seen s" and "i \<notin> set seen" and "i < length (qcl_candidates s)" and "qca_eligible (qcl_candidates s ! i)"
    and "qca_disposition (qcl_candidates s ! i) = QuotaEvidenceSuperseded"
  shows "walkOK R (seen @ [i]) (appendValid i b s)"
  using assms by (auto simp: walkOK_def appendValid_def candOK_def)

lemma walkOK_setAside:
  assumes "walkOK R seen s" and "i \<notin> set seen" and "\<And>c. factsOf (f c) = factsOf c"
    and "\<And>c. resetOf (f c) = resetOf c \<or> resetOf (f c) \<in> R" and "\<And>c. mildly c (f c)"
  shows "walkOK R (seen @ [i]) (setAside i f s)" "map factsOf (qcl_candidates (setAside i f s)) = map factsOf (qcl_candidates s)"
proof -
  have t: "touches [i] R (qcl_candidates s) (updateCandidate i (\<lambda>c. (f c)\<lparr>qca_eligible := False\<rparr>) (qcl_candidates s))"
    using assms(3-5) by (intro touches_update) simp_all
  from walkOK_candidates[OF assms(1) t] assms(2) have "walkOK R seen (setAside i f s)" by (simp add: setAside_def)
  then show "walkOK R (seen @ [i]) (setAside i f s)" by (auto simp: walkOK_def)
  from t show "map factsOf (qcl_candidates (setAside i f s)) = map factsOf (qcl_candidates s)"
    by (simp add: touches_def setAside_def)
qed

lemma walkOK_openGeneration:
  assumes "walkOK R seen s" and "qob_ResetsAtMS ob \<in> R"
  shows "walkOK R seen (openGeneration rule ob p s)" "qcl_candidates (openGeneration rule ob p s) = qcl_candidates s"
  using assms by (auto simp: walkOK_def openGeneration_def)

lemma updateActive_canonical:
  assumes "\<forall>k \<in> set known. qge_canonicalReset (snd k) \<in> R" and "\<And>g. qge_canonicalReset g \<in> R \<Longrightarrow> qge_canonicalReset (f g) \<in> R"
  shows "\<forall>k \<in> set (updateActive f known). qge_canonicalReset (snd k) \<in> R"
  using assms by (cases known) (auto simp: updateActive_def)

lemma walkOK_fields:
  assumes "walkOK R seen s"
  shows "walkOK R seen (noteFirstObserved ob s)" "walkOK R seen (s\<lparr>qcl_provisional := b\<rparr>)"
    "walkOK R seen (s\<lparr>qcl_anchorReset := a\<rparr>)" "walkOK R seen (s\<lparr>qcl_validIndexes := []\<rparr>)"
    "r \<in> R \<Longrightarrow> walkOK R seen (s\<lparr>qcl_reset := r\<rparr>)"
  using assms by (auto simp: walkOK_def candOK_def noteFirstObserved_def)

lemma walkOK_known:
  assumes "walkOK R seen s" and "\<And>g. qge_canonicalReset g \<in> R \<Longrightarrow> qge_canonicalReset (f g) \<in> R"
  shows "walkOK R seen (s\<lparr>qcl_known := updateActive f (qcl_known s)\<rparr>)"
proof -
  have "\<forall>k \<in> set (qcl_known s). qge_canonicalReset (snd k) \<in> R" using assms(1) by (simp add: walkOK_def)
  from updateActive_canonical[OF this, of f, OF assms(2)] assms(1) show ?thesis by (simp add: walkOK_def)
qed

lemma noteFirstObserved_candidates [simp]: "qcl_candidates (noteFirstObserved ob s) = qcl_candidates s"
  by (simp add: noteFirstObserved_def)

lemma walkOK_moveAnchor:
  assumes "walkOK R seen s" and "i \<notin> set seen" and "qob_ResetsAtMS ob \<in> R"
  shows "walkOK R seen (moveAnchor i ob s)" "touches [i] R (qcl_candidates s) (qcl_candidates (moveAnchor i ob s))"
    "\<And>j. j < length (qcl_candidates s) \<Longrightarrow> qca_eligible (qcl_candidates (moveAnchor i ob s) ! j) = qca_eligible (qcl_candidates s ! j)"
    "\<And>j. j < length (qcl_candidates s) \<Longrightarrow> qca_disposition (qcl_candidates (moveAnchor i ob s) ! j) = qca_disposition (qcl_candidates s ! j)"
proof -
  let ?r = "qob_ResetsAtMS ob"
  let ?f = "\<lambda>g. g\<lparr>qge_anchorReset := ?r, qge_canonicalReset := ?r\<rparr>"
  let ?cs = "updateCandidate i (withReset ?r) (setResets ?r (qcl_activeIndexes s) (qcl_candidates s))"
  have t: "touches [i] R (qcl_candidates s) ?cs"
    using touches_trans[OF touches_setResets[OF assms(3)] touches_update[of "withReset ?r" R i]] assms(3) by simp
  then show "touches [i] R (qcl_candidates s) (qcl_candidates (moveAnchor i ob s))" by (simp add: moveAnchor_def Let_def)
  have "walkOK R seen (s\<lparr>qcl_anchorReset := ?r, qcl_reset := ?r\<rparr>)"
    using walkOK_fields(5)[OF walkOK_fields(3)[OF assms(1)] assms(3)] .
  from walkOK_known[OF this, of ?f] assms(3)
  have "walkOK R seen (s\<lparr>qcl_anchorReset := ?r, qcl_reset := ?r, qcl_known := updateActive ?f (qcl_known s)\<rparr>)" by simp
  from walkOK_candidates[OF this, of "[i]" ?cs] t assms(2)
  show "walkOK R seen (moveAnchor i ob s)" unfolding moveAnchor_def Let_def by (intro walkOK_fields(1)) simp
  fix j assume "j < length (qcl_candidates s)"
  then show "qca_eligible (qcl_candidates (moveAnchor i ob s) ! j) = qca_eligible (qcl_candidates s ! j)"
    "qca_disposition (qcl_candidates (moveAnchor i ob s) ! j) = qca_disposition (qcl_candidates s ! j)"
    by (simp_all add: moveAnchor_def Let_def updateCandidate_nth setResets_nth)
qed

lemma appendValid_candidates [simp]: "qcl_candidates (appendValid i b s) = qcl_candidates s"
  by (simp add: appendValid_def)

text \<open>A reset taken from the known generations was reported.\<close>

lemma maxReset_mem: assumes "maxReset rs = Some m" shows "m \<in> set rs"
proof -
  have f: "fold (\<lambda>r acc. if r > acc then r else acc) rs a \<in> insert a (set rs)" for a :: int
    by (induction rs arbitrary: a) (auto; fastforce)+
  from assms f[of "- 1"] show ?thesis by (auto simp: maxReset_def Let_def split: if_splits)
qed

lemma knownReset_reported:
  "quotaKnownGenerationResetForWindow known source minutes r = Some m \<Longrightarrow> \<exists>k \<in> set known. m = qge_canonicalReset (snd k)"
  unfolding quotaKnownGenerationResetForWindow_def Let_def by (drule maxReset_mem) (auto simp: generationsOf_def)

section \<open>One step\<close>

text \<open>Candidate \<open>i\<close> is the next one of the walk.\<close>

definition nextOK :: "int64 set \<Rightarrow> nat list \<Rightarrow> nat \<Rightarrow> classifyState \<Rightarrow> bool" where
  "nextOK R seen i s \<longleftrightarrow>
     walkOK R seen s \<and> i \<notin> set seen \<and> i < length (qcl_candidates s) \<and> qca_eligible (qcl_candidates s ! i) \<and>
     qca_disposition (qcl_candidates s ! i) = QuotaEvidenceSuperseded \<and> resetOf (qcl_candidates s ! i) \<in> R"

definition stepOK :: "int64 set \<Rightarrow> nat list \<Rightarrow> nat \<Rightarrow> classifyState \<Rightarrow> classifyState \<Rightarrow> bool" where
  "stepOK R seen i s s' \<longleftrightarrow> walkOK R (seen @ [i]) s' \<and> touches [i] R (qcl_candidates s) (qcl_candidates s')"

lemma nextOK_appendValid:
  "nextOK R seen i s \<Longrightarrow> touches [i] R (qcl_candidates s0) (qcl_candidates s) \<Longrightarrow> stepOK R seen i s0 (appendValid i b s)"
  using walkOK_appendValid by (simp add: nextOK_def stepOK_def)

lemma nextOK_setAside:
  assumes "nextOK R seen i s" and "\<And>c. factsOf (f c) = factsOf c" and "\<And>c. resetOf (f c) = resetOf c \<or> resetOf (f c) \<in> R"
    and "\<And>c. mildly c (f c)"
  shows "stepOK R seen i s (setAside i f s)"
  using assms walkOK_setAside(1)[of R seen s i f] touches_update[of "\<lambda>c. (f c)\<lparr>qca_eligible := False\<rparr>" R i]
  by (simp add: nextOK_def stepOK_def setAside_def)

lemma nextOK_regression:
  "nextOK R seen i s \<Longrightarrow> stepOK R seen i s (setAside i (setQuotaCandidateReason QuotaEvidenceSuspicious x) s)"
  by (rule nextOK_setAside; (simp; fail)?) (simp add: setQuotaCandidateReason_def setQuotaCandidateFinding_def)

lemma nextOK_same_candidates:
  assumes "nextOK R seen i s" and "walkOK R seen s'" and "qcl_candidates s' = qcl_candidates s"
  shows "stepOK R seen i s (appendValid i b s')"
  using assms by (intro nextOK_appendValid) (simp_all add: nextOK_def touches_refl)

lemma stepOK_otherWindow:
  assumes "nextOK R seen i s" and ob: "ob = qca_observation (qcl_candidates s ! i)"
  shows "stepOK R seen i s (otherWindow rule i ob s)"
proof (cases "quotaKnownGenerationResetForWindow (qcl_known s) (qob_Source ob) (qob_WindowMinutes ob) (qob_ResetsAtMS ob)")
  case (Some r)
  with assms(1) have "r \<in> R" by (auto simp: nextOK_def walkOK_def dest!: knownReset_reported)
  with Some nextOK_setAside[OF assms(1), of "withReset r"] show ?thesis by (simp add: otherWindow_def)
next
  case None
  have "walkOK R seen ((openGeneration rule ob p s)\<lparr>qcl_validIndexes := []\<rparr>)" for p
    using assms walkOK_openGeneration(1) walkOK_fields(4) by (simp add: nextOK_def)
  then have open1: "stepOK R seen i s (appendValid i True ((openGeneration rule ob p s)\<lparr>qcl_validIndexes := []\<rparr>))" for p
    by (intro nextOK_same_candidates[OF assms(1)]) (simp_all add: openGeneration_def)
  from None show ?thesis
    unfolding otherWindow_def Let_def
    by (simp add: open1 nextOK_regression[OF assms(1)])
qed

text \<open>Steps that keep candidate \<open>i\<close> ready while they move resets.\<close>

definition movesOK :: "int64 set \<Rightarrow> nat list \<Rightarrow> nat \<Rightarrow> classifyState \<Rightarrow> classifyState \<Rightarrow> bool" where
  "movesOK R seen i s s' \<longleftrightarrow> nextOK R seen i s' \<and> touches [i] R (qcl_candidates s) (qcl_candidates s')"

lemma movesOK_appendValid: "movesOK R seen i s s' \<Longrightarrow> stepOK R seen i s (appendValid i b s')"
  by (auto simp: movesOK_def intro: nextOK_appendValid)

lemma movesOK_trans:
  "movesOK R seen i s s1 \<Longrightarrow> movesOK R seen i s1 s2 \<Longrightarrow> movesOK R seen i s s2"
  unfolding movesOK_def using touches_trans[of "[i]" R "qcl_candidates s" "qcl_candidates s1" "[i]" "qcl_candidates s2"]
    touches_mono[of "[i] @ [i]" R "qcl_candidates s" "qcl_candidates s2" "[i]"] by simp

lemma movesOK_same:
  "nextOK R seen i s \<Longrightarrow> walkOK R seen s' \<Longrightarrow> qcl_candidates s' = qcl_candidates s \<Longrightarrow> movesOK R seen i s s'"
  by (simp add: movesOK_def nextOK_def touches_refl)

lemma movesOK_provisional: "movesOK R seen i s s' \<Longrightarrow> movesOK R seen i s (s'\<lparr>qcl_provisional := b\<rparr>)"
  by (auto simp: movesOK_def nextOK_def intro: walkOK_fields(2))

lemma movesOK_noteFirstObserved: "movesOK R seen i s s' \<Longrightarrow> movesOK R seen i s (noteFirstObserved ob s')"
  by (auto simp: movesOK_def nextOK_def intro: walkOK_fields(1))

lemma movesOK_candidates:
  assumes "nextOK R seen i s" and "touches [i] R (qcl_candidates s) cs'"
    and "qca_eligible (cs' ! i) = qca_eligible (qcl_candidates s ! i)"
    and "qca_disposition (cs' ! i) = qca_disposition (qcl_candidates s ! i)"
  shows "movesOK R seen i s (s\<lparr>qcl_candidates := cs'\<rparr>)"
proof -
  from assms(1,2) have "resetOf (cs' ! i) \<in> R" unfolding nextOK_def touches_def by metis
  with assms walkOK_candidates[OF _ assms(2)] touches_length[OF assms(2)] show ?thesis
    by (simp add: movesOK_def nextOK_def)
qed

lemma movesOK_moveAnchor:
  assumes "nextOK R seen i s" and "qob_ResetsAtMS ob \<in> R"
  shows "movesOK R seen i s (moveAnchor i ob s)"
proof -
  have w: "walkOK R seen s" "i \<notin> set seen" "i < length (qcl_candidates s)" using assms(1) by (simp_all add: nextOK_def)
  note m = walkOK_moveAnchor[OF w(1,2) assms(2)]
  have "resetOf (qcl_candidates (moveAnchor i ob s) ! i) \<in> R"
    using m(2) w(3) assms(1) unfolding nextOK_def touches_def by metis
  then show ?thesis using m(1,2) m(3,4)[OF w(3)] assms(1) touches_length[OF m(2)] w by (simp add: movesOK_def nextOK_def)
qed

lemma touches_resets_own:
  assumes "r \<in> R" shows "touches [i] R cs (updateCandidate i (withReset r) cs)"
  using assms by (intro touches_update) simp_all

lemma stepOK_sameGeneration:
  assumes n: "nextOK R seen i s" and r: "qob_ResetsAtMS ob \<in> R" and pos: "\<not> qcl_reset s < 0"
  shows "stepOK R seen i s (sameGeneration i ob s)"
proof -
  let ?r = "qob_ResetsAtMS ob"
  let ?f = "\<lambda>g. g\<lparr>qge_canonicalReset := ?r\<rparr>"
  let ?k = "s\<lparr>qcl_reset := ?r, qcl_known := updateActive ?f (qcl_known s)\<rparr>"
  have w: "walkOK R seen s" "i < length (qcl_candidates s)" "qcl_reset s \<in> R" using n pos by (auto simp: nextOK_def walkOK_def)
  have "walkOK R seen ?k" using walkOK_known[OF walkOK_fields(5)[OF w(1) r], of ?f] r by simp
  then have k: "movesOK R seen i s ?k" by (intro movesOK_same n) simp_all
  have "movesOK R seen i ?k (?k\<lparr>qcl_candidates := setResets ?r (qcl_activeIndexes s) (qcl_candidates s)\<rparr>)"
    using k w(2) touches_mono[OF touches_setResets[OF r]]
    by (intro movesOK_candidates) (simp_all add: movesOK_def setResets_nth)
  with k have k2: "movesOK R seen i s (?k\<lparr>qcl_candidates := setResets ?r (qcl_activeIndexes s) (qcl_candidates s)\<rparr>)"
    by (rule movesOK_trans)
  define s1 where "s1 = (if ?r > qcl_reset s
     then ?k\<lparr>qcl_candidates := setResets ?r (qcl_activeIndexes s) (qcl_candidates s)\<rparr> else s)"
  have m1: "movesOK R seen i s s1" and r1: "qcl_reset s1 \<in> R"
    using k2 movesOK_same[OF n w(1)] r w(3) by (simp_all add: s1_def)
  have "movesOK R seen i s1 (s1\<lparr>qcl_candidates := updateCandidate i (withReset (qcl_reset s1)) (qcl_candidates s1)\<rparr>)"
    using m1 touches_resets_own[OF r1]
    by (intro movesOK_candidates) (simp_all add: movesOK_def nextOK_def updateCandidate_nth)
  from movesOK_trans[OF m1 this] have m2: "movesOK R seen i s (noteFirstObserved ob
      (s1\<lparr>qcl_candidates := updateCandidate i (withReset (qcl_reset s1)) (qcl_candidates s1)\<rparr>))"
    by (rule movesOK_noteFirstObserved)
  show ?thesis unfolding sameGeneration_def Let_def s1_def[symmetric]
    by (intro movesOK_appendValid) (simp add: m2 movesOK_provisional)
qed

lemma classifyStep_ready:
  assumes "walkOK R seen s" and "i \<notin> set seen" and "i < length (qcl_candidates s)" and "qca_basicValid (qcl_candidates s ! i)"
    and "cs1 = updateCandidate i (\<lambda>c. c\<lparr>qca_eligible := True, qca_disposition := QuotaEvidenceSuperseded, qca_reason := None\<rparr>) (qcl_candidates s)"
  shows "nextOK R seen i (s\<lparr>qcl_candidates := cs1\<rparr>)" "touches [i] R (qcl_candidates s) cs1"
proof -
  show t: "touches [i] R (qcl_candidates s) cs1" unfolding assms(5) by (intro touches_update) simp_all
  have "walkOK R seen (s\<lparr>qcl_candidates := cs1\<rparr>)" using walkOK_candidates[OF assms(1) t] assms(2) by simp
  moreover have "resetOf (qcl_candidates s ! i) \<in> R" using assms(1,3,4) by (auto simp: walkOK_def candOK_def)
  ultimately show "nextOK R seen i (s\<lparr>qcl_candidates := cs1\<rparr>)"
    using assms(2,3) by (simp add: nextOK_def assms(5) updateCandidate_nth)
qed

lemma classifyStep_ok:
  assumes "walkOK R seen s0" and "i \<notin> set seen" and "i < length (qcl_candidates s0)" and "qca_basicValid (qcl_candidates s0 ! i)"
  shows "stepOK R seen i s0 (classifyStep rule i remaining s0)"
proof -
  define s where "s = s0\<lparr>qcl_candidates := updateCandidate i
    (\<lambda>c. c\<lparr>qca_eligible := True, qca_disposition := QuotaEvidenceSuperseded, qca_reason := None\<rparr>) (qcl_candidates s0)\<rparr>"
  define ob where "ob = qca_observation (qcl_candidates s ! i)"
  have n: "nextOK R seen i s" and t: "touches [i] R (qcl_candidates s0) (qcl_candidates s)"
    using classifyStep_ready[OF assms refl] by (simp_all add: s_def)
  then have w: "walkOK R seen s" and r: "qob_ResetsAtMS ob \<in> R" by (simp_all add: nextOK_def ob_def)
  have op: "stepOK R seen i s (appendValid i True (openGeneration rule ob p s))" for p
    by (rule nextOK_same_candidates[OF n walkOK_openGeneration(1)[OF w r]]) (simp add: openGeneration_def)
  have mv: "stepOK R seen i s (appendValid i True
      ((\<lambda>s'. if flt (Fin 0) (qob_UsedPercent ob) then s'\<lparr>qcl_provisional := False\<rparr> else s') (moveAnchor i ob s)))"
    by (intro movesOK_appendValid) (simp add: movesOK_provisional movesOK_moveAnchor[OF n r])
  let ?k = "s\<lparr>qcl_known := updateActive (\<lambda>g. g\<lparr>qge_provisionalAliasReset := qcl_reset s\<rparr>) (qcl_known s)\<rparr>"
  have k: "movesOK R seen i s ?k" by (intro movesOK_same[OF n] walkOK_known w) simp_all
  then have corr: "stepOK R seen i s (appendValid i True ((moveAnchor i ob ?k)\<lparr>qcl_provisional := False\<rparr>))"
    by (intro movesOK_appendValid movesOK_provisional movesOK_trans[OF k] movesOK_moveAnchor r) (simp add: movesOK_def)
  have "stepOK R seen i s (classifyStep rule i remaining s0)"
    unfolding classifyStep_def Let_def s_def[symmetric] ob_def[symmetric]
    using op mv corr stepOK_otherWindow[OF n ob_def] stepOK_sameGeneration[OF n r] nextOK_regression[OF n]
      nextOK_same_candidates[OF n w refl]
    by (simp del: fun_upd_apply split: if_split)
  then show ?thesis using touches_trans[OF t] touches_mono[of "[i] @ [i]" R _ _ "[i]"] by (simp add: stepOK_def)
qed

section \<open>The walk\<close>

lemma touches_basicValid:
  "touches is R cs cs' \<Longrightarrow> j < length cs \<Longrightarrow> qca_basicValid (cs' ! j) = qca_basicValid (cs ! j)"
  unfolding touches_def by (rule factsOf_eqD(7)[OF factsOf_nth]) blast+

lemma classifyWalk_ok:
  assumes "walkOK R seen s" and "distinct is" and "set is \<inter> set seen = {}"
    and "\<And>i. i \<in> set is \<Longrightarrow> i < length (qcl_candidates s) \<and> qca_basicValid (qcl_candidates s ! i)"
  shows "walkOK R (seen @ is) (classifyWalk rule is s) \<and> touches is R (qcl_candidates s) (qcl_candidates (classifyWalk rule is s))"
  using assms
proof (induction "is" arbitrary: seen s)
  case (Cons i "is")
  let ?s = "classifyStep rule i (i # is) s"
  have st: "walkOK R (seen @ [i]) ?s" "touches [i] R (qcl_candidates s) (qcl_candidates ?s)"
    using classifyStep_ok[of R seen s i] Cons.prems by (simp_all add: stepOK_def)
  have "walkOK R ((seen @ [i]) @ is) (classifyWalk rule is ?s) \<and>
        touches is R (qcl_candidates ?s) (qcl_candidates (classifyWalk rule is ?s))"
    using Cons.prems touches_basicValid[OF st(2)] touches_length[OF st(2)] by (intro Cons.IH st(1)) auto
  then show ?case using touches_trans[OF st(2)] by simp
qed (simp add: touches_refl)

text \<open>The resets of the valid observations, which no update changes.\<close>

definition reported :: "quotaArbiterCandidate list \<Rightarrow> int64 set" where
  "reported cs = {qca_rawResetsAtMS c | c. c \<in> set cs \<and> qca_basicValid c}"

lemma reported_facts: assumes "map factsOf cs' = map factsOf cs" shows "reported cs' = reported cs"
proof -
  have 1: "reported ds = (\<lambda>x. fst (snd x)) ` {x \<in> factsOf ` set ds. snd (snd x)}" for ds
    unfolding reported_def factsOf_def by (rule set_eqI) (simp add: image_iff; blast)
  have "factsOf ` set cs' = factsOf ` set cs" using arg_cong[OF assms, of set] by simp
  then show ?thesis by (simp only: 1)
qed

lemma classifyStart_ok: "walkOK (reported cs) [] (classifyStart cs)"
  by (auto simp: walkOK_def candOK_def classifyStart_def reported_def withReset_def)

abbreviation memberOK :: "nat list \<Rightarrow> quotaArbiterCandidate list \<Rightarrow> int64 \<Rightarrow> nat \<Rightarrow> bool" where
  "memberOK excluded cs r i \<equiv>
     i < length cs \<and> i \<notin> set excluded \<and> qca_basicValid (cs ! i) \<and> qca_eligible (cs ! i) \<and>
     qca_disposition (cs ! i) = QuotaEvidenceSuperseded \<and> resetOf (cs ! i) = r"

definition generationOK :: "nat list \<Rightarrow> quotaArbiterCandidate list \<Rightarrow> int64 \<Rightarrow> nat list \<Rightarrow> bool" where
  "generationOK excluded cs r is \<longleftrightarrow> is \<noteq> [] \<and> distinct is \<and> r \<in> reported cs \<and> (\<forall>i \<in> set is. memberOK excluded cs r i)"

text \<open>The candidates a classification may change are the valid ones that are not excluded.\<close>

definition aside :: "nat list \<Rightarrow> quotaArbiterCandidate list \<Rightarrow> nat \<Rightarrow> bool" where
  "aside excluded cs j \<longleftrightarrow> \<not> qca_basicValid (cs ! j) \<or> j \<in> set excluded"

definition classifiedFrom :: "nat list \<Rightarrow> quotaArbiterCandidate list \<Rightarrow> quotaArbiterCandidate list \<Rightarrow> bool" where
  "classifiedFrom excluded cs cs' \<longleftrightarrow>
     map factsOf cs' = map factsOf cs \<and>
     (\<forall>j < length cs. mildly (cs ! j) (cs' ! j) \<and>
        (aside excluded cs j \<longrightarrow> qca_disposition (cs' ! j) = qca_disposition (cs ! j) \<and> qca_reason (cs' ! j) = qca_reason (cs ! j)))"

lemma classifyQuotaGenerations_ok:
  assumes "classifyQuotaGenerations rule cs excluded = (cs1, byReset, resets)"
  shows "classifiedFrom excluded cs cs1" "r \<in> set resets \<Longrightarrow> generationOK excluded cs1 r (byReset r)"
proof -
  let ?s0 = "classifyStart cs"
  define idx where "idx = orderedIndexes (qcl_candidates ?s0) excluded"
  define s where "s = classifyWalk rule idx ?s0"
  have idx: "i \<in> set idx \<longleftrightarrow> i < length cs \<and> qca_basicValid (cs ! i) \<and> i \<notin> set excluded" for i
    unfolding idx_def orderedIndexes_def classifyStart_def by (simp add: withReset_def conj_commute cong: conj_cong)
  have len0: "length (qcl_candidates ?s0) = length cs" by (simp add: classifyStart_def)
  have nth0: "qcl_candidates ?s0 ! j = withReset (qca_rawResetsAtMS (cs ! j)) (cs ! j)" if "j < length cs" for j
    using that by (simp add: classifyStart_def)
  have "walkOK (reported cs) ([] @ idx) s \<and> touches idx (reported cs) (qcl_candidates ?s0) (qcl_candidates s)"
    unfolding s_def using idx nth0 len0
    by (intro classifyWalk_ok classifyStart_ok) (auto simp: idx_def orderedIndexes_def withReset_def)
  then have w: "walkOK (reported cs) idx s" and t: "touches idx (reported cs) (qcl_candidates ?s0) (qcl_candidates s)" by simp_all
  have facts: "map factsOf (qcl_candidates s) = map factsOf cs" using t by (simp add: touches_def classifyStart_def)
  have eqs: "cs1 = qcl_candidates s" "byReset = (\<lambda>r. filter (\<lambda>i. resetOf (cs1 ! i) = r) (qcl_validIndexes s))"
    "resets = sort (remdups (map (\<lambda>i. resetOf (cs1 ! i)) (qcl_validIndexes s)))"
    using assms by (auto simp: classifyQuotaGenerations_def Let_def idx_def s_def)
  show "classifiedFrom excluded cs cs1"
    using t nth0 idx facts len0 unfolding classifiedFrom_def aside_def eqs(1) touches_def by (simp add: mildly_def; blast)
  assume "r \<in> set resets"
  then obtain i where i: "i \<in> set (qcl_validIndexes s)" "resetOf (cs1 ! i) = r" by (auto simp: eqs(3))
  have lenc: "length cs1 = length cs" using touches_length[OF t] len0 by (simp add: eqs)
  have mem: "memberOK excluded cs1 (resetOf (cs1 ! k)) k \<and> resetOf (cs1 ! k) \<in> reported cs" if "k \<in> set (qcl_validIndexes s)" for k
    using w that idx[of k] touches_basicValid[OF t, of k] nth0[of k] lenc
    by (auto simp: walkOK_def candOK_def eqs(1) len0 withReset_def)
  from i mem[OF i(1)] mem w show "generationOK excluded cs1 r (byReset r)"
    unfolding generationOK_def eqs(2) reported_facts[OF facts[folded eqs(1)]]
    by (auto simp: walkOK_def filter_empty_conv)
qed

end
