(* ===== verification/Arbiter_Choice.thy ===== *)
theory Arbiter_Choice
  imports Arbiter_Invariants
begin

text \<open>
  The loop that picks the generation: it ends, because each round excludes candidates; it never discards
  the last usable observation, because a zero generation falls only to a strictly newer local log; and
  the generation it ends with consists of usable candidates that share one reported reset.
\<close>

section \<open>Every walk leaves a generation\<close>

lemma validIndexes_steps [simp]:
  "qcl_validIndexes (appendValid i b s) = qcl_validIndexes s @ [i]" "qcl_validIndexes (setAside i f s) = qcl_validIndexes s"
  by (simp_all add: appendValid_def setAside_def)

lemma otherWindow_valid: "qcl_validIndexes s \<noteq> [] \<Longrightarrow> qcl_validIndexes (otherWindow rule i ob s) \<noteq> []"
  unfolding otherWindow_def Let_def
  by (cases "quotaKnownGenerationResetForWindow (qcl_known s) (qob_Source ob) (qob_WindowMinutes ob) (qob_ResetsAtMS ob)") simp_all

lemma classifyStep_valid:
  assumes "qcl_reset s0 < 0 \<or> qcl_validIndexes s0 \<noteq> []"
  shows "qcl_validIndexes (classifyStep rule i is s0) \<noteq> []"
proof -
  define s where "s = s0\<lparr>qcl_candidates := updateCandidate i
    (\<lambda>c. c\<lparr>qca_eligible := True, qca_disposition := QuotaEvidenceSuperseded, qca_reason := None\<rparr>) (qcl_candidates s0)\<rparr>"
  define ob where "ob = qca_observation (qcl_candidates s ! i)"
  have e: "qcl_validIndexes (sameGeneration i ob s) \<noteq> []" by (simp add: sameGeneration_def Let_def)
  have "qcl_reset s < 0 \<or> qcl_validIndexes s \<noteq> []" using assms by (simp add: s_def)
  then show ?thesis unfolding classifyStep_def Let_def s_def[symmetric] ob_def[symmetric]
    using e otherWindow_valid[of s rule i ob] by (cases "qcl_reset s < 0") simp_all
qed

lemma classifyWalk_valid: "qcl_validIndexes s \<noteq> [] \<Longrightarrow> qcl_validIndexes (classifyWalk rule is s) \<noteq> []"
  by (induction "is" arbitrary: s) (simp_all add: classifyStep_valid)

lemma sort_Nil_iff: "sort xs = [] \<longleftrightarrow> xs = []"
  by (metis length_0_conv length_sort)

lemma classify_resets:
  assumes "classifyQuotaGenerations rule cs excluded = (cs1, byReset, resets)"
  shows "resets = [] \<longleftrightarrow> (\<forall>j < length cs. aside excluded cs j)"
proof -
  let ?idx = "orderedIndexes (qcl_candidates (classifyStart cs)) excluded"
  have e: "?idx = [] \<longleftrightarrow> (\<forall>j < length cs. aside excluded cs j)"
    unfolding orderedIndexes_def aside_def classifyStart_def by (auto simp: filter_empty_conv withReset_def)
  have v: "qcl_validIndexes (classifyWalk rule ?idx (classifyStart cs)) = [] \<longleftrightarrow> ?idx = []"
  proof (cases ?idx)
    case (Cons i "is")
    then show ?thesis using classifyWalk_valid[OF classifyStep_valid] by (simp add: classifyStart_def)
  qed (simp add: classifyStart_def)
  have "resets = [] \<longleftrightarrow> qcl_validIndexes (classifyWalk rule ?idx (classifyStart cs)) = []"
    using arg_cong[OF assms, of "\<lambda>x. snd (snd x) = []"] by (simp add: classifyQuotaGenerations_def Let_def sort_Nil_iff)
  then show ?thesis using v e by blast
qed

section \<open>The choice loop\<close>

abbreviation blockOne :: "quotaArbiterCandidate \<Rightarrow> quotaArbiterCandidate" where
  "blockOne c \<equiv> (setQuotaCandidateReason QuotaEvidenceSuspicious ReasonDefaultFallback c)\<lparr>qca_eligible := False\<rparr>"

lemma blockCandidates_nth:
  "distinct is \<Longrightarrow> j < length cs \<Longrightarrow> blockCandidates is cs ! j = (if j \<in> set is then blockOne (cs ! j) else cs ! j)"
proof (induction "is" arbitrary: cs)
  case (Cons i "is")
  have "blockCandidates (i # is) cs = blockCandidates is (updateCandidate i blockOne cs)" by (simp add: blockCandidates_def)
  with Cons show ?case by (auto simp: updateCandidate_nth)
qed (simp add: blockCandidates_def)

lemma blockCandidates_facts [simp]: "map factsOf (blockCandidates is cs) = map factsOf cs"
  by (induction "is" arbitrary: cs) (simp_all add: blockCandidates_def)

text \<open>An excluded candidate is older than a valid local log.\<close>

abbreviation lastObserved :: "quotaArbiterCandidate \<Rightarrow> int64" where
  "lastObserved c \<equiv> qob_LastObservedAtMS (qca_observation c)"

definition localLog :: "quotaArbiterCandidate \<Rightarrow> bool" where
  "localLog c \<longleftrightarrow> qca_basicValid c \<and> qob_Source (qca_observation c) = sourceLocalJSONL"

definition outlogged :: "quotaArbiterCandidate list \<Rightarrow> nat list \<Rightarrow> bool" where
  "outlogged cs excluded \<longleftrightarrow>
     (\<forall>e \<in> set excluded. e < length cs \<and> (\<exists>j < length cs. localLog (cs ! j) \<and> lastObserved (cs ! e) < lastObserved (cs ! j)))"

lemma outlogged_facts: "map factsOf cs' = map factsOf cs \<Longrightarrow> outlogged cs' excluded = outlogged cs excluded"
proof -
  assume f: "map factsOf cs' = map factsOf cs"
  then have l: "length cs' = length cs" by (metis length_map)
  have "localLog (cs' ! j) = localLog (cs ! j)" "lastObserved (cs' ! j) = lastObserved (cs ! j)" if "j < length cs" for j
    using factsOf_eqD[OF factsOf_nth[OF f that]] by (simp_all add: localLog_def)
  then show ?thesis unfolding outlogged_def l by metis
qed

lemma outlogged_leaves:
  assumes "outlogged cs excluded" and "j < length cs" and "qca_basicValid (cs ! j)"
  shows "\<exists>k < length cs. \<not> aside excluded cs k"
proof (cases "\<exists>k < length cs. localLog (cs ! k)")
  case True
  let ?L = "{k. k < length cs \<and> localLog (cs ! k)}"
  have "finite ?L" "?L \<noteq> {}" using True by auto
  then obtain k where k: "k \<in> ?L" "lastObserved (cs ! k) = Max ((\<lambda>m. lastObserved (cs ! m)) ` ?L)"
    using Max_in[of "(\<lambda>m. lastObserved (cs ! m)) ` ?L"] by fastforce
  then have "\<forall>m \<in> ?L. lastObserved (cs ! m) \<le> lastObserved (cs ! k)" using \<open>finite ?L\<close> by simp
  with k(1) show ?thesis using assms(1) by (force simp: outlogged_def aside_def localLog_def)
next
  case False
  with assms show ?thesis by (auto simp: outlogged_def aside_def)
qed

lemma fold_newest:
  fixes f :: "'b \<Rightarrow> int" and a :: int
  shows "(\<forall>x \<in> set xs. f x \<le> fold (\<lambda>x m. if f x > m then f x else m) xs a) \<and> a \<le> fold (\<lambda>x m. if f x > m then f x else m) xs a"
proof (induction xs arbitrary: a)
  case (Cons x xs)
  from Cons[of "if f x > a then f x else a"] show ?case by (auto split: if_splits)
qed simp

lemma blockedZero_outlogged:
  assumes "quotaGenerationIsBlockedZero cs is r" and "i \<in> set is" and "qca_eligible (cs ! i)"
  shows "\<exists>j < length cs. localLog (cs ! j) \<and> lastObserved (cs ! i) < lastObserved (cs ! j)"
proof -
  let ?obs = "map (\<lambda>i. qca_observation (cs ! i)) (filter (\<lambda>i. qca_eligible (cs ! i)) is)"
  let ?m = "fold (\<lambda>ob m. if qob_LastObservedAtMS ob > m then qob_LastObservedAtMS ob else m) ?obs 0"
  have "lastObserved (cs ! i) \<le> ?m" using fold_newest[of ?obs qob_LastObservedAtMS 0] assms(2,3) by auto
  moreover obtain c where "c \<in> set cs" "localLog c" "lastObserved c > ?m"
    using assms(1) by (auto simp: quotaGenerationIsBlockedZero_def Let_def list_ex_iff localLog_def split: if_splits)
  moreover from \<open>c \<in> set cs\<close> obtain j where "j < length cs" "c = cs ! j" unfolding in_set_conv_nth by blast
  ultimately show ?thesis by (intro exI[of _ j]) simp
qed

text \<open>What the loop keeps of its candidates.\<close>

definition chosenFrom :: "quotaArbiterCandidate list \<Rightarrow> quotaArbiterCandidate list \<Rightarrow> bool" where
  "chosenFrom cs cs' \<longleftrightarrow>
     map factsOf cs' = map factsOf cs \<and>
     (\<forall>j < length cs. mildly (cs ! j) (cs' ! j) \<and> (\<not> qca_basicValid (cs ! j) \<longrightarrow> qca_disposition (cs' ! j) = qca_disposition (cs ! j)))"

lemma chosenFromD:
  assumes "chosenFrom cs cs'"
  shows "length cs' = length cs" "map factsOf cs' = map factsOf cs"
    "\<And>j. j < length cs \<Longrightarrow> qca_basicValid (cs' ! j) = qca_basicValid (cs ! j)"
    "\<And>j. j < length cs \<Longrightarrow> mildly (cs ! j) (cs' ! j)"
    "\<And>j. j < length cs \<Longrightarrow> \<not> qca_basicValid (cs ! j) \<Longrightarrow> qca_disposition (cs' ! j) = qca_disposition (cs ! j)"
proof -
  show f: "map factsOf cs' = map factsOf cs" using assms by (simp only: chosenFrom_def)
  show "length cs' = length cs" using arg_cong[OF f, of length] by simp
  fix j assume j: "j < length cs"
  show "qca_basicValid (cs' ! j) = qca_basicValid (cs ! j)" by (rule factsOf_eqD(7)[OF factsOf_nth[OF f j]])
  show "mildly (cs ! j) (cs' ! j)" using assms j unfolding chosenFrom_def by blast
  show "\<not> qca_basicValid (cs ! j) \<Longrightarrow> qca_disposition (cs' ! j) = qca_disposition (cs ! j)" using assms j unfolding chosenFrom_def by blast
qed

lemmas chosenFrom_length = chosenFromD(1)
lemmas chosenFrom_basicValid = chosenFromD(3)

lemma chosenFrom_trans:
  assumes "chosenFrom cs cs1" and "chosenFrom cs1 cs2" shows "chosenFrom cs cs2"
  unfolding chosenFrom_def
proof (intro conjI allI impI)
  show "map factsOf cs2 = map factsOf cs" by (rule trans[OF chosenFromD(2)[OF assms(2)] chosenFromD(2)[OF assms(1)]])
  fix j assume j: "j < length cs"
  then have j1: "j < length cs1" using chosenFromD(1)[OF assms(1)] by simp
  show "mildly (cs ! j) (cs2 ! j)" by (rule mildly_trans[OF chosenFromD(4)[OF assms(1) j] chosenFromD(4)[OF assms(2) j1]])
  assume "\<not> qca_basicValid (cs ! j)"
  then show "qca_disposition (cs2 ! j) = qca_disposition (cs ! j)"
    using chosenFromD(3,5)[OF assms(1) j] chosenFromD(5)[OF assms(2) j1] by simp
qed

lemma chosenFrom_classified: "classifiedFrom excluded cs cs' \<Longrightarrow> chosenFrom cs cs'"
  by (auto simp: classifiedFrom_def chosenFrom_def aside_def)

lemma chosenFrom_block: "generationOK excluded cs r is \<Longrightarrow> chosenFrom cs (blockCandidates is cs)"
  by (auto simp: chosenFrom_def generationOK_def blockCandidates_nth)

definition choiceOK :: "quotaArbiterCandidate list \<Rightarrow> (quotaArbiterCandidate list + chosenGeneration) \<Rightarrow> bool" where
  "choiceOK cs res \<longleftrightarrow>
     (case res of
        Inl cs' \<Rightarrow> chosenFrom cs cs' \<and> (\<forall>j < length cs. \<not> qca_basicValid (cs ! j))
      | Inr ch \<Rightarrow> chosenFrom cs (qch_candidates ch) \<and>
          (\<exists>excluded r. generationOK excluded (qch_candidates ch) r (qch_selected ch)))"

lemma choiceOK_step:
  assumes "chosenFrom cs cs'" and "choiceOK cs' res" shows "choiceOK cs res"
proof (cases res)
  case (Inl x)
  with assms show ?thesis
    using chosenFrom_trans[OF assms(1)] chosenFromD(1,3)[OF assms(1)] by (simp add: choiceOK_def)
next
  case (Inr ch)
  then have "chosenFrom cs' (qch_candidates ch)" "\<exists>excluded r. generationOK excluded (qch_candidates ch) r (qch_selected ch)"
    using assms(2) by (simp_all add: choiceOK_def)
  with Inr chosenFrom_trans[OF assms(1)] show ?thesis by (simp add: choiceOK_def)
qed

definition freeIndexes :: "nat list \<Rightarrow> quotaArbiterCandidate list \<Rightarrow> nat set" where
  "freeIndexes excluded cs = {j. j < length cs \<and> \<not> aside excluded cs j}"

lemma freeIndexes_block:
  assumes "chosenFrom cs cs'" and "generationOK excluded cs' r is"
  shows "card (freeIndexes (excluded @ is) (blockCandidates is cs')) < card (freeIndexes excluded cs)"
proof (rule psubset_card_mono)
  note c = chosenFrom_trans[OF assms(1) chosenFrom_block[OF assms(2)]]
  show "finite (freeIndexes excluded cs)" by (simp add: freeIndexes_def)
  obtain i where i: "i \<in> set is" "memberOK excluded cs' r i" using assms(2) by (cases "is") (auto simp: generationOK_def)
  then have "i \<in> freeIndexes excluded cs" "i \<notin> freeIndexes (excluded @ is) (blockCandidates is cs')"
    using chosenFrom_basicValid[OF assms(1)] chosenFrom_length[OF assms(1)] by (auto simp: freeIndexes_def aside_def)
  moreover have "freeIndexes (excluded @ is) (blockCandidates is cs') \<subseteq> freeIndexes excluded cs"
    using chosenFrom_basicValid[OF c] chosenFrom_length[OF c] by (auto simp: freeIndexes_def aside_def)
  ultimately show "freeIndexes (excluded @ is) (blockCandidates is cs') \<subset> freeIndexes excluded cs" by blast
qed

lemma outlogged_block:
  assumes "chosenFrom cs cs'" and "outlogged cs excluded" and "generationOK excluded cs' r is" and "quotaGenerationIsBlockedZero cs' is r"
  shows "outlogged (blockCandidates is cs') (excluded @ is)"
proof -
  have "outlogged cs' excluded" using assms(1,2) outlogged_facts unfolding chosenFrom_def by blast
  then have "outlogged cs' (excluded @ is)"
    using assms(3) blockedZero_outlogged[OF assms(4)] by (auto simp: outlogged_def generationOK_def)
  then show ?thesis using outlogged_facts[OF blockCandidates_facts] by blast
qed

lemma chooseGeneration_ok:
  assumes "card (freeIndexes excluded cs) < n" and "outlogged cs excluded"
  shows "\<exists>res. chooseGeneration n rule cs excluded b = Some res \<and> choiceOK cs res"
  using assms
proof (induction n arbitrary: cs excluded b)
  case (Suc n)
  obtain cs1 byReset resets where c: "classifyQuotaGenerations rule cs excluded = (cs1, byReset, resets)" by (metis prod.exhaust)
  note f = chosenFrom_classified[OF classifyQuotaGenerations_ok(1)[OF c]]
  show ?case
  proof (cases "resets = []")
    case True
    with classify_resets[OF c] outlogged_leaves[OF Suc.prems(2)] have "\<forall>j < length cs. \<not> qca_basicValid (cs ! j)" by blast
    with True c f show ?thesis by (simp add: choiceOK_def)
  next
    case False
    let ?r = "last resets"
    have g: "generationOK excluded cs1 ?r (byReset ?r)" using classifyQuotaGenerations_ok(2)[OF c] False by simp
    show ?thesis
    proof (cases "quotaGenerationIsBlockedZero cs1 (byReset ?r) ?r")
      case True
      let ?cs = "blockCandidates (byReset ?r) cs1"
      have "\<exists>res. chooseGeneration n rule ?cs (excluded @ byReset ?r) True = Some res \<and> choiceOK ?cs res"
        using Suc.prems(1) freeIndexes_block[OF f g] by (intro Suc.IH outlogged_block[OF f Suc.prems(2) g True]) simp
      then show ?thesis using c True False choiceOK_step[OF chosenFrom_trans[OF f chosenFrom_block[OF g]]]
        by (auto simp: latestQuotaGeneration_def)
    next
      case False
      with \<open>resets \<noteq> []\<close> c f g show ?thesis by (auto simp: latestQuotaGeneration_def choiceOK_def)
    qed
  qed
qed simp

end
