(* ===== verification/Arbiter_Properties.thy ===== *)
theory Arbiter_Properties
  imports Arbiter_Choice
begin

text \<open>
  The contract of the quota arbiter: it always answers, the answer rests on usable observations only,
  a fresh answer is backed by recent evidence, and neither the order of the rows nor the order in which
  Go walks its map of sources can be seen in the answer.
\<close>

section \<open>The final marks\<close>

lemma latestBySource_append:
  "latestBySource cs (is @ [i]) = (let m = latestBySource cs is; ob = qca_observation (cs ! i)
     in if \<not> qca_eligible (cs ! i) then m
        else case map_of m (qob_Source ob) of
          None \<Rightarrow> m @ [(qob_Source ob, i)]
        | Some p \<Rightarrow> if quotaCandidateMoreCurrent ob (qca_observation (cs ! p)) then AList.update (qob_Source ob) i m else m)"
  by (simp add: latestBySource_def Let_def)

lemma latestBySource_members:
  "snd ` set (latestBySource cs is) \<subseteq> set is \<and> ((\<exists>i \<in> set is. qca_eligible (cs ! i)) \<longrightarrow> latestBySource cs is \<noteq> [])"
proof (induction "is" rule: rev_induct)
  case (snoc i "is")
  have u: "snd ` set (AList.update k v m) \<subseteq> insert v (snd ` set m)" "AList.update k v m \<noteq> []" for k v and m :: "(string \<times> nat) list"
    by (induction m) auto
  let ?m = "latestBySource cs is" and ?k = "qob_Source (qca_observation (cs ! i))"
  show ?case
  proof (cases "map_of ?m ?k")
    case None
    with snoc show ?thesis by (auto simp: latestBySource_append Let_def)
  next
    case (Some p)
    then have m: "?m \<noteq> []" by auto
    have "latestBySource cs (is @ [i]) = ?m \<or> latestBySource cs (is @ [i]) = AList.update ?k i ?m"
      using Some by (simp add: latestBySource_append Let_def)
    then show ?thesis
    proof
      assume e: "latestBySource cs (is @ [i]) = ?m"
      show ?thesis using m snoc unfolding e by auto
    next
      assume e: "latestBySource cs (is @ [i]) = AList.update ?k i ?m"
      show ?thesis using u[where m = ?m and k = ?k and v = i] snoc unfolding e by auto
    qed
  qed
qed (simp add: latestBySource_def)

lemma pickSelected_member: "pickSelected cs is start \<in> insert start (set is)"
  unfolding pickSelected_def
proof (induction "is" arbitrary: start)
  case (Cons i "is")
  show ?case using Cons[of start] Cons[of i] by (auto simp: Let_def)
qed simp

lemma markEligible_props:
  "length (markEligible conflict is cs) = length cs"
  "j < length cs \<Longrightarrow> qca_observation (markEligible conflict is cs ! j) = qca_observation (cs ! j)"
  "j < length cs \<Longrightarrow> qca_disposition (markEligible conflict is cs ! j) \<in> {qca_disposition (cs ! j), QuotaEvidenceEligible}"
  "j < length cs \<Longrightarrow> j \<notin> set is \<Longrightarrow> markEligible conflict is cs ! j = cs ! j"
proof (induction "is" arbitrary: cs)
  case (Cons i "is")
  define f :: "quotaArbiterCandidate \<Rightarrow> quotaArbiterCandidate" where "f = (\<lambda>c. if \<not> qca_eligible c then c
    else c\<lparr>qca_disposition := QuotaEvidenceEligible, qca_reason := (if conflict then Some ReasonSourceConflict else qca_reason c)\<rparr>)"
  have e: "markEligible conflict (i # is) cs = markEligible conflict is (updateCandidate i f cs)" for cs
    by (simp add: markEligible_def f_def)
  have f: "qca_observation (f c) = qca_observation c" "qca_disposition (f c) \<in> {qca_disposition c, QuotaEvidenceEligible}" for c
    by (simp_all add: f_def)
  { case 1 show ?case using Cons.IH(1)[of "updateCandidate i f cs"] by (simp add: e) }
  { case 2 then show ?case using Cons.IH(2)[of "updateCandidate i f cs"] by (simp add: e updateCandidate_nth f) }
  { case 3 then show ?case using Cons.IH(3)[of "updateCandidate i f cs"] f(2)[of "cs ! j"] by (auto simp: e updateCandidate_nth split: if_splits) }
  { case 4 then show ?case using Cons.IH(4)[of "updateCandidate i f cs"] by (simp add: e updateCandidate_nth) }
qed (simp_all add: markEligible_def)

text \<open>What the arbiter reports of one usable generation: one of its members, marked as selected.\<close>

abbreviation markSelected :: "bool \<Rightarrow> nat list \<Rightarrow> nat \<Rightarrow> quotaArbiterCandidate list \<Rightarrow> quotaArbiterCandidate list" where
  "markSelected conflict is sel cs \<equiv>
     updateCandidate sel (\<lambda>c. c\<lparr>qca_disposition := QuotaEvidenceSelected\<rparr>) (markEligible conflict is cs)"

definition permutes_map :: "(nat list \<Rightarrow> nat list) \<Rightarrow> bool" where
  "permutes_map sourceOrder \<longleftrightarrow> (\<forall>xs. mset (sourceOrder xs) = mset xs)"

lemma perSource_members:
  assumes "permutes_map sourceOrder"
  shows "set (perSource sourceOrder cs is) = snd ` set (latestBySource cs is)"
  using assms by (simp add: perSource_def permutes_map_def) (metis image_set set_mset_mset)

lemma finishArbitration_selects:
  assumes g: "generationOK excluded (qch_candidates ch) r (qch_selected ch)" and p: "permutes_map sourceOrder"
  shows "\<exists>sel conflict. sel \<in> set (qch_selected ch) \<and> finishArbitration sourceOrder ch first limitID now rule =
    selectedProjection (markSelected conflict (qch_selected ch) sel (qch_candidates ch)) (qca_observation (qch_candidates ch ! sel))
      conflict (qch_blocked ch) first limitID now rule"
proof -
  let ?cs = "qch_candidates ch" and ?is = "qch_selected ch"
  let ?src = "perSource sourceOrder ?cs ?is"
  have m: "set ?src \<subseteq> set ?is" "?src \<noteq> []"
    using latestBySource_members[of ?cs ?is] perSource_members[OF p, of ?cs ?is] g
    by (auto simp: generationOK_def)
  then obtain i0 rest where s: "?src = i0 # rest" by (cases ?src) auto
  let ?sel = "pickSelected ?cs ?src i0"
  have "?sel \<in> set ?is" using pickSelected_member[of ?cs ?src i0] m(1) s by auto
  moreover from this have "?sel < length ?cs" using g by (simp add: generationOK_def)
  ultimately show ?thesis
    by (intro exI[of _ ?sel] exI[of _ "hasConflict ?cs ?src i0"])
      (simp add: finishArbitration_def s Let_def updateCandidate_nth markEligible_props)
qed

section \<open>The specification\<close>

text \<open>An observation the arbiter may rest on: accepted, not from the future, with a plausible reset.\<close>

definition usable :: "QuotaArbitrationRule \<Rightarrow> int64 \<Rightarrow> QuotaObservation \<Rightarrow> bool" where
  "usable rule now ob \<longleftrightarrow>
     qob_Validity ob = ValidityAccepted \<and>
     (now \<le> max_int64 - qru_MaxClockSkewMS rule \<longrightarrow> qob_LastObservedAtMS ob \<le> now + qru_MaxClockSkewMS rule) \<and>
     qob_LastObservedAtMS ob < qob_ResetsAtMS ob \<and>
     0 < qob_WindowMinutes ob \<and> qob_WindowMinutes ob \<le> maxWindowMinutes \<and>
     qob_ResetsAtMS ob - qob_LastObservedAtMS ob \<le> qob_WindowMinutes ob * quotaMinuteMS + qru_MaxClockSkewMS rule"

lemma windowDuration: "quotaWindowDurationMS m = (if 0 < m \<and> m \<le> maxWindowMinutes then Some (m * quotaMinuteMS) else None)"
  by (simp add: quotaWindowDurationMS_def maxWindowMinutes_def max_int64_def quotaMinuteMS_def)

lemma basicCandidate_facts:
  "qca_basicValid (basicCandidate rule now ob) = usable rule now ob"
  "qca_observation (basicCandidate rule now ob) = ob" "qca_rawResetsAtMS (basicCandidate rule now ob) = qob_ResetsAtMS ob"
  "\<not> usable rule now ob \<Longrightarrow> qca_disposition (basicCandidate rule now ob) =
     (if qob_Validity ob = ValidityRejected then QuotaEvidenceRejected else QuotaEvidenceSuspicious)"
  "qca_disposition (basicCandidate rule now ob) \<in> {QuotaEvidenceRejected, QuotaEvidenceSuspicious, QuotaEvidenceSuperseded}"
  by (auto simp: basicCandidate_def usable_def Let_def setQuotaCandidateFinding_def setQuotaCandidateReason_def
      quotaTimestampBeyondSkew_def windowDuration)

text \<open>The value of the current window is the one of a usable observation; its reset is one a usable observation reported.\<close>

definition restsOn :: "QuotaArbitrationRule \<Rightarrow> int64 \<Rightarrow> QuotaObservation list \<Rightarrow> QuotaCurrent \<Rightarrow> bool" where
  "restsOn rule now obs c \<longleftrightarrow>
     (case qcu_ObservationID c of
        None \<Rightarrow> qcu_FreshnessState c = QuotaCurrentNeverLoaded \<and> qcu_EffectiveUsedPercent c = None \<and> qcu_ResetsAtMS c = None \<and>
          (\<forall>ob \<in> set obs. \<not> usable rule now ob)
      | Some oid \<Rightarrow> qcu_FreshnessState c \<noteq> QuotaCurrentNeverLoaded \<and>
          (\<exists>ob \<in> set obs. usable rule now ob \<and> qob_ObservationID ob = oid \<and>
             qcu_EffectiveUsedPercent c = Some (qob_UsedPercent ob) \<and> qcu_SelectedSource c = Some (qob_Source ob) \<and>
             qcu_WindowMinutes c = Some (qob_WindowMinutes ob) \<and> qcu_LastSuccessAtMS c = Some (qob_LastObservedAtMS ob)) \<and>
          (\<exists>ob \<in> set obs. usable rule now ob \<and> qcu_ResetsAtMS c = Some (qob_ResetsAtMS ob)))"

text \<open>A fresh value is recent, before its reset, and newer than every observation that is neither usable nor rejected.\<close>

definition freshBacked :: "QuotaArbitrationRule \<Rightarrow> int64 \<Rightarrow> QuotaObservation list \<Rightarrow> QuotaCurrent \<Rightarrow> bool" where
  "freshBacked rule now obs c \<longleftrightarrow>
     (qcu_FreshnessState c = QuotaCurrentFresh \<longrightarrow>
      (\<exists>t r. qcu_LastSuccessAtMS c = Some t \<and> qcu_ResetsAtMS c = Some r \<and> now < r \<and> now \<le> t + qru_FreshForMS rule \<and>
         (\<forall>ob \<in> set obs. \<not> usable rule now ob \<and> qob_Validity ob \<noteq> ValidityRejected \<longrightarrow> qob_LastObservedAtMS ob < t)))"

text \<open>The evidence has one entry per observation; the selected one is the current observation.\<close>

definition evidenceComplete :: "QuotaObservation list \<Rightarrow> quotaWindowProjection \<Rightarrow> bool" where
  "evidenceComplete obs p \<longleftrightarrow>
     mset (map qev_ObservationID (qwp_Evidence p)) = mset (map qob_ObservationID obs) \<and>
     map qev_ObservationID (filter (\<lambda>e. qev_Disposition e = QuotaEvidenceSelected) (qwp_Evidence p)) =
       (case qcu_ObservationID (qwp_Current p) of None \<Rightarrow> [] | Some oid \<Rightarrow> [oid])"

definition oneWindow :: "QuotaObservation list \<Rightarrow> bool" where
  "oneWindow obs \<longleftrightarrow>
     (\<exists>scope kind limitID. limitID \<noteq> [] \<and>
        (\<forall>ob \<in> set obs. qob_AccountScope ob = scope \<and> qob_WindowKind ob = kind \<and> qob_LimitID ob = Some limitID))"

section \<open>From the choice to the projection\<close>

definition answerOK :: "QuotaArbitrationRule \<Rightarrow> int64 \<Rightarrow> QuotaObservation list \<Rightarrow> quotaWindowProjection \<Rightarrow> bool" where
  "answerOK rule now obs p \<longleftrightarrow> restsOn rule now obs (qwp_Current p) \<and>
     ((\<forall>ob \<in> set obs. qob_ResetsAtMS ob \<le> max_int64) \<longrightarrow> freshBacked rule now obs (qwp_Current p)) \<and> evidenceComplete obs p"

lemma filter_one_index:
  assumes "k < length xs" and "P (xs ! k)" and "\<And>j. j < length xs \<Longrightarrow> j \<noteq> k \<Longrightarrow> \<not> P (xs ! j)"
  shows "filter P xs = [xs ! k]"
proof -
  have "filter P (take k xs) = []" "filter P (drop (Suc k) xs) = []"
    using assms by (auto simp: filter_empty_conv in_set_conv_nth)
  then show ?thesis using assms(1,2) by (subst id_take_nth_drop[OF assms(1)]) simp
qed

lemma evidence_ids:
  "mset (map qev_ObservationID (quotaEvidenceFromCandidates cs first limitID)) = mset (map (\<lambda>c. qob_ObservationID (qca_observation c)) cs)"
proof -
  have "map qev_ObservationID (map (candidateEvidence first limitID) cs) = map (\<lambda>c. qob_ObservationID (qca_observation c)) cs"
    by (simp add: candidateEvidence_def)
  then show ?thesis unfolding quotaEvidenceFromCandidates_def by (metis mset_map mset_sort_by)
qed

lemma mset_single_list: "mset xs = {#a#} \<Longrightarrow> xs = [a]"
  by (metis mset_single_iff)

lemma evidence_selected:
  assumes "filter (\<lambda>c. qca_disposition c = QuotaEvidenceSelected) cs = ds" and "length ds \<le> 1"
  shows "map qev_ObservationID (filter (\<lambda>e. qev_Disposition e = QuotaEvidenceSelected) (quotaEvidenceFromCandidates cs first limitID)) =
    map (\<lambda>c. qob_ObservationID (qca_observation c)) ds"
proof -
  let ?E = "filter (\<lambda>e. qev_Disposition e = QuotaEvidenceSelected) (quotaEvidenceFromCandidates cs first limitID)"
  have "mset ?E = mset (filter (\<lambda>e. qev_Disposition e = QuotaEvidenceSelected) (map (candidateEvidence first limitID) cs))"
    by (simp add: quotaEvidenceFromCandidates_def)
  also have "\<dots> = mset (map (candidateEvidence first limitID) ds)"
    unfolding assms(1)[symmetric] by (simp add: filter_map comp_def candidateEvidence_def)
  finally have m: "mset ?E = mset (map (candidateEvidence first limitID) ds)" .
  have "?E = map (candidateEvidence first limitID) ds"
  proof (cases ds)
    case Nil with m show ?thesis by simp
  next
    case (Cons d ds') with assms(2) m show ?thesis by (simp add: mset_single_list)
  qed
  then show ?thesis by (simp add: candidateEvidence_def)
qed

text \<open>Every candidate the loop returns still describes the observation it was made of.\<close>

lemma chosen_candidate:
  assumes c: "chosenFrom (map (basicCandidate rule now) obs) cs" and j: "j < length obs"
  shows "qob_ObservationID (qca_observation (cs ! j)) = qob_ObservationID (obs ! j)"
    "qob_Source (qca_observation (cs ! j)) = qob_Source (obs ! j)"
    "qob_UsedPercent (qca_observation (cs ! j)) = qob_UsedPercent (obs ! j)"
    "lastObserved (cs ! j) = qob_LastObservedAtMS (obs ! j)"
    "qob_WindowMinutes (qca_observation (cs ! j)) = qob_WindowMinutes (obs ! j)"
    "qca_basicValid (cs ! j) = usable rule now (obs ! j)"
    "qca_rawResetsAtMS (cs ! j) = qob_ResetsAtMS (obs ! j)"
    "\<not> usable rule now (obs ! j) \<Longrightarrow> qca_disposition (cs ! j) =
       (if qob_Validity (obs ! j) = ValidityRejected then QuotaEvidenceRejected else QuotaEvidenceSuspicious)"
    "qca_disposition (cs ! j) \<noteq> QuotaEvidenceSelected" "qca_disposition (cs ! j) \<noteq> QuotaEvidenceEligible"
proof -
  have j': "j < length (map (basicCandidate rule now) obs)" using j by simp
  have f: "factsOf (cs ! j) = factsOf (basicCandidate rule now (obs ! j))"
    using factsOf_nth[OF chosenFromD(2)[OF c] j'] j by simp
  note e = factsOf_eqD[OF f, unfolded basicCandidate_facts]
  show "qob_ObservationID (qca_observation (cs ! j)) = qob_ObservationID (obs ! j)"
    "qob_Source (qca_observation (cs ! j)) = qob_Source (obs ! j)"
    "qob_UsedPercent (qca_observation (cs ! j)) = qob_UsedPercent (obs ! j)"
    "lastObserved (cs ! j) = qob_LastObservedAtMS (obs ! j)"
    "qob_WindowMinutes (qca_observation (cs ! j)) = qob_WindowMinutes (obs ! j)"
    "qca_basicValid (cs ! j) = usable rule now (obs ! j)"
    "qca_rawResetsAtMS (cs ! j) = qob_ResetsAtMS (obs ! j)"
    using e by blast+
  show "\<not> usable rule now (obs ! j) \<Longrightarrow> qca_disposition (cs ! j) =
       (if qob_Validity (obs ! j) = ValidityRejected then QuotaEvidenceRejected else QuotaEvidenceSuspicious)"
    using chosenFromD(5)[OF c j'] j by (simp add: basicCandidate_facts)
  show "qca_disposition (cs ! j) \<noteq> QuotaEvidenceSelected" "qca_disposition (cs ! j) \<noteq> QuotaEvidenceEligible"
    using chosenFromD(4)[OF c j'] basicCandidate_facts(5)[of rule now "obs ! j"] j by (auto simp: mildly_def)
qed

lemma chosen_reported:
  assumes c: "chosenFrom (map (basicCandidate rule now) obs) cs" and r: "r \<in> reported cs"
  shows "\<exists>ob \<in> set obs. usable rule now ob \<and> qob_ResetsAtMS ob = r"
proof -
  have "reported cs = reported (map (basicCandidate rule now) obs)" by (rule reported_facts[OF chosenFromD(2)[OF c]])
  with r have "r \<in> reported (map (basicCandidate rule now) obs)" by blast
  then show ?thesis by (auto simp: reported_def basicCandidate_facts)
qed

lemma chosen_ids:
  assumes "chosenFrom (map (basicCandidate rule now) obs) cs"
  shows "map (\<lambda>c. qob_ObservationID (qca_observation c)) cs = map qob_ObservationID obs"
  using chosenFromD(1)[OF assms] by (intro nth_equalityI) (simp_all add: chosen_candidate(1)[OF assms])

lemma neverLoaded_ok:
  assumes c: "chosenFrom (map (basicCandidate rule now) obs) cs"
    and none: "\<forall>j < length obs. \<not> usable rule now (obs ! j)"
  shows "answerOK rule now obs (quotaNeverLoadedProjection cs first limitID now rule)"
proof -
  have "filter (\<lambda>c. qca_disposition c = QuotaEvidenceSelected) cs = []"
    using chosen_candidate(9)[OF c] chosenFromD(1)[OF c] by (auto simp: filter_empty_conv in_set_conv_nth)
  from evidence_selected[OF this] none evidence_ids[of cs first limitID] chosen_ids[OF c] show ?thesis
    by (simp add: answerOK_def restsOn_def freshBacked_def evidenceComplete_def quotaNeverLoadedProjection_def all_set_conv_all_nth)
qed

lemma markSelected_props:
  assumes "generationOK excluded cs r is" and "sel \<in> set is" and "j < length cs"
  shows "qca_observation (markSelected conflict is sel cs ! j) = qca_observation (cs ! j)"
    "qca_disposition (cs ! j) \<noteq> QuotaEvidenceSelected \<Longrightarrow>
      qca_disposition (markSelected conflict is sel cs ! j) = QuotaEvidenceSelected \<longleftrightarrow> j = sel"
    "\<not> qca_basicValid (cs ! j) \<Longrightarrow> markSelected conflict is sel cs ! j = cs ! j"
proof -
  show "qca_observation (markSelected conflict is sel cs ! j) = qca_observation (cs ! j)"
    using assms(3) by (simp add: updateCandidate_nth markEligible_props)
  show "qca_disposition (cs ! j) \<noteq> QuotaEvidenceSelected \<Longrightarrow>
      qca_disposition (markSelected conflict is sel cs ! j) = QuotaEvidenceSelected \<longleftrightarrow> j = sel"
    using assms(3) markEligible_props(3)[OF assms(3), of conflict "is"] by (auto simp: updateCandidate_nth markEligible_props)
  show "\<not> qca_basicValid (cs ! j) \<Longrightarrow> markSelected conflict is sel cs ! j = cs ! j"
    using assms by (auto simp: updateCandidate_nth markEligible_props generationOK_def)
qed

lemma markSelected_length [simp]: "length (markSelected conflict is sel cs) = length cs"
  by (simp add: markEligible_props)

lemma selected_evidence:
  assumes c: "chosenFrom (map (basicCandidate rule now) obs) cs" and g: "generationOK excluded cs r is" and "sel": "sel \<in> set is"
  shows "evidenceComplete obs (selectedProjection (markSelected conflict is sel cs) (qca_observation (cs ! sel)) conflict b first limitID now rule)"
proof -
  let ?cs = "markSelected conflict is sel cs"
  have len: "length cs = length obs" using chosenFromD(1)[OF c] by simp
  have s: "sel < length cs" using g "sel" by (simp add: generationOK_def)
  note m = markSelected_props[OF g "sel"]
  have "filter (\<lambda>c. qca_disposition c = QuotaEvidenceSelected) ?cs = [?cs ! sel]"
    using s chosen_candidate(9)[OF c] m(2) len by (intro filter_one_index) (simp_all add: markEligible_props(1))
  note ev = evidence_selected[OF this, of first limitID]
  have ids: "map (\<lambda>c. qob_ObservationID (qca_observation c)) ?cs = map (\<lambda>c. qob_ObservationID (qca_observation c)) cs"
    using m(1) by (rule_tac nth_equalityI) (simp_all add: markEligible_props(1))
  show ?thesis using ev evidence_ids[of ?cs first limitID] ids chosen_ids[OF c] m(1)[OF s]
    by (simp add: evidenceComplete_def selectedProjection_def Let_def)
qed

lemma freshUntil_bound:
  assumes "r \<le> max_int64" and "now < r" and "now \<le> quotaFreshUntil t r f"
  shows "now \<le> t + f"
  using assms by (auto simp: quotaFreshUntil_def split: if_splits)

lemma noNewerSuspicious:
  assumes c: "chosenFrom (map (basicCandidate rule now) obs) cs" and g: "generationOK excluded cs r is" and "sel": "sel \<in> set is"
    and no: "\<not> quotaHasNewerSuspiciousCandidate (markSelected conflict is sel cs) t"
    and ob: "ob \<in> set obs" "\<not> usable rule now ob" "qob_Validity ob \<noteq> ValidityRejected"
  shows "qob_LastObservedAtMS ob < t"
proof -
  obtain j where j: "j < length obs" "obs ! j = ob" using ob(1) unfolding in_set_conv_nth by blast
  have len: "j < length cs" using chosenFromD(1)[OF c] j(1) by simp
  have e: "markSelected conflict is sel cs ! j = cs ! j"
    using chosen_candidate(6)[OF c j(1)] ob(2) j(2) by (intro markSelected_props(3)[OF g "sel" len]) simp
  have "qca_disposition (cs ! j) = QuotaEvidenceSuspicious" using chosen_candidate(8)[OF c j(1)] j(2) ob(2,3) by simp
  moreover have "cs ! j \<in> set (markSelected conflict is sel cs)" using e len nth_mem[of j "markSelected conflict is sel cs"] by (simp add: markEligible_props(1))
  ultimately show ?thesis using no chosen_candidate(4)[OF c j(1)] j(2)
    by (auto simp: quotaHasNewerSuspiciousCandidate_def list_ex_iff)
qed

lemma selected_ok:
  assumes c: "chosenFrom (map (basicCandidate rule now) obs) cs" and g: "generationOK excluded cs r is" and "sel": "sel \<in> set is"
  shows "answerOK rule now obs (selectedProjection (markSelected conflict is sel cs) (qca_observation (cs ! sel)) conflict b first limitID now rule)"
    (is "answerOK _ _ _ ?p")
proof -
  have s: "sel < length obs" and v: "usable rule now (obs ! sel)" and r: "resetOf (cs ! sel) = r" "r \<in> reported cs"
    using g "sel" chosenFromD(1)[OF c] chosen_candidate(6)[OF c, of sel] by (auto simp: generationOK_def)
  note e = chosen_candidate[OF c s]
  obtain ob where ob: "ob \<in> set obs" "usable rule now ob" "qob_ResetsAtMS ob = r" using chosen_reported[OF c r(2)] by blast
  have cur: "qcu_FreshnessState (qwp_Current ?p) = freshnessOf rule now b (markSelected conflict is sel cs) (qca_observation (cs ! sel))"
    "qcu_LastSuccessAtMS (qwp_Current ?p) = Some (lastObserved (cs ! sel))" "qcu_ResetsAtMS (qwp_Current ?p) = Some r"
    by (simp_all add: selectedProjection_def Let_def r)
  have "restsOn rule now obs (qwp_Current ?p)"
    using v ob nth_mem[OF s] e r(1)
    by (auto simp: restsOn_def selectedProjection_def Let_def freshnessOf_def)
  moreover have "freshBacked rule now obs (qwp_Current ?p)" if m: "\<forall>ob \<in> set obs. qob_ResetsAtMS ob \<le> max_int64"
    unfolding freshBacked_def cur
  proof (intro impI exI conjI ballI)
    assume fr: "freshnessOf rule now b (markSelected conflict is sel cs) (qca_observation (cs ! sel)) = QuotaCurrentFresh"
    then have n: "now < r" "\<not> quotaHasNewerSuspiciousCandidate (markSelected conflict is sel cs) (lastObserved (cs ! sel))"
      "now \<le> quotaFreshUntil (lastObserved (cs ! sel)) r (qru_FreshForMS rule)"
      by (auto simp: freshnessOf_def r split: if_splits)
    show "now < r" by (rule n)
    show "now \<le> lastObserved (cs ! sel) + qru_FreshForMS rule" using freshUntil_bound[OF _ n(1,3)] m ob(1) ob(3)[symmetric] by simp
    show "qob_LastObservedAtMS x < lastObserved (cs ! sel)"
      if "x \<in> set obs" "\<not> usable rule now x \<and> qob_Validity x \<noteq> ValidityRejected" for x
      using noNewerSuspicious[OF c g "sel" n(2)] that by blast
  qed simp_all
  ultimately show ?thesis using selected_evidence[OF c g "sel"] by (simp add: answerOK_def)
qed

text \<open>The whole arbitration, on observations of one window.\<close>

lemma outlogged_Nil [simp]: "outlogged cs []"
  by (simp add: outlogged_def)

lemma freeIndexes_bound: "card (freeIndexes excluded cs) < Suc (length cs)"
proof -
  have "freeIndexes excluded cs \<subseteq> {..<length cs}" by (auto simp: freeIndexes_def)
  from card_mono[OF _ this] show ?thesis by simp
qed

lemma arbitrate_chosen:
  assumes "permutes_map sourceOrder"
  shows "\<exists>p. (case chooseGeneration (Suc (length obs)) rule (map (basicCandidate rule now) obs) [] False of
        None \<Rightarrow> None
      | Some (Inl cs) \<Rightarrow> Some (Inr (quotaNeverLoadedProjection cs first limitID now rule))
      | Some (Inr ch) \<Rightarrow> Some (Inr (finishArbitration sourceOrder ch first limitID now rule))) = (Some (Inr p) :: (quota_error + quotaWindowProjection) option) \<and>
    answerOK rule now obs p"
proof -
  let ?cs = "map (basicCandidate rule now) obs"
  obtain res where res: "chooseGeneration (Suc (length obs)) rule ?cs [] False = Some res" "choiceOK ?cs res"
    using chooseGeneration_ok[of "[]" ?cs "Suc (length obs)" rule False] freeIndexes_bound[of "[]" ?cs] by auto
  show ?thesis
  proof (cases res)
    case (Inl cs)
    then have "chosenFrom ?cs cs" "\<forall>j < length obs. \<not> usable rule now (obs ! j)"
      using res(2) by (simp_all add: choiceOK_def basicCandidate_facts)
    from neverLoaded_ok[OF this] Inl res(1) show ?thesis by simp
  next
    case (Inr ch)
    then obtain excluded r where c: "chosenFrom ?cs (qch_candidates ch)" and g: "generationOK excluded (qch_candidates ch) r (qch_selected ch)"
      using res(2) by (auto simp: choiceOK_def)
    obtain s b where s: "s \<in> set (qch_selected ch)"
      "finishArbitration sourceOrder ch first limitID now rule = selectedProjection (markSelected b (qch_selected ch) s (qch_candidates ch))
        (qca_observation (qch_candidates ch ! s)) b (qch_blocked ch) first limitID now rule"
      using finishArbitration_selects[OF g assms] by blast
    from selected_ok[OF c g s(1)] Inr res(1) s(2) show ?thesis by simp
  qed
qed

lemma answerOK_mset: assumes "mset xs = mset obs" shows "answerOK rule now xs p = answerOK rule now obs p"
proof -
  have "set xs = set obs" "mset (map qob_ObservationID xs) = mset (map qob_ObservationID obs)"
    using mset_eq_setD[OF assms] assms by simp_all
  then show ?thesis unfolding answerOK_def restsOn_def freshBacked_def evidenceComplete_def by (simp only:)
qed

lemma oneWindow_first:
  assumes "set obs = set (first # rest)"
  shows "oneWindow obs \<longleftrightarrow> (\<exists>limitID. qob_LimitID first = Some limitID \<and> limitID \<noteq> [] \<and>
    list_all (\<lambda>ob. qob_AccountScope ob = qob_AccountScope first \<and> qob_WindowKind ob = qob_WindowKind first \<and>
      qob_LimitID ob = Some limitID) (first # rest))"
  unfolding oneWindow_def list_all_iff assms by auto

lemma arbitrate_cases:
  assumes "permutes_map sourceOrder"
  shows "if invalidRule now rule \<or> obs = [] \<or> \<not> oneWindow obs
    then arbitrateQuotaWindow sourceOrder obs now rule = Some (Inl QuotaInvalidRecord)
    else \<exists>p. arbitrateQuotaWindow sourceOrder obs now rule = Some (Inr p) \<and> answerOK rule now obs p"
proof (cases "sort_by quotaObservationLess obs")
  case Nil
  then show ?thesis by (simp add: arbitrateQuotaWindow_def)
next
  case (Cons first rest)
  have ms: "mset (first # rest) = mset obs" using mset_sort_by[of quotaObservationLess obs] Cons by simp
  have ne: "obs \<noteq> []" and len: "length (first # rest) = length obs" and st: "set obs = set (first # rest)"
    using Cons ms mset_eq_length[OF ms] mset_eq_setD[OF ms] by auto
  let ?one = "\<lambda>limitID. list_all (\<lambda>ob. qob_AccountScope ob = qob_AccountScope first \<and> qob_WindowKind ob = qob_WindowKind first \<and>
      qob_LimitID ob = Some limitID) (first # rest)"
  note w = oneWindow_first[OF st]
  show ?thesis
  proof (cases "qob_LimitID first")
    case None
    then show ?thesis using Cons ne w by (simp add: arbitrateQuotaWindow_def)
  next
    case (Some limitID)
    obtain p where p: "(case chooseGeneration (Suc (length obs)) rule (map (basicCandidate rule now) (first # rest)) [] False of
        None \<Rightarrow> None
      | Some (Inl cs) \<Rightarrow> Some (Inr (quotaNeverLoadedProjection cs first limitID now rule))
      | Some (Inr ch) \<Rightarrow> Some (Inr (finishArbitration sourceOrder ch first limitID now rule))) = (Some (Inr p) :: (quota_error + quotaWindowProjection) option)"
      "answerOK rule now obs p"
      using arbitrate_chosen[OF assms, where obs = "first # rest" and rule = rule and now = now and first = first and limitID = limitID]
        answerOK_mset[OF ms, of rule now] unfolding len by blast
    have one: "oneWindow obs \<longleftrightarrow> limitID \<noteq> [] \<and> ?one limitID" using w Some by (simp only: option.inject simp_thms)
    have "arbitrateQuotaWindow sourceOrder obs now rule =
        (if invalidRule now rule \<or> limitID = [] \<or> \<not> ?one limitID then Some (Inl QuotaInvalidRecord) else Some (Inr p))"
      unfolding arbitrateQuotaWindow_def Cons list.case Some option.case p(1) by simp
    with p(2) one ne show ?thesis by simp
  qed
qed

section \<open>The state of the sources\<close>

definition failedLater :: "(string \<times> SourceState) list \<Rightarrow> QuotaCurrent \<Rightarrow> bool" where
  "failedLater states c \<longleftrightarrow>
     (\<exists>source st tried seen. qcu_SelectedSource c = Some source \<and> map_of states source = Some st \<and>
        sst_LastAttemptAtMS st = Some tried \<and> qcu_LastSuccessAtMS c = Some seen \<and> seen < tried \<and>
        sst_FreshnessState st \<in> {SourceFreshnessStale, SourceFreshnessUnavailable})"

definition sameValue :: "QuotaCurrent \<Rightarrow> QuotaCurrent \<Rightarrow> bool" where
  "sameValue c c' \<longleftrightarrow> qcu_ObservationID c' = qcu_ObservationID c \<and> qcu_EffectiveUsedPercent c' = qcu_EffectiveUsedPercent c \<and>
     qcu_SelectedSource c' = qcu_SelectedSource c \<and> qcu_WindowMinutes c' = qcu_WindowMinutes c \<and>
     qcu_LastSuccessAtMS c' = qcu_LastSuccessAtMS c \<and> qcu_ResetsAtMS c' = qcu_ResetsAtMS c"

lemma sameValue_attempts:
  "sameValue c (foldl (\<lambda>c st. if laterAttempt (sst_LastAttemptAtMS (snd st)) (qcu_LastAttemptAtMS c)
     then c\<lparr>qcu_LastAttemptAtMS := sst_LastAttemptAtMS (snd st)\<rparr> else c) c states) \<and>
   qcu_FreshnessState (foldl (\<lambda>c st. if laterAttempt (sst_LastAttemptAtMS (snd st)) (qcu_LastAttemptAtMS c)
     then c\<lparr>qcu_LastAttemptAtMS := sst_LastAttemptAtMS (snd st)\<rparr> else c) c states) = qcu_FreshnessState c"
proof (induction states arbitrary: c)
  case (Cons st states)
  let ?c = "if laterAttempt (sst_LastAttemptAtMS (snd st)) (qcu_LastAttemptAtMS c)
     then c\<lparr>qcu_LastAttemptAtMS := sst_LastAttemptAtMS (snd st)\<rparr> else c"
  have "sameValue c ?c" "qcu_FreshnessState ?c = qcu_FreshnessState c" by (simp_all add: sameValue_def)
  with Cons[of ?c] show ?case by (simp add: sameValue_def)
qed (simp add: sameValue_def)

lemma withSourceStates_demotes:
  assumes "arbitrateQuotaWindow sourceOrder obs now rule = Some (Inr p)"
  shows "\<exists>c. arbitrateQuotaWindowWithSourceStates sourceOrder obs now rule states = Some (Inr (p\<lparr>qwp_Current := c\<rparr>)) \<and>
    sameValue (qwp_Current p) c \<and>
    qcu_FreshnessState c = (if qcu_FreshnessState (qwp_Current p) = QuotaCurrentFresh \<and> failedLater states (qwp_Current p)
      then QuotaCurrentStale else qcu_FreshnessState (qwp_Current p))"
proof -
  define c1 where "c1 = foldl (\<lambda>c st. if laterAttempt (sst_LastAttemptAtMS (snd st)) (qcu_LastAttemptAtMS c)
     then c\<lparr>qcu_LastAttemptAtMS := sst_LastAttemptAtMS (snd st)\<rparr> else c) (qwp_Current p) states"
  have c1: "sameValue (qwp_Current p) c1" "qcu_FreshnessState c1 = qcu_FreshnessState (qwp_Current p)"
    using sameValue_attempts unfolding c1_def by blast+
  define demoted where "demoted = (case Option.bind (qcu_SelectedSource c1) (map_of states) of
       None \<Rightarrow> False
     | Some st \<Rightarrow> sst_LastAttemptAtMS st \<noteq> None \<and> qcu_LastSuccessAtMS c1 \<noteq> None \<and>
         laterAttempt (sst_LastAttemptAtMS st) (qcu_LastSuccessAtMS c1) \<and>
         (sst_FreshnessState st = SourceFreshnessStale \<or> sst_FreshnessState st = SourceFreshnessUnavailable) \<and>
         qcu_FreshnessState c1 = QuotaCurrentFresh)"
  define c2 where "c2 = (if demoted then c1\<lparr>qcu_FreshnessState := QuotaCurrentStale\<rparr> else c1)"
  have "arbitrateQuotaWindowWithSourceStates sourceOrder obs now rule states =
     Some (Inr (p\<lparr>qwp_Current := c2\<lparr>qcu_ExplanationCode := quotaCurrentExplanation (qcu_FreshnessState c2) (qcu_ConflictState c2)\<rparr>\<rparr>))"
    unfolding arbitrateQuotaWindowWithSourceStates_def assms option.case sum.case Let_def c1_def[symmetric] c2_def demoted_def
    by (cases "Option.bind (qcu_SelectedSource c1) (map_of states)") simp_all
  moreover have "demoted \<longleftrightarrow> qcu_FreshnessState (qwp_Current p) = QuotaCurrentFresh \<and> failedLater states (qwp_Current p)"
    using c1 unfolding demoted_def failedLater_def sameValue_def
    by (cases "qcu_SelectedSource (qwp_Current p)") (auto simp: laterAttempt_def split: option.splits)
  ultimately show ?thesis using c1 by (auto simp: c2_def sameValue_def)
qed

section \<open>Order of the rows\<close>

text \<open>Both comparators are strict weak orders that decide any two observations with different identifiers.\<close>

abbreviation observationKey :: "QuotaObservation \<Rightarrow> int64 \<times> int64 \<times> string \<times> int64 \<times> int64 \<times> string" where
  "observationKey ob \<equiv> (qob_LastObservedAtMS ob, qob_FirstObservedAtMS ob, qob_Source ob, qob_SourceGeneration ob,
     qob_SourceOffset ob, qob_ObservationID ob)"

lemma observationLess_key: "quotaObservationLess l r \<longleftrightarrow> observationKey l < observationKey r"
  by (auto simp: quotaObservationLess_def less_prod_def')

interpretation observations: go_less quotaObservationLess
  by (rule go_lessI_key[where key = observationKey]) (rule observationLess_key)

lemma observationLess_total:
  "qob_ObservationID l \<noteq> qob_ObservationID r \<Longrightarrow> quotaObservationLess l r \<or> quotaObservationLess r l"
  unfolding observationLess_key by (metis neqE prod.inject)

lemma candidates_go_less: "go_less (\<lambda>i j. quotaObservationLess (qca_observation (cs ! i)) (qca_observation (cs ! j)))"
  by (rule go_lessI_key[where key = "\<lambda>i. observationKey (qca_observation (cs ! i))"]) (rule observationLess_key)

lemma sort_by_rows:
  assumes "mset xs = mset ys" and "distinct (map qob_ObservationID xs)"
  shows "sort_by quotaObservationLess xs = sort_by quotaObservationLess ys"
proof (rule observations.sort_by_order_free[OF assms(1)])
  fix x y assume "x \<in> set xs" "y \<in> set xs" "x \<noteq> y"
  with assms(2) have "qob_ObservationID x \<noteq> qob_ObservationID y" by (auto simp: distinct_map dest: inj_onD)
  then show "quotaObservationLess x y \<or> quotaObservationLess y x" by (rule observationLess_total)
qed

lemma perSource_order_free:
  assumes "permutes_map o1" "permutes_map o2" and "distinct (map (\<lambda>c. qob_ObservationID (qca_observation c)) cs)"
    and "\<forall>i \<in> set is. i < length cs"
  shows "perSource o1 cs is = perSource o2 cs is"
  unfolding perSource_def
proof (rule go_less.sort_by_order_free[OF candidates_go_less])
  let ?m = "map snd (latestBySource cs is)"
  show "mset (o1 ?m) = mset (o2 ?m)" using assms(1,2) by (simp add: permutes_map_def)
  then have "set (o1 ?m) = snd ` set (latestBySource cs is)" using assms(1) mset_eq_setD[of "o1 ?m" ?m] by (simp add: permutes_map_def)
  moreover fix x y assume "x \<in> set (o1 ?m)" "y \<in> set (o1 ?m)" "x \<noteq> y"
  ultimately have "x < length cs" "y < length cs" using latestBySource_members[of cs "is"] assms(4) by blast+
  with assms(3) \<open>x \<noteq> y\<close> have "qob_ObservationID (qca_observation (cs ! x)) \<noteq> qob_ObservationID (qca_observation (cs ! y))"
    by (simp add: distinct_conv_nth)
  then show "quotaObservationLess (qca_observation (cs ! x)) (qca_observation (cs ! y)) \<or>
      quotaObservationLess (qca_observation (cs ! y)) (qca_observation (cs ! x))" by (rule observationLess_total)
qed

lemma arbitrate_order_free:
  assumes "permutes_map o1" "permutes_map o2" and "mset obs1 = mset obs2" and "distinct (map qob_ObservationID obs1)"
  shows "arbitrateQuotaWindow o1 obs1 now rule = arbitrateQuotaWindow o2 obs2 now rule"
proof -
  let ?obs = "sort_by quotaObservationLess obs2"
  let ?cs = "map (basicCandidate rule now) ?obs"
  have s: "sort_by quotaObservationLess obs1 = ?obs" by (rule sort_by_rows[OF assms(3,4)])
  have l: "length obs1 = length obs2" using assms(3) by (metis size_mset)
  have d: "distinct (map qob_ObservationID ?obs)" using assms(4) s by (metis distinct_map_sort_by)
  obtain res where res: "chooseGeneration (Suc (length obs2)) rule ?cs [] False = Some res" "choiceOK ?cs res"
    using chooseGeneration_ok[of "[]" ?cs "Suc (length obs2)" rule False] freeIndexes_bound[of "[]" ?cs] by auto
  have "finishArbitration o1 ch f k now rule = finishArbitration o2 ch f k now rule" if "res = Inr ch" for ch f k
  proof -
    from that res(2) obtain excluded r where c: "chosenFrom ?cs (qch_candidates ch)"
      and g: "generationOK excluded (qch_candidates ch) r (qch_selected ch)" by (auto simp: choiceOK_def)
    have "perSource o1 (qch_candidates ch) (qch_selected ch) = perSource o2 (qch_candidates ch) (qch_selected ch)"
      using perSource_order_free[OF assms(1,2)] chosen_ids[OF c] d g by (simp add: generationOK_def)
    then show ?thesis by (simp add: finishArbitration_def)
  qed
  then have e: "(case chooseGeneration (Suc (length obs2)) rule ?cs [] False of None \<Rightarrow> None
      | Some (Inl cs) \<Rightarrow> Some (Inr (quotaNeverLoadedProjection cs f k now rule))
      | Some (Inr ch) \<Rightarrow> Some (Inr (finishArbitration o1 ch f k now rule))) =
    (case chooseGeneration (Suc (length obs2)) rule ?cs [] False of None \<Rightarrow> None
      | Some (Inl cs) \<Rightarrow> Some (Inr (quotaNeverLoadedProjection cs f k now rule))
      | Some (Inr ch) \<Rightarrow> (Some (Inr (finishArbitration o2 ch f k now rule)) :: (quota_error + quotaWindowProjection) option))" for f k
    unfolding res(1) by (cases res) simp_all
  show ?thesis
  proof (cases ?obs)
    case (Cons f rest)
    show ?thesis unfolding arbitrateQuotaWindow_def s l Cons list.case e[unfolded Cons] ..
  qed (simp add: arbitrateQuotaWindow_def s)
qed

section \<open>Properties\<close>

lemma withSourceStates_error:
  "arbitrateQuotaWindow sourceOrder obs now rule = Some (Inl e) \<Longrightarrow>
   arbitrateQuotaWindowWithSourceStates sourceOrder obs now rule states = Some (Inl e)"
  by (simp add: arbitrateQuotaWindowWithSourceStates_def)

lemma sameValue_rests:
  assumes "sameValue c c'" and "qcu_FreshnessState c' = QuotaCurrentNeverLoaded \<longleftrightarrow> qcu_FreshnessState c = QuotaCurrentNeverLoaded"
  shows "restsOn rule now obs c' = restsOn rule now obs c"
  using assms by (simp add: restsOn_def sameValue_def split: option.split)

text \<open>Two weekly observations of the online source and one of the local log, and their answer.\<close>

definition demoObservation :: "string \<Rightarrow> string \<Rightarrow> float64 \<Rightarrow> int64 \<Rightarrow> int64 \<Rightarrow> QuotaObservation" where
  "demoObservation oid source used seenAt reset =
     \<lparr>qob_ObservationID = oid, qob_AccountScope = ''a'', qob_Source = source, qob_LimitID = Some ''codex'', qob_LimitName = None,
      qob_WindowKind = ''primary'', qob_UsedPercent = used, qob_WindowMinutes = 10080, qob_ResetsAtMS = reset, qob_PlanType = None,
      qob_Validity = ValidityAccepted, qob_RejectionReason = None, qob_FirstObservedAtMS = seenAt, qob_LastObservedAtMS = seenAt,
      qob_SampleCount = 1, qob_RequestID = None, qob_SessionID = None, qob_SourceFileID = None, qob_FirstSourceGeneration = 0,
      qob_FirstSourceOffset = 0, qob_SourceGeneration = 0, qob_SourceOffset = 0\<rparr>"

definition demoObservations :: "QuotaObservation list" where
  "demoObservations =
     [demoObservation ''o1'' sourceWham (Fin 10) 1000 604801000, demoObservation ''o2'' sourceLocalJSONL (Fin 12) 2000 604801000,
      demoObservation ''o3'' sourceWham (Fin 11) 3000 604801000]"

definition demoProjection :: quotaWindowProjection where
  "demoProjection =
     (case arbitrateQuotaWindowWithSourceStates id demoObservations 4000 DefaultQuotaArbitrationRule [] of
        Some (Inr p) \<Rightarrow> p
      | _ \<Rightarrow> quotaNeverLoadedProjection [] (demoObservation [] [] NaN 0 0) [] 0 DefaultQuotaArbitrationRule)"

lemma demo_answer:
  "arbitrateQuotaWindowWithSourceStates id demoObservations 4000 DefaultQuotaArbitrationRule [] = Some (Inr demoProjection)"
  "qcu_FreshnessState (qwp_Current demoProjection) = QuotaCurrentFresh" "qcu_ObservationID (qwp_Current demoProjection) = Some ''o2''"
  by code_simp+

lemma permutes_demo [simp]: "permutes_map id" "permutes_map rev"
  by (simp_all add: permutes_map_def)

text \<open>C35: The arbiter always answers: the loop that discards contradicted zero generations ends. The answer is the
  error exactly for an invalid rule, no observations, or observations that do not share one complete
  logical key; otherwise it is a projection, and that projection says "never loaded" exactly when no
  observation is usable, so discarding zero generations never loses the last usable observation.
\<close>

theorem arbitration_total:
  assumes "permutes_map sourceOrder"
  shows "if invalidRule now rule \<or> obs = [] \<or> \<not> oneWindow obs
    then arbitrateQuotaWindowWithSourceStates sourceOrder obs now rule states = Some (Inl QuotaInvalidRecord)
    else \<exists>p. arbitrateQuotaWindowWithSourceStates sourceOrder obs now rule states = Some (Inr p) \<and>
      (qcu_FreshnessState (qwp_Current p) = QuotaCurrentNeverLoaded \<longleftrightarrow> (\<forall>ob \<in> set obs. \<not> usable rule now ob))"
proof (cases "invalidRule now rule \<or> obs = [] \<or> \<not> oneWindow obs")
  case True
  with arbitrate_cases[OF assms, where obs = obs and now = now and rule = rule] show ?thesis by (simp add: withSourceStates_error)
next
  case False
  with arbitrate_cases[OF assms, where obs = obs and now = now and rule = rule]
  obtain p where p: "arbitrateQuotaWindow sourceOrder obs now rule = Some (Inr p)" "answerOK rule now obs p" by auto
  obtain c where c: "arbitrateQuotaWindowWithSourceStates sourceOrder obs now rule states = Some (Inr (p\<lparr>qwp_Current := c\<rparr>))"
    "qcu_FreshnessState c = QuotaCurrentNeverLoaded \<longleftrightarrow> qcu_FreshnessState (qwp_Current p) = QuotaCurrentNeverLoaded"
    using withSourceStates_demotes[OF p(1), of states] by (auto split: if_splits)
  have "qcu_FreshnessState (qwp_Current p) = QuotaCurrentNeverLoaded \<longleftrightarrow> (\<forall>ob \<in> set obs. \<not> usable rule now ob)"
    using p(2) by (auto simp: answerOK_def restsOn_def split: option.splits)
  with False c show ?thesis by simp
qed

theorem arbitration_total_witness:
  "permutes_map rev \<and>
   (\<exists>p. arbitrateQuotaWindowWithSourceStates rev demoObservations 4000 DefaultQuotaArbitrationRule [] = Some (Inr p) \<and>
      qcu_FreshnessState (qwp_Current p) \<noteq> QuotaCurrentNeverLoaded)"
proof -
  have "\<not> invalidRule 4000 DefaultQuotaArbitrationRule" "demoObservations \<noteq> []" by code_simp+
  moreover have "oneWindow demoObservations" by (simp add: oneWindow_def demoObservations_def demoObservation_def)
  moreover have "\<exists>ob \<in> set demoObservations. usable DefaultQuotaArbitrationRule 4000 ob" by code_simp
  ultimately show ?thesis
    using arbitration_total[of rev 4000 DefaultQuotaArbitrationRule demoObservations "[]"] by auto
qed

text \<open>C34: The answer can be trusted. Its value, source, window length and time of success are those of a usable
  observation (accepted, not beyond the clock skew, with a reset in the future of the observation and
  inside the window), and its reset was reported by a usable observation; without one there is no value.
  A fresh value is at most the rule's freshness old, lies before its reset, is newer than every
  observation that is neither usable nor rejected, and its source has no later failed attempt. The
  evidence has exactly one entry per observation, and exactly the current observation is marked selected.
\<close>

theorem arbitration_trust:
  assumes "permutes_map sourceOrder" and "arbitrateQuotaWindowWithSourceStates sourceOrder obs now rule states = Some (Inr p)"
    and "\<forall>ob \<in> set obs. qob_ResetsAtMS ob \<le> max_int64"
  shows "restsOn rule now obs (qwp_Current p) \<and> freshBacked rule now obs (qwp_Current p) \<and> evidenceComplete obs p \<and>
    (qcu_FreshnessState (qwp_Current p) = QuotaCurrentFresh \<longrightarrow> \<not> failedLater states (qwp_Current p))"
proof -
  obtain q where q: "arbitrateQuotaWindow sourceOrder obs now rule = Some (Inr q)" "answerOK rule now obs q"
    using arbitrate_cases[OF assms(1), where obs = obs and now = now and rule = rule] assms(2) withSourceStates_error
    by (fastforce split: if_splits)
  obtain c where p: "p = q\<lparr>qwp_Current := c\<rparr>" and v: "sameValue (qwp_Current q) c"
    and f: "qcu_FreshnessState c = (if qcu_FreshnessState (qwp_Current q) = QuotaCurrentFresh \<and> failedLater states (qwp_Current q)
      then QuotaCurrentStale else qcu_FreshnessState (qwp_Current q))"
    using withSourceStates_demotes[OF q(1), of states] assms(2) by auto
  have "restsOn rule now obs c" using sameValue_rests[OF v] q(2) f by (auto simp: answerOK_def)
  moreover have "freshBacked rule now obs c"
    using q(2) assms(3) v f by (auto simp: answerOK_def freshBacked_def sameValue_def split: if_splits)
  moreover have "evidenceComplete obs p" using q(2) v by (simp add: answerOK_def evidenceComplete_def p sameValue_def)
  moreover have "failedLater states c = failedLater states (qwp_Current q)" using v by (simp add: failedLater_def sameValue_def)
  ultimately show ?thesis using f by (auto simp: p)
qed

theorem arbitration_trust_witness:
  "permutes_map id \<and> list_all (\<lambda>ob. qob_ResetsAtMS ob \<le> max_int64) demoObservations \<and>
   arbitrateQuotaWindowWithSourceStates id demoObservations 4000 DefaultQuotaArbitrationRule [] = Some (Inr demoProjection) \<and>
   qcu_FreshnessState (qwp_Current demoProjection) = QuotaCurrentFresh \<and>
   freshBacked DefaultQuotaArbitrationRule 4000 demoObservations (qwp_Current demoProjection)"
proof -
  have m: "\<forall>ob \<in> set demoObservations. qob_ResetsAtMS ob \<le> max_int64" by code_simp
  show ?thesis using arbitration_trust[OF permutes_demo(1) demo_answer(1) m] m demo_answer by (simp add: list_all_iff)
qed

text \<open>C36: The answer does not depend on the order in which the rows arrive, nor on the order in which Go walks its
  map of sources: two arbitrations of the same observations (with distinct identifiers) agree entirely,
  evidence included.
\<close>

theorem arbitration_order_free:
  assumes "permutes_map o1" "permutes_map o2" and "mset obs1 = mset obs2" and "distinct (map qob_ObservationID obs1)"
  shows "arbitrateQuotaWindowWithSourceStates o1 obs1 now rule states = arbitrateQuotaWindowWithSourceStates o2 obs2 now rule states"
  unfolding arbitrateQuotaWindowWithSourceStates_def arbitrate_order_free[OF assms] ..

theorem arbitration_order_free_witness:
  "permutes_map id \<and> permutes_map rev \<and> distinct (map qob_ObservationID demoObservations) \<and>
   arbitrateQuotaWindowWithSourceStates id demoObservations 4000 DefaultQuotaArbitrationRule [] =
   arbitrateQuotaWindowWithSourceStates rev (rev demoObservations) 4000 DefaultQuotaArbitrationRule []"
proof -
  have "distinct (map qob_ObservationID demoObservations)" by code_simp
  then show ?thesis using arbitration_order_free[of id rev demoObservations "rev demoObservations"] by simp
qed

end
